(* ===== verification/BN_Prelude.thy ===== *)
theory BN_Prelude
  imports Main "HOL-Library.Word"
begin

unbundle bit_operations_syntax

text \<open>
  Shared ground of the development: the machine types of the firmware, the error codes it
  returns, the pieces of the C library it calls (as functions on byte lists), the scan loops
  every slot array of the firmware is searched with, the FNV-1a hash and the little-endian
  encodings of the persistent blobs, and the generic lemmas the components share.

  Conventions.  A C object of type \<open>uint8_t[n]\<close> or \<open>char[n]\<close> is a byte list of length
  \<open>n\<close>.  A \<open>const char *\<close> argument is the list of its bytes with the terminating NUL left
  implicit: reading one past the end of the list yields 0.  A pointer that the code tests
  against NULL is an option; an output parameter is the old contents of the cell it points to
  and comes back with the new contents.
\<close>

subsection \<open>Machine types and error codes\<close>

type_synonym u8 = "8 word"
type_synonym u16 = "16 word"
type_synonym u32 = "32 word"
type_synonym u64 = "64 word"
type_synonym bytes = "8 word list"

datatype esp_err =
    ESP_OK
  | ESP_FAIL
  | ESP_ERR_NO_MEM
  | ESP_ERR_INVALID_ARG
  | ESP_ERR_INVALID_STATE
  | ESP_ERR_INVALID_SIZE
  | ESP_ERR_NOT_FOUND
  | ESP_ERR_NOT_SUPPORTED
  | ESP_ERR_TIMEOUT
  | ESP_ERR_INVALID_RESPONSE
  | ESP_ERR_INVALID_CRC
  | ESP_ERR_INVALID_VERSION
  | ESP_ERR_NVS_NOT_FOUND
  | ESP_ERR_OTHER nat

text \<open>The millisecond clock every module derives from the microsecond timer.\<close>

definition now_ms :: "u64 \<Rightarrow> u32" where
  "now_ms timer_us = ucast (timer_us div 1000)"

named_theorems bn_len \<open>lengths of the fixed-size arrays\<close>

subsection \<open>C strings and buffers\<close>

definition rd :: "bytes \<Rightarrow> nat \<Rightarrow> u8" where
  "rd s i = (if i < length s then s ! i else 0)"

definition cstr :: "bytes \<Rightarrow> bytes" where
  "cstr s = takeWhile (\<lambda>c. c \<noteq> 0) s"

definition strlen :: "bytes \<Rightarrow> nat" where
  "strlen s = length (cstr s)"

definition lit :: "string \<Rightarrow> bytes" where
  "lit s = map of_char s"

definition strncpy :: "bytes \<Rightarrow> bytes \<Rightarrow> nat \<Rightarrow> bytes" where
  "strncpy dst src n =
     take n (cstr src) @ replicate (n - length (cstr src)) 0 @ drop n dst"

text \<open>\<open>strncmp (a, b, n) == 0\<close>\<close>

fun strncmp_eq :: "bytes \<Rightarrow> bytes \<Rightarrow> nat \<Rightarrow> bool" where
  "strncmp_eq a b 0 = True"
| "strncmp_eq a b (Suc n) =
     (if rd a 0 \<noteq> rd b 0 then False
      else if rd a 0 = 0 then True
      else strncmp_eq (tl a) (tl b) n)"

lemma cstr_Nil [simp]: "cstr [] = []"
  by (simp add: cstr_def)

lemma cstr_Cons [simp]: "cstr (c # s) = (if c = 0 then [] else c # cstr s)"
  by (simp add: cstr_def)

lemma cstr_idem [simp]: "cstr (cstr s) = cstr s"
  by (induction s) auto

lemma rd_Nil [simp]: "rd [] i = 0"
  by (simp add: rd_def)

lemma rd_Cons_0 [simp]: "rd (c # s) 0 = c"
  by (simp add: rd_def)

lemma rd_Cons_Suc [simp]: "rd (c # s) (Suc i) = rd s i"
  by (simp add: rd_def)

lemma length_cstr_le: "length (cstr s) \<le> length s"
  by (simp add: cstr_def length_takeWhile_le)

lemma cstr_no_nul: "0 \<notin> set (cstr s)"
  by (auto simp: cstr_def dest: set_takeWhileD)

lemma cstr_take: "cstr (take n s) = take n (cstr s)"
  by (induction s arbitrary: n) (auto simp: take_Cons split: nat.splits)

lemma cstr_append_nul: "0 \<in> set s \<Longrightarrow> cstr (s @ t) = cstr s"
  by (induction s) auto

lemma cstr_append_clean: "0 \<notin> set s \<Longrightarrow> cstr (s @ t) = s @ cstr t"
  by (induction s) auto

lemma cstr_replicate_0 [simp]: "cstr (replicate n 0 @ t) = (if n = 0 then cstr t else [])"
  by (cases n) auto

lemma strncmp_eq_iff: "strncmp_eq a b n \<longleftrightarrow> take n (cstr a) = take n (cstr b)"
proof (induction n arbitrary: a b)
  case 0
  then show ?case by simp
next
  case (Suc n)
  then show ?case by (cases a; cases b) auto
qed

lemma length_strncpy [bn_len]: "n \<le> length dst \<Longrightarrow> length (strncpy dst src n) = length dst"
  by (simp add: strncpy_def)

text \<open>A copy of a string that leaves room for the terminator reads back as that string.\<close>

lemma cstr_strncpy_short:
  assumes "length (cstr src) < n"
  shows "cstr (strncpy dst src n) = cstr src"
  using assms cstr_no_nul[of src] by (simp add: strncpy_def cstr_append_clean)

lemma strncpy_zeroed:
  "strncpy (replicate m 0) src n
     = take n (cstr src) @ replicate (n - length (cstr src)) 0 @ replicate (m - n) 0"
  by (simp add: strncpy_def)

text \<open>
  \<open>string_valid\<close> (\<open>ribosome_table.c\<close>, \<open>rna_membrane.c\<close>): a non-empty string with a NUL
  among its first \<open>max_len\<close> bytes.
\<close>

definition string_valid :: "bytes option \<Rightarrow> nat \<Rightarrow> bool" where
  "string_valid v max_len =
     (case v of
        None \<Rightarrow> False
      | Some s \<Rightarrow> rd s 0 \<noteq> 0 \<and> list_ex (\<lambda>i. rd s i = 0) [0..<max_len])"

lemma rd_zero_iff: "(\<exists>i<n. rd s i = 0) \<longleftrightarrow> length (cstr s) < n"
proof (induction s arbitrary: n)
  case Nil
  then show ?case by auto
next
  case (Cons c s)
  show ?case
  proof (cases n)
    case 0
    then show ?thesis by simp
  next
    case (Suc m)
    have "(\<exists>i<Suc m. rd (c # s) i = 0) \<longleftrightarrow> c = 0 \<or> (\<exists>i<m. rd s i = 0)"
      by (auto simp: less_Suc_eq_0_disj)
    with Suc Cons.IH[of m] show ?thesis by simp
  qed
qed

lemma string_valid_iff:
  "string_valid (Some s) n \<longleftrightarrow> 0 < strlen s \<and> strlen s < n"
proof -
  have "list_ex (\<lambda>i. rd s i = 0) [0..<n] \<longleftrightarrow> (\<exists>i<n. rd s i = 0)"
    by (auto simp: list_ex_iff)
  moreover have "rd s 0 \<noteq> 0 \<longleftrightarrow> 0 < strlen s"
    by (cases s) (auto simp: strlen_def)
  ultimately show ?thesis
    by (simp add: string_valid_def rd_zero_iff strlen_def)
qed

lemma string_valid_None [simp]: "\<not> string_valid None n"
  by (simp add: string_valid_def)

text \<open>
  \<open>safe_copy\<close> / \<open>safe_copy_reason\<close> / \<open>set_reason\<close> / \<open>cfg_copy\<close>: the bounded copy every
  module carries a private version of.  The destination is always an array of the caller.
\<close>

definition safe_copy :: "bytes \<Rightarrow> nat \<Rightarrow> bytes option \<Rightarrow> bytes" where
  "safe_copy dst dst_size src =
     (if dst_size = 0 then dst
      else case src of
          None \<Rightarrow> dst[0 := 0]
        | Some s \<Rightarrow> (strncpy dst s (dst_size - 1))[dst_size - 1 := 0])"

lemma length_safe_copy [bn_len]:
  "dst_size \<le> length dst \<Longrightarrow> length (safe_copy dst dst_size src) = length dst"
  by (auto simp: safe_copy_def bn_len split: option.splits)

lemma strncpy_update_nul:
  assumes "n < length dst"
  shows "(strncpy dst s n)[n := 0]
    = take n (cstr s) @ replicate (n - length (cstr s)) 0 @ 0 # drop (Suc n) dst"
proof -
  have len: "length (take n (cstr s) @ replicate (n - length (cstr s)) (0::u8)) = n"
    by simp
  have "drop n dst = dst ! n # drop (Suc n) dst"
    using assms by (simp add: Cons_nth_drop_Suc)
  then have "strncpy dst s n
      = (take n (cstr s) @ replicate (n - length (cstr s)) 0) @ dst ! n # drop (Suc n) dst"
    by (simp add: strncpy_def)
  then show ?thesis
    using len by (simp only: list_update_append) simp
qed

lemma cstr_take_clean: "0 \<notin> set (take n (cstr s))"
  using cstr_no_nul by (metis in_set_takeD)

lemma cstr_safe_copy:
  assumes "0 < dst_size" and "dst_size \<le> length dst"
  shows "cstr (safe_copy dst dst_size (Some s)) = take (dst_size - 1) (cstr s)"
  using assms strncpy_update_nul[of "dst_size - 1" dst s] cstr_take_clean[of "dst_size - 1" s]
  by (simp add: safe_copy_def cstr_append_clean)

lemma cstr_safe_copy_short:
  assumes "strlen s < dst_size" and "dst_size \<le> length dst"
  shows "cstr (safe_copy dst dst_size (Some s)) = cstr s"
  using assms by (simp add: cstr_safe_copy strlen_def)

text \<open>\<open>bytes_all_zero\<close>: the accumulating (data-independent) zero test.\<close>

definition bytes_all_zero :: "bytes option \<Rightarrow> nat \<Rightarrow> bool" where
  "bytes_all_zero b len =
     (case b of
        None \<Rightarrow> True
      | Some bs \<Rightarrow> len = 0 \<or> foldl (\<lambda>any x. any OR x) 0 (take len bs) = 0)"

lemma foldl_or_zero_iff:
  fixes acc :: u8
  shows "foldl (\<lambda>any x. any OR x) acc bs = 0 \<longleftrightarrow> acc = 0 \<and> (\<forall>b\<in>set bs. b = 0)"
  by (induction bs arbitrary: acc) (auto simp: or_eq_0_iff)

lemma bytes_all_zero_iff:
  "bytes_all_zero (Some bs) len \<longleftrightarrow> (\<forall>b\<in>set (take len bs). b = 0)"
  by (auto simp: bytes_all_zero_def foldl_or_zero_iff)

subsection \<open>Pointers that may be NULL\<close>

text \<open>
  A function that updates the object behind a pointer and starts by refusing NULL:
  \<open>deref p f\<close> runs \<open>f\<close> on the object, or returns \<open>ESP_ERR_INVALID_ARG\<close> with nothing changed.
\<close>

definition deref :: "'a option \<Rightarrow> ('a \<Rightarrow> esp_err \<times> 'a) \<Rightarrow> esp_err \<times> 'a option" where
  "deref p f =
     (case p of
        None \<Rightarrow> (ESP_ERR_INVALID_ARG, None)
      | Some x \<Rightarrow> (case f x of (err, y) \<Rightarrow> (err, Some y)))"

lemma deref_None [simp]: "deref None f = (ESP_ERR_INVALID_ARG, None)"
  by (simp add: deref_def)

lemma deref_Some [simp]: "deref (Some x) f = (fst (f x), Some (snd (f x)))"
  by (simp add: deref_def split: prod.splits)

lemma ucast_of_nat_u64: "c < 2 ^ 32 \<Longrightarrow> (ucast (of_nat c :: u32) :: u64) = of_nat c"
  by (simp add: word_unat_eq_iff unsigned_ucast_eq unat_of_nat take_bit_nat_eq_self)

subsection \<open>Lookup by a key\<close>

lemma find_key_Some_iff:
  "distinct (map key xs) \<Longrightarrow> find (\<lambda>x. key x = k) xs = Some x \<longleftrightarrow> x \<in> set xs \<and> key x = k"
  by (induction xs) auto

lemma option_eqI: "(\<And>x. a = Some x \<longleftrightarrow> b = Some x) \<Longrightarrow> a = b"
  by (cases a; cases b) auto

lemma find_key_None_iff: "find (\<lambda>x. key x = k) xs = None \<longleftrightarrow> k \<notin> key ` set xs"
  by (auto simp: find_None_iff)

subsection \<open>Arrays of fixed-size elements laid out as bytes\<close>

lemma drop_concat_chunks:
  assumes "i < length xs" and "\<And>x. x \<in> set xs \<Longrightarrow> length (f x) = k"
  shows "drop (k * i) (concat (map f xs) @ rest)
     = f (xs ! i) @ concat (map f (drop (Suc i) xs)) @ rest"
  using assms
proof (induction xs arbitrary: i)
  case Nil
  then show ?case by simp
next
  case (Cons x xs)
  then show ?case by (cases i) (simp_all add: algebra_simps)
qed

lemma length_concat_chunks:
  "(\<And>x. x \<in> set xs \<Longrightarrow> length (f x) = k) \<Longrightarrow> length (concat (map f xs)) = k * length xs"
  by (induction xs) auto

lemma read_chunks:
  assumes "\<And>x. x \<in> set xs \<Longrightarrow> length (f x) = k"
    and "\<And>x r. x \<in> set xs \<Longrightarrow> g (f x @ r) = x"
  shows "map (\<lambda>i. g (drop (k * i) (concat (map f xs) @ rest))) [0..<length xs] = xs"
proof (rule nth_equalityI)
  fix i assume "i < length (map (\<lambda>i. g (drop (k * i) (concat (map f xs) @ rest))) [0..<length xs])"
  then have i: "i < length xs" by simp
  show "map (\<lambda>i. g (drop (k * i) (concat (map f xs) @ rest))) [0..<length xs] ! i = xs ! i"
    using i drop_concat_chunks[OF i assms(1)] assms(2)[of "xs ! i"] by simp
qed simp

subsection \<open>A fixed array filled from the front\<close>

text \<open>
  The tables that keep a \<open>count\<close> and their entries in the first \<open>count\<close> cells, the other
  cells cleared: the array of size \<open>n\<close> that holds the entries \<open>xs\<close>.
\<close>

definition packed :: "'a \<Rightarrow> nat \<Rightarrow> 'a list \<Rightarrow> 'a list" where
  "packed blank n xs = xs @ replicate (n - length xs) blank"

lemma length_packed [bn_len]: "length xs \<le> n \<Longrightarrow> length (packed blank n xs) = n"
  by (simp add: packed_def)

lemma take_packed [simp]: "take (length xs) (packed blank n xs) = xs"
  by (simp add: packed_def)

lemma nth_packed: "i < length xs \<Longrightarrow> packed blank n xs ! i = xs ! i"
  by (simp add: packed_def nth_append)

lemma packed_push:
  assumes "length xs < n"
  shows "(packed blank n xs)[length xs := x] = packed blank n (xs @ [x])"
proof -
  obtain m where "n - length xs = Suc m" using assms by (metis Suc_diff_Suc)
  then show ?thesis using assms by (auto simp: packed_def list_update_append Suc_diff_Suc)
qed

lemma packed_push_blank:
  "length xs < n \<Longrightarrow> (packed blank n xs)[length xs := blank] = packed blank n xs"
  by (simp add: packed_def list_update_append nth_append list_update_same_conv)

lemma packed_Nil [simp]: "packed blank n [] = replicate n blank"
  by (simp add: packed_def)

text \<open>A string literal assigned to a char array: the characters, then zeros.\<close>

lemma cstr_packed:
  "0 \<notin> set s \<Longrightarrow> cstr (packed 0 n s) = s"
  using cstr_replicate_0[of "n - length s" "[]"] by (simp add: packed_def cstr_append_clean)

lemma strncpy_packed:
  assumes "0 \<notin> set s" and "length s < n"
  shows "strncpy (replicate n 0) (packed 0 n s) (n - 1) = packed 0 n s"
proof -
  obtain m where m: "n - length s = Suc m" using assms(2) by (metis Suc_diff_Suc)
  have "replicate m (0::u8) @ [0] = replicate (Suc m) 0" by (simp add: replicate_append_same)
  moreover have "n - Suc (length s) = m" using m by simp
  ultimately show ?thesis using assms(2) m cstr_packed[OF assms(1), of n]
    by (simp add: strncpy_zeroed packed_def)
qed

subsection \<open>Polling loops\<close>

text \<open>
  A loop that adds its interval to a 32-bit count of milliseconds until the count reaches the timeout
  takes the quotient, rounded up, when the two fit the word together.
\<close>

definition poll_rounds :: "nat \<Rightarrow> nat \<Rightarrow> nat" where
  "poll_rounds timeout interval = (timeout + interval - 1) div interval"

lemma less_poll_rounds: "0 < p \<Longrightarrow> i < poll_rounds t p \<longleftrightarrow> i * p < t"
  using less_eq_div_iff_mult_less_eq[of p "Suc i" "t + p - 1"] by (auto simp: poll_rounds_def)

lemma div_add_self2_Suc: "0 < i \<Longrightarrow> (a + i) div i = Suc (a div i)" for a i :: nat
  using div_add_self2[of i a] by linarith

lemma poll_rounds_step:
  assumes "0 < i" "w < t"
  shows "poll_rounds (t - w) i = Suc (poll_rounds (t - (w + i)) i)"
proof -
  have "t - w + i - 1 = (t - w - 1) + i" using assms by simp
  then have "poll_rounds (t - w) i = ((t - w - 1) + i) div i" by (simp only: poll_rounds_def)
  also have "\<dots> = Suc ((t - w - 1) div i)" using assms(1) by (rule div_add_self2_Suc)
  finally have "poll_rounds (t - w) i = Suc ((t - w - 1) div i)" .
  moreover have "poll_rounds (t - (w + i)) i = (t - w - 1) div i"
  proof (cases "i \<le> t - w")
    case True
    then have "t - (w + i) + i - 1 = t - w - 1" by linarith
    then show ?thesis by (simp only: poll_rounds_def)
  next
    case False
    then have "t - (w + i) = 0" "t - w - 1 < i" by linarith+
    then show ?thesis using assms(1) by (simp add: poll_rounds_def)
  qed
  ultimately show ?thesis by simp
qed

lemma poll_rounds_mono: "t \<le> t' \<Longrightarrow> poll_rounds t i \<le> poll_rounds t' i"
  by (simp add: poll_rounds_def div_le_mono)

lemma unat_add_below:
  fixes a b c :: u32
  assumes "a < c" "unat c + unat b \<le> 2 ^ 32"
  shows "unat (a + b) = unat a + unat b"
  using assms by (simp add: unat_word_ariths word_less_nat_alt)

end
