(* ===== verification/BN_Slots.thy ===== *)
theory BN_Slots
  imports BN_Prelude
begin

text \<open>
  The fixed-capacity slot arrays of the firmware (flows, quarantine entries, rate buckets,
  policy and DNS rules, devices) are all searched by the same three loops: the first slot that
  satisfies a test, the in-use slot with the smallest time stamp, and the matching slot with
  the greatest priority.  The loops are defined here once, over an arbitrary slot type, with
  what they return; the locale \<open>slot_pool\<close> is the interface between a slot array and the
  occupancy counter a module keeps beside it.
\<close>

subsection \<open>First slot that satisfies a test\<close>

text \<open>\<open>for (i = 0; i < N; ++i) if (P(slots[i])) return i; return -1;\<close> with \<open>None\<close> for -1.\<close>

fun find_index :: "('s \<Rightarrow> bool) \<Rightarrow> 's list \<Rightarrow> nat option" where
  "find_index P [] = None"
| "find_index P (s # ss) = (if P s then Some 0 else map_option Suc (find_index P ss))"

lemma find_index_cong:
  "(\<And>s. s \<in> set ss \<Longrightarrow> P s = Q s) \<Longrightarrow> find_index P ss = find_index Q ss"
  by (induction ss) auto

lemma find_index_None_iff: "find_index P ss = None \<longleftrightarrow> (\<forall>s\<in>set ss. \<not> P s)"
  by (induction ss) auto

lemma find_index_SomeD:
  "find_index P ss = Some i \<Longrightarrow> i < length ss \<and> P (ss ! i) \<and> (\<forall>j<i. \<not> P (ss ! j))"
proof (induction ss arbitrary: i)
  case Nil
  then show ?case by simp
next
  case (Cons s ss)
  show ?case
  proof (cases "P s")
    case True
    with Cons.prems show ?thesis by simp
  next
    case False
    with Cons.prems obtain k where k: "find_index P ss = Some k" "i = Suc k"
      by auto
    with Cons.IH[OF k(1)] False show ?thesis
      by (auto simp: less_Suc_eq_0_disj)
  qed
qed

lemma find_index_SomeI:
  assumes "i < length ss" and "P (ss ! i)" and "\<And>j. j < i \<Longrightarrow> \<not> P (ss ! j)"
  shows "find_index P ss = Some i"
proof (cases "find_index P ss")
  case None
  with assms show ?thesis by (auto simp: find_index_None_iff)
next
  case (Some k)
  then have k: "k < length ss" "P (ss ! k)" "\<forall>j<k. \<not> P (ss ! j)"
    using find_index_SomeD[OF Some] by auto
  with assms have "k = i" by (metis linorder_neqE_nat)
  with Some show ?thesis by simp
qed

lemma find_index_ex: "s \<in> set ss \<Longrightarrow> P s \<Longrightarrow> \<exists>i. find_index P ss = Some i"
  using find_index_None_iff by fastforce

text \<open>When at most one slot can satisfy the test, the scan finds it wherever it is.\<close>

lemma find_index_unique:
  assumes "i < length ss" and "P (ss ! i)"
    and "\<And>j. j < length ss \<Longrightarrow> P (ss ! j) \<Longrightarrow> j = i"
  shows "find_index P ss = Some i"
proof (rule find_index_SomeI)
  show "\<not> P (ss ! j)" if "j < i" for j
    using that assms(1) assms(3)[of j] by auto
qed (rule assms(1), rule assms(2))

subsection \<open>Least recently used slot\<close>

text \<open>
  The \<open>find_lru_*\<close> loops: \<open>oldest\<close> starts at \<open>UINT32_MAX\<close>, a slot replaces the candidate
  only when its stamp is strictly smaller.
\<close>

fun lru_scan ::
  "('s \<Rightarrow> bool) \<Rightarrow> ('s \<Rightarrow> u32) \<Rightarrow> 's list \<Rightarrow> nat \<Rightarrow> nat option \<Rightarrow> u32 \<Rightarrow> nat option" where
  "lru_scan used stamp [] i lru oldest = lru"
| "lru_scan used stamp (s # ss) i lru oldest =
     (if used s \<and> stamp s < oldest
      then lru_scan used stamp ss (Suc i) (Some i) (stamp s)
      else lru_scan used stamp ss (Suc i) lru oldest)"

definition find_lru :: "('s \<Rightarrow> bool) \<Rightarrow> ('s \<Rightarrow> u32) \<Rightarrow> 's list \<Rightarrow> nat option" where
  "find_lru used stamp ss = lru_scan used stamp ss 0 None 0xFFFFFFFF"

lemma lru_scan_spec:
  "(lru_scan used stamp ss i lru oldest = lru \<and> (\<forall>s\<in>set ss. used s \<longrightarrow> oldest \<le> stamp s))
   \<or> (\<exists>k<length ss. lru_scan used stamp ss i lru oldest = Some (i + k) \<and> used (ss ! k)
        \<and> stamp (ss ! k) < oldest \<and> (\<forall>s\<in>set ss. used s \<longrightarrow> stamp (ss ! k) \<le> stamp s))"
proof (induction ss arbitrary: i lru oldest)
  case Nil
  then show ?case by simp
next
  case (Cons s ss)
  show ?case
  proof (cases "used s \<and> stamp s < oldest")
    case True
    have "(lru_scan used stamp ss (Suc i) (Some i) (stamp s) = Some i
            \<and> (\<forall>x\<in>set ss. used x \<longrightarrow> stamp s \<le> stamp x))
        \<or> (\<exists>k<length ss. lru_scan used stamp ss (Suc i) (Some i) (stamp s) = Some (Suc i + k)
            \<and> used (ss ! k) \<and> stamp (ss ! k) < stamp s
            \<and> (\<forall>x\<in>set ss. used x \<longrightarrow> stamp (ss ! k) \<le> stamp x))"
      (is "?a \<or> ?b") by (rule Cons.IH)
    then show ?thesis
    proof
      assume ?a
      with True show ?thesis
        by (intro disjI2 exI[of _ 0]) simp
    next
      assume ?b
      then obtain k where k: "k < length ss"
        "lru_scan used stamp ss (Suc i) (Some i) (stamp s) = Some (Suc i + k)"
        "used (ss ! k)" "stamp (ss ! k) < stamp s"
        "\<forall>x\<in>set ss. used x \<longrightarrow> stamp (ss ! k) \<le> stamp x" by blast
      moreover have "stamp (ss ! k) < oldest"
        using True k(4) less_trans by blast
      ultimately show ?thesis
        using True by (intro disjI2 exI[of _ "Suc k"]) simp
    qed
  next
    case False
    have "(lru_scan used stamp ss (Suc i) lru oldest = lru
            \<and> (\<forall>x\<in>set ss. used x \<longrightarrow> oldest \<le> stamp x))
        \<or> (\<exists>k<length ss. lru_scan used stamp ss (Suc i) lru oldest = Some (Suc i + k)
            \<and> used (ss ! k) \<and> stamp (ss ! k) < oldest
            \<and> (\<forall>x\<in>set ss. used x \<longrightarrow> stamp (ss ! k) \<le> stamp x))"
      (is "?a \<or> ?b") by (rule Cons.IH)
    then show ?thesis
    proof
      assume ?a
      moreover have "used s \<longrightarrow> oldest \<le> stamp s"
        using False by (simp add: not_less)
      moreover have "lru_scan used stamp (s # ss) i lru oldest
          = lru_scan used stamp ss (Suc i) lru oldest"
        by (simp only: lru_scan.simps if_not_P[OF False])
      ultimately show ?thesis by (intro disjI1) simp
    next
      assume ?b
      then obtain k where k: "k < length ss"
        "lru_scan used stamp ss (Suc i) lru oldest = Some (Suc i + k)"
        "used (ss ! k)" "stamp (ss ! k) < oldest"
        "\<forall>x\<in>set ss. used x \<longrightarrow> stamp (ss ! k) \<le> stamp x" by blast
      moreover have "used s \<longrightarrow> stamp (ss ! k) \<le> stamp s"
        using False k(4) by (simp add: not_less) (metis less_imp_le less_le_trans)
      moreover have "lru_scan used stamp (s # ss) i lru oldest
          = lru_scan used stamp ss (Suc i) lru oldest"
        by (simp only: lru_scan.simps if_not_P[OF False])
      ultimately show ?thesis by (intro disjI2 exI[of _ "Suc k"]) simp
    qed
  qed
qed

lemma find_lru_SomeD:
  assumes "find_lru used stamp ss = Some i"
  shows "i < length ss" "used (ss ! i)" "\<And>s. s \<in> set ss \<Longrightarrow> used s \<Longrightarrow> stamp (ss ! i) \<le> stamp s"
  using lru_scan_spec[of used stamp ss 0 None "0xFFFFFFFF"] assms
  by (auto simp: find_lru_def)

lemma find_lru_NoneD:
  assumes "find_lru used stamp ss = None" and "s \<in> set ss" and "used s"
  shows "stamp s = 0xFFFFFFFF"
proof -
  from lru_scan_spec[of used stamp ss 0 None "0xFFFFFFFF"] assms
  have "0xFFFFFFFF \<le> stamp s" by (auto simp: find_lru_def)
  moreover have "(0xFFFFFFFF :: u32) = - 1" by simp
  then have "stamp s \<le> 0xFFFFFFFF" using word_n1_ge[of "stamp s"] by metis
  ultimately show ?thesis by (rule antisym [rotated])
qed

lemma find_lru_exists:
  assumes "s \<in> set ss" and "used s" and "stamp s \<noteq> 0xFFFFFFFF"
  shows "\<exists>i. find_lru used stamp ss = Some i"
  using find_lru_NoneD[of used stamp ss s] assms by (cases "find_lru used stamp ss") auto

subsection \<open>Matching rule of greatest priority\<close>

text \<open>
  The rule scans of the policy engine, the rate limiter and the DNS filter: a later matching
  rule replaces the candidate when its priority is at least as great.
\<close>

fun best_scan :: "('s \<Rightarrow> bool) \<Rightarrow> ('s \<Rightarrow> 'p::linorder) \<Rightarrow> 's list \<Rightarrow> 's option \<Rightarrow> 's option" where
  "best_scan hit prio [] best = best"
| "best_scan hit prio (s # ss) best =
     best_scan hit prio ss
       (if hit s \<and> (case best of None \<Rightarrow> True | Some b \<Rightarrow> prio b \<le> prio s)
        then Some s else best)"

text \<open>Reference semantics: the last of the matching slots that no other matching slot beats.\<close>

definition best_rule :: "('s \<Rightarrow> bool) \<Rightarrow> ('s \<Rightarrow> 'p::linorder) \<Rightarrow> 's list \<Rightarrow> 's option" where
  "best_rule hit prio ss =
     (let top = filter (\<lambda>s. hit s \<and> (\<forall>r\<in>set ss. hit r \<longrightarrow> prio r \<le> prio s)) ss
      in if top = [] then None else Some (last top))"

lemma best_scan_snoc:
  "best_scan hit prio (ss @ [s]) best =
     (let b = best_scan hit prio ss best
      in if hit s \<and> (case b of None \<Rightarrow> True | Some b \<Rightarrow> prio b \<le> prio s) then Some s else b)"
  by (induction ss arbitrary: best) (simp_all add: Let_def)

lemma best_scan_None_iff:
  "best_scan hit prio ss best = None \<longleftrightarrow> best = None \<and> (\<forall>s\<in>set ss. \<not> hit s)"
  by (induction ss arbitrary: best) auto

lemma best_scan_split:
  "best_scan hit prio ss None = Some b \<Longrightarrow>
     \<exists>xs ys. ss = xs @ b # ys \<and> hit b
        \<and> (\<forall>s\<in>set xs. hit s \<longrightarrow> prio s \<le> prio b)
        \<and> (\<forall>s\<in>set ys. hit s \<longrightarrow> prio s < prio b)"
proof (induction ss arbitrary: b rule: rev_induct)
  case Nil
  then show ?case by simp
next
  case (snoc s ss)
  let ?r = "best_scan hit prio ss None"
  consider (none) "\<not> hit s" | (first) "hit s" "?r = None"
    | (keep) c where "hit s" "?r = Some c" "prio s < prio c"
    | (replace) c where "hit s" "?r = Some c" "prio c \<le> prio s"
    by (cases "hit s"; cases ?r) (auto simp: not_le[symmetric])
  then show ?case
  proof cases
    case none
    with snoc.prems have "?r = Some b" by (simp add: best_scan_snoc Let_def)
    then obtain xs ys where "ss = xs @ b # ys" "hit b"
      "\<forall>s\<in>set xs. hit s \<longrightarrow> prio s \<le> prio b" "\<forall>s\<in>set ys. hit s \<longrightarrow> prio s < prio b"
      using snoc.IH by blast
    with none show ?thesis by (intro exI[of _ xs] exI[of _ "ys @ [s]"]) simp
  next
    case first
    with snoc.prems have "b = s" by (simp add: best_scan_snoc Let_def)
    moreover from first(2) have "\<forall>s\<in>set ss. \<not> hit s" by (simp add: best_scan_None_iff)
    ultimately show ?thesis using first(1) by (intro exI[of _ ss] exI[of _ "[]"]) simp
  next
    case keep
    then have "\<not> prio c \<le> prio s" by simp
    with keep snoc.prems have "b = c" by (simp add: best_scan_snoc Let_def)
    then obtain xs ys where "ss = xs @ b # ys" "hit b"
      "\<forall>s\<in>set xs. hit s \<longrightarrow> prio s \<le> prio b" "\<forall>s\<in>set ys. hit s \<longrightarrow> prio s < prio b"
      using snoc.IH keep(2) by blast
    with keep \<open>b = c\<close> show ?thesis by (intro exI[of _ xs] exI[of _ "ys @ [s]"]) simp
  next
    case replace
    with snoc.prems have bs: "b = s" by (simp add: best_scan_snoc Let_def)
    obtain xs ys where "ss = xs @ c # ys"
      "\<forall>s\<in>set xs. hit s \<longrightarrow> prio s \<le> prio c" "\<forall>s\<in>set ys. hit s \<longrightarrow> prio s < prio c"
      using snoc.IH[OF replace(2)] by blast
    then have "\<forall>r\<in>set ss. hit r \<longrightarrow> prio r \<le> prio c" by (auto intro: less_imp_le)
    with replace(3) have "\<forall>r\<in>set ss. hit r \<longrightarrow> prio r \<le> prio s" by (meson order_trans)
    with replace(1) bs show ?thesis by (intro exI[of _ ss] exI[of _ "[]"]) simp
  qed
qed

text \<open>The scan computes the reference semantics.\<close>

theorem best_scan_eq_best_rule: "best_scan hit prio ss None = best_rule hit prio ss"
proof (cases "best_scan hit prio ss None")
  case None
  then have "\<forall>s\<in>set ss. \<not> hit s" by (simp add: best_scan_None_iff)
  then have "filter (\<lambda>s. hit s \<and> (\<forall>r\<in>set ss. hit r \<longrightarrow> prio r \<le> prio s)) ss = []"
    by (auto simp: filter_empty_conv)
  with None show ?thesis by (simp add: best_rule_def Let_def)
next
  case (Some b)
  from best_scan_split[OF Some] obtain xs ys where b: "ss = xs @ b # ys" "hit b"
    "\<forall>s\<in>set xs. hit s \<longrightarrow> prio s \<le> prio b" "\<forall>s\<in>set ys. hit s \<longrightarrow> prio s < prio b" by auto
  let ?p = "\<lambda>s. hit s \<and> (\<forall>r\<in>set ss. hit r \<longrightarrow> prio r \<le> prio s)"
  have "b \<in> set ss" using b(1) by simp
  then have "\<not> ?p s" if "s \<in> set ys" for s
    using that b(2,4) by (meson not_le)
  then have "filter ?p ys = []" by (simp only: filter_empty_conv) blast
  moreover have "?p b" using b by (auto intro: less_imp_le)
  ultimately have "filter ?p ss = filter ?p xs @ [b]"
    by (simp add: b(1))
  then show ?thesis by (simp add: Some best_rule_def Let_def)
qed

lemma best_rule_SomeD:
  assumes "best_rule hit prio ss = Some b"
  shows "b \<in> set ss" "hit b" "\<And>s. s \<in> set ss \<Longrightarrow> hit s \<Longrightarrow> prio s \<le> prio b"
proof -
  let ?top = "filter (\<lambda>s. hit s \<and> (\<forall>r\<in>set ss. hit r \<longrightarrow> prio r \<le> prio s)) ss"
  from assms have ne: "?top \<noteq> []"
    unfolding best_rule_def Let_def by (meson option.distinct(1))
  with assms have b: "b = last ?top"
    unfolding best_rule_def Let_def by simp
  from ne have "last ?top \<in> set ?top" by (rule last_in_set)
  then have "b \<in> set ?top" unfolding b .
  then show "b \<in> set ss" "hit b" "\<And>s. s \<in> set ss \<Longrightarrow> hit s \<Longrightarrow> prio s \<le> prio b" by auto
qed

lemma best_rule_None_iff: "best_rule hit prio ss = None \<longleftrightarrow> (\<forall>s\<in>set ss. \<not> hit s)"
  unfolding best_scan_eq_best_rule[symmetric] by (simp add: best_scan_None_iff)

subsection \<open>Occupancy of a slot array\<close>

definition used_count :: "('s \<Rightarrow> bool) \<Rightarrow> 's list \<Rightarrow> nat" where
  "used_count in_use ss = length (filter in_use ss)"

text \<open>A 32-bit counter that holds a positive number of slots can be decremented.\<close>

lemma active_dec:
  assumes "Suc m = n" and "n < 2 ^ 32"
  shows "(of_nat n :: u32) > 0" "(of_nat n :: u32) - 1 = of_nat m"
proof -
  have "unat (of_nat n :: u32) = n" using assms(2) by (simp add: unat_of_nat)
  then show "(of_nat n :: u32) > 0" using assms(1) by (simp add: word_less_nat_alt)
  show "(of_nat n :: u32) - 1 = of_nat m" using assms(1) by auto
qed

text \<open>
  The interface between a slot array and the counter of its occupied slots: what happens to
  the number of occupied slots when a slot is filled, refreshed in place or cleared.
\<close>

locale slot_pool =
  fixes in_use :: "'s \<Rightarrow> bool"
    and blank :: "'s"
  assumes blank_free: "\<not> in_use blank"
begin

lemma count_blank: "used_count in_use (replicate n blank) = 0"
  using blank_free by (simp add: used_count_def filter_empty_conv)

lemma count_le: "used_count in_use ss \<le> length ss"
  by (simp add: used_count_def)

lemma count_split:
  assumes "i < length ss"
  shows "used_count in_use (ss[i := s])
    = used_count in_use (take i ss) + (if in_use s then 1 else 0) + used_count in_use (drop (Suc i) ss)"
  using assms by (simp add: used_count_def upd_conv_take_nth_drop)

lemma count_nth_split:
  assumes "i < length ss"
  shows "used_count in_use ss
    = used_count in_use (take i ss) + (if in_use (ss ! i) then 1 else 0)
      + used_count in_use (drop (Suc i) ss)"
  using count_split[OF assms, of "ss ! i"] by simp

lemma count_fill:
  assumes "i < length ss" and "\<not> in_use (ss ! i)" and "in_use s"
  shows "used_count in_use (ss[i := s]) = Suc (used_count in_use ss)"
  using assms count_split[of i ss s] count_nth_split[of i ss] by simp

lemma count_refresh:
  assumes "i < length ss" and "in_use (ss ! i) = in_use s"
  shows "used_count in_use (ss[i := s]) = used_count in_use ss"
  using assms count_split[of i ss s] count_nth_split[of i ss] by simp

lemma count_clear:
  assumes "i < length ss" and "in_use (ss ! i)"
  shows "Suc (used_count in_use (ss[i := blank])) = used_count in_use ss"
  using assms blank_free count_split[of i ss blank] count_nth_split[of i ss] by simp

lemma count_pos:
  assumes "i < length ss" and "in_use (ss ! i)"
  shows "0 < used_count in_use ss"
  using assms count_nth_split[of i ss] by simp

lemma count_full_iff: "used_count in_use ss = length ss \<longleftrightarrow> (\<forall>s\<in>set ss. in_use s)"
proof -
  have "length (filter in_use ss) = length ss" if "\<forall>s\<in>set ss. in_use s"
    using that by simp
  moreover have "length (filter in_use ss) < length ss" if "s \<in> set ss" "\<not> in_use s" for s
    using that by (rule length_filter_less)
  ultimately show ?thesis unfolding used_count_def by (metis less_irrefl)
qed

lemma free_slot_fresh:
  assumes "find_index (\<lambda>s. \<not> in_use s) ss = Some i"
  shows "i < length ss" "\<not> in_use (ss ! i)"
  using find_index_SomeD[OF assms] by auto

lemma no_free_slot_full:
  assumes "find_index (\<lambda>s. \<not> in_use s) ss = None"
  shows "used_count in_use ss = length ss"
  using assms by (simp add: count_full_iff find_index_None_iff)

lemma free_slot_exists:
  assumes "used_count in_use ss < length ss"
  shows "\<exists>i. find_index (\<lambda>s. \<not> in_use s) ss = Some i"
  using assms no_free_slot_full by (cases "find_index (\<lambda>s. \<not> in_use s) ss") auto

end

text \<open>The sweep loops (\<open>expire_*\<close>): every slot that satisfies the test is cleared.\<close>

definition sweep :: "('s \<Rightarrow> bool) \<Rightarrow> 's \<Rightarrow> 's list \<Rightarrow> 's list" where
  "sweep dead blank ss = map (\<lambda>s. if dead s then blank else s) ss"

lemma length_sweep [simp, bn_len]: "length (sweep dead blank ss) = length ss"
  by (simp add: sweep_def)

lemma nth_sweep: "i < length ss \<Longrightarrow> sweep dead blank ss ! i = (if dead (ss ! i) then blank else ss ! i)"
  by (simp add: sweep_def)

text \<open>Clearing slots that no scan would pick leaves the winner of the scan as it was.\<close>

lemma best_scan_sweep:
  assumes "\<And>s. dead s \<Longrightarrow> \<not> hit s" and "\<not> hit blank"
  shows "best_scan hit prio (sweep dead blank ss) best = best_scan hit prio ss best"
  using assms by (induction ss arbitrary: best) (auto simp: sweep_def)

text \<open>
  The same loop as the code writes it, index by index with a 32-bit counter, clears and counts
  exactly the slots that satisfied the test at the start.
\<close>

definition sweep_step :: "('s \<Rightarrow> bool) \<Rightarrow> 's \<Rightarrow> nat \<Rightarrow> 's list \<times> u32 \<Rightarrow> 's list \<times> u32" where
  "sweep_step dead blank i st =
     (case st of (ss, n) \<Rightarrow> if dead (ss ! i) then (ss[i := blank], n + 1) else (ss, n))"

lemma sweep_loop_prefix:
  "k \<le> length ss \<Longrightarrow> fold (sweep_step dead blank) [0..<k] (ss, 0) =
     (sweep dead blank (take k ss) @ drop k ss, of_nat (length (filter dead (take k ss))))"
proof (induction k)
  case 0
  then show ?case by (simp add: sweep_def)
next
  case (Suc k)
  then have k: "k < length ss" by simp
  have t: "take (Suc k) ss = take k ss @ [ss ! k]" using k by (rule take_Suc_conv_app_nth)
  have d: "drop k ss = ss ! k # drop (Suc k) ss" using k by (rule Cons_nth_drop_Suc[symmetric])
  have l: "length (sweep dead blank (take k ss)) = k" using k by simp
  have "(sweep dead blank (take k ss) @ drop k ss) ! k = ss ! k"
    unfolding d using l by (metis nth_append_length)
  moreover have "(sweep dead blank (take k ss) @ drop k ss)[k := blank]
      = sweep dead blank (take k ss) @ blank # drop (Suc k) ss"
    unfolding d using l by (metis list_update_length)
  ultimately show ?case using Suc.IH k d by (simp add: sweep_step_def t sweep_def)
qed

lemma sweep_loop:
  "fold (sweep_step dead blank) [0..<length ss] (ss, 0) =
     (sweep dead blank ss, of_nat (length (filter dead ss)))"
  using sweep_loop_prefix[of "length ss" ss dead blank] by simp

text \<open>
  The loop of the modules that also keep a counter of occupied slots and decrement it, when
  positive, with every cleared slot.
\<close>

definition expire_step ::
  "('s \<Rightarrow> bool) \<Rightarrow> 's \<Rightarrow> nat \<Rightarrow> 's list \<times> u32 \<times> u32 \<Rightarrow> 's list \<times> u32 \<times> u32" where
  "expire_step dead blank i st =
     (case st of (ss, active, n) \<Rightarrow>
        if dead (ss ! i) then (ss[i := blank], if active > 0 then active - 1 else active, n + 1)
        else (ss, active, n))"

context slot_pool
begin

lemma expire_fold:
  assumes "\<And>s. dead s \<Longrightarrow> in_use s" and "length ss < 2 ^ 32" and "\<forall>i\<in>set is. i < length ss"
  shows "fold (expire_step dead blank) is (ss, of_nat (used_count in_use ss), n) =
    (case fold (sweep_step dead blank) is (ss, n) of
       (ts, m) \<Rightarrow> (ts, of_nat (used_count in_use ts), m))"
  using assms(2,3)
proof (induction "is" arbitrary: ss n)
  case Nil
  then show ?case by simp
next
  case (Cons i "is")
  show ?case
  proof (cases "dead (ss ! i)")
    case True
    have i: "i < length ss" "in_use (ss ! i)" using Cons.prems(2) assms(1)[OF True] by auto
    note s = count_clear[OF i]
    have "unat (of_nat (used_count in_use ss) :: u32) = used_count in_use ss"
      using count_le[of ss] Cons.prems(1) by (simp add: unat_of_nat)
    then have pos: "(of_nat (used_count in_use ss) :: u32) > 0"
      using count_pos[OF i] by (simp add: word_less_nat_alt)
    have "(of_nat (used_count in_use ss) :: u32) - 1 = of_nat (used_count in_use (ss[i := blank]))"
      using s by (metis add_diff_cancel_left' of_nat_Suc)
    then have "expire_step dead blank i (ss, of_nat (used_count in_use ss), n) =
        (ss[i := blank], of_nat (used_count in_use (ss[i := blank])), n + 1)"
      using True pos by (simp add: expire_step_def)
    with True Cons.IH[of "ss[i := blank]" "n + 1"] Cons.prems show ?thesis
      by (simp add: sweep_step_def)
  next
    case False
    then show ?thesis using Cons.IH[of ss n] Cons.prems by (simp add: sweep_step_def expire_step_def)
  qed
qed

lemma expire_loop:
  assumes "\<And>s. dead s \<Longrightarrow> in_use s" and "length ss < 2 ^ 32"
  shows "fold (expire_step dead blank) [0..<length ss] (ss, of_nat (used_count in_use ss), 0) =
    (sweep dead blank ss, of_nat (used_count in_use (sweep dead blank ss)),
     of_nat (length (filter dead ss)))"
  using expire_fold[of dead ss "[0..<length ss]" 0, OF assms] sweep_loop[of dead blank ss] by simp

end

subsection \<open>Slot arrays searched by a key\<close>

text \<open>
  The tables keyed by a flow, a subject or a device: the occupied slots have pairwise different
  keys, and the array stands for the map from a key to the slot that holds it.
\<close>

definition keys_unique :: "('s \<Rightarrow> bool) \<Rightarrow> ('s \<Rightarrow> 'k) \<Rightarrow> 's list \<Rightarrow> bool" where
  "keys_unique in_use key ss \<longleftrightarrow>
     (\<forall>i<length ss. \<forall>j<length ss.
        in_use (ss ! i) \<longrightarrow> in_use (ss ! j) \<longrightarrow> key (ss ! i) = key (ss ! j) \<longrightarrow> i = j)"

definition slot_map :: "('s \<Rightarrow> bool) \<Rightarrow> ('s \<Rightarrow> 'k) \<Rightarrow> 's list \<Rightarrow> 'k \<rightharpoonup> 's" where
  "slot_map in_use key ss k = find (\<lambda>s. in_use s \<and> key s = k) ss"

lemma keys_uniqueD:
  "keys_unique in_use key ss \<Longrightarrow> i < length ss \<Longrightarrow> j < length ss \<Longrightarrow> in_use (ss ! i) \<Longrightarrow>
     in_use (ss ! j) \<Longrightarrow> key (ss ! i) = key (ss ! j) \<Longrightarrow> i = j"
  by (simp add: keys_unique_def)

lemma slot_map_None_iff:
  "slot_map in_use key ss k = None \<longleftrightarrow> (\<forall>i<length ss. in_use (ss ! i) \<longrightarrow> key (ss ! i) \<noteq> k)"
  by (auto simp: slot_map_def find_None_iff in_set_conv_nth)

lemma slot_map_SomeD:
  "slot_map in_use key ss k = Some s \<Longrightarrow> \<exists>i<length ss. ss ! i = s \<and> in_use s \<and> key s = k"
  by (auto simp: slot_map_def find_Some_iff)

lemma slot_map_Some_iff:
  assumes "keys_unique in_use key ss"
  shows "slot_map in_use key ss k = Some s \<longleftrightarrow> (\<exists>i<length ss. ss ! i = s \<and> in_use s \<and> key s = k)"
proof
  assume "\<exists>i<length ss. ss ! i = s \<and> in_use s \<and> key s = k"
  then obtain i where i: "i < length ss" "ss ! i = s" "in_use s" "key s = k" by blast
  then obtain t where t: "slot_map in_use key ss k = Some t"
    using slot_map_None_iff[of in_use key ss k] by (cases "slot_map in_use key ss k") auto
  then obtain j where j: "j < length ss" "ss ! j = t" "in_use t" "key t = k"
    using slot_map_SomeD by metis
  then have "i = j" using i by (intro keys_uniqueD[OF assms]) simp_all
  with t i j(2) show "slot_map in_use key ss k = Some s" by simp
qed (rule slot_map_SomeD)

lemma find_index_slot_map:
  "find_index (\<lambda>s. in_use s \<and> key s = k) ss = Some i \<Longrightarrow> slot_map in_use key ss k = Some (ss ! i)"
  "find_index (\<lambda>s. in_use s \<and> key s = k) ss = None \<longleftrightarrow> slot_map in_use key ss k = None"
proof -
  show "slot_map in_use key ss k = Some (ss ! i)"
    if "find_index (\<lambda>s. in_use s \<and> key s = k) ss = Some i"
    using find_index_SomeD[OF that] by (auto simp: slot_map_def find_Some_iff)
  show "find_index (\<lambda>s. in_use s \<and> key s = k) ss = None \<longleftrightarrow> slot_map in_use key ss k = None"
    by (auto simp: find_index_None_iff slot_map_def find_None_iff)
qed

locale keyed_slots = slot_pool in_use blank
  for in_use :: "'s \<Rightarrow> bool" and blank :: 's +
  fixes key :: "'s \<Rightarrow> 'k"
begin

lemma unique_blank: "keys_unique in_use key (replicate n blank)"
  using blank_free by (simp add: keys_unique_def)

lemma map_blank: "slot_map in_use key (replicate n blank) = Map.empty"
  using blank_free by (auto simp: slot_map_None_iff fun_eq_iff)

lemma unique_store:
  assumes "keys_unique in_use key ss" and "i < length ss"
    and "\<And>j. j < length ss \<Longrightarrow> j \<noteq> i \<Longrightarrow> in_use (ss ! j) \<Longrightarrow> key (ss ! j) \<noteq> key s"
  shows "keys_unique in_use key (ss[i := s])"
  unfolding keys_unique_def
proof (intro allI impI)
  fix a b assume ab: "a < length (ss[i := s])" "b < length (ss[i := s])"
    "in_use (ss[i := s] ! a)" "in_use (ss[i := s] ! b)" "key (ss[i := s] ! a) = key (ss[i := s] ! b)"
  show "a = b"
  proof (cases "a = i \<or> b = i")
    case True
    then show ?thesis using ab assms(2) assms(3)[of a] assms(3)[of b]
      by (cases "a = i"; cases "b = i") auto
  next
    case False
    then show ?thesis using ab keys_uniqueD[OF assms(1), of a b] by simp
  qed
qed

text \<open>Writing an occupied slot over a free one, or over a slot with the same key.\<close>

lemma map_store:
  assumes "keys_unique in_use key ss" and "i < length ss" and "in_use s"
    and "in_use (ss ! i) \<Longrightarrow> key (ss ! i) = key s"
    and "\<And>j. j < length ss \<Longrightarrow> j \<noteq> i \<Longrightarrow> in_use (ss ! j) \<Longrightarrow> key (ss ! j) \<noteq> key s"
  shows "slot_map in_use key (ss[i := s]) = (slot_map in_use key ss)(key s \<mapsto> s)"
proof
  fix k
  note u = unique_store[OF assms(1,2), of s, OF assms(5)]
  show "slot_map in_use key (ss[i := s]) k = ((slot_map in_use key ss)(key s \<mapsto> s)) k"
  proof (cases "k = key s")
    case True
    then show ?thesis using slot_map_Some_iff[OF u, of k s] assms(2,3) by auto
  next
    case False
    show ?thesis
    proof (rule option_eqI)
      fix x
      have "(ss[i := s] ! j = x \<and> in_use x \<and> key x = k) \<longleftrightarrow> (ss ! j = x \<and> in_use x \<and> key x = k)"
        if "j < length ss" for j
        using False assms(2,4) that by (cases "j = i") auto
      then show "slot_map in_use key (ss[i := s]) k = Some x \<longleftrightarrow>
          ((slot_map in_use key ss)(key s \<mapsto> s)) k = Some x"
        using False slot_map_Some_iff[OF u, of k x] slot_map_Some_iff[OF assms(1), of k x] by auto
    qed
  qed
qed

lemma unique_clear:
  assumes "keys_unique in_use key ss"
  shows "keys_unique in_use key (ss[i := blank])"
proof -
  have old: "in_use (ss[i := blank] ! j) \<Longrightarrow> ss[i := blank] ! j = ss ! j" if "j < length ss" for j
    using that blank_free by (cases "j = i") auto
  show ?thesis unfolding keys_unique_def
  proof (intro allI impI)
    fix a b assume ab: "a < length (ss[i := blank])" "b < length (ss[i := blank])"
      "in_use (ss[i := blank] ! a)" "in_use (ss[i := blank] ! b)"
      "key (ss[i := blank] ! a) = key (ss[i := blank] ! b)"
    then show "a = b" using old[of a] old[of b] keys_uniqueD[OF assms, of a b] by simp
  qed
qed

lemma map_clear:
  assumes "keys_unique in_use key ss" and "i < length ss" and "in_use (ss ! i)"
  shows "slot_map in_use key (ss[i := blank]) = (slot_map in_use key ss)(key (ss ! i) := None)"
proof
  fix k
  note u = unique_clear[OF assms(1), of i]
  show "slot_map in_use key (ss[i := blank]) k
      = ((slot_map in_use key ss)(key (ss ! i) := None)) k"
  proof (rule option_eqI)
    fix x
    have "(ss[i := blank] ! j = x \<and> in_use x \<and> key x = k) \<longleftrightarrow>
        (ss ! j = x \<and> in_use x \<and> key x = k \<and> k \<noteq> key (ss ! i))" if "j < length ss" for j
      using blank_free assms(2,3) that keys_uniqueD[OF assms(1) that assms(2)]
      by (cases "j = i") auto
    then show "slot_map in_use key (ss[i := blank]) k = Some x \<longleftrightarrow>
        ((slot_map in_use key ss)(key (ss ! i) := None)) k = Some x"
      using slot_map_Some_iff[OF u, of k x] slot_map_Some_iff[OF assms(1), of k x] by auto
  qed
qed

text \<open>
  The four ways the modules change such a table: an entry is replaced, added in a free slot,
  added over an evicted entry, or removed.
\<close>

lemma found_slot:
  assumes "find_index (\<lambda>s. in_use s \<and> key s = k) ss = Some i"
  shows "i < length ss" "in_use (ss ! i)" "key (ss ! i) = k" "slot_map in_use key ss k = Some (ss ! i)"
  using find_index_SomeD[OF assms] find_index_slot_map(1)[OF assms] by simp_all

lemma put_update:
  assumes "keys_unique in_use key ss" and "find_index (\<lambda>s. in_use s \<and> key s = k) ss = Some i"
    and "in_use s" and "key s = k"
  shows "keys_unique in_use key (ss[i := s])"
    "slot_map in_use key (ss[i := s]) = (slot_map in_use key ss)(k \<mapsto> s)"
    "used_count in_use (ss[i := s]) = used_count in_use ss"
proof -
  note i = found_slot[OF assms(2)]
  have other: "key (ss ! j) \<noteq> key s" if "j < length ss" "j \<noteq> i" "in_use (ss ! j)" for j
    using keys_uniqueD[OF assms(1) that(1) i(1) that(3) i(2)] that(2) i(3) assms(4) by auto
  show "keys_unique in_use key (ss[i := s])" by (rule unique_store[OF assms(1) i(1) other])
  show "slot_map in_use key (ss[i := s]) = (slot_map in_use key ss)(k \<mapsto> s)"
    using map_store[OF assms(1) i(1) assms(3) _ other] i(3) assms(4) by simp
  show "used_count in_use (ss[i := s]) = used_count in_use ss"
    by (rule count_refresh) (use i assms(3) in simp_all)
qed

lemma put_fresh:
  assumes "keys_unique in_use key ss" and "find_index (\<lambda>s. \<not> in_use s) ss = Some i"
    and "slot_map in_use key ss k = None" and "in_use s" and "key s = k"
  shows "keys_unique in_use key (ss[i := s])"
    "slot_map in_use key (ss[i := s]) = (slot_map in_use key ss)(k \<mapsto> s)"
    "used_count in_use (ss[i := s]) = Suc (used_count in_use ss)"
proof -
  note i = free_slot_fresh[OF assms(2)]
  have other: "key (ss ! j) \<noteq> key s" if "j < length ss" "j \<noteq> i" "in_use (ss ! j)" for j
    using that assms(3,5) by (simp add: slot_map_None_iff)
  show "keys_unique in_use key (ss[i := s])" by (rule unique_store[OF assms(1) i(1) other])
  show "slot_map in_use key (ss[i := s]) = (slot_map in_use key ss)(k \<mapsto> s)"
    using map_store[OF assms(1) i(1) assms(4) _ other] i(2) assms(5) by simp
  show "used_count in_use (ss[i := s]) = Suc (used_count in_use ss)"
    by (rule count_fill[OF i assms(4)])
qed

lemma remove_found:
  assumes "keys_unique in_use key ss" and "find_index (\<lambda>s. in_use s \<and> key s = k) ss = Some i"
  shows "keys_unique in_use key (ss[i := blank])"
    "slot_map in_use key (ss[i := blank]) = (slot_map in_use key ss)(k := None)"
    "Suc (used_count in_use (ss[i := blank])) = used_count in_use ss"
  using unique_clear[OF assms(1)] map_clear[OF assms(1)] count_clear found_slot[OF assms(2)] by auto

lemma put_evict:
  assumes "keys_unique in_use key ss" and "i < length ss" and "in_use (ss ! i)"
    and "slot_map in_use key ss k = None" and "in_use s" and "key s = k"
  shows "keys_unique in_use key (ss[i := s])"
    "slot_map in_use key (ss[i := s]) = ((slot_map in_use key ss)(key (ss ! i) := None))(k \<mapsto> s)"
    "used_count in_use (ss[i := s]) = used_count in_use ss"
proof -
  let ?t = "ss[i := blank]"
  note u = unique_clear[OF assms(1), of i] and m = map_clear[OF assms(1-3)]
  have t: "?t[i := s] = ss[i := s]" by simp
  have i: "i < length ?t" "\<not> in_use (?t ! i)" using assms(2) blank_free by simp_all
  have k: "slot_map in_use key ?t k = None" using assms(4) by (simp add: m)
  have other: "key (?t ! j) \<noteq> key s" if "j < length ?t" "j \<noteq> i" "in_use (?t ! j)" for j
    using that k assms(6) unfolding slot_map_None_iff by blast
  show "keys_unique in_use key (ss[i := s])"
    unfolding t[symmetric] by (rule unique_store[OF u i(1) other])
  show "slot_map in_use key (ss[i := s]) = ((slot_map in_use key ss)(key (ss ! i) := None))(k \<mapsto> s)"
    unfolding t[symmetric] m[symmetric] assms(6)[symmetric]
    by (rule map_store[OF u i(1) assms(5) _ other]) (use i(2) in simp)
  show "used_count in_use (ss[i := s]) = used_count in_use ss"
    by (rule count_refresh) (use assms(2,3,5) in simp_all)
qed

lemma unique_sweep:
  "keys_unique in_use key ss \<Longrightarrow> keys_unique in_use key (sweep dead blank ss)"
  using blank_free by (auto simp: keys_unique_def nth_sweep)

lemma map_sweep:
  assumes "keys_unique in_use key ss"
  shows "slot_map in_use key (sweep dead blank ss) k =
    (case slot_map in_use key ss k of None \<Rightarrow> None | Some s \<Rightarrow> if dead s then None else Some s)"
proof (rule option_eqI)
  fix x
  have "(\<exists>j<length (sweep dead blank ss). sweep dead blank ss ! j = x \<and> in_use x \<and> key x = k) \<longleftrightarrow>
      (\<exists>j<length ss. ss ! j = x \<and> in_use x \<and> key x = k) \<and> \<not> dead x"
    using blank_free by (auto simp: nth_sweep split: if_splits)
  then have "slot_map in_use key (sweep dead blank ss) k = Some x \<longleftrightarrow>
      slot_map in_use key ss k = Some x \<and> \<not> dead x"
    unfolding slot_map_Some_iff[OF unique_sweep[OF assms]] slot_map_Some_iff[OF assms] .
  then show "slot_map in_use key (sweep dead blank ss) k = Some x \<longleftrightarrow>
      (case slot_map in_use key ss k of None \<Rightarrow> None | Some s \<Rightarrow> if dead s then None else Some s)
        = Some x"
    by (auto split: option.splits)
qed

lemma count_sweep:
  "used_count in_use (sweep dead blank ss) + length (filter (\<lambda>s. in_use s \<and> dead s) ss)
     = used_count in_use ss"
  using blank_free by (induction ss) (auto simp: used_count_def sweep_def)

lemma card_dom_map:
  assumes "keys_unique in_use key ss"
  shows "card (dom (slot_map in_use key ss)) = used_count in_use ss"
proof -
  let ?I = "{i. i < length ss \<and> in_use (ss ! i)}"
  have "dom (slot_map in_use key ss) = (\<lambda>i. key (ss ! i)) ` ?I"
    using slot_map_None_iff[of in_use key ss] by (auto simp: dom_def)
  moreover have "inj_on (\<lambda>i. key (ss ! i)) ?I"
    using keys_uniqueD[OF assms] by (auto intro: inj_onI)
  ultimately show ?thesis
    by (simp add: card_image used_count_def length_filter_conv_card)
qed

end

subsection \<open>Removal by shifting down\<close>

text \<open>
  The loop that closes the gap after a removal: from position \<open>j\<close> on, each of the first \<open>n\<close>
  cells receives a copy (made with \<open>cp\<close>) of the next one.
\<close>

function shift_down :: "('a \<Rightarrow> 'a) \<Rightarrow> nat \<Rightarrow> nat \<Rightarrow> 'a list \<Rightarrow> 'a list" where
  "shift_down cp j n xs =
     (if j + 1 < n then shift_down cp (j + 1) n (xs[j := cp (xs ! (j + 1))]) else xs)"
  by pat_completeness auto
termination shift_down
  by (relation "measure (\<lambda>(cp, j, n, xs). n - j)") auto

declare shift_down.simps [simp del]

lemma shift_down_spec:
  "length (shift_down cp j n xs) = length xs \<and>
   (n \<le> length xs \<longrightarrow> (\<forall>k<length xs. shift_down cp j n xs ! k =
      (if j \<le> k \<and> k + 1 < n then cp (xs ! (k + 1)) else xs ! k)))"
proof (induction cp j n xs rule: shift_down.induct)
  case (1 cp j n xs)
  show ?case
  proof (cases "j + 1 < n")
    case True
    have eq: "shift_down cp j n xs = shift_down cp (j + 1) n (xs[j := cp (xs ! (j + 1))])"
      using True by (simp add: shift_down.simps)
    show ?thesis unfolding eq using 1[OF True] True by (auto simp: nth_list_update not_less_eq_eq le_antisym)
  next
    case False
    then have "shift_down cp j n xs = xs" by (simp add: shift_down.simps)
    then show ?thesis using False by auto
  qed
qed

definition remove_nth :: "nat \<Rightarrow> 'a list \<Rightarrow> 'a list" where
  "remove_nth i xs = take i xs @ drop (Suc i) xs"

lemma length_remove_nth: "i < length xs \<Longrightarrow> length (remove_nth i xs) = length xs - 1"
  by (simp add: remove_nth_def)

lemma nth_remove_nth:
  "i < length xs \<Longrightarrow> k < length xs - 1 \<Longrightarrow>
     remove_nth i xs ! k = (if k < i then xs ! k else xs ! (k + 1))"
  by (auto simp: remove_nth_def nth_append min_def)

lemma set_remove_nth_distinct:
  assumes "i < length xs" and "distinct (map f xs)"
  shows "set (remove_nth i xs) = {x \<in> set xs. f x \<noteq> f (xs ! i)}"
proof -
  have split: "xs = take i xs @ xs ! i # drop (Suc i) xs" using assms(1) by (rule id_take_nth_drop)
  have s: "set xs = set (take i xs) \<union> {xs ! i} \<union> set (drop (Suc i) xs)"
    by (subst split) auto
  have "distinct (map f (take i xs @ xs ! i # drop (Suc i) xs))"
    using assms(2) split by simp
  then have "f (xs ! i) \<notin> f ` set (take i xs)" "f (xs ! i) \<notin> f ` set (drop (Suc i) xs)" by auto
  then show ?thesis unfolding remove_nth_def s by (auto simp: image_iff)
qed

lemma distinct_remove_nth:
  "distinct (map f xs) \<Longrightarrow> distinct (map f (remove_nth i xs))"
proof (cases "i < length xs")
  case True
  then have "xs = take i xs @ xs ! i # drop (Suc i) xs" by (rule id_take_nth_drop)
  moreover assume "distinct (map f xs)"
  ultimately have "distinct (map f (take i xs @ xs ! i # drop (Suc i) xs))" by simp
  then show ?thesis by (auto simp: remove_nth_def)
qed (simp add: remove_nth_def)

lemma shift_remove:
  assumes san: "\<And>x. x \<in> set xs \<Longrightarrow> cp x = x" and i: "i < length xs" and n: "length xs \<le> n"
  shows "(shift_down cp i (length xs) (packed b n xs))[length xs - 1 := b] = packed b n (remove_nth i xs)"
    (is "?l[_ := _] = ?r")
proof (rule nth_equalityI)
  let ?p = "packed b n xs"
  have lp: "length ?p = n" using n by (rule length_packed)
  note spec = shift_down_spec[of cp i "length xs" ?p]
  have lr: "length ?r = n" using n i by (simp add: length_packed length_remove_nth)
  show "length (?l[length xs - 1 := b]) = length ?r" using spec lp lr by simp
  fix k assume "k < length (?l[length xs - 1 := b])"
  then have k: "k < n" using spec lp by simp
  have rk: "?r ! k = (if k < length xs - 1 then remove_nth i xs ! k else b)"
    using k i by (auto simp: packed_def nth_append length_remove_nth)
  have pk: "?p ! m = (if m < length xs then xs ! m else b)" if "m < n" for m
    using that by (auto simp: packed_def nth_append)
  have lk: "?l ! k = (if i \<le> k \<and> k + 1 < length xs then cp (?p ! (k + 1)) else ?p ! k)"
    using spec n lp k by simp
  consider "k = length xs - 1" | "k < length xs - 1" | "length xs - 1 < k" by linarith
  then show "?l[length xs - 1 := b] ! k = ?r ! k"
  proof cases
    case 2
    then show ?thesis
      using lk rk pk[of k] pk[of "k + 1"] k n san[of "xs ! (k + 1)"] i spec lp
      by (auto simp: nth_remove_nth)
  qed (use lk rk pk[of k] k i spec lp n in \<open>auto simp: nth_list_update\<close>)
qed

end
