(* ===== verification/BN_Hash.thy ===== *)
theory BN_Hash
  imports BN_Prelude
begin

text \<open>
  The FNV-1a hash the firmware uses as the checksum of its persistent blobs, as the device
  identifier of a MAC address and as the hash of a flow key, and the little-endian byte
  encodings of the blob fields.  The hash is a bijection of its 32-bit state for every input
  byte, so two inputs of equal length that differ in exactly one byte never collide.
\<close>

definition fnv1a_step :: "u32 \<Rightarrow> u8 \<Rightarrow> u32" where
  "fnv1a_step hash b = (hash XOR ucast b) * 16777619"

definition fnv1a32_update :: "u32 \<Rightarrow> bytes \<Rightarrow> u32" where
  "fnv1a32_update hash data = foldl fnv1a_step hash data"

definition FNV_OFFSET :: u32 where
  "FNV_OFFSET = 2166136261"

lemma fnv1a32_update_append:
  "fnv1a32_update h (xs @ ys) = fnv1a32_update (fnv1a32_update h xs) ys"
  by (simp add: fnv1a32_update_def)

lemma fnv_prime_cancel: "(x :: u32) * 16777619 * 899433627 = x"
proof -
  have "x * 16777619 * 899433627 = x * (16777619 * 899433627)" by (simp only: mult.assoc)
  also have "(16777619 * 899433627 :: u32) = 1" by simp
  finally show ?thesis by simp
qed

lemma fnv_prime_inj: "(x :: u32) * 16777619 = y * 16777619 \<Longrightarrow> x = y"
  using fnv_prime_cancel by metis

lemma xor_right_inj: "(x :: 'a::len word) XOR z = y XOR z \<Longrightarrow> x = y"
  by (metis xor.assoc xor_self_eq xor.right_neutral)

lemma fnv1a_step_inj_state: "fnv1a_step h b = fnv1a_step k b \<Longrightarrow> h = k"
  unfolding fnv1a_step_def by (drule fnv_prime_inj) (rule xor_right_inj)

lemma ucast_u8_u32_u8: "(ucast (ucast (b :: u8) :: u32) :: u8) = b"
  by (rule bit_word_eqI) (simp add: bit_simps)

lemma fnv1a_step_inj_byte: "fnv1a_step h b = fnv1a_step h c \<Longrightarrow> b = c"
proof -
  assume "fnv1a_step h b = fnv1a_step h c"
  then have "h XOR ucast b = h XOR (ucast c :: u32)"
    unfolding fnv1a_step_def by (rule fnv_prime_inj)
  then have "(ucast b :: u32) = ucast c"
    by (metis xor.commute xor_right_inj)
  then show "b = c"
    by (metis ucast_u8_u32_u8)
qed

lemma fnv1a32_update_inj_state: "fnv1a32_update h xs = fnv1a32_update k xs \<Longrightarrow> h = k"
proof (induction xs arbitrary: h k)
  case Nil
  then show ?case by (simp add: fnv1a32_update_def)
next
  case (Cons x xs)
  then have "fnv1a32_update (fnv1a_step h x) xs = fnv1a32_update (fnv1a_step k x) xs"
    by (simp add: fnv1a32_update_def)
  from fnv1a_step_inj_state[OF Cons.IH[OF this]] show ?case .
qed

lemma fnv1a32_one_byte:
  assumes "fnv1a32_update h (xs @ b # ys) = fnv1a32_update h (xs @ c # ys)"
  shows "b = c"
proof -
  have "fnv1a32_update (fnv1a_step (fnv1a32_update h xs) b) ys
      = fnv1a32_update (fnv1a_step (fnv1a32_update h xs) c) ys"
    using assms by (simp add: fnv1a32_update_def)
  then have "fnv1a_step (fnv1a32_update h xs) b = fnv1a_step (fnv1a32_update h xs) c"
    by (rule fnv1a32_update_inj_state)
  then show ?thesis by (rule fnv1a_step_inj_byte)
qed

text \<open>A buffer in which exactly one byte was overwritten hashes to another value.\<close>

lemma fnv1a32_detects_update:
  assumes "i < length xs" and "xs ! i \<noteq> b"
  shows "fnv1a32_update h (xs[i := b]) \<noteq> fnv1a32_update h xs"
proof
  assume eq: "fnv1a32_update h (xs[i := b]) = fnv1a32_update h xs"
  have "xs[i := b] = take i xs @ b # drop (Suc i) xs"
    using assms(1) by (simp add: upd_conv_take_nth_drop)
  moreover have "xs = take i xs @ xs ! i # drop (Suc i) xs"
    using assms(1) by (simp add: id_take_nth_drop)
  ultimately have "fnv1a32_update h (take i xs @ b # drop (Suc i) xs)
      = fnv1a32_update h (take i xs @ xs ! i # drop (Suc i) xs)"
    using eq by metis
  then have "b = xs ! i" by (rule fnv1a32_one_byte)
  with assms(2) show False by simp
qed

subsection \<open>Little-endian fields\<close>

definition le16 :: "u16 \<Rightarrow> bytes" where
  "le16 v = [ucast (v AND 0xFF), ucast (drop_bit 8 v AND 0xFF)]"

definition le32 :: "u32 \<Rightarrow> bytes" where
  "le32 v = [ucast (v AND 0xFF), ucast (drop_bit 8 v AND 0xFF),
             ucast (drop_bit 16 v AND 0xFF), ucast (drop_bit 24 v AND 0xFF)]"

definition of_le16 :: "bytes \<Rightarrow> u16" where
  "of_le16 bs = ucast (rd bs 0) OR push_bit 8 (ucast (rd bs 1))"

definition of_le32 :: "bytes \<Rightarrow> u32" where
  "of_le32 bs = ucast (rd bs 0) OR push_bit 8 (ucast (rd bs 1))
     OR push_bit 16 (ucast (rd bs 2)) OR push_bit 24 (ucast (rd bs 3))"

lemma length_le16 [simp, bn_len]: "length (le16 v) = 2"
  by (simp add: le16_def)

lemma length_le32 [simp, bn_len]: "length (le32 v) = 4"
  by (simp add: le32_def)

lemma and_255_u16: "(v :: u16) AND 0xFF = take_bit 8 v"
  by (simp add: take_bit_eq_mask mask_eq_exp_minus_1)

lemma and_255_u32: "(v :: u32) AND 0xFF = take_bit 8 v"
  by (simp add: take_bit_eq_mask mask_eq_exp_minus_1)

lemma of_le16_le16 [simp]: "of_le16 (le16 v @ rest) = v"
  by (rule bit_word_eqI) (auto simp: of_le16_def le16_def rd_def bit_simps and_255_u16 not_less)

lemma of_le32_le32 [simp]: "of_le32 (le32 v @ rest) = v"
proof (rule bit_word_eqI)
  fix n assume "n < LENGTH(32)"
  then consider "n < 8" | "8 \<le> n" "n < 16" | "16 \<le> n" "n < 24" | "24 \<le> n" "n < 32"
    by fastforce
  then show "bit (of_le32 (le32 v @ rest)) n \<longleftrightarrow> bit v n"
    by cases (auto simp: of_le32_def le32_def rd_def bit_simps and_255_u32 nth_Cons')
qed

lemma le16_inj: "le16 v = le16 w \<Longrightarrow> v = w"
  by (metis of_le16_le16)

lemma le32_inj: "le32 v = le32 w \<Longrightarrow> v = w"
  by (metis of_le32_le32)

subsection \<open>Checksum at the end of a blob\<close>

text \<open>
  Both persistent tables end in the FNV-1a hash of everything before it.  \<open>sealed_ok n\<close> is the
  comparison the loaders make: the word stored at offset \<open>n\<close> against the hash of the first
  \<open>n\<close> bytes.
\<close>

definition seal :: "bytes \<Rightarrow> bytes" where
  "seal body = body @ le32 (fnv1a32_update FNV_OFFSET body)"

definition sealed_ok :: "nat \<Rightarrow> bytes \<Rightarrow> bool" where
  "sealed_ok n raw \<longleftrightarrow> of_le32 (drop n raw) = fnv1a32_update FNV_OFFSET (take n raw)"

lemma length_seal [simp, bn_len]: "length (seal body) = length body + 4"
  by (simp add: seal_def)

lemma of_le32_le32_end [simp]: "of_le32 (le32 v) = v"
  using of_le32_le32[of v "[]"] by simp

lemma sealed_ok_seal [simp]: "sealed_ok (length body) (seal body)"
  by (simp add: sealed_ok_def seal_def)

lemma le32_of_le32: "length xs = 4 \<Longrightarrow> le32 (of_le32 xs) = xs"
proof -
  assume "length xs = 4"
  then obtain a b c d where xs: "xs = [a, b, c, d]"
    by (auto simp: length_Suc_conv numeral_eq_Suc)
  have "ucast (of_le32 [a,b,c,d] AND 0xFF) = a"
    "ucast (drop_bit 8 (of_le32 [a,b,c,d]) AND 0xFF) = b"
    "ucast (drop_bit 16 (of_le32 [a,b,c,d]) AND 0xFF) = c"
    "ucast (drop_bit 24 (of_le32 [a,b,c,d]) AND 0xFF) = d"
    by (rule bit_word_eqI;
        auto simp: of_le32_def rd_def and_255_u32 bit_simps dest: bit_imp_le_length; fail)+
  then show ?thesis by (simp add: le32_def xs)
qed

lemma of_le32_inj: "length xs = 4 \<Longrightarrow> length ys = 4 \<Longrightarrow> of_le32 xs = of_le32 ys \<Longrightarrow> xs = ys"
  by (metis le32_of_le32)

text \<open>Overwriting any one byte of a sealed blob, the checksum included, is detected.\<close>

lemma seal_detects_update:
  assumes "i < length (seal body)" and "seal body ! i \<noteq> v"
  shows "\<not> sealed_ok (length body) ((seal body)[i := v])"
proof (cases "i < length body")
  case True
  then have "body ! i \<noteq> v" using assms(2) by (simp add: seal_def nth_append)
  from fnv1a32_detects_update[OF True this, of FNV_OFFSET] True show ?thesis
    by (auto simp: sealed_ok_def seal_def list_update_append)
next
  case False
  let ?c = "le32 (fnv1a32_update FNV_OFFSET body)" and ?j = "i - length body"
  have j: "?j < 4" using assms(1) False by simp
  have "?c ! ?j \<noteq> v" using assms(2) False by (simp add: seal_def nth_append)
  then have ne: "?c[?j := v] \<noteq> ?c" using j by (metis nth_list_update_eq length_le32)
  have "of_le32 (?c[?j := v]) \<noteq> of_le32 ?c"
    using of_le32_inj[of "?c[?j := v]" ?c] ne by auto
  then show ?thesis using False by (simp add: sealed_ok_def seal_def list_update_append)
qed

end
