(* ===== verification/BN_Refine.thy ===== *)
theory BN_Refine
  imports BN_Prelude
begin

text \<open>
  Refinement of a module by its specification.  The firmware's modules are libraries: a client
  calls operations one after the other and sees their results.  \<open>run\<close> is such a sequence of
  calls; the locale \<open>refinement\<close> is the contract between a module (\<open>cstep\<close> on its C state) and
  its specification (\<open>astep\<close> on an abstract state), and gives, once for all modules, that every
  legal sequence of calls shows a client the results of the specification.
\<close>

primrec run :: "('op \<Rightarrow> 's \<Rightarrow> 'r \<times> 's) \<Rightarrow> 'op list \<Rightarrow> 's \<Rightarrow> 'r list \<times> 's" where
  "run step [] s = ([], s)"
| "run step (x # xs) s =
     (case step x s of (r, s1) \<Rightarrow> (case run step xs s1 of (rs, s2) \<Rightarrow> (r # rs, s2)))"

lemma run_Cons_simp:
  "run step (x # xs) s =
     (fst (step x s) # fst (run step xs (snd (step x s))), snd (run step xs (snd (step x s))))"
  by (simp split: prod.splits)

lemma run_append:
  "run step (xs @ ys) s =
     (fst (run step xs s) @ fst (run step ys (snd (run step xs s))),
      snd (run step ys (snd (run step xs s))))"
  by (induction xs arbitrary: s) (simp_all add: run_Cons_simp del: run.simps(2))

text \<open>A module invariant: every legal call keeps it.\<close>

locale module_invariant =
  fixes inv :: "'c \<Rightarrow> bool"
    and legal :: "'op \<Rightarrow> bool"
    and cstep :: "'op \<Rightarrow> 'c \<Rightarrow> 'r \<times> 'c"
  assumes step_inv: "inv c \<Longrightarrow> legal x \<Longrightarrow> inv (snd (cstep x c))"
begin

lemma run_inv: "inv c \<Longrightarrow> list_all legal xs \<Longrightarrow> inv (snd (run cstep xs c))"
  by (induction xs arbitrary: c) (simp_all add: run_Cons_simp step_inv del: run.simps(2))

end

locale refinement = module_invariant inv legal cstep
  for inv :: "'c \<Rightarrow> bool" and legal :: "'op \<Rightarrow> bool" and cstep :: "'op \<Rightarrow> 'c \<Rightarrow> 'r \<times> 'c" +
  fixes abs :: "'c \<Rightarrow> 'a"
    and astep :: "'op \<Rightarrow> 'a \<Rightarrow> 'r \<times> 'a"
  assumes step_sim: "inv c \<Longrightarrow> legal x \<Longrightarrow>
    astep x (abs c) = (fst (cstep x c), abs (snd (cstep x c)))"
begin

lemma run_sim:
  "inv c \<Longrightarrow> list_all legal xs \<Longrightarrow>
     run astep xs (abs c) = (fst (run cstep xs c), abs (snd (run cstep xs c)))"
  by (induction xs arbitrary: c) (simp_all add: run_Cons_simp step_sim step_inv del: run.simps(2))

end

end
