(* ===== verification/Flow_Table.thy ===== *)
theory Flow_Table
  imports BN_Slots BN_Hash BN_Refine
begin

text \<open>
  The table of observed flows (\<open>flow_table.c\<close>): 128 slots searched by the five-tuple, with
  least-recently-used eviction, idle and age expiry, and counters.  Every operation runs inside
  one critical section and is one function on the module state.  \<open>ts\<close> is the value of
  \<open>now_ms\<close> the call reads.
\<close>

abbreviation FLOW_TABLE_MAX_ENTRIES :: nat where "FLOW_TABLE_MAX_ENTRIES \<equiv> 128"

datatype flow_direction =
    FLOW_DIRECTION_UNKNOWN
  | FLOW_DIRECTION_ZONE_TO_UPLINK
  | FLOW_DIRECTION_UPLINK_TO_ZONE
  | FLOW_DIRECTION_ZONE_TO_ZONE

datatype flow_state =
    FLOW_STATE_EMPTY
  | FLOW_STATE_ACTIVE
  | FLOW_STATE_QUARANTINED
  | FLOW_STATE_BLOCKED
  | FLOW_STATE_EXPIRED

datatype flow_touch_result =
    FLOW_TOUCH_CREATED
  | FLOW_TOUCH_UPDATED
  | FLOW_TOUCH_EVICTED_OLD_ENTRY
  | FLOW_TOUCH_FAILED_TABLE_DISABLED
  | FLOW_TOUCH_FAILED_INVALID_ARG

record flow_key =
  fk_src_ip :: u32
  fk_dst_ip :: u32
  fk_src_port :: u16
  fk_dst_port :: u16
  fk_proto :: u8

record flow_entry =
  fe_key :: flow_key
  fe_direction :: flow_direction
  fe_state :: flow_state
  fe_packets :: u64
  fe_bytes :: u64
  fe_first_seen_ms :: u32
  fe_last_seen_ms :: u32
  fe_last_policy_action :: u32
  fe_flags :: u32
  fe_risk_score :: u8
  fe_reserved :: bytes

record flow_table_config =
  ftc_max_idle_ms :: u32
  ftc_hard_ttl_ms :: u32
  ftc_evict_lru_when_full :: bool

record flow_table_stats =
  fts_capacity :: u32
  fts_active_entries :: u32
  fts_total_packets :: u64
  fts_total_bytes :: u64
  fts_created_flows :: u64
  fts_updated_flows :: u64
  fts_evicted_flows :: u64
  fts_expired_flows :: u64
  fts_dropped_updates :: u64

record flow_slot =
  fs_in_use :: bool
  fs_entry :: flow_entry

text \<open>The static variables of the module.\<close>

record flow_table =
  ft_slots :: "flow_slot list"
  ft_config :: flow_table_config
  ft_stats :: flow_table_stats
  ft_initialized :: bool

definition flow_entry_zero :: flow_entry where
  "flow_entry_zero = \<lparr>
     fe_key = \<lparr> fk_src_ip = 0, fk_dst_ip = 0, fk_src_port = 0, fk_dst_port = 0, fk_proto = 0 \<rparr>,
     fe_direction = FLOW_DIRECTION_UNKNOWN, fe_state = FLOW_STATE_EMPTY, fe_packets = 0,
     fe_bytes = 0, fe_first_seen_ms = 0, fe_last_seen_ms = 0, fe_last_policy_action = 0,
     fe_flags = 0, fe_risk_score = 0, fe_reserved = [0, 0, 0] \<rparr>"

definition flow_slot_zero :: flow_slot where
  "flow_slot_zero = \<lparr> fs_in_use = False, fs_entry = flow_entry_zero \<rparr>"

definition flow_stats_zero :: flow_table_stats where
  "flow_stats_zero = \<lparr> fts_capacity = 0, fts_active_entries = 0, fts_total_packets = 0,
     fts_total_bytes = 0, fts_created_flows = 0, fts_updated_flows = 0, fts_evicted_flows = 0,
     fts_expired_flows = 0, fts_dropped_updates = 0 \<rparr>"

definition ft_load_default_config :: flow_table_config where
  "ft_load_default_config = \<lparr> ftc_max_idle_ms = 60000, ftc_hard_ttl_ms = 10 * 60000,
     ftc_evict_lru_when_full = True \<rparr>"

definition flow_table_key_equals :: "flow_key option \<Rightarrow> flow_key option \<Rightarrow> bool" where
  "flow_table_key_equals a b =
     (case (a, b) of
        (Some x, Some y) \<Rightarrow>
          fk_src_ip x = fk_src_ip y \<and> fk_dst_ip x = fk_dst_ip y \<and>
          fk_src_port x = fk_src_port y \<and> fk_dst_port x = fk_dst_port y \<and>
          fk_proto x = fk_proto y
      | _ \<Rightarrow> False)"

text \<open>
  The hash runs over all 16 bytes of the struct; \<open>pad\<close> holds the three padding bytes after
  \<open>proto\<close>.
\<close>

definition flow_table_hash_key :: "bytes \<Rightarrow> flow_key option \<Rightarrow> u32" where
  "flow_table_hash_key pad key =
     (case key of
        None \<Rightarrow> 0
      | Some k \<Rightarrow> fnv1a32_update 2166136261
          (le32 (fk_src_ip k) @ le32 (fk_dst_ip k) @ le16 (fk_src_port k) @ le16 (fk_dst_port k)
             @ [fk_proto k] @ pad))"

definition ft_find_existing_slot_locked :: "flow_key \<Rightarrow> flow_table \<Rightarrow> nat option" where
  "ft_find_existing_slot_locked key t =
     find_index (\<lambda>s. fs_in_use s \<and> flow_table_key_equals (Some (fe_key (fs_entry s))) (Some key))
       (ft_slots t)"

definition ft_find_empty_slot_locked :: "flow_table \<Rightarrow> nat option" where
  "ft_find_empty_slot_locked t = find_index (\<lambda>s. \<not> fs_in_use s) (ft_slots t)"

definition ft_find_lru_slot_locked :: "flow_table \<Rightarrow> nat option" where
  "ft_find_lru_slot_locked t =
     find_lru fs_in_use (\<lambda>s. fe_last_seen_ms (fs_entry s)) (ft_slots t)"

definition ft_clear_slot_locked :: "nat \<Rightarrow> flow_table \<Rightarrow> flow_table" where
  "ft_clear_slot_locked index t =
     (if index \<ge> FLOW_TABLE_MAX_ENTRIES then t
      else (let t1 = (if fs_in_use (ft_slots t ! index) \<and> fts_active_entries (ft_stats t) > 0
                      then t \<lparr> ft_stats := (ft_stats t)
                             \<lparr> fts_active_entries := fts_active_entries (ft_stats t) - 1 \<rparr> \<rparr>
                      else t)
            in t1 \<lparr> ft_slots := (ft_slots t1)[index := flow_slot_zero] \<rparr>))"

definition ft_create_entry_locked ::
  "nat \<Rightarrow> flow_key \<Rightarrow> flow_direction \<Rightarrow> u32 \<Rightarrow> u32 \<Rightarrow> flow_table \<Rightarrow> flow_table" where
  "ft_create_entry_locked index key direction bytes ts t =
     (let entry = flow_entry_zero \<lparr> fe_key := key, fe_direction := direction,
            fe_state := FLOW_STATE_ACTIVE, fe_packets := 1, fe_bytes := ucast bytes,
            fe_first_seen_ms := ts, fe_last_seen_ms := ts \<rparr>;
          st = ft_stats t
      in t \<lparr> ft_slots := (ft_slots t)[index := \<lparr> fs_in_use = True, fs_entry = entry \<rparr>],
             ft_stats := st \<lparr> fts_active_entries := fts_active_entries st + 1,
               fts_total_packets := fts_total_packets st + 1,
               fts_total_bytes := fts_total_bytes st + ucast bytes,
               fts_created_flows := fts_created_flows st + 1 \<rparr> \<rparr>)"

definition ft_update_entry_locked ::
  "nat \<Rightarrow> flow_direction \<Rightarrow> u32 \<Rightarrow> u32 \<Rightarrow> flow_table \<Rightarrow> flow_table" where
  "ft_update_entry_locked index direction bytes ts t =
     (let slot = ft_slots t ! index;
          e = fs_entry slot;
          e = e \<lparr> fe_direction := direction, fe_packets := fe_packets e + 1,
                  fe_bytes := fe_bytes e + ucast bytes, fe_last_seen_ms := ts \<rparr>;
          e = (if fe_state e = FLOW_STATE_EMPTY \<or> fe_state e = FLOW_STATE_EXPIRED
               then e \<lparr> fe_state := FLOW_STATE_ACTIVE \<rparr> else e);
          st = ft_stats t
      in t \<lparr> ft_slots := (ft_slots t)[index := slot \<lparr> fs_entry := e \<rparr>],
             ft_stats := st \<lparr> fts_total_packets := fts_total_packets st + 1,
               fts_total_bytes := fts_total_bytes st + ucast bytes,
               fts_updated_flows := fts_updated_flows st + 1 \<rparr> \<rparr>)"

definition flow_table_init :: "flow_table_config option \<Rightarrow> flow_table \<Rightarrow> esp_err \<times> flow_table" where
  "flow_table_init config t =
     (let cfg = (case config of
           None \<Rightarrow> ft_load_default_config
         | Some c \<Rightarrow>
             c \<lparr> ftc_max_idle_ms := (if ftc_max_idle_ms c = 0 then 60000 else ftc_max_idle_ms c),
                 ftc_hard_ttl_ms :=
                   (if ftc_hard_ttl_ms c = 0 then 10 * 60000 else ftc_hard_ttl_ms c) \<rparr>)
      in (ESP_OK, \<lparr> ft_slots = replicate FLOW_TABLE_MAX_ENTRIES flow_slot_zero, ft_config = cfg,
            ft_stats = flow_stats_zero \<lparr> fts_capacity := 128 \<rparr>, ft_initialized = True \<rparr>))"

definition flow_table_reset :: "flow_table \<Rightarrow> flow_table" where
  "flow_table_reset t =
     t \<lparr> ft_slots := replicate FLOW_TABLE_MAX_ENTRIES flow_slot_zero,
         ft_stats := flow_stats_zero \<lparr> fts_capacity := 128 \<rparr> \<rparr>"

text \<open>\<open>out_entry\<close> is the cell behind the optional output pointer.\<close>

definition flow_table_touch ::
  "flow_key option \<Rightarrow> flow_direction \<Rightarrow> u32 \<Rightarrow> flow_entry option \<Rightarrow> u32 \<Rightarrow> flow_table
     \<Rightarrow> flow_touch_result \<times> flow_entry option \<times> flow_table" where
  "flow_table_touch key direction bytes out_entry ts t =
     (case key of
        None \<Rightarrow> (FLOW_TOUCH_FAILED_INVALID_ARG, out_entry, t)
      | Some k \<Rightarrow>
          if \<not> ft_initialized t then (FLOW_TOUCH_FAILED_TABLE_DISABLED, out_entry, t)
          else (case ft_find_existing_slot_locked k t of
              Some i \<Rightarrow>
                (let t1 = ft_update_entry_locked i direction bytes ts t
                 in (FLOW_TOUCH_UPDATED, map_option (\<lambda>_. fs_entry (ft_slots t1 ! i)) out_entry, t1))
            | None \<Rightarrow>
                (case ft_find_empty_slot_locked t of
                   Some i \<Rightarrow>
                     (let t1 = ft_create_entry_locked i k direction bytes ts t
                      in (FLOW_TOUCH_CREATED,
                          map_option (\<lambda>_. fs_entry (ft_slots t1 ! i)) out_entry, t1))
                 | None \<Rightarrow>
                     if \<not> ftc_evict_lru_when_full (ft_config t)
                     then (FLOW_TOUCH_FAILED_TABLE_DISABLED, out_entry,
                       t \<lparr> ft_stats := (ft_stats t)
                         \<lparr> fts_dropped_updates := fts_dropped_updates (ft_stats t) + 1 \<rparr> \<rparr>)
                     else (case ft_find_lru_slot_locked t of
                         None \<Rightarrow> (FLOW_TOUCH_FAILED_TABLE_DISABLED, out_entry,
                           t \<lparr> ft_stats := (ft_stats t)
                             \<lparr> fts_dropped_updates := fts_dropped_updates (ft_stats t) + 1 \<rparr> \<rparr>)
                       | Some i \<Rightarrow>
                           (let t1 = ft_clear_slot_locked i t;
                                t2 = t1 \<lparr> ft_stats := (ft_stats t1)
                                  \<lparr> fts_evicted_flows := fts_evicted_flows (ft_stats t1) + 1 \<rparr> \<rparr>;
                                t3 = ft_create_entry_locked i k direction bytes ts t2
                            in (FLOW_TOUCH_EVICTED_OLD_ENTRY,
                                map_option (\<lambda>_. fs_entry (ft_slots t3 ! i)) out_entry, t3))))))"

definition flow_table_find ::
  "flow_key option \<Rightarrow> flow_entry option \<Rightarrow> flow_table \<Rightarrow> bool \<times> flow_entry option" where
  "flow_table_find key out_entry t =
     (case (key, out_entry) of
        (Some k, Some out) \<Rightarrow>
          if \<not> ft_initialized t then (False, out_entry)
          else (case ft_find_existing_slot_locked k t of
              None \<Rightarrow> (False, out_entry)
            | Some i \<Rightarrow> (True, Some (fs_entry (ft_slots t ! i))))
      | _ \<Rightarrow> (False, out_entry))"

text \<open>The common body of the three setters: update the entry of the flow, if there is one.\<close>

definition ft_modify :: "flow_key option \<Rightarrow> (flow_entry \<Rightarrow> flow_entry) \<Rightarrow> flow_table \<Rightarrow> bool \<times> flow_table" where
  "ft_modify key f t =
     (case key of
        None \<Rightarrow> (False, t)
      | Some k \<Rightarrow>
          if \<not> ft_initialized t then (False, t)
          else (case ft_find_existing_slot_locked k t of
              None \<Rightarrow> (False, t)
            | Some i \<Rightarrow>
                (True, t \<lparr> ft_slots := (ft_slots t)
                   [i := (ft_slots t ! i) \<lparr> fs_entry := f (fs_entry (ft_slots t ! i)) \<rparr>] \<rparr>)))"

definition flow_table_set_state :: "flow_key option \<Rightarrow> flow_state \<Rightarrow> flow_table \<Rightarrow> bool \<times> flow_table" where
  "flow_table_set_state key state t = ft_modify key (\<lambda>e. e \<lparr> fe_state := state \<rparr>) t"

definition flow_table_set_risk :: "flow_key option \<Rightarrow> u8 \<Rightarrow> flow_table \<Rightarrow> bool \<times> flow_table" where
  "flow_table_set_risk key risk_score t =
     (let risk_score = (if risk_score > 100 then 100 else risk_score)
      in ft_modify key (\<lambda>e. e \<lparr> fe_risk_score := risk_score \<rparr>) t)"

definition flow_table_set_policy_action ::
  "flow_key option \<Rightarrow> u32 \<Rightarrow> flow_table \<Rightarrow> bool \<times> flow_table" where
  "flow_table_set_policy_action key action t =
     ft_modify key (\<lambda>e. e \<lparr> fe_last_policy_action := action \<rparr>) t"

definition ft_entry_expired :: "u32 \<Rightarrow> flow_table_config \<Rightarrow> flow_entry \<Rightarrow> bool" where
  "ft_entry_expired ts config e \<longleftrightarrow>
     ts - fe_last_seen_ms e > ftc_max_idle_ms config \<or> ts - fe_first_seen_ms e > ftc_hard_ttl_ms config"

definition ft_expire_step :: "u32 \<Rightarrow> nat \<Rightarrow> flow_table \<times> u32 \<Rightarrow> flow_table \<times> u32" where
  "ft_expire_step ts i st =
     (case st of (t, expired) \<Rightarrow>
        if \<not> fs_in_use (ft_slots t ! i) then (t, expired)
        else if ft_entry_expired ts (ft_config t) (fs_entry (ft_slots t ! i))
        then (ft_clear_slot_locked i t, expired + 1)
        else (t, expired))"

definition flow_table_expire_old :: "u32 \<Rightarrow> flow_table \<Rightarrow> u32 \<times> flow_table" where
  "flow_table_expire_old ts t =
     (if \<not> ft_initialized t then (0, t)
      else (case fold (ft_expire_step ts) [0..<FLOW_TABLE_MAX_ENTRIES] (t, 0) of
          (t1, expired) \<Rightarrow>
            (expired, t1 \<lparr> ft_stats := (ft_stats t1)
               \<lparr> fts_expired_flows := fts_expired_flows (ft_stats t1) + ucast expired \<rparr> \<rparr>)))"

definition flow_table_get_stats :: "flow_table \<Rightarrow> flow_table_stats" where
  "flow_table_get_stats t = ft_stats t"

text \<open>
  The entries handed to the callback, in order; the callback does not see the table change
  while it runs.
\<close>

definition flow_table_foreach :: "flow_table \<Rightarrow> flow_entry list" where
  "flow_table_foreach t =
     (if \<not> ft_initialized t then [] else map fs_entry (filter fs_in_use (ft_slots t)))"

subsection \<open>Invariant\<close>

definition fs_key :: "flow_slot \<Rightarrow> flow_key" where
  "fs_key s = fe_key (fs_entry s)"

interpretation fslots: keyed_slots fs_in_use flow_slot_zero fs_key
  by unfold_locales (simp add: flow_slot_zero_def)

definition ft_used :: "flow_table \<Rightarrow> nat" where
  "ft_used t = used_count fs_in_use (ft_slots t)"

text \<open>
  The table represents a map; its counter of active entries is the number of occupied slots;
  and no flow is lost from the books: created = active + evicted + expired, and every counted
  packet created or updated a flow.
\<close>

definition ft_stats_ok :: "nat \<Rightarrow> flow_table_stats \<Rightarrow> bool" where
  "ft_stats_ok used st \<longleftrightarrow>
     fts_active_entries st = of_nat used \<and>
     fts_created_flows st = of_nat used + fts_evicted_flows st + fts_expired_flows st \<and>
     fts_total_packets st = fts_created_flows st + fts_updated_flows st"

definition ft_wf :: "flow_table \<Rightarrow> bool" where
  "ft_wf t \<longleftrightarrow> length (ft_slots t) = FLOW_TABLE_MAX_ENTRIES \<and>
     keys_unique fs_in_use fs_key (ft_slots t) \<and> ft_stats_ok (ft_used t) (ft_stats t)"

definition ft_abs :: "flow_table \<Rightarrow> flow_key \<rightharpoonup> flow_entry" where
  "ft_abs t k = map_option fs_entry (slot_map fs_in_use fs_key (ft_slots t) k)"

lemma ft_used_le: "ft_wf t \<Longrightarrow> ft_used t \<le> FLOW_TABLE_MAX_ENTRIES"
  using fslots.count_le[of "ft_slots t"] by (simp add: ft_wf_def ft_used_def)

lemma key_equals_iff [simp]: "flow_table_key_equals (Some a) (Some b) \<longleftrightarrow> a = b"
  by (cases a; cases b) (simp add: flow_table_key_equals_def)

lemma ft_find_existing_eq:
  "ft_find_existing_slot_locked k t = find_index (\<lambda>s. fs_in_use s \<and> fs_key s = k) (ft_slots t)"
  by (simp add: ft_find_existing_slot_locked_def fs_key_def)

lemma ft_find_existing_SomeD:
  assumes "ft_find_existing_slot_locked k t = Some i"
  shows "i < length (ft_slots t)" "fs_in_use (ft_slots t ! i)" "fs_key (ft_slots t ! i) = k"
    "ft_abs t k = Some (fs_entry (ft_slots t ! i))"
  using find_index_SomeD[OF assms[unfolded ft_find_existing_eq]]
    find_index_slot_map(1)[OF assms[unfolded ft_find_existing_eq]]
  by (simp_all add: ft_abs_def)

lemma ft_find_existing_None:
  "ft_find_existing_slot_locked k t = None \<longleftrightarrow> ft_abs t k = None"
  using find_index_slot_map(2)[of fs_in_use fs_key k "ft_slots t"]
  by (simp add: ft_find_existing_eq ft_abs_def)

lemma ft_absent_keys:
  "ft_abs t k = None \<Longrightarrow> j < length (ft_slots t) \<Longrightarrow> fs_in_use (ft_slots t ! j) \<Longrightarrow>
     fs_key (ft_slots t ! j) \<noteq> k"
  by (simp add: ft_abs_def slot_map_None_iff)

text \<open>Replacing the entry of an occupied slot by one with the same key.\<close>

lemma ft_refresh:
  assumes "ft_wf t" and "i < length (ft_slots t)" and "fs_in_use (ft_slots t ! i)"
    and "fe_key e = fs_key (ft_slots t ! i)"
    and "slots = (ft_slots t)[i := (ft_slots t ! i) \<lparr> fs_entry := e \<rparr>]"
  shows "keys_unique fs_in_use fs_key slots" "used_count fs_in_use slots = ft_used t"
    "length slots = FLOW_TABLE_MAX_ENTRIES"
    "map_option fs_entry (slot_map fs_in_use fs_key slots k) = ((ft_abs t)(fe_key e \<mapsto> e)) k"
proof -
  let ?s = "(ft_slots t ! i) \<lparr> fs_entry := e \<rparr>"
  have u: "keys_unique fs_in_use fs_key (ft_slots t)" using assms(1) by (simp add: ft_wf_def)
  have k: "fs_key ?s = fs_key (ft_slots t ! i)" using assms(4) by (simp add: fs_key_def)
  have other: "fs_key (ft_slots t ! j) \<noteq> fs_key ?s"
    if "j < length (ft_slots t)" "j \<noteq> i" "fs_in_use (ft_slots t ! j)" for j
    using keys_uniqueD[OF u that(1) assms(2) that(3) assms(3)] that(2) k by auto
  show "keys_unique fs_in_use fs_key slots"
    unfolding assms(5) by (rule fslots.unique_store[OF u assms(2) other])
  show "used_count fs_in_use slots = ft_used t"
    unfolding assms(5) ft_used_def using assms(2) by (intro fslots.count_refresh) simp_all
  show "length slots = FLOW_TABLE_MAX_ENTRIES" using assms(1,5) by (simp add: ft_wf_def)
  have "slot_map fs_in_use fs_key slots = (slot_map fs_in_use fs_key (ft_slots t))(fs_key ?s \<mapsto> ?s)"
    unfolding assms(5)
    by (rule fslots.map_store[OF u assms(2) _ _ other]) (use assms(3) k in simp_all)
  then show "map_option fs_entry (slot_map fs_in_use fs_key slots k) = ((ft_abs t)(fe_key e \<mapsto> e)) k"
    using k assms(4) by (auto simp: ft_abs_def)
qed

text \<open>Filling a free slot with a flow that is not in the table.\<close>

lemma ft_fill:
  assumes "ft_wf t" and "i < length (ft_slots t)" and "\<not> fs_in_use (ft_slots t ! i)"
    and "ft_abs t (fe_key e) = None"
    and "slots = (ft_slots t)[i := \<lparr> fs_in_use = True, fs_entry = e \<rparr>]"
  shows "keys_unique fs_in_use fs_key slots" "used_count fs_in_use slots = Suc (ft_used t)"
    "length slots = FLOW_TABLE_MAX_ENTRIES"
    "map_option fs_entry (slot_map fs_in_use fs_key slots k) = ((ft_abs t)(fe_key e \<mapsto> e)) k"
proof -
  let ?s = "\<lparr> fs_in_use = True, fs_entry = e \<rparr>"
  have u: "keys_unique fs_in_use fs_key (ft_slots t)" using assms(1) by (simp add: ft_wf_def)
  have k: "fs_key ?s = fe_key e" by (simp add: fs_key_def)
  have other: "fs_key (ft_slots t ! j) \<noteq> fs_key ?s"
    if "j < length (ft_slots t)" "j \<noteq> i" "fs_in_use (ft_slots t ! j)" for j
    using ft_absent_keys[OF assms(4) that(1,3)] k by simp
  show "keys_unique fs_in_use fs_key slots"
    unfolding assms(5) by (rule fslots.unique_store[OF u assms(2) other])
  show "used_count fs_in_use slots = Suc (ft_used t)"
    unfolding assms(5) ft_used_def using assms(2,3) by (intro fslots.count_fill) simp_all
  show "length slots = FLOW_TABLE_MAX_ENTRIES" using assms(1,5) by (simp add: ft_wf_def)
  have "slot_map fs_in_use fs_key slots = (slot_map fs_in_use fs_key (ft_slots t))(fs_key ?s \<mapsto> ?s)"
    unfolding assms(5)
    by (rule fslots.map_store[OF u assms(2) _ _ other]) (use assms(3) in simp_all)
  then show "map_option fs_entry (slot_map fs_in_use fs_key slots k) = ((ft_abs t)(fe_key e \<mapsto> e)) k"
    using k by (auto simp: ft_abs_def)
qed

definition ft_new_entry :: "flow_key \<Rightarrow> flow_direction \<Rightarrow> u32 \<Rightarrow> u32 \<Rightarrow> flow_entry" where
  "ft_new_entry key direction bytes ts = flow_entry_zero \<lparr> fe_key := key, fe_direction := direction,
     fe_state := FLOW_STATE_ACTIVE, fe_packets := 1, fe_bytes := ucast bytes,
     fe_first_seen_ms := ts, fe_last_seen_ms := ts \<rparr>"

definition ft_touched_entry :: "flow_direction \<Rightarrow> u32 \<Rightarrow> u32 \<Rightarrow> flow_entry \<Rightarrow> flow_entry" where
  "ft_touched_entry direction bytes ts e =
     e \<lparr> fe_direction := direction, fe_packets := fe_packets e + 1,
         fe_bytes := fe_bytes e + ucast bytes, fe_last_seen_ms := ts,
         fe_state := (if fe_state e = FLOW_STATE_EMPTY \<or> fe_state e = FLOW_STATE_EXPIRED
                      then FLOW_STATE_ACTIVE else fe_state e) \<rparr>"

lemma fe_key_touched [simp]: "fe_key (ft_touched_entry d b ts e) = fe_key e"
  by (simp add: ft_touched_entry_def)

lemma fe_key_new [simp]: "fe_key (ft_new_entry k d b ts) = k"
  by (simp add: ft_new_entry_def)

lemma ft_update_entry_slots:
  "ft_slots (ft_update_entry_locked i d b ts t) =
     (ft_slots t)[i := (ft_slots t ! i)
        \<lparr> fs_entry := ft_touched_entry d b ts (fs_entry (ft_slots t ! i)) \<rparr>]"
  by (simp add: ft_update_entry_locked_def Let_def ft_touched_entry_def)

lemma ft_create_entry_slots:
  "ft_slots (ft_create_entry_locked i k d b ts t) =
     (ft_slots t)[i := \<lparr> fs_in_use = True, fs_entry = ft_new_entry k d b ts \<rparr>]"
  by (simp add: ft_create_entry_locked_def Let_def ft_new_entry_def)

lemma ft_update_entry:
  assumes "ft_wf t" and "ft_find_existing_slot_locked k t = Some i"
    and "t' = ft_update_entry_locked i d b ts t"
  shows "ft_wf t'"
    "ft_abs t' = (ft_abs t)(k \<mapsto> ft_touched_entry d b ts (fs_entry (ft_slots t ! i)))"
    "ft_slots t' ! i
      = (ft_slots t ! i) \<lparr> fs_entry := ft_touched_entry d b ts (fs_entry (ft_slots t ! i)) \<rparr>"
proof -
  let ?e = "ft_touched_entry d b ts (fs_entry (ft_slots t ! i))"
  note i = ft_find_existing_SomeD[OF assms(2)]
  have sl: "ft_slots t' = (ft_slots t)[i := (ft_slots t ! i) \<lparr> fs_entry := ?e \<rparr>]"
    using assms(3) ft_update_entry_slots by simp
  have k: "fe_key ?e = fs_key (ft_slots t ! i)" by (simp add: fs_key_def)
  note r = ft_refresh[OF assms(1) i(1,2) k sl]
  have "ft_stats_ok (ft_used t) (ft_stats t')"
    using assms(1) by (simp add: assms(3) ft_wf_def ft_stats_ok_def ft_update_entry_locked_def Let_def)
  then show "ft_wf t'" using r by (simp add: ft_wf_def ft_used_def)
  show "ft_abs t' = (ft_abs t)(k \<mapsto> ?e)"
    using r(4) k i(3) by (simp add: ft_abs_def fun_eq_iff)
  show "ft_slots t' ! i = (ft_slots t ! i) \<lparr> fs_entry := ?e \<rparr>" using sl i(1) by simp
qed

lemma ft_create_entry:
  assumes "length (ft_slots t) = FLOW_TABLE_MAX_ENTRIES" and "keys_unique fs_in_use fs_key (ft_slots t)"
    and "ft_stats_ok (ft_used t) (ft_stats t)"
    and "i < length (ft_slots t)" and "\<not> fs_in_use (ft_slots t ! i)" and "ft_abs t k = None"
    and "t' = ft_create_entry_locked i k d b ts t"
  shows "ft_wf t'" "ft_abs t' = (ft_abs t)(k \<mapsto> ft_new_entry k d b ts)"
    "ft_slots t' ! i = \<lparr> fs_in_use = True, fs_entry = ft_new_entry k d b ts \<rparr>"
proof -
  let ?e = "ft_new_entry k d b ts"
  have wf: "ft_wf t" using assms(1-3) by (simp add: ft_wf_def)
  have sl: "ft_slots t' = (ft_slots t)[i := \<lparr> fs_in_use = True, fs_entry = ?e \<rparr>]"
    using assms(7) ft_create_entry_slots by simp
  have "ft_abs t (fe_key ?e) = None" using assms(6) by simp
  note f = ft_fill[OF wf assms(4,5) this sl]
  have "ft_stats_ok (Suc (ft_used t)) (ft_stats t')"
    using assms(3) by (simp add: assms(7) ft_stats_ok_def ft_create_entry_locked_def Let_def)
  then show "ft_wf t'" using f by (simp add: ft_wf_def ft_used_def)
  show "ft_abs t' = (ft_abs t)(k \<mapsto> ?e)" using f(4) by (simp add: ft_abs_def fun_eq_iff)
  show "ft_slots t' ! i = \<lparr> fs_in_use = True, fs_entry = ?e \<rparr>" using sl assms(4) by simp
qed

text \<open>Clearing an occupied slot: one entry fewer, the other flows untouched.\<close>

lemma ft_clear_slot:
  assumes "length (ft_slots t) = FLOW_TABLE_MAX_ENTRIES" and "keys_unique fs_in_use fs_key (ft_slots t)"
    and "fts_active_entries (ft_stats t) = of_nat (ft_used t)"
    and "i < length (ft_slots t)" and "fs_in_use (ft_slots t ! i)"
    and "t' = ft_clear_slot_locked i t"
  shows "ft_slots t' = (ft_slots t)[i := flow_slot_zero]"
    "keys_unique fs_in_use fs_key (ft_slots t')" "Suc (ft_used t') = ft_used t"
    "ft_stats t' = (ft_stats t) \<lparr> fts_active_entries := of_nat (ft_used t') \<rparr>"
    "ft_config t' = ft_config t" "ft_initialized t' = ft_initialized t"
    "ft_abs t' = (ft_abs t)(fs_key (ft_slots t ! i) := None)"
proof -
  have pos: "0 < ft_used t" unfolding ft_used_def by (rule fslots.count_pos[OF assms(4,5)])
  have le: "ft_used t \<le> FLOW_TABLE_MAX_ENTRIES"
    using fslots.count_le[of "ft_slots t"] assms(1) by (simp add: ft_used_def)
  have "unat (of_nat (ft_used t) :: u32) = ft_used t" using le by (simp add: unat_of_nat)
  then have act: "fts_active_entries (ft_stats t) > 0"
    using pos assms(3) by (simp add: word_less_nat_alt)
  show sl: "ft_slots t' = (ft_slots t)[i := flow_slot_zero]"
    and cfg: "ft_config t' = ft_config t" "ft_initialized t' = ft_initialized t"
    using assms by (simp_all add: ft_clear_slot_locked_def Let_def)
  show "keys_unique fs_in_use fs_key (ft_slots t')"
    unfolding sl by (rule fslots.unique_clear[OF assms(2)])
  show s: "Suc (ft_used t') = ft_used t"
    unfolding ft_used_def sl by (rule fslots.count_clear[OF assms(4,5)])
  have "fts_active_entries (ft_stats t) - 1 = of_nat (ft_used t')"
    using assms(3) s by (metis add_diff_cancel_left' of_nat_Suc)
  then show "ft_stats t' = (ft_stats t) \<lparr> fts_active_entries := of_nat (ft_used t') \<rparr>"
    using assms(1,4,5,6) act by (simp add: ft_clear_slot_locked_def Let_def)
  show "ft_abs t' = (ft_abs t)(fs_key (ft_slots t ! i) := None)"
    unfolding ft_abs_def sl fslots.map_clear[OF assms(2,4,5)] by (auto simp: fun_eq_iff)
qed

lemma ft_table_eq:
  fixes t u :: flow_table
  shows "ft_config t = ft_config u \<Longrightarrow> ft_initialized t = ft_initialized u \<Longrightarrow>
     t \<lparr> ft_slots := ss, ft_stats := st \<rparr> = u \<lparr> ft_slots := ss, ft_stats := st \<rparr>"
  by (cases t; cases u) simp

subsection \<open>Eviction\<close>

lemma ft_evict:
  assumes "ft_wf t" and "ft_find_lru_slot_locked t = Some i" and "ft_abs t k = None"
    and "t1 = ft_clear_slot_locked i t"
    and "t2 = t1 \<lparr> ft_stats := (ft_stats t1)
      \<lparr> fts_evicted_flows := fts_evicted_flows (ft_stats t1) + 1 \<rparr> \<rparr>"
    and "t3 = ft_create_entry_locked i k d b ts t2"
  shows "ft_wf t3"
    "\<exists>v e. ft_abs t v = Some e \<and>
       (\<forall>w e'. ft_abs t w = Some e' \<longrightarrow> fe_last_seen_ms e \<le> fe_last_seen_ms e') \<and>
       ft_abs t3 = ((ft_abs t)(v := None))(k \<mapsto> ft_new_entry k d b ts)"
    "ft_slots t3 ! i = \<lparr> fs_in_use = True, fs_entry = ft_new_entry k d b ts \<rparr>"
proof -
  have wf: "length (ft_slots t) = FLOW_TABLE_MAX_ENTRIES" "keys_unique fs_in_use fs_key (ft_slots t)"
    "ft_stats_ok (ft_used t) (ft_stats t)" using assms(1) by (simp_all add: ft_wf_def)
  note lru = find_lru_SomeD[OF assms(2)[unfolded ft_find_lru_slot_locked_def]]
  have i: "i < length (ft_slots t)" "fs_in_use (ft_slots t ! i)" using lru by simp_all
  have act: "fts_active_entries (ft_stats t) = of_nat (ft_used t)"
    using wf(3) by (simp add: ft_stats_ok_def)
  note c = ft_clear_slot[OF wf(1,2) act i assms(4)]
  let ?v = "fs_key (ft_slots t ! i)" and ?e = "fs_entry (ft_slots t ! i)"
  have v: "ft_abs t ?v = Some ?e"
    using slot_map_Some_iff[OF wf(2), of ?v "ft_slots t ! i"] i by (auto simp: ft_abs_def)
  have old: "fe_last_seen_ms ?e \<le> fe_last_seen_ms e'" if w: "ft_abs t w = Some e'" for w e'
  proof -
    obtain s where s: "slot_map fs_in_use fs_key (ft_slots t) w = Some s" "e' = fs_entry s"
      using w by (auto simp: ft_abs_def)
    then have "s \<in> set (ft_slots t)" "fs_in_use s" using slot_map_SomeD[OF s(1)] by auto
    with lru s(2) show ?thesis by blast
  qed
  have abs2: "ft_abs t2 = (ft_abs t)(?v := None)" using c(7) by (simp add: assms(5) ft_abs_def fun_eq_iff)
  have sl2: "ft_slots t2 = (ft_slots t)[i := flow_slot_zero]" using c(1) by (simp add: assms(5))
  have len2: "length (ft_slots t2) = FLOW_TABLE_MAX_ENTRIES" using sl2 wf(1) by simp
  have u2: "keys_unique fs_in_use fs_key (ft_slots t2)" using c(2) by (simp add: assms(5))
  have used: "ft_used t2 = ft_used t1" by (simp add: ft_used_def assms(5))
  have st2: "ft_stats_ok (ft_used t2) (ft_stats t2)"
    using wf(3)[folded c(3)] c(4) by (simp add: ft_stats_ok_def used) (simp add: assms(5))
  have i2: "i < length (ft_slots t2)" "\<not> fs_in_use (ft_slots t2 ! i)"
    using i(1) by (simp_all add: sl2 flow_slot_zero_def)
  have k2: "ft_abs t2 k = None" using assms(3) by (simp add: abs2)
  note n = ft_create_entry[OF len2 u2 st2 i2 k2 assms(6)]
  show "ft_wf t3" by (rule n(1))
  show "ft_slots t3 ! i = \<lparr> fs_in_use = True, fs_entry = ft_new_entry k d b ts \<rparr>" by (rule n(3))
  show "\<exists>v e. ft_abs t v = Some e \<and>
       (\<forall>w e'. ft_abs t w = Some e' \<longrightarrow> fe_last_seen_ms e \<le> fe_last_seen_ms e') \<and>
       ft_abs t3 = ((ft_abs t)(v := None))(k \<mapsto> ft_new_entry k d b ts)"
    using v old n(2) abs2 by (intro exI[of _ ?v] exI[of _ ?e]) auto
qed

lemma ft_stats_only:
  "ft_wf t \<Longrightarrow> ft_wf (t \<lparr> ft_stats := (ft_stats t) \<lparr> fts_dropped_updates := x \<rparr> \<rparr>)"
  "ft_abs (t \<lparr> ft_stats := y \<rparr>) = ft_abs t"
  by (simp_all add: ft_wf_def ft_stats_ok_def ft_used_def ft_abs_def fun_eq_iff)

lemma ft_touch_wf:
  assumes "ft_wf t"
  shows "ft_wf (snd (snd (flow_table_touch key d b out ts t)))"
proof -
  have wf: "length (ft_slots t) = FLOW_TABLE_MAX_ENTRIES" "keys_unique fs_in_use fs_key (ft_slots t)"
    "ft_stats_ok (ft_used t) (ft_stats t)" using assms by (simp_all add: ft_wf_def)
  show ?thesis
  proof (cases key)
    case None
    then show ?thesis using assms by (simp add: flow_table_touch_def)
  next
    case (Some k)
    have new: "ft_wf (ft_create_entry_locked i k d b ts t)"
      if "ft_find_existing_slot_locked k t = None" "ft_find_empty_slot_locked t = Some i" for i
      using ft_create_entry(1)[OF wf _ _ _ refl] fslots.free_slot_fresh that
      by (simp add: ft_find_existing_None ft_find_empty_slot_locked_def)
    show ?thesis
      using assms ft_update_entry(1)[OF assms] new ft_evict(1)[OF assms _ _ refl refl refl]
        ft_stats_only(1)[OF assms]
      by (auto simp: Some flow_table_touch_def Let_def ft_find_existing_None split: option.splits)
  qed
qed

subsection \<open>Expiry\<close>

definition ft_dead :: "u32 \<Rightarrow> flow_table_config \<Rightarrow> flow_slot \<Rightarrow> bool" where
  "ft_dead ts cfg s \<longleftrightarrow> fs_in_use s \<and> ft_entry_expired ts cfg (fs_entry s)"

text \<open>The module's loop does to the slots what the plain sweep does, and keeps the counter.\<close>

lemma ft_expire_fold:
  assumes "length (ft_slots t) = FLOW_TABLE_MAX_ENTRIES" and "keys_unique fs_in_use fs_key (ft_slots t)"
    and "fts_active_entries (ft_stats t) = of_nat (ft_used t)"
    and "\<forall>i\<in>set is. i < FLOW_TABLE_MAX_ENTRIES"
  shows "fold (ft_expire_step ts) is (t, n) =
    (case fold (sweep_step (ft_dead ts (ft_config t)) flow_slot_zero) is (ft_slots t, n) of
       (ss, m) \<Rightarrow> (t \<lparr> ft_slots := ss, ft_stats := (ft_stats t)
          \<lparr> fts_active_entries := of_nat (used_count fs_in_use ss) \<rparr> \<rparr>, m))"
  using assms
proof (induction "is" arbitrary: t n)
  case Nil
  then show ?case by (simp add: ft_used_def)
next
  case (Cons i "is")
  show ?case
  proof (cases "ft_dead ts (ft_config t) (ft_slots t ! i)")
    case True
    let ?t = "ft_clear_slot_locked i t"
    have i: "i < length (ft_slots t)" "fs_in_use (ft_slots t ! i)"
      using Cons.prems True by (simp_all add: ft_dead_def)
    note c = ft_clear_slot[OF Cons.prems(1-3) i refl]
    have "length (ft_slots ?t) = FLOW_TABLE_MAX_ENTRIES"
      "fts_active_entries (ft_stats ?t) = of_nat (ft_used ?t)"
      "\<forall>i\<in>set is. i < FLOW_TABLE_MAX_ENTRIES" using c Cons.prems by simp_all
    note ih = Cons.IH[OF this(1) c(2) this(2,3)]
    have e: "ft_expire_step ts i (t, n) = (?t, n + 1)"
      using True by (simp add: ft_expire_step_def ft_dead_def)
    have "?t \<lparr> ft_slots := ss, ft_stats := (ft_stats ?t) \<lparr> fts_active_entries := x \<rparr> \<rparr>
        = t \<lparr> ft_slots := ss, ft_stats := (ft_stats t) \<lparr> fts_active_entries := x \<rparr> \<rparr>" for ss x
      unfolding c(4) using ft_table_eq[OF c(5,6)] by simp
    then show ?thesis using True ih e c(1,5) by (simp add: sweep_step_def split: prod.splits)
  next
    case False
    then have "ft_expire_step ts i (t, n) = (t, n)"
      by (auto simp: ft_expire_step_def ft_dead_def)
    with False Cons.IH[of t n] Cons.prems show ?thesis by (simp add: sweep_step_def)
  qed
qed

lemma ft_expire_old:
  assumes "ft_wf t" and "ft_initialized t" and "flow_table_expire_old ts t = (n, t')"
  shows "ft_wf t'" "unat n + ft_used t' = ft_used t" "ft_config t' = ft_config t" "ft_initialized t'"
    "ft_abs t' k = (case ft_abs t k of None \<Rightarrow> None
       | Some e \<Rightarrow> if ft_entry_expired ts (ft_config t) e then None else Some e)"
proof -
  let ?dead = "ft_dead ts (ft_config t)" and ?ss = "ft_slots t"
  let ?sw = "sweep ?dead flow_slot_zero ?ss" and ?c = "length (filter ?dead ?ss)"
  have wf: "length ?ss = FLOW_TABLE_MAX_ENTRIES" "keys_unique fs_in_use fs_key ?ss"
    "ft_stats_ok (ft_used t) (ft_stats t)" using assms(1) by (simp_all add: ft_wf_def)
  have act: "fts_active_entries (ft_stats t) = of_nat (ft_used t)"
    using wf(3) by (simp add: ft_stats_ok_def)
  have "fold (sweep_step ?dead flow_slot_zero) [0..<FLOW_TABLE_MAX_ENTRIES] (?ss, 0)
      = (?sw, of_nat ?c)" using sweep_loop[of ?dead flow_slot_zero ?ss] wf(1) by simp
  then have r: "n = of_nat ?c" "t' = t \<lparr> ft_slots := ?sw, ft_stats := (ft_stats t)
      \<lparr> fts_active_entries := of_nat (used_count fs_in_use ?sw),
        fts_expired_flows := fts_expired_flows (ft_stats t) + ucast (of_nat ?c :: u32) \<rparr> \<rparr>"
    using assms(2,3) ft_expire_fold[OF wf(1,2) act, of "[0..<FLOW_TABLE_MAX_ENTRIES]" ts 0]
    by (auto simp: flow_table_expire_old_def)
  have dead: "(\<lambda>s. fs_in_use s \<and> ?dead s) = ?dead" by (auto simp: ft_dead_def)
  have cnt: "used_count fs_in_use ?sw + ?c = ft_used t"
    using fslots.count_sweep[of ?dead ?ss] by (simp add: dead ft_used_def)
  then have le: "?c \<le> FLOW_TABLE_MAX_ENTRIES" using ft_used_le[OF assms(1)] by simp
  then have un: "unat (of_nat ?c :: u32) = ?c" by (simp add: unat_of_nat)
  have uc: "(ucast (of_nat ?c :: u32) :: u64) = of_nat ?c"
    using le by (intro ucast_of_nat_u64) simp
  show "unat n + ft_used t' = ft_used t" using cnt un by (simp add: r ft_used_def)
  show "ft_config t' = ft_config t" "ft_initialized t'" using assms(2) by (simp_all add: r)
  have "of_nat (used_count fs_in_use ?sw) + (of_nat ?c :: u64) = of_nat (ft_used t)"
    by (metis cnt of_nat_add)
  then have "ft_stats_ok (ft_used t') (ft_stats t')"
    using wf(3) by (simp add: ft_stats_ok_def r ft_used_def uc algebra_simps)
  then show "ft_wf t'"
    using wf(1) fslots.unique_sweep[OF wf(2), of ?dead] by (simp add: ft_wf_def r)
  show "ft_abs t' k = (case ft_abs t k of None \<Rightarrow> None
       | Some e \<Rightarrow> if ft_entry_expired ts (ft_config t) e then None else Some e)"
    using fslots.map_sweep[OF wf(2), of ?dead k] slot_map_SomeD[of fs_in_use fs_key ?ss k]
    by (auto simp: ft_abs_def r ft_dead_def split: option.splits)
qed

subsection \<open>Setters\<close>

lemma ft_modify:
  assumes "ft_wf t" and "\<And>e. fe_key (f e) = fe_key e" and "ft_modify (Some k) f t = (ok, t')"
  shows "ft_wf t'" "ft_config t' = ft_config t" "ft_initialized t' = ft_initialized t"
    "ok \<Longrightarrow> \<exists>e. ft_abs t k = Some e \<and> ft_abs t' = (ft_abs t)(k \<mapsto> f e)"
    "\<not> ok \<Longrightarrow> t' = t"
proof -
  have "ft_wf t' \<and> ft_config t' = ft_config t \<and> ft_initialized t' = ft_initialized t \<and>
    (ok \<longrightarrow> (\<exists>e. ft_abs t k = Some e \<and> ft_abs t' = (ft_abs t)(k \<mapsto> f e))) \<and> (\<not> ok \<longrightarrow> t' = t)"
  proof (cases "\<not> ft_initialized t \<or> ft_find_existing_slot_locked k t = None")
    case True
    then have "ok = False \<and> t' = t"
      using assms(3) by (auto simp: ft_modify_def split: if_splits option.splits)
    then show ?thesis using assms(1) by simp
  next
    case False
    then obtain i where fi: "ft_find_existing_slot_locked k t = Some i" by blast
    note i = ft_find_existing_SomeD[OF fi]
    let ?e = "f (fs_entry (ft_slots t ! i))"
    have t': "ok" "t' = t \<lparr> ft_slots := (ft_slots t)[i := (ft_slots t ! i) \<lparr> fs_entry := ?e \<rparr>] \<rparr>"
      using False fi assms(3) by (auto simp: ft_modify_def split: if_splits option.splits)
    have k: "fe_key ?e = fs_key (ft_slots t ! i)" using assms(2) by (simp add: fs_key_def)
    note r = ft_refresh[OF assms(1) i(1,2) k refl]
    have "ft_wf t'" using r(1-3) assms(1) by (simp add: ft_wf_def ft_used_def t')
    moreover have "ft_abs t' = (ft_abs t)(k \<mapsto> ?e)"
      unfolding fun_eq_iff ft_abs_def[of t'] using r(4) k i(3) by (simp add: t')
    ultimately show ?thesis using i(4) t' by auto
  qed
  then show "ft_wf t'" "ft_config t' = ft_config t" "ft_initialized t' = ft_initialized t"
    "ok \<Longrightarrow> \<exists>e. ft_abs t k = Some e \<and> ft_abs t' = (ft_abs t)(k \<mapsto> f e)"
    "\<not> ok \<Longrightarrow> t' = t" by blast+
qed

subsection \<open>Calls in sequence\<close>

datatype ft_op =
    Ft_init "flow_table_config option"
  | Ft_reset
  | Ft_touch "flow_key option" flow_direction u32 u32
  | Ft_set_state flow_key flow_state
  | Ft_set_risk flow_key u8
  | Ft_set_policy_action flow_key u32
  | Ft_expire u32

fun ft_step :: "ft_op \<Rightarrow> flow_table \<Rightarrow> unit \<times> flow_table" where
  "ft_step (Ft_init cfg) t = ((), snd (flow_table_init cfg t))"
| "ft_step Ft_reset t = ((), flow_table_reset t)"
| "ft_step (Ft_touch k d b ts) t = ((), snd (snd (flow_table_touch k d b None ts t)))"
| "ft_step (Ft_set_state k x) t = ((), snd (flow_table_set_state (Some k) x t))"
| "ft_step (Ft_set_risk k x) t = ((), snd (flow_table_set_risk (Some k) x t))"
| "ft_step (Ft_set_policy_action k x) t = ((), snd (flow_table_set_policy_action (Some k) x t))"
| "ft_step (Ft_expire ts) t = ((), snd (flow_table_expire_old ts t))"

lemma ft_blank_wf:
  "ft_wf \<lparr> ft_slots = replicate FLOW_TABLE_MAX_ENTRIES flow_slot_zero, ft_config = c,
     ft_stats = flow_stats_zero \<lparr> fts_capacity := 128 \<rparr>, ft_initialized = b \<rparr>"
  using fslots.unique_blank fslots.count_blank
  by (simp add: ft_wf_def ft_used_def ft_stats_ok_def flow_stats_zero_def)

lemma ft_step_wf:
  assumes "ft_wf t"
  shows "ft_wf (snd (ft_step x t))"
proof (cases x)
  case (Ft_init cfg)
  then show ?thesis using ft_blank_wf by (simp add: flow_table_init_def Let_def)
next
  case Ft_reset
  have "flow_table_reset t = \<lparr> ft_slots = replicate FLOW_TABLE_MAX_ENTRIES flow_slot_zero,
      ft_config = ft_config t, ft_stats = flow_stats_zero \<lparr> fts_capacity := 128 \<rparr>,
      ft_initialized = ft_initialized t \<rparr>" by (simp add: flow_table_reset_def)
  then show ?thesis using Ft_reset ft_blank_wf by simp
next
  case (Ft_touch k d b ts)
  then show ?thesis using ft_touch_wf[OF assms] by simp
next
  case (Ft_expire ts)
  then show ?thesis using assms ft_expire_old(1)[OF assms _ prod.collapse[symmetric]]
    by (cases "ft_initialized t") (simp_all add: flow_table_expire_old_def)
qed (use ft_modify(1)[OF assms _ prod.collapse[symmetric]] in
  \<open>simp_all add: flow_table_set_state_def flow_table_set_risk_def
     flow_table_set_policy_action_def\<close>)

interpretation flow: module_invariant ft_wf "\<lambda>x. True" ft_step
  by unfold_locales (rule ft_step_wf)

definition ft_fresh :: flow_table where
  "ft_fresh = \<lparr> ft_slots = replicate FLOW_TABLE_MAX_ENTRIES flow_slot_zero,
     ft_config = ft_load_default_config, ft_stats = flow_stats_zero \<lparr> fts_capacity := 128 \<rparr>,
     ft_initialized = True \<rparr>"

definition k0 :: flow_key where
  "k0 = \<lparr> fk_src_ip = 1, fk_dst_ip = 2, fk_src_port = 3, fk_dst_port = 80, fk_proto = 6 \<rparr>"

lemma ft_fresh_facts:
  "ft_wf ft_fresh" "ft_initialized ft_fresh" "ft_abs ft_fresh = Map.empty" "ft_used ft_fresh = 0"
  using ft_blank_wf fslots.map_blank fslots.count_blank
  by (simp_all add: ft_fresh_def ft_abs_def ft_used_def fun_eq_iff)

lemma ft_fresh_touch:
  "ft_abs (snd (snd (flow_table_touch (Some k) d b None ts ft_fresh))) k
     = Some (ft_new_entry k d b ts)"
  "ft_initialized (snd (snd (flow_table_touch (Some k) d b None ts ft_fresh)))"
  "ft_config (snd (snd (flow_table_touch (Some k) d b None ts ft_fresh))) = ft_load_default_config"
proof -
  have wf: "length (ft_slots ft_fresh) = FLOW_TABLE_MAX_ENTRIES"
    "keys_unique fs_in_use fs_key (ft_slots ft_fresh)"
    "ft_stats_ok (ft_used ft_fresh) (ft_stats ft_fresh)"
    using ft_fresh_facts(1) by (simp_all add: ft_wf_def)
  have "\<exists>i. find_index (\<lambda>s. \<not> fs_in_use s) (ft_slots ft_fresh) = Some i"
    using fslots.free_slot_exists[of "ft_slots ft_fresh"] ft_fresh_facts(4) wf(1)
    by (simp add: ft_used_def)
  then obtain i where e: "ft_find_empty_slot_locked ft_fresh = Some i"
    by (auto simp: ft_find_empty_slot_locked_def)
  note i = fslots.free_slot_fresh[OF e[unfolded ft_find_empty_slot_locked_def]]
  have n: "ft_abs ft_fresh k = None" by (simp add: ft_fresh_facts)
  then have "flow_table_touch (Some k) d b None ts ft_fresh =
      (FLOW_TOUCH_CREATED, None, ft_create_entry_locked i k d b ts ft_fresh)"
    using e ft_find_existing_None[of k ft_fresh]
    by (simp add: flow_table_touch_def ft_fresh_facts(2))
  with ft_create_entry(2)[OF wf i n refl, of d b ts]
  show "ft_abs (snd (snd (flow_table_touch (Some k) d b None ts ft_fresh))) k
      = Some (ft_new_entry k d b ts)"
    "ft_initialized (snd (snd (flow_table_touch (Some k) d b None ts ft_fresh)))"
    "ft_config (snd (snd (flow_table_touch (Some k) d b None ts ft_fresh))) = ft_load_default_config"
    by (simp_all add: ft_create_entry_locked_def Let_def ft_fresh_def)
qed

subsection \<open>Properties\<close>

text \<open>After initialisation and any sequence of calls, the flow table holds at most one entry
  per five-tuple, its counter of active entries is the number of occupied slots, every flow ever
  created is still active, was evicted or has expired, and every counted packet created or
  updated a flow.\<close>

theorem flow_table_books_balance:
  "ft_wf (snd (run ft_step (Ft_init cfg # ops) t))"
proof -
  have "ft_wf (snd (ft_step (Ft_init cfg) t))"
    using ft_blank_wf by (simp add: flow_table_init_def Let_def)
  moreover have "list_all (\<lambda>x. True) ops" by (simp add: list_all_iff)
  ultimately show ?thesis
    using flow.run_inv by (simp add: run_Cons_simp del: run.simps(2) ft_step.simps)
qed



text \<open>Expiry removes exactly the flows that were idle longer than the idle limit or older than
  the hard limit (in 32-bit modular time), leaves every other flow as it was, and returns the
  number of removed flows.\<close>

theorem flow_table_expire_exact:
  assumes "ft_wf t" and "ft_initialized t" and "flow_table_expire_old ts t = (n, t')"
  shows "ft_abs t' k = (case ft_abs t k of None \<Rightarrow> None
      | Some e \<Rightarrow> if ts - fe_last_seen_ms e > ftc_max_idle_ms (ft_config t) \<or>
                   ts - fe_first_seen_ms e > ftc_hard_ttl_ms (ft_config t)
                 then None else Some e) \<and>
    card (dom (ft_abs t)) = unat n + card (dom (ft_abs t'))"
proof -
  note e = ft_expire_old[OF assms]
  have "dom (ft_abs u) = dom (slot_map fs_in_use fs_key (ft_slots u))" for u
    by (auto simp: ft_abs_def dom_def)
  then have "card (dom (ft_abs u)) = ft_used u" if "ft_wf u" for u
    using fslots.card_dom_map[of "ft_slots u"] that by (simp add: ft_wf_def ft_used_def)
  then show ?thesis using e(2) e(5)[of k, unfolded ft_entry_expired_def] e(1) assms(1) by simp
qed

theorem flow_table_expire_exact_witness:
  "ft_abs (snd (flow_table_expire_old 70000 (snd (snd (flow_table_touch (Some k0)
     FLOW_DIRECTION_ZONE_TO_UPLINK 60 None 5 ft_fresh))))) k0 = None"
proof -
  let ?t = "snd (snd (flow_table_touch (Some k0) FLOW_DIRECTION_ZONE_TO_UPLINK 60 None 5 ft_fresh))"
  note f = ft_fresh_touch[of k0 FLOW_DIRECTION_ZONE_TO_UPLINK 60 5]
  have wf: "ft_wf ?t" by (rule ft_touch_wf[OF ft_fresh_facts(1)])
  from flow_table_expire_exact[OF wf f(2) prod.collapse[symmetric], of 70000 k0] f show ?thesis
    by (simp add: ft_new_entry_def ft_load_default_config_def)
qed


end
