(* ===== verification/Quarantine_Manager.thy ===== *)
theory Quarantine_Manager
  imports Flow_Table BN_Refine
begin

text \<open>
  The quarantine list (\<open>quarantine_manager.c\<close>): 64 slots holding subjects (an address, a MAC or
  a device id) with a mode and an expiry time.  Each call is one critical section; the clock
  value it reads is the argument \<open>ts\<close>.  The union of the subject is the datatype below, with the
  tag as constructor; a MAC is its six bytes.
\<close>

abbreviation QUARANTINE_MAX_ENTRIES :: nat where "QUARANTINE_MAX_ENTRIES \<equiv> 64"
abbreviation QUARANTINE_REASON_LEN :: nat where "QUARANTINE_REASON_LEN \<equiv> 48"

datatype quarantine_subject =
    QUARANTINE_SUBJECT_NONE
  | QUARANTINE_SUBJECT_IP u32
  | QUARANTINE_SUBJECT_MAC bytes
  | QUARANTINE_SUBJECT_DEVICE_ID u32

datatype quarantine_mode =
  QUARANTINE_MODE_BLOCK_ALL | QUARANTINE_MODE_RESTRICTED | QUARANTINE_MODE_LOG_ONLY

datatype quarantine_source =
    QUARANTINE_SOURCE_LOCAL_POLICY
  | QUARANTINE_SOURCE_RATE_LIMIT
  | QUARANTINE_SOURCE_SWARM
  | QUARANTINE_SOURCE_MANUAL
  | QUARANTINE_SOURCE_UNKNOWN

record quarantine_entry =
  qe_subject :: quarantine_subject
  qe_mode :: quarantine_mode
  qe_source :: quarantine_source
  qe_created_at_ms :: u32
  qe_expires_at_ms :: u32
  qe_last_hit_ms :: u32
  qe_hit_count :: u32
  qe_risk_score :: u8
  qe_reason :: bytes

record quarantine_manager_config =
  qmc_default_ttl_ms :: u32
  qmc_evict_lru_when_full :: bool

record quarantine_check_result =
  qr_quarantined :: bool
  qr_mode :: quarantine_mode
  qr_source :: quarantine_source
  qr_expires_at_ms :: u32
  qr_remaining_ms :: u32
  qr_hit_count :: u32
  qr_risk_score :: u8
  qr_reason :: bytes

record quarantine_manager_stats =
  qst_capacity :: u32
  qst_active_entries :: u32
  qst_added :: u64
  qst_refreshed :: u64
  qst_removed :: u64
  qst_expired :: u64
  qst_hits :: u64
  qst_misses :: u64
  qst_evicted :: u64
  qst_invalid_input :: u64

record quarantine_slot =
  qs_in_use :: bool
  qs_entry :: quarantine_entry

record quarantine_manager =
  qm_slots :: "quarantine_slot list"
  qm_config :: quarantine_manager_config
  qm_stats :: quarantine_manager_stats
  qm_initialized :: bool

definition quarantine_entry_zero :: quarantine_entry where
  "quarantine_entry_zero = \<lparr> qe_subject = QUARANTINE_SUBJECT_NONE,
     qe_mode = QUARANTINE_MODE_BLOCK_ALL, qe_source = QUARANTINE_SOURCE_LOCAL_POLICY,
     qe_created_at_ms = 0, qe_expires_at_ms = 0, qe_last_hit_ms = 0, qe_hit_count = 0,
     qe_risk_score = 0, qe_reason = replicate QUARANTINE_REASON_LEN 0 \<rparr>"

definition quarantine_slot_zero :: quarantine_slot where
  "quarantine_slot_zero = \<lparr> qs_in_use = False, qs_entry = quarantine_entry_zero \<rparr>"

definition quarantine_stats_zero :: quarantine_manager_stats where
  "quarantine_stats_zero = \<lparr> qst_capacity = 0, qst_active_entries = 0, qst_added = 0,
     qst_refreshed = 0, qst_removed = 0, qst_expired = 0, qst_hits = 0, qst_misses = 0,
     qst_evicted = 0, qst_invalid_input = 0 \<rparr>"

definition quarantine_result_zero :: quarantine_check_result where
  "quarantine_result_zero = \<lparr> qr_quarantined = False, qr_mode = QUARANTINE_MODE_BLOCK_ALL,
     qr_source = QUARANTINE_SOURCE_LOCAL_POLICY, qr_expires_at_ms = 0, qr_remaining_ms = 0,
     qr_hit_count = 0, qr_risk_score = 0, qr_reason = replicate QUARANTINE_REASON_LEN 0 \<rparr>"

fun quarantine_mode_to_string :: "quarantine_mode \<Rightarrow> string" where
  "quarantine_mode_to_string QUARANTINE_MODE_BLOCK_ALL = ''BLOCK_ALL''"
| "quarantine_mode_to_string QUARANTINE_MODE_RESTRICTED = ''RESTRICTED''"
| "quarantine_mode_to_string QUARANTINE_MODE_LOG_ONLY = ''LOG_ONLY''"

fun quarantine_source_to_string :: "quarantine_source \<Rightarrow> string" where
  "quarantine_source_to_string QUARANTINE_SOURCE_LOCAL_POLICY = ''LOCAL_POLICY''"
| "quarantine_source_to_string QUARANTINE_SOURCE_RATE_LIMIT = ''RATE_LIMIT''"
| "quarantine_source_to_string QUARANTINE_SOURCE_SWARM = ''SWARM''"
| "quarantine_source_to_string QUARANTINE_SOURCE_MANUAL = ''MANUAL''"
| "quarantine_source_to_string QUARANTINE_SOURCE_UNKNOWN = ''UNKNOWN''"

definition qm_load_default_config :: quarantine_manager_config where
  "qm_load_default_config = \<lparr> qmc_default_ttl_ms = 60000, qmc_evict_lru_when_full = True \<rparr>"

definition quarantine_subject_from_ip :: "u32 \<Rightarrow> quarantine_subject" where
  "quarantine_subject_from_ip ip = QUARANTINE_SUBJECT_IP ip"

definition quarantine_subject_from_mac :: "bytes option \<Rightarrow> quarantine_subject" where
  "quarantine_subject_from_mac mac =
     QUARANTINE_SUBJECT_MAC (case mac of None \<Rightarrow> replicate 6 0 | Some m \<Rightarrow> take 6 m)"

definition quarantine_subject_from_device_id :: "u32 \<Rightarrow> quarantine_subject" where
  "quarantine_subject_from_device_id device_id = QUARANTINE_SUBJECT_DEVICE_ID device_id"

definition subject_is_valid :: "quarantine_subject option \<Rightarrow> bool" where
  "subject_is_valid subject =
     (case subject of
        Some (QUARANTINE_SUBJECT_IP ip) \<Rightarrow> ip \<noteq> 0
      | Some (QUARANTINE_SUBJECT_MAC mac) \<Rightarrow> take 6 mac \<noteq> replicate 6 0
      | Some (QUARANTINE_SUBJECT_DEVICE_ID device_id) \<Rightarrow> device_id \<noteq> 0
      | _ \<Rightarrow> False)"

fun subject_equals :: "quarantine_subject \<Rightarrow> quarantine_subject \<Rightarrow> bool" where
  "subject_equals (QUARANTINE_SUBJECT_IP a) (QUARANTINE_SUBJECT_IP b) = (a = b)"
| "subject_equals (QUARANTINE_SUBJECT_MAC a) (QUARANTINE_SUBJECT_MAC b) = (take 6 a = take 6 b)"
| "subject_equals (QUARANTINE_SUBJECT_DEVICE_ID a) (QUARANTINE_SUBJECT_DEVICE_ID b) = (a = b)"
| "subject_equals _ _ = False"

definition entry_is_expired :: "quarantine_entry \<Rightarrow> u32 \<Rightarrow> bool" where
  "entry_is_expired entry ts \<longleftrightarrow>
     (if qe_expires_at_ms entry = 0 then False else ts \<ge> qe_expires_at_ms entry)"

definition qm_find_slot_locked :: "quarantine_subject \<Rightarrow> quarantine_manager \<Rightarrow> nat option" where
  "qm_find_slot_locked subject q =
     find_index (\<lambda>s. qs_in_use s \<and> subject_equals (qe_subject (qs_entry s)) subject) (qm_slots q)"

definition qm_find_empty_slot_locked :: "quarantine_manager \<Rightarrow> nat option" where
  "qm_find_empty_slot_locked q = find_index (\<lambda>s. \<not> qs_in_use s) (qm_slots q)"

definition qm_find_lru_slot_locked :: "quarantine_manager \<Rightarrow> nat option" where
  "qm_find_lru_slot_locked q =
     find_lru qs_in_use
       (\<lambda>s. if qe_last_hit_ms (qs_entry s) = 0 then qe_created_at_ms (qs_entry s)
            else qe_last_hit_ms (qs_entry s)) (qm_slots q)"

definition qm_clear_slot_locked :: "nat \<Rightarrow> quarantine_manager \<Rightarrow> quarantine_manager" where
  "qm_clear_slot_locked index q =
     (if index \<ge> QUARANTINE_MAX_ENTRIES then q
      else (let st = qm_stats q in
        q \<lparr> qm_stats := (if qs_in_use (qm_slots q ! index) \<and> qst_active_entries st > 0
                        then st \<lparr> qst_active_entries := qst_active_entries st - 1 \<rparr> else st),
            qm_slots := (qm_slots q)[index := quarantine_slot_zero] \<rparr>))"

definition fill_check_result :: "quarantine_entry \<Rightarrow> u32 \<Rightarrow> quarantine_check_result" where
  "fill_check_result entry ts =
     \<lparr> qr_quarantined = True, qr_mode = qe_mode entry, qr_source = qe_source entry,
       qr_expires_at_ms = qe_expires_at_ms entry,
       qr_remaining_ms = (if qe_expires_at_ms entry = 0 \<or> qe_expires_at_ms entry \<le> ts then 0
                          else qe_expires_at_ms entry - ts),
       qr_hit_count = qe_hit_count entry, qr_risk_score = qe_risk_score entry,
       qr_reason = safe_copy (replicate QUARANTINE_REASON_LEN 0) QUARANTINE_REASON_LEN
         (Some (qe_reason entry)) \<rparr>"

definition quarantine_manager_init ::
  "quarantine_manager_config option \<Rightarrow> quarantine_manager \<Rightarrow> esp_err \<times> quarantine_manager" where
  "quarantine_manager_init config q =
     (ESP_OK, \<lparr> qm_slots = replicate QUARANTINE_MAX_ENTRIES quarantine_slot_zero,
        qm_config = (case config of
            None \<Rightarrow> qm_load_default_config
          | Some c \<Rightarrow> c \<lparr> qmc_default_ttl_ms :=
              (if qmc_default_ttl_ms c = 0 then 60000 else qmc_default_ttl_ms c) \<rparr>),
        qm_stats = quarantine_stats_zero \<lparr> qst_capacity := 64 \<rparr>, qm_initialized = True \<rparr>)"

definition quarantine_manager_reset :: "quarantine_manager \<Rightarrow> quarantine_manager" where
  "quarantine_manager_reset q =
     q \<lparr> qm_slots := replicate QUARANTINE_MAX_ENTRIES quarantine_slot_zero,
         qm_stats := quarantine_stats_zero \<lparr> qst_capacity := 64 \<rparr> \<rparr>"

text \<open>The entry written by the refresh branch and by the insert branch of \<open>quarantine_manager_add\<close>.\<close>

definition qm_refreshed_entry ::
  "quarantine_mode \<Rightarrow> quarantine_source \<Rightarrow> u32 \<Rightarrow> u8 \<Rightarrow> bytes option \<Rightarrow> u32 \<Rightarrow> quarantine_entry
     \<Rightarrow> quarantine_entry" where
  "qm_refreshed_entry mode source ttl_ms risk_score reason ts e =
     e \<lparr> qe_mode := mode, qe_source := source, qe_expires_at_ms := ts + ttl_ms,
         qe_risk_score := risk_score,
         qe_reason := safe_copy (qe_reason e) QUARANTINE_REASON_LEN reason \<rparr>"

definition qm_new_entry ::
  "quarantine_subject \<Rightarrow> quarantine_mode \<Rightarrow> quarantine_source \<Rightarrow> u32 \<Rightarrow> u8 \<Rightarrow> bytes option \<Rightarrow> u32
     \<Rightarrow> quarantine_entry" where
  "qm_new_entry subject mode source ttl_ms risk_score reason ts =
     quarantine_entry_zero \<lparr> qe_subject := subject, qe_mode := mode, qe_source := source,
       qe_created_at_ms := ts, qe_expires_at_ms := ts + ttl_ms, qe_risk_score := risk_score,
       qe_reason := safe_copy (replicate QUARANTINE_REASON_LEN 0) QUARANTINE_REASON_LEN reason \<rparr>"

definition qm_insert_at :: "nat \<Rightarrow> quarantine_entry \<Rightarrow> quarantine_manager \<Rightarrow> quarantine_manager" where
  "qm_insert_at slot e q =
     q \<lparr> qm_slots := (qm_slots q)[slot := \<lparr> qs_in_use = True, qs_entry = e \<rparr>],
         qm_stats := (qm_stats q) \<lparr> qst_active_entries := qst_active_entries (qm_stats q) + 1,
           qst_added := qst_added (qm_stats q) + 1 \<rparr> \<rparr>"

definition quarantine_manager_add ::
  "quarantine_subject option \<Rightarrow> quarantine_mode \<Rightarrow> quarantine_source \<Rightarrow> u32 \<Rightarrow> u8 \<Rightarrow> bytes option
     \<Rightarrow> u32 \<Rightarrow> quarantine_manager \<Rightarrow> esp_err \<times> quarantine_manager" where
  "quarantine_manager_add subject mode source ttl_ms risk_score reason ts q =
     (if \<not> qm_initialized q \<or> \<not> subject_is_valid subject
      then (ESP_ERR_INVALID_ARG,
        q \<lparr> qm_stats := (qm_stats q) \<lparr> qst_invalid_input := qst_invalid_input (qm_stats q) + 1 \<rparr> \<rparr>)
      else
       (let ttl_ms = (if ttl_ms = 0 then qmc_default_ttl_ms (qm_config q) else ttl_ms);
            risk_score = (if risk_score > 100 then 100 else risk_score);
            s = the subject;
            entry = qm_new_entry s mode source ttl_ms risk_score reason ts
        in case qm_find_slot_locked s q of
             Some slot \<Rightarrow>
               (ESP_OK, q \<lparr> qm_slots := (qm_slots q)[slot := (qm_slots q ! slot)
                    \<lparr> qs_entry := qm_refreshed_entry mode source ttl_ms risk_score reason ts
                        (qs_entry (qm_slots q ! slot)) \<rparr>],
                  qm_stats := (qm_stats q) \<lparr> qst_refreshed := qst_refreshed (qm_stats q) + 1 \<rparr> \<rparr>)
           | None \<Rightarrow>
               (case qm_find_empty_slot_locked q of
                  Some slot \<Rightarrow> (ESP_OK, qm_insert_at slot entry q)
                | None \<Rightarrow>
                    if \<not> qmc_evict_lru_when_full (qm_config q) then (ESP_ERR_NO_MEM, q)
                    else (case qm_find_lru_slot_locked q of
                        None \<Rightarrow> (ESP_ERR_NO_MEM, q)
                      | Some slot \<Rightarrow>
                          (let q1 = qm_clear_slot_locked slot q;
                               q2 = q1 \<lparr> qm_stats := (qm_stats q1)
                                 \<lparr> qst_evicted := qst_evicted (qm_stats q1) + 1 \<rparr> \<rparr>
                           in (ESP_OK, qm_insert_at slot entry q2))))))"

definition quarantine_manager_add_ip ::
  "u32 \<Rightarrow> quarantine_mode \<Rightarrow> quarantine_source \<Rightarrow> u32 \<Rightarrow> u8 \<Rightarrow> bytes option \<Rightarrow> u32
     \<Rightarrow> quarantine_manager \<Rightarrow> esp_err \<times> quarantine_manager" where
  "quarantine_manager_add_ip ip = quarantine_manager_add (Some (quarantine_subject_from_ip ip))"

definition quarantine_manager_add_mac ::
  "bytes option \<Rightarrow> quarantine_mode \<Rightarrow> quarantine_source \<Rightarrow> u32 \<Rightarrow> u8 \<Rightarrow> bytes option \<Rightarrow> u32
     \<Rightarrow> quarantine_manager \<Rightarrow> esp_err \<times> quarantine_manager" where
  "quarantine_manager_add_mac mac = quarantine_manager_add (Some (quarantine_subject_from_mac mac))"

definition quarantine_manager_add_device_id ::
  "u32 \<Rightarrow> quarantine_mode \<Rightarrow> quarantine_source \<Rightarrow> u32 \<Rightarrow> u8 \<Rightarrow> bytes option \<Rightarrow> u32
     \<Rightarrow> quarantine_manager \<Rightarrow> esp_err \<times> quarantine_manager" where
  "quarantine_manager_add_device_id device_id =
     quarantine_manager_add (Some (quarantine_subject_from_device_id device_id))"

definition quarantine_manager_remove ::
  "quarantine_subject option \<Rightarrow> quarantine_manager \<Rightarrow> bool \<times> quarantine_manager" where
  "quarantine_manager_remove subject q =
     (if \<not> qm_initialized q \<or> \<not> subject_is_valid subject then (False, q)
      else (case qm_find_slot_locked (the subject) q of
          None \<Rightarrow> (False, q)
        | Some slot \<Rightarrow>
            (let q1 = qm_clear_slot_locked slot q
             in (True, q1 \<lparr> qm_stats := (qm_stats q1)
                   \<lparr> qst_removed := qst_removed (qm_stats q1) + 1 \<rparr> \<rparr>))))"

definition quarantine_manager_remove_ip ::
  "u32 \<Rightarrow> quarantine_manager \<Rightarrow> bool \<times> quarantine_manager" where
  "quarantine_manager_remove_ip ip = quarantine_manager_remove (Some (quarantine_subject_from_ip ip))"

definition quarantine_manager_check ::
  "quarantine_subject option \<Rightarrow> quarantine_check_result option \<Rightarrow> u32 \<Rightarrow> quarantine_manager
     \<Rightarrow> bool \<times> quarantine_check_result option \<times> quarantine_manager" where
  "quarantine_manager_check subject out_result ts q =
     (if out_result = None then (False, None, q)
      else if \<not> qm_initialized q \<or> \<not> subject_is_valid subject
      then (False, Some quarantine_result_zero,
        q \<lparr> qm_stats := (qm_stats q) \<lparr> qst_invalid_input := qst_invalid_input (qm_stats q) + 1 \<rparr> \<rparr>)
      else (case qm_find_slot_locked (the subject) q of
          None \<Rightarrow> (False, Some quarantine_result_zero,
            q \<lparr> qm_stats := (qm_stats q) \<lparr> qst_misses := qst_misses (qm_stats q) + 1 \<rparr> \<rparr>)
        | Some slot \<Rightarrow>
            (let e = qs_entry (qm_slots q ! slot) in
             if entry_is_expired e ts
             then (let q1 = qm_clear_slot_locked slot q
                   in (False, Some quarantine_result_zero,
                       q1 \<lparr> qm_stats := (qm_stats q1)
                         \<lparr> qst_expired := qst_expired (qm_stats q1) + 1,
                           qst_misses := qst_misses (qm_stats q1) + 1 \<rparr> \<rparr>))
             else (let e1 = e \<lparr> qe_hit_count := qe_hit_count e + 1, qe_last_hit_ms := ts \<rparr>
                   in (True, Some (fill_check_result e1 ts),
                       q \<lparr> qm_slots := (qm_slots q)[slot := (qm_slots q ! slot) \<lparr> qs_entry := e1 \<rparr>],
                           qm_stats := (qm_stats q)
                             \<lparr> qst_hits := qst_hits (qm_stats q) + 1 \<rparr> \<rparr>)))))"

definition quarantine_manager_check_ip ::
  "u32 \<Rightarrow> quarantine_check_result option \<Rightarrow> u32 \<Rightarrow> quarantine_manager
     \<Rightarrow> bool \<times> quarantine_check_result option \<times> quarantine_manager" where
  "quarantine_manager_check_ip ip = quarantine_manager_check (Some (quarantine_subject_from_ip ip))"

definition quarantine_manager_check_flow_src ::
  "flow_key option \<Rightarrow> quarantine_check_result option \<Rightarrow> u32 \<Rightarrow> quarantine_manager
     \<Rightarrow> bool \<times> quarantine_check_result option \<times> quarantine_manager" where
  "quarantine_manager_check_flow_src key out_result ts q =
     (case key of
        None \<Rightarrow> (False, map_option (\<lambda>_. quarantine_result_zero) out_result, q)
      | Some k \<Rightarrow> quarantine_manager_check_ip (fk_src_ip k) out_result ts q)"

definition quarantine_manager_expire_old :: "u32 \<Rightarrow> quarantine_manager \<Rightarrow> u32 \<times> quarantine_manager" where
  "quarantine_manager_expire_old ts q =
     (if \<not> qm_initialized q then (0, q)
      else (case fold (expire_step (\<lambda>s. qs_in_use s \<and> entry_is_expired (qs_entry s) ts)
                    quarantine_slot_zero) [0..<QUARANTINE_MAX_ENTRIES]
                  (qm_slots q, qst_active_entries (qm_stats q), 0) of
          (slots, active, expired) \<Rightarrow>
            (expired, q \<lparr> qm_slots := slots,
               qm_stats := (qm_stats q) \<lparr> qst_active_entries := active,
                 qst_expired := qst_expired (qm_stats q) + ucast expired \<rparr> \<rparr>)))"

definition quarantine_manager_get_stats :: "quarantine_manager \<Rightarrow> quarantine_manager_stats" where
  "quarantine_manager_get_stats q = qm_stats q"

definition quarantine_manager_foreach :: "quarantine_manager \<Rightarrow> quarantine_entry list" where
  "quarantine_manager_foreach q =
     (if \<not> qm_initialized q then [] else map qs_entry (filter qs_in_use (qm_slots q)))"

subsection \<open>Invariant and abstraction\<close>

text \<open>Subjects are compared on the bytes the code compares.\<close>

fun subject_key :: "quarantine_subject \<Rightarrow> quarantine_subject" where
  "subject_key (QUARANTINE_SUBJECT_MAC m) = QUARANTINE_SUBJECT_MAC (take 6 m)"
| "subject_key s = s"

definition qs_key :: "quarantine_slot \<Rightarrow> quarantine_subject" where
  "qs_key s = subject_key (qe_subject (qs_entry s))"

interpretation qslots: keyed_slots qs_in_use quarantine_slot_zero qs_key
  by unfold_locales (simp add: quarantine_slot_zero_def)

lemma subject_equals_key:
  "subject_is_valid (Some b) \<Longrightarrow> subject_equals a b \<longleftrightarrow> subject_key a = subject_key b"
  by (cases a; cases b) (auto simp: subject_is_valid_def)

lemma qm_find_slot_eq:
  "subject_is_valid (Some s) \<Longrightarrow>
     qm_find_slot_locked s q = find_index (\<lambda>x. qs_in_use x \<and> qs_key x = subject_key s) (qm_slots q)"
  by (simp add: qm_find_slot_locked_def subject_equals_key qs_key_def)

definition qm_used :: "quarantine_manager \<Rightarrow> nat" where
  "qm_used q = used_count qs_in_use (qm_slots q)"

definition qm_wf :: "quarantine_manager \<Rightarrow> bool" where
  "qm_wf q \<longleftrightarrow> length (qm_slots q) = QUARANTINE_MAX_ENTRIES \<and>
     keys_unique qs_in_use qs_key (qm_slots q) \<and>
     qst_active_entries (qm_stats q) = of_nat (qm_used q) \<and>
     qst_added (qm_stats q) = of_nat (qm_used q) + qst_removed (qm_stats q)
       + qst_expired (qm_stats q) + qst_evicted (qm_stats q)"

definition qm_abs :: "quarantine_manager \<Rightarrow> quarantine_subject \<rightharpoonup> quarantine_entry" where
  "qm_abs q k = map_option qs_entry (slot_map qs_in_use qs_key (qm_slots q) k)"

lemma qm_abs_cong: "qm_slots q = qm_slots q' \<Longrightarrow> qm_abs q = qm_abs q'"
  by (simp add: qm_abs_def fun_eq_iff)

lemma qm_used_lt: "qm_wf q \<Longrightarrow> qm_used q < 2 ^ 32"
  using qslots.count_le[of "qm_slots q"] by (simp add: qm_wf_def qm_used_def)

lemma qm_find_cases:
  assumes "subject_is_valid (Some s)"
  obtains (absent) "qm_find_slot_locked s q = None" "qm_abs q (subject_key s) = None"
  | (present) i where "qm_find_slot_locked s q = Some i" "i < length (qm_slots q)"
      "qs_in_use (qm_slots q ! i)" "qs_key (qm_slots q ! i) = subject_key s"
      "qm_abs q (subject_key s) = Some (qs_entry (qm_slots q ! i))"
proof (cases "qm_find_slot_locked s q")
  case None
  then show ?thesis using absent find_index_slot_map(2)[of qs_in_use qs_key "subject_key s" "qm_slots q"]
    by (simp add: qm_find_slot_eq[OF assms] qm_abs_def)
next
  case (Some i)
  note f = qslots.found_slot[OF Some[unfolded qm_find_slot_eq[OF assms]]]
  show ?thesis using present[OF Some f(1-3)] f(4) by (simp add: qm_abs_def)
qed

lemma qm_put:
  assumes "qm_wf q" and "subject_is_valid (Some s)" and "qm_find_slot_locked s q = Some i"
    and "subject_key (qe_subject e) = subject_key s"
    and "slots = (qm_slots q)[i := (qm_slots q ! i) \<lparr> qs_entry := e \<rparr>]"
  shows "keys_unique qs_in_use qs_key slots" "used_count qs_in_use slots = qm_used q"
    "length slots = QUARANTINE_MAX_ENTRIES"
    "map_option qs_entry (slot_map qs_in_use qs_key slots k) = ((qm_abs q)(subject_key s \<mapsto> e)) k"
proof -
  have u: "keys_unique qs_in_use qs_key (qm_slots q)" using assms(1) by (simp add: qm_wf_def)
  note f = assms(3)[unfolded qm_find_slot_eq[OF assms(2)]]
  have n: "qs_in_use ((qm_slots q ! i) \<lparr> qs_entry := e \<rparr>)"
    "qs_key ((qm_slots q ! i) \<lparr> qs_entry := e \<rparr>) = subject_key s"
    using qslots.found_slot[OF f] assms(4) by (simp_all add: qs_key_def)
  note p = qslots.put_update[OF u f n]
  show "keys_unique qs_in_use qs_key slots" "used_count qs_in_use slots = qm_used q"
    "length slots = QUARANTINE_MAX_ENTRIES"
    "map_option qs_entry (slot_map qs_in_use qs_key slots k) = ((qm_abs q)(subject_key s \<mapsto> e)) k"
    using p assms(1,5) by (simp_all add: qm_wf_def qm_used_def qm_abs_def)
qed

lemma qm_clear:
  assumes "qm_wf q" and "subject_is_valid (Some s)" and "qm_find_slot_locked s q = Some i"
    and "q' = qm_clear_slot_locked i q"
  shows "length (qm_slots q') = QUARANTINE_MAX_ENTRIES" "keys_unique qs_in_use qs_key (qm_slots q')"
    "qst_active_entries (qm_stats q') = of_nat (qm_used q')" "Suc (qm_used q') = qm_used q"
    "qm_abs q' = (qm_abs q)(subject_key s := None)"
    "qm_stats q' = (qm_stats q) \<lparr> qst_active_entries := of_nat (qm_used q') \<rparr>"
    "qm_initialized q' = qm_initialized q" "qm_config q' = qm_config q"
    "(of_nat (qm_used q) :: u64) = of_nat (qm_used q') + 1"
proof -
  have u: "keys_unique qs_in_use qs_key (qm_slots q)" "length (qm_slots q) = 64"
    "qst_active_entries (qm_stats q) = of_nat (qm_used q)" using assms(1) by (simp_all add: qm_wf_def)
  note f = assms(3)[unfolded qm_find_slot_eq[OF assms(2)]]
  note i = qslots.found_slot[OF f] and r = qslots.remove_found[OF u(1) f]
  have sl: "qm_slots q' = (qm_slots q)[i := quarantine_slot_zero]"
    using i(1) u(2) assms(4) by (simp add: qm_clear_slot_locked_def Let_def)
  then have used: "Suc (qm_used q') = qm_used q" using r(3) by (simp add: qm_used_def)
  then show "Suc (qm_used q') = qm_used q" .
  show "(of_nat (qm_used q) :: u64) = of_nat (qm_used q') + 1" using used by (metis of_nat_Suc add.commute)
  show st: "qm_stats q' = (qm_stats q) \<lparr> qst_active_entries := of_nat (qm_used q') \<rparr>"
    using i(1,2) u(2,3) active_dec[OF used qm_used_lt[OF assms(1)]] assms(4)
    by (simp add: qm_clear_slot_locked_def Let_def)
  then show "qst_active_entries (qm_stats q') = of_nat (qm_used q')" by simp
  show "length (qm_slots q') = QUARANTINE_MAX_ENTRIES" "keys_unique qs_in_use qs_key (qm_slots q')"
    "qm_abs q' = (qm_abs q)(subject_key s := None)"
    using sl r u(2) by (simp_all add: qm_abs_def fun_eq_iff)
  show "qm_initialized q' = qm_initialized q" "qm_config q' = qm_config q"
    using assms(4) by (simp_all add: qm_clear_slot_locked_def Let_def)
qed

lemma qm_insert:
  assumes "qm_wf q" and "find_index (\<lambda>s. \<not> qs_in_use s) (qm_slots q) = Some i"
    and "qm_abs q (subject_key (qe_subject e)) = None" and "q' = qm_insert_at i e q"
  shows "qm_wf q'" "qm_abs q' = (qm_abs q)(subject_key (qe_subject e) \<mapsto> e)"
proof -
  have u: "keys_unique qs_in_use qs_key (qm_slots q)" using assms(1) by (simp add: qm_wf_def)
  let ?s = "\<lparr> qs_in_use = True, qs_entry = e \<rparr>"
  have k: "qs_key ?s = subject_key (qe_subject e)" by (simp add: qs_key_def)
  note p = qslots.put_fresh[OF u assms(2) _ _ k]
  have "slot_map qs_in_use qs_key (qm_slots q) (subject_key (qe_subject e)) = None"
    using assms(3) by (simp add: qm_abs_def)
  note p = p[OF this]
  show "qm_wf q'" using assms(1,4) p(1,3) by (simp add: qm_wf_def qm_insert_at_def qm_used_def)
  show "qm_abs q' = (qm_abs q)(subject_key (qe_subject e) \<mapsto> e)"
    using assms(4) p(2) by (simp add: qm_abs_def fun_eq_iff qm_insert_at_def)
qed

lemma qm_evict_insert:
  assumes "qm_wf q" and "i < length (qm_slots q)" and "qs_in_use (qm_slots q ! i)"
    and "qm_abs q (subject_key (qe_subject e)) = None" and "q1 = qm_clear_slot_locked i q"
    and "q' = qm_insert_at i e (q1 \<lparr> qm_stats := (qm_stats q1)
           \<lparr> qst_evicted := qst_evicted (qm_stats q1) + 1 \<rparr> \<rparr>)"
  shows "qm_wf q'"
    "qm_abs q' = ((qm_abs q)(qs_key (qm_slots q ! i) := None))(subject_key (qe_subject e) \<mapsto> e)"
proof -
  have u: "keys_unique qs_in_use qs_key (qm_slots q)" "length (qm_slots q) = 64"
    "qst_active_entries (qm_stats q) = of_nat (qm_used q)" using assms(1) by (simp_all add: qm_wf_def)
  let ?s = "\<lparr> qs_in_use = True, qs_entry = e \<rparr>"
  have k: "qs_key ?s = subject_key (qe_subject e)" by (simp add: qs_key_def)
  have m: "slot_map qs_in_use qs_key (qm_slots q) (subject_key (qe_subject e)) = None"
    using assms(4) by (simp add: qm_abs_def)
  note p = qslots.put_evict[OF u(1) assms(2,3) m _ k]
  have sl: "qm_slots q' = (qm_slots q)[i := ?s]"
    using assms(2,5,6) u(2) by (simp add: qm_clear_slot_locked_def qm_insert_at_def Let_def)
  have used: "qm_used q' = qm_used q" using p(3) sl by (simp add: qm_used_def)
  have pos: "(of_nat (qm_used q) :: u32) > 0"
    using active_dec(1)[OF qslots.count_clear[OF assms(2,3)]] qm_used_lt[OF assms(1)]
    by (simp add: qm_used_def)
  show "qm_wf q'"
    using assms(1,2,3,5,6) p(1) sl used pos u(2)
    by (simp add: qm_wf_def qm_clear_slot_locked_def qm_insert_at_def Let_def)
  show "qm_abs q' = ((qm_abs q)(qs_key (qm_slots q ! i) := None))(subject_key (qe_subject e) \<mapsto> e)"
    using p(2) sl by (simp add: qm_abs_def fun_eq_iff)
qed

text \<open>The three ways a valid subject enters quarantine.\<close>

lemma qm_add_cases:
  assumes "qm_wf q" and "qm_initialized q" and "subject_is_valid (Some s)"
    and "quarantine_manager_add (Some s) mode source ttl risk reason ts q = (err, q')"
    and "ttl' = (if ttl = 0 then qmc_default_ttl_ms (qm_config q) else ttl)"
    and "risk' = (if risk > 100 then 100 else risk)"
  shows "qm_wf q' \<and> qm_initialized q' \<and> qm_config q' = qm_config q \<and>
    (case qm_abs q (subject_key s) of
       Some e \<Rightarrow> err = ESP_OK \<and>
         qm_abs q' = (qm_abs q)(subject_key s \<mapsto> qm_refreshed_entry mode source ttl' risk' reason ts e)
     | None \<Rightarrow>
         (let new = qm_new_entry s mode source ttl' risk' reason ts in
          if qm_used q < QUARANTINE_MAX_ENTRIES
          then err = ESP_OK \<and> qm_abs q' = (qm_abs q)(subject_key s \<mapsto> new)
          else (err = ESP_ERR_NO_MEM \<and> q' = q)
             \<or> (err = ESP_OK \<and> qmc_evict_lru_when_full (qm_config q) \<and>
                (\<exists>i. qm_find_lru_slot_locked q = Some i \<and>
                   qm_abs q' = ((qm_abs q)(qs_key (qm_slots q ! i) := None))(subject_key s \<mapsto> new)))))"
  using assms(3)
proof (cases rule: qm_find_cases[of s q])
  case (present i)
  let ?e = "qm_refreshed_entry mode source ttl' risk' reason ts (qs_entry (qm_slots q ! i))"
  have k: "subject_key (qe_subject ?e) = subject_key s"
    using present(4) by (simp add: qm_refreshed_entry_def qs_key_def)
  note p = qm_put[OF assms(1,3) present(1) k refl]
  have e: "err = ESP_OK" and q': "q' = q \<lparr> qm_slots := (qm_slots q)[i := (qm_slots q ! i) \<lparr> qs_entry := ?e \<rparr>],
      qm_stats := (qm_stats q) \<lparr> qst_refreshed := qst_refreshed (qm_stats q) + 1 \<rparr> \<rparr>"
    using assms(2-6) present(1) by (auto simp: quarantine_manager_add_def Let_def)
  have "qm_abs q' = (qm_abs q)(subject_key s \<mapsto> ?e)"
    using p(4) by (simp add: q' qm_abs_def[of "_\<lparr>qm_slots := _, qm_stats := _\<rparr>"] fun_eq_iff)
  moreover have "qm_wf q'" using assms(1) p(1-3) by (simp add: q' qm_wf_def qm_used_def)
  ultimately show ?thesis using e q' present(5) assms(2) by simp
next
  case absent
  let ?new = "qm_new_entry s mode source ttl' risk' reason ts"
  have k: "subject_key (qe_subject ?new) = subject_key s" by (simp add: qm_new_entry_def)
  have ab: "qm_abs q (subject_key (qe_subject ?new)) = None" using absent(2) k by simp
  have len: "length (qm_slots q) = QUARANTINE_MAX_ENTRIES" using assms(1) by (simp add: qm_wf_def)
  show ?thesis
  proof (cases "qm_find_empty_slot_locked q")
    case (Some i)
    note f = Some[unfolded qm_find_empty_slot_locked_def]
    have "err = ESP_OK" "q' = qm_insert_at i ?new q"
      using assms(2-6) absent(1) Some by (auto simp: quarantine_manager_add_def Let_def)
    moreover have "qm_used q < QUARANTINE_MAX_ENTRIES"
      using qslots.count_fill[OF qslots.free_slot_fresh[OF f], of "\<lparr> qs_in_use = True, qs_entry = ?new \<rparr>"]
        qslots.count_le[of "(qm_slots q)[i := \<lparr> qs_in_use = True, qs_entry = ?new \<rparr>]"] len
      by (simp add: qm_used_def)
    moreover note qm_insert[OF assms(1) f ab]
    ultimately show ?thesis using absent(2) k assms(2) by (simp add: Let_def) (simp add: qm_insert_at_def)
  next
    case None
    have full: "\<not> qm_used q < QUARANTINE_MAX_ENTRIES"
      using qslots.no_free_slot_full[OF None[unfolded qm_find_empty_slot_locked_def]] len
      by (simp add: qm_used_def)
    show ?thesis
    proof (cases "qmc_evict_lru_when_full (qm_config q) \<and> qm_find_lru_slot_locked q \<noteq> None")
      case False
      then have "err = ESP_ERR_NO_MEM" "q' = q"
        using assms(2-6) absent(1) None by (auto simp: quarantine_manager_add_def Let_def split: if_splits)
      then show ?thesis using assms(1,2) absent(2) full by (simp add: Let_def)
    next
      case True
      then obtain i where i: "qm_find_lru_slot_locked q = Some i" "qmc_evict_lru_when_full (qm_config q)"
        by auto
      note l = find_lru_SomeD(1,2)[OF i(1)[unfolded qm_find_lru_slot_locked_def]]
      let ?q1 = "qm_clear_slot_locked i q"
      have "err = ESP_OK" "q' = qm_insert_at i ?new (?q1 \<lparr> qm_stats := (qm_stats ?q1)
           \<lparr> qst_evicted := qst_evicted (qm_stats ?q1) + 1 \<rparr> \<rparr>)"
        using assms(2-6) absent(1) None i by (auto simp: quarantine_manager_add_def Let_def)
      moreover note qm_evict_insert[OF assms(1) l ab refl this(2)]
      moreover have "qm_initialized ?q1 = qm_initialized q" "qm_config ?q1 = qm_config q"
        by (simp_all add: qm_clear_slot_locked_def Let_def)
      ultimately show ?thesis using absent(2) k assms(2) i full
        by (simp add: Let_def qm_insert_at_def)
    qed
  qed
qed

lemma qm_remove_effect:
  assumes "qm_wf q" and "qm_initialized q" and "subject_is_valid (Some s)"
    and "quarantine_manager_remove (Some s) q = (ok, q')"
  shows "qm_wf q'" "qm_initialized q'" "qm_config q' = qm_config q"
    "ok \<longleftrightarrow> qm_abs q (subject_key s) \<noteq> None" "qm_abs q' = (qm_abs q)(subject_key s := None)"
proof -
  have "qm_wf q' \<and> qm_initialized q' \<and> qm_config q' = qm_config q \<and>
    (ok \<longleftrightarrow> qm_abs q (subject_key s) \<noteq> None) \<and> qm_abs q' = (qm_abs q)(subject_key s := None)"
    using assms(3)
  proof (cases rule: qm_find_cases[of s q])
    case absent
    then show ?thesis using assms by (auto simp: quarantine_manager_remove_def)
  next
    case (present i)
    note c = qm_clear[OF assms(1,3) present(1) refl]
    let ?q1 = "qm_clear_slot_locked i q"
    have q': "ok" "q' = ?q1 \<lparr> qm_stats := (qm_stats ?q1) \<lparr> qst_removed := qst_removed (qm_stats ?q1) + 1 \<rparr> \<rparr>"
      using assms(2-4) present(1) by (auto simp: quarantine_manager_remove_def Let_def)
    have "qm_abs q' = qm_abs ?q1" "qm_used q' = qm_used ?q1"
      using q'(2) by (simp_all add: qm_abs_def qm_used_def fun_eq_iff)
    moreover have "qm_wf q'" using assms(1) c(1,2,3,9) q'(2) calculation(2)
      by (simp add: qm_wf_def c(6))
    ultimately show ?thesis using c(5,7,8) q' present(5) assms(2) by simp
  qed
  then show "qm_wf q'" "qm_initialized q'" "qm_config q' = qm_config q"
    "ok \<longleftrightarrow> qm_abs q (subject_key s) \<noteq> None" "qm_abs q' = (qm_abs q)(subject_key s := None)" by auto
qed

abbreviation qm_hit :: "u32 \<Rightarrow> quarantine_entry \<Rightarrow> quarantine_entry" where
  "qm_hit ts e \<equiv> e \<lparr> qe_hit_count := qe_hit_count e + 1, qe_last_hit_ms := ts \<rparr>"

lemma qm_check_effect:
  assumes "qm_wf q" and "qm_initialized q" and "subject_is_valid (Some s)"
    and "quarantine_manager_check (Some s) (Some out0) ts q = (found, out, q')"
  shows "qm_wf q' \<and> qm_initialized q' \<and> qm_config q' = qm_config q \<and>
    (case qm_abs q (subject_key s) of
       None \<Rightarrow> \<not> found \<and> out = Some quarantine_result_zero \<and> qm_abs q' = qm_abs q
     | Some e \<Rightarrow>
         if entry_is_expired e ts
         then \<not> found \<and> out = Some quarantine_result_zero \<and> qm_abs q' = (qm_abs q)(subject_key s := None)
         else found \<and> out = Some (fill_check_result (qm_hit ts e) ts)
            \<and> qm_abs q' = (qm_abs q)(subject_key s \<mapsto> qm_hit ts e))"
  using assms(3)
proof (cases rule: qm_find_cases[of s q])
  case absent
  then show ?thesis using assms
    by (auto simp: quarantine_manager_check_def qm_wf_def qm_used_def qm_abs_def fun_eq_iff)
next
  case (present i)
  let ?e = "qs_entry (qm_slots q ! i)"
  show ?thesis
  proof (cases "entry_is_expired ?e ts")
    case True
    note c = qm_clear[OF assms(1,3) present(1) refl]
    let ?q1 = "qm_clear_slot_locked i q"
    have q': "\<not> found" "out = Some quarantine_result_zero"
      "q' = ?q1 \<lparr> qm_stats := (qm_stats ?q1) \<lparr> qst_expired := qst_expired (qm_stats ?q1) + 1,
         qst_misses := qst_misses (qm_stats ?q1) + 1 \<rparr> \<rparr>"
      using assms(2-4) present(1) True by (auto simp: quarantine_manager_check_def Let_def)
    have "qm_abs q' = qm_abs ?q1" "qm_used q' = qm_used ?q1"
      using q'(3) by (simp_all add: qm_abs_def qm_used_def fun_eq_iff)
    moreover have "qm_wf q'" using assms(1) c(1,2,3,9) q'(3) calculation(2)
      by (simp add: qm_wf_def c(6))
    ultimately show ?thesis using c(5,7,8) q' present(5) assms(2) True by simp
  next
    case False
    have k: "subject_key (qe_subject (qm_hit ts ?e)) = subject_key s"
      using present(4) by (simp add: qs_key_def)
    note p = qm_put[OF assms(1,3) present(1) k refl]
    have q': "found" "out = Some (fill_check_result (qm_hit ts ?e) ts)"
      "q' = q \<lparr> qm_slots := (qm_slots q)[i := (qm_slots q ! i) \<lparr> qs_entry := qm_hit ts ?e \<rparr>],
         qm_stats := (qm_stats q) \<lparr> qst_hits := qst_hits (qm_stats q) + 1 \<rparr> \<rparr>"
      using assms(2-4) present(1) False by (auto simp: quarantine_manager_check_def Let_def)
    have "qm_abs q' = (qm_abs q)(subject_key s \<mapsto> qm_hit ts ?e)"
      using p(4) by (simp add: q'(3) qm_abs_def[of "_\<lparr>qm_slots := _, qm_stats := _\<rparr>"] fun_eq_iff)
    moreover have "qm_wf q'" using assms(1) p(1-3) by (simp add: q'(3) qm_wf_def qm_used_def)
    ultimately show ?thesis using q' present(5) assms(2) False by simp
  qed
qed

lemma qm_used_dom:
  assumes "qm_wf q"
  shows "finite (dom (qm_abs q))" "card (dom (qm_abs q)) = qm_used q"
proof -
  have d: "dom (qm_abs q) = dom (slot_map qs_in_use qs_key (qm_slots q))" by (auto simp: qm_abs_def)
  have "dom (slot_map qs_in_use qs_key (qm_slots q)) \<subseteq> qs_key ` set (qm_slots q)"
    by (auto dest!: slot_map_SomeD)
  then show "finite (dom (qm_abs q))" unfolding d by (rule finite_subset) simp
  show "card (dom (qm_abs q)) = qm_used q"
    unfolding d using qslots.card_dom_map[of "qm_slots q"] assms by (simp add: qm_wf_def qm_used_def)
qed

lemma qm_check_used:
  assumes "qm_wf q" and "qm_initialized q" and "subject_is_valid (Some s)"
    and "quarantine_manager_check (Some s) (Some out0) ts q = (found, out, q')"
  shows "qm_used q' \<le> qm_used q"
proof -
  note e = qm_check_effect[OF assms]
  then have "dom (qm_abs q') \<subseteq> dom (qm_abs q)" by (auto split: option.splits if_splits)
  then have "card (dom (qm_abs q')) \<le> card (dom (qm_abs q))"
    by (rule card_mono[OF qm_used_dom(1)[OF assms(1)]])
  then show ?thesis using e qm_used_dom(2)[OF assms(1)] qm_used_dom(2)[of q'] by simp
qed

abbreviation qm_dead :: "u32 \<Rightarrow> quarantine_slot \<Rightarrow> bool" where
  "qm_dead ts s \<equiv> qs_in_use s \<and> entry_is_expired (qs_entry s) ts"

lemma qm_expire_effect:
  assumes "qm_wf q" and "qm_initialized q" and "quarantine_manager_expire_old ts q = (n, q')"
  shows "qm_wf q'" "qm_initialized q'" "qm_config q' = qm_config q"
    "unat n = length (filter (qm_dead ts) (qm_slots q))"
    "qm_abs q' k = (case qm_abs q k of None \<Rightarrow> None
       | Some e \<Rightarrow> if entry_is_expired e ts then None else Some e)"
proof -
  let ?d = "qm_dead ts" and ?ss = "qm_slots q"
  have w: "length ?ss = 64" "keys_unique qs_in_use qs_key ?ss"
    "qst_active_entries (qm_stats q) = of_nat (used_count qs_in_use ?ss)"
    using assms(1) by (simp_all add: qm_wf_def qm_used_def)
  let ?sw = "sweep ?d quarantine_slot_zero ?ss" and ?k = "length (filter ?d ?ss)"
  have n: "n = of_nat ?k" and q': "q' = q \<lparr> qm_slots := ?sw, qm_stats := (qm_stats q)
      \<lparr> qst_active_entries := of_nat (used_count qs_in_use ?sw),
        qst_expired := qst_expired (qm_stats q) + ucast (of_nat ?k :: u32) \<rparr> \<rparr>"
    using assms(2,3) qslots.expire_loop[of ?d ?ss] w
    by (auto simp: quarantine_manager_expire_old_def)
  have le: "?k \<le> 64" using length_filter_le[of ?d ?ss] w(1) by simp
  then show "unat n = ?k" by (simp add: n unat_of_nat)
  have "filter (\<lambda>s. qs_in_use s \<and> ?d s) ?ss = filter ?d ?ss" by (rule filter_cong) auto
  then have "used_count qs_in_use ?ss = used_count qs_in_use ?sw + ?k"
    using qslots.count_sweep[of ?d ?ss] by (simp only:)
  then have "(of_nat (qm_used q) :: u64) = of_nat (used_count qs_in_use ?sw) + of_nat ?k"
    by (simp only: qm_used_def of_nat_add)
  moreover have "ucast (of_nat ?k :: u32) = (of_nat ?k :: u64)"
    using le by (simp add: ucast_of_nat_u64)
  ultimately show "qm_wf q'" using assms(1) q' qslots.unique_sweep[OF w(2)]
    by (simp add: qm_wf_def qm_used_def algebra_simps)
  show "qm_initialized q'" "qm_config q' = qm_config q" using q' assms(2) by simp_all
  have "qs_in_use s" if "slot_map qs_in_use qs_key ?ss k = Some s" for s
    using slot_map_SomeD[OF that] by blast
  then show "qm_abs q' k = (case qm_abs q k of None \<Rightarrow> None
       | Some e \<Rightarrow> if entry_is_expired e ts then None else Some e)"
    using qslots.map_sweep[OF w(2), of ?d k] q' by (auto simp: qm_abs_def split: option.splits)
qed

subsection \<open>Sequences of calls\<close>

datatype qm_op =
    Qm_init "quarantine_manager_config option"
  | Qm_reset
  | Qm_add "quarantine_subject option" quarantine_mode quarantine_source u32 u8 "bytes option" u32
  | Qm_remove "quarantine_subject option"
  | Qm_check "quarantine_subject option" u32
  | Qm_expire u32

fun qm_step :: "qm_op \<Rightarrow> quarantine_manager \<Rightarrow> bool \<times> quarantine_manager" where
  "qm_step (Qm_init c) q = (True, snd (quarantine_manager_init c q))"
| "qm_step Qm_reset q = (True, quarantine_manager_reset q)"
| "qm_step (Qm_add s m src ttl risk reason ts) q =
     (case quarantine_manager_add s m src ttl risk reason ts q of (err, q') \<Rightarrow> (err = ESP_OK, q'))"
| "qm_step (Qm_remove s) q = quarantine_manager_remove s q"
| "qm_step (Qm_check s ts) q =
     (case quarantine_manager_check s (Some quarantine_result_zero) ts q of (found, _, q') \<Rightarrow> (found, q'))"
| "qm_step (Qm_expire ts) q = (True, snd (quarantine_manager_expire_old ts q))"

text \<open>Calls on an uninitialised module or with an invalid subject change no entry.\<close>

lemma qm_rejected:
  assumes "\<not> (qm_initialized q \<and> subject_is_valid s)"
  shows "qm_slots (snd (quarantine_manager_add s m src ttl risk reason ts q)) = qm_slots q"
    "qm_wf q \<Longrightarrow> qm_wf (snd (quarantine_manager_add s m src ttl risk reason ts q))"
    "qm_config (snd (quarantine_manager_add s m src ttl risk reason ts q)) = qm_config q"
    "qm_initialized (snd (quarantine_manager_add s m src ttl risk reason ts q)) = qm_initialized q"
    "snd (quarantine_manager_remove s q) = q"
    "qm_slots (snd (snd (quarantine_manager_check s out ts q))) = qm_slots q"
    "qm_wf q \<Longrightarrow> qm_wf (snd (snd (quarantine_manager_check s out ts q)))"
    "qm_config (snd (snd (quarantine_manager_check s out ts q))) = qm_config q"
    "qm_initialized (snd (snd (quarantine_manager_check s out ts q))) = qm_initialized q"
  using assms
  by (auto simp: quarantine_manager_add_def quarantine_manager_remove_def quarantine_manager_check_def
      qm_wf_def qm_used_def)

lemma qm_blank_wf:
  "qm_wf \<lparr> qm_slots = replicate QUARANTINE_MAX_ENTRIES quarantine_slot_zero, qm_config = c,
     qm_stats = quarantine_stats_zero \<lparr> qst_capacity := 64 \<rparr>, qm_initialized = b \<rparr>"
  using qslots.count_blank qslots.unique_blank
  by (simp add: qm_wf_def qm_used_def quarantine_stats_zero_def)

lemma valid_SomeE: "subject_is_valid s \<Longrightarrow> (\<And>x. s = Some x \<Longrightarrow> subject_is_valid (Some x) \<Longrightarrow> P) \<Longrightarrow> P"
  by (cases s) (auto simp: subject_is_valid_def)

lemma qm_step_wf: "qm_wf q \<Longrightarrow> qm_wf (snd (qm_step x q))"
proof (cases x)
  case (Qm_init c)
  then show ?thesis using qm_blank_wf by (simp add: quarantine_manager_init_def)
next
  case Qm_reset
  then show ?thesis using qm_blank_wf[of "qm_config q" "qm_initialized q"]
    by (cases q) (simp add: quarantine_manager_reset_def)
next
  case (Qm_add s m src ttl risk reason ts)
  assume w: "qm_wf q"
  show ?thesis
  proof (cases "qm_initialized q \<and> subject_is_valid s")
    case True
    then obtain y where y: "s = Some y" "subject_is_valid (Some y)" by (auto elim: valid_SomeE)
    have "qm_wf (snd (quarantine_manager_add (Some y) m src ttl risk reason ts q))"
      using qm_add_cases[OF w _ y(2) prod.collapse[symmetric] refl refl, of m src ttl risk reason ts] True
      by blast
    then show ?thesis using Qm_add y(1) by (simp add: case_prod_beta)
  next
    case False
    then show ?thesis using qm_rejected(2)[OF False w] Qm_add by (simp add: case_prod_beta)
  qed
next
  case (Qm_remove s)
  assume w: "qm_wf q"
  show ?thesis
  proof (cases "qm_initialized q \<and> subject_is_valid s")
    case True
    then obtain y where y: "s = Some y" "subject_is_valid (Some y)" by (auto elim: valid_SomeE)
    show ?thesis using qm_remove_effect(1)[OF w _ y(2) prod.collapse[symmetric]] True Qm_remove y(1) by simp
  next
    case False
    then show ?thesis using qm_rejected(5)[OF False] w Qm_remove by simp
  qed
next
  case (Qm_check s ts)
  assume w: "qm_wf q"
  obtain f out q' where c: "quarantine_manager_check s (Some quarantine_result_zero) ts q = (f, out, q')"
    by (metis prod.collapse)
  show ?thesis
  proof (cases "qm_initialized q \<and> subject_is_valid s")
    case True
    then obtain y where y: "s = Some y" "subject_is_valid (Some y)" by (auto elim: valid_SomeE)
    show ?thesis using qm_check_effect[OF w _ y(2) c[unfolded y(1)]] True c Qm_check by simp
  next
    case False
    then show ?thesis using qm_rejected(7)[OF False w, of "Some quarantine_result_zero" ts] c Qm_check by simp
  qed
next
  case (Qm_expire ts)
  assume w: "qm_wf q"
  then show ?thesis using Qm_expire qm_expire_effect(1)[OF w _ prod.collapse[symmetric]]
    by (cases "qm_initialized q") (simp_all add: quarantine_manager_expire_old_def)
qed

interpretation quarantine: module_invariant qm_wf "\<lambda>x. True" qm_step
  by unfold_locales (rule qm_step_wf)

subsection \<open>A quarantine stays in force\<close>

definition in_force_at :: "u32 \<Rightarrow> u32 \<Rightarrow> bool" where
  "in_force_at expires_at ts \<longleftrightarrow> expires_at = 0 \<or> ts < expires_at"

lemma entry_is_expired_iff: "entry_is_expired e ts \<longleftrightarrow> \<not> in_force_at (qe_expires_at_ms e) ts"
  by (auto simp: entry_is_expired_def in_force_at_def)

text \<open>Calls that neither name the subject (checks apart) nor happen after the expiry time.\<close>

fun qm_leaves :: "quarantine_subject \<Rightarrow> u32 \<Rightarrow> qm_op \<Rightarrow> bool" where
  "qm_leaves k until (Qm_init c) = False"
| "qm_leaves k until Qm_reset = False"
| "qm_leaves k until (Qm_add s m src ttl risk reason ts) =
     (case s of None \<Rightarrow> True | Some x \<Rightarrow> subject_key x \<noteq> k)"
| "qm_leaves k until (Qm_remove s) = (case s of None \<Rightarrow> True | Some x \<Rightarrow> subject_key x \<noteq> k)"
| "qm_leaves k until (Qm_check s ts) = in_force_at until ts"
| "qm_leaves k until (Qm_expire ts) = in_force_at until ts"

definition qm_holds :: "quarantine_subject \<Rightarrow> quarantine_mode \<Rightarrow> u32 \<Rightarrow> quarantine_manager \<Rightarrow> bool" where
  "qm_holds k mode until q \<longleftrightarrow> qm_wf q \<and> qm_initialized q \<and> \<not> qmc_evict_lru_when_full (qm_config q) \<and>
     (\<exists>e. qm_abs q k = Some e \<and> qe_mode e = mode \<and> qe_expires_at_ms e = until)"

lemma qm_holds_frame:
  assumes "qm_holds k mode until q" and "qm_wf q'" and "qm_initialized q'" and "qm_config q' = qm_config q"
    and "qm_abs q' k = qm_abs q k"
  shows "qm_holds k mode until q'"
  using assms by (simp add: qm_holds_def)

lemma qm_holds_rejected:
  assumes "qm_holds k mode until q" and "\<not> (qm_initialized q \<and> subject_is_valid s)"
  shows "qm_holds k mode until (snd (quarantine_manager_add s m src ttl risk reason ts q))"
    "qm_holds k mode until (snd (quarantine_manager_remove s q))"
    "qm_holds k mode until (snd (snd (quarantine_manager_check s out ts q)))"
proof -
  have w: "qm_wf q" "qm_initialized q" using assms(1) by (simp_all add: qm_holds_def)
  note r = qm_rejected[OF assms(2)]
  show "qm_holds k mode until (snd (quarantine_manager_add s m src ttl risk reason ts q))"
    by (rule qm_holds_frame[OF assms(1) r(2)[OF w(1)] _ r(3)])
      (simp_all only: r(4) w(2) qm_abs_cong[OF r(1)])
  show "qm_holds k mode until (snd (quarantine_manager_remove s q))"
    using assms(1) by (simp only: r(5))
  show "qm_holds k mode until (snd (snd (quarantine_manager_check s out ts q)))"
    by (rule qm_holds_frame[OF assms(1) r(7)[OF w(1)] _ r(8)])
      (simp_all only: r(9) w(2) qm_abs_cong[OF r(6)])
qed

lemma qm_holds_step:
  assumes h: "qm_holds k mode until q" and "qm_leaves k until x"
  shows "qm_holds k mode until (snd (qm_step x q))"
proof -
  have w: "qm_wf q" "qm_initialized q" "\<not> qmc_evict_lru_when_full (qm_config q)"
    using h by (simp_all add: qm_holds_def)
  show ?thesis
  proof (cases x)
    case (Qm_add s m src ttl risk reason ts)
    show ?thesis
    proof (cases "subject_is_valid s")
      case True
      then obtain y where y: "s = Some y" "subject_is_valid (Some y)" by (auto elim: valid_SomeE)
      then have "subject_key y \<noteq> k" using assms(2) Qm_add by simp
      moreover obtain err q' where a: "quarantine_manager_add (Some y) m src ttl risk reason ts q = (err, q')"
        by (metis prod.collapse)
      note qm_add_cases[OF w(1,2) y(2) a refl refl]
      ultimately have "qm_wf q'" "qm_initialized q'" "qm_config q' = qm_config q" "qm_abs q' k = qm_abs q k"
        using w(3) by (auto simp: Let_def split: option.splits if_splits)
      then show ?thesis using Qm_add y(1) a qm_holds_frame[OF h] by simp
    qed (use Qm_add h in \<open>simp add: qm_holds_rejected(1) case_prod_beta\<close>)
  next
    case (Qm_remove s)
    show ?thesis
    proof (cases "subject_is_valid s")
      case True
      then obtain y where y: "s = Some y" "subject_is_valid (Some y)" by (auto elim: valid_SomeE)
      then have "subject_key y \<noteq> k" using assms(2) Qm_remove by simp
      then show ?thesis
        using Qm_remove y(1) qm_remove_effect[OF w(1,2) y(2) prod.collapse[symmetric]] qm_holds_frame[OF h] by simp
    qed (use Qm_remove h in \<open>simp add: qm_holds_rejected(2)\<close>)
  next
    case (Qm_check s ts)
    then have t: "in_force_at until ts" using assms(2) by simp
    show ?thesis
    proof (cases "subject_is_valid s")
      case True
      then obtain y where y: "s = Some y" "subject_is_valid (Some y)" by (auto elim: valid_SomeE)
      obtain f out q' where c: "quarantine_manager_check (Some y) (Some quarantine_result_zero) ts q = (f, out, q')"
        by (metis prod.collapse)
      show ?thesis using h qm_check_effect[OF w(1,2) y(2) c] c Qm_check y(1) t
        by (auto simp: qm_holds_def entry_is_expired_iff split: option.splits if_splits)
    qed (use Qm_check h in \<open>simp add: qm_holds_rejected(3) case_prod_beta\<close>)
  next
    case (Qm_expire ts)
    then show ?thesis
      using assms qm_expire_effect[OF w(1,2) prod.collapse[symmetric], of ts]
      by (auto simp: qm_holds_def entry_is_expired_iff)
  qed (use assms(2) in simp_all)
qed

lemma qm_holds_run:
  assumes "qm_holds k mode until q" and "list_all (qm_leaves k until) ops"
  shows "qm_holds k mode until (snd (run qm_step ops q))"
proof -
  have "module_invariant (qm_holds k mode until) (qm_leaves k until) qm_step"
    by unfold_locales (rule qm_holds_step)
  then show ?thesis using assms by (rule module_invariant.run_inv)
qed

lemma qm_added_holds:
  assumes "qm_wf q" and "qm_initialized q" and "\<not> qmc_evict_lru_when_full (qm_config q)"
    and "subject_is_valid (Some s)" and "ttl \<noteq> 0"
    and "quarantine_manager_add (Some s) mode source ttl risk reason ts q = (ESP_OK, q')"
  shows "qm_holds (subject_key s) mode (ts + ttl) q'"
  using qm_add_cases[OF assms(1,2,4,6) refl refl] assms(3,5)
  by (auto simp: qm_holds_def Let_def qm_refreshed_entry_def qm_new_entry_def split: option.splits if_splits)

lemma qm_holds_check:
  assumes "qm_holds (subject_key s) mode until q" and "subject_is_valid (Some s)"
    and "in_force_at until ts"
    and "quarantine_manager_check (Some s) (Some out0) ts q = (found, out, q')"
  shows "found \<and> (\<exists>r. out = Some r \<and> qr_quarantined r \<and> qr_mode r = mode \<and> qr_expires_at_ms r = until)"
  using assms qm_check_effect[OF _ _ assms(2,4)]
  by (auto simp: qm_holds_def entry_is_expired_iff fill_check_result_def)

definition qm_fresh :: quarantine_manager where
  "qm_fresh = snd (quarantine_manager_init
     (Some \<lparr> qmc_default_ttl_ms = 60000, qmc_evict_lru_when_full = False \<rparr>)
     \<lparr> qm_slots = [], qm_config = qm_load_default_config, qm_stats = quarantine_stats_zero,
       qm_initialized = False \<rparr>)"

lemma qm_fresh_facts:
  "qm_wf qm_fresh" "qm_initialized qm_fresh" "\<not> qmc_evict_lru_when_full (qm_config qm_fresh)"
  "qm_abs qm_fresh = Map.empty" "qm_used qm_fresh = 0"
  using qm_blank_wf qslots.map_blank qslots.count_blank
  by (simp_all add: qm_fresh_def quarantine_manager_init_def qm_abs_def qm_used_def fun_eq_iff)

abbreviation qm_blocked_ip :: quarantine_subject where
  "qm_blocked_ip \<equiv> QUARANTINE_SUBJECT_IP 0xC0A80409"

lemma qm_fresh_add:
  "fst (quarantine_manager_add (Some qm_blocked_ip) mode source ttl risk reason ts qm_fresh) = ESP_OK"
  using qm_add_cases[OF qm_fresh_facts(1,2) _ prod.collapse[symmetric] refl refl, of qm_blocked_ip]
  by (simp add: qm_fresh_facts subject_is_valid_def Let_def)

subsection \<open>Properties\<close>

text \<open>A quarantine stays in force. With eviction off, once a subject has been quarantined with
  a time to live, then after any further calls (additions, removals and checks of other subjects,
  checks of this one, expiry sweeps) that are made before its expiry time, checking the subject
  before that time reports it quarantined, with the mode and the expiry time it was given.\<close>

theorem quarantine_stays_in_force:
  assumes "qm_wf q" and "qm_initialized q" and "\<not> qmc_evict_lru_when_full (qm_config q)"
    and "subject_is_valid (Some s)" and "ttl \<noteq> 0"
    and "quarantine_manager_add (Some s) mode source ttl risk reason ts q = (ESP_OK, q1)"
    and "list_all (qm_leaves (subject_key s) (ts + ttl)) ops" and "in_force_at (ts + ttl) t"
    and "quarantine_manager_check (Some s) (Some out0) t (snd (run qm_step ops q1)) = (found, out, q2)"
  shows "found \<and> (\<exists>r. out = Some r \<and> qr_quarantined r \<and> qr_mode r = mode
    \<and> qr_expires_at_ms r = ts + ttl)"
  using qm_holds_check[OF qm_holds_run[OF qm_added_holds[OF assms(1-6)] assms(7)] assms(4,8,9)] .

theorem quarantine_stays_in_force_witness:
  "fst (quarantine_manager_check (Some qm_blocked_ip) (Some quarantine_result_zero) 500
     (snd (run qm_step [Qm_expire 200, Qm_remove (Some (QUARANTINE_SUBJECT_DEVICE_ID 7)),
        Qm_check (Some qm_blocked_ip) 300]
       (snd (quarantine_manager_add (Some qm_blocked_ip) QUARANTINE_MODE_BLOCK_ALL
          QUARANTINE_SOURCE_MANUAL 1000 50 None 100 qm_fresh)))))"
proof -
  let ?a = "quarantine_manager_add (Some qm_blocked_ip) QUARANTINE_MODE_BLOCK_ALL
    QUARANTINE_SOURCE_MANUAL 1000 50 None 100 qm_fresh"
  let ?ops = "[Qm_expire 200, Qm_remove (Some (QUARANTINE_SUBJECT_DEVICE_ID 7)),
    Qm_check (Some qm_blocked_ip) 300]"
  have a: "?a = (ESP_OK, snd ?a)" using qm_fresh_add by (metis prod.collapse)
  obtain f out q2 where c: "quarantine_manager_check (Some qm_blocked_ip)
      (Some quarantine_result_zero) 500 (snd (run qm_step ?ops (snd ?a))) = (f, out, q2)"
    by (metis prod.collapse)
  have "f" using quarantine_stays_in_force[OF qm_fresh_facts(1-3) _ _ a _ _ c]
    by (simp add: subject_is_valid_def in_force_at_def)
  with c show ?thesis by simp
qed

text \<open>C26: The exact effect of a quarantine in 32-bit time. After a successful addition at time ts
  with time to live ttl, a check at time t finds the subject if and only if the 32-bit sum
  ts + ttl is zero (then it never expires) or t is below that sum; so when the sum wraps to a
  small value the subject is not quarantined even at the moment it was added.\<close>

theorem quarantine_in_force_iff:
  assumes "qm_wf q" and "qm_initialized q" and "subject_is_valid (Some s)" and "ttl \<noteq> 0"
    and "quarantine_manager_add (Some s) mode source ttl risk reason ts q = (ESP_OK, q1)"
  shows "fst (quarantine_manager_check (Some s) (Some out0) t q1) \<longleftrightarrow> ts + ttl = 0 \<or> t < ts + ttl"
proof -
  note a = qm_add_cases[OF assms(1-3,5) refl refl]
  then obtain e where e: "qm_abs q1 (subject_key s) = Some e" "qe_expires_at_ms e = ts + ttl"
    using assms(4) by (auto simp: Let_def qm_refreshed_entry_def qm_new_entry_def
        split: option.splits if_splits)
  obtain f out q2 where c: "quarantine_manager_check (Some s) (Some out0) t q1 = (f, out, q2)"
    by (metis prod.collapse)
  from a have "qm_wf q1" "qm_initialized q1" by blast+
  from qm_check_effect[OF this assms(3) c] show ?thesis
    using e c by (auto simp: entry_is_expired_iff in_force_at_def split: if_splits)
qed

theorem quarantine_in_force_iff_witness:
  "\<not> fst (quarantine_manager_check (Some qm_blocked_ip) (Some quarantine_result_zero) 0xFFFFFFF0
     (snd (quarantine_manager_add (Some qm_blocked_ip) QUARANTINE_MODE_BLOCK_ALL
        QUARANTINE_SOURCE_MANUAL 60000 50 None 0xFFFFFFF0 qm_fresh)))"
proof -
  let ?a = "quarantine_manager_add (Some qm_blocked_ip) QUARANTINE_MODE_BLOCK_ALL
    QUARANTINE_SOURCE_MANUAL 60000 50 None 0xFFFFFFF0 qm_fresh"
  have a: "?a = (ESP_OK, snd ?a)" using qm_fresh_add by (metis prod.collapse)
  show ?thesis using quarantine_in_force_iff[OF qm_fresh_facts(1,2) _ _ a]
    by (simp add: subject_is_valid_def)
qed

text \<open>After initialisation and any sequence of calls, no subject has two entries, the counter of
  active entries is the number of occupied slots, and every entry ever added is still active, was
  removed, has expired or was evicted.\<close>

theorem quarantine_books_balance: "qm_wf (snd (run qm_step (Qm_init c # ops) q))"
proof -
  have "qm_wf (snd (qm_step (Qm_init c) q))" using qm_blank_wf by (simp add: quarantine_manager_init_def)
  then show ?thesis using quarantine.run_inv[of _ ops]
    by (simp add: run_Cons_simp list_all_iff del: run.simps(2) qm_step.simps)
qed

end
