(* ===== verification/Policy_Engine.thy ===== *)
theory Policy_Engine
  imports Flow_Table
begin

text \<open>
  The rule base that decides on a flow (\<open>policy_engine.c\<close>): up to 64 rules with wildcards,
  priorities and expiry.  The matching rule with the highest priority wins, the one in the
  higher slot among equals; without a match the default action applies.
\<close>

abbreviation POLICY_ENGINE_MAX_RULES :: nat where "POLICY_ENGINE_MAX_RULES \<equiv> 64"
abbreviation POLICY_ANY_MASK :: u32 where "POLICY_ANY_MASK \<equiv> 0"
abbreviation POLICY_ANY_PORT :: u16 where "POLICY_ANY_PORT \<equiv> 0"
abbreviation POLICY_ANY_PROTO :: u8 where "POLICY_ANY_PROTO \<equiv> 0"

datatype policy_action =
    POLICY_ACTION_ALLOW
  | POLICY_ACTION_DENY
  | POLICY_ACTION_RATE_LIMIT
  | POLICY_ACTION_QUARANTINE
  | POLICY_ACTION_REDIRECT
  | POLICY_ACTION_LOG_ONLY
  | POLICY_ACTION_ASK_SWARM

datatype policy_reason =
    POLICY_REASON_DEFAULT
  | POLICY_REASON_RULE_MATCH
  | POLICY_REASON_NO_RULE
  | POLICY_REASON_RULE_EXPIRED
  | POLICY_REASON_INVALID_INPUT

record policy_rule =
  pr_rule_id :: u32
  pr_enabled :: bool
  pr_priority :: u16
  pr_direction :: flow_direction
  pr_src_ip :: u32
  pr_src_mask :: u32
  pr_dst_ip :: u32
  pr_dst_mask :: u32
  pr_src_port :: u16
  pr_dst_port :: u16
  pr_proto :: u8
  pr_action :: policy_action
  pr_risk_score :: u8
  pr_log_event :: bool
  pr_expires_at_ms :: u32
  pr_reason :: bytes

record policy_engine_config =
  pec_default_action :: policy_action
  pec_default_log_event :: bool
  pec_default_risk_score :: u8

record policy_decision =
  pd_action :: policy_action
  pd_reason :: policy_reason
  pd_matched_rule_id :: u32
  pd_matched_priority :: u16
  pd_risk_score :: u8
  pd_log_event :: bool
  pd_reason_text :: bytes

record policy_engine_stats =
  pes_capacity :: u32
  pes_active_rules :: u32
  pes_evaluations :: u64
  pes_allowed :: u64
  pes_denied :: u64
  pes_rate_limited :: u64
  pes_quarantined :: u64
  pes_redirected :: u64
  pes_log_only :: u64
  pes_ask_swarm :: u64
  pes_no_match :: u64
  pes_invalid_input :: u64

record policy_slot =
  ps_in_use :: bool
  ps_rule :: policy_rule

record policy_engine =
  pe_rules :: "policy_slot list"
  pe_config :: policy_engine_config
  pe_stats :: policy_engine_stats
  pe_initialized :: bool
  pe_next_rule_id :: u32

text \<open>\<open>safe_copy_reason\<close> into a cleared 48-byte field.\<close>

definition reason48 :: "bytes \<Rightarrow> bytes" where
  "reason48 src = safe_copy (replicate 48 0) 48 (Some src)"

definition policy_engine_ipv4 :: "u8 \<Rightarrow> u8 \<Rightarrow> u8 \<Rightarrow> u8 \<Rightarrow> u32" where
  "policy_engine_ipv4 a b c d =
     push_bit 24 (ucast a) OR push_bit 16 (ucast b) OR push_bit 8 (ucast c) OR ucast d"

definition policy_engine_cidr_mask :: "u8 \<Rightarrow> u32" where
  "policy_engine_cidr_mask cidr =
     (if cidr = 0 then 0
      else if cidr \<ge> 32 then 0xFFFFFFFF
      else push_bit (32 - unat cidr) 0xFFFFFFFF)"

fun policy_action_to_string :: "policy_action \<Rightarrow> string" where
  "policy_action_to_string POLICY_ACTION_ALLOW = ''ALLOW''"
| "policy_action_to_string POLICY_ACTION_DENY = ''DENY''"
| "policy_action_to_string POLICY_ACTION_RATE_LIMIT = ''RATE_LIMIT''"
| "policy_action_to_string POLICY_ACTION_QUARANTINE = ''QUARANTINE''"
| "policy_action_to_string POLICY_ACTION_REDIRECT = ''REDIRECT''"
| "policy_action_to_string POLICY_ACTION_LOG_ONLY = ''LOG_ONLY''"
| "policy_action_to_string POLICY_ACTION_ASK_SWARM = ''ASK_SWARM''"

definition pe_load_default_config :: policy_engine_config where
  "pe_load_default_config = \<lparr> pec_default_action = POLICY_ACTION_ALLOW,
     pec_default_log_event = False, pec_default_risk_score = 0 \<rparr>"

definition ip_matches :: "u32 \<Rightarrow> u32 \<Rightarrow> u32 \<Rightarrow> bool" where
  "ip_matches rule_ip rule_mask ip \<longleftrightarrow>
     (if rule_mask = POLICY_ANY_MASK then True else ip AND rule_mask = rule_ip AND rule_mask)"

definition port_matches :: "u16 \<Rightarrow> u16 \<Rightarrow> bool" where
  "port_matches rule_port port \<longleftrightarrow> (if rule_port = POLICY_ANY_PORT then True else rule_port = port)"

definition proto_matches :: "u8 \<Rightarrow> u8 \<Rightarrow> bool" where
  "proto_matches rule_proto proto \<longleftrightarrow>
     (if rule_proto = POLICY_ANY_PROTO then True else rule_proto = proto)"

definition direction_matches :: "flow_direction \<Rightarrow> flow_direction \<Rightarrow> bool" where
  "direction_matches rule_direction direction \<longleftrightarrow>
     (if rule_direction = FLOW_DIRECTION_UNKNOWN then True else rule_direction = direction)"

definition rule_is_expired :: "policy_rule option \<Rightarrow> u32 \<Rightarrow> bool" where
  "rule_is_expired rule ts =
     (case rule of
        None \<Rightarrow> True
      | Some r \<Rightarrow> if pr_expires_at_ms r = 0 then False else ts \<ge> pr_expires_at_ms r)"

definition rule_matches ::
  "policy_rule option \<Rightarrow> flow_key option \<Rightarrow> flow_direction \<Rightarrow> u32 \<Rightarrow> bool" where
  "rule_matches rule key direction ts =
     (case (rule, key) of
        (Some r, Some k) \<Rightarrow>
          if \<not> pr_enabled r then False
          else if rule_is_expired rule ts then False
          else if \<not> direction_matches (pr_direction r) direction then False
          else if \<not> ip_matches (pr_src_ip r) (pr_src_mask r) (fk_src_ip k) then False
          else if \<not> ip_matches (pr_dst_ip r) (pr_dst_mask r) (fk_dst_ip k) then False
          else if \<not> port_matches (pr_src_port r) (fk_src_port k) then False
          else if \<not> port_matches (pr_dst_port r) (fk_dst_port k) then False
          else if \<not> proto_matches (pr_proto r) (fk_proto k) then False
          else True
      | _ \<Rightarrow> False)"

definition fill_default_decision :: "policy_engine_config \<Rightarrow> policy_decision" where
  "fill_default_decision config = \<lparr> pd_action = pec_default_action config,
     pd_reason = POLICY_REASON_NO_RULE, pd_matched_rule_id = 0, pd_matched_priority = 0,
     pd_risk_score = pec_default_risk_score config, pd_log_event = pec_default_log_event config,
     pd_reason_text = reason48 (lit ''default_policy'') \<rparr>"

definition fill_rule_decision :: "policy_rule \<Rightarrow> policy_decision" where
  "fill_rule_decision rule = \<lparr> pd_action = pr_action rule, pd_reason = POLICY_REASON_RULE_MATCH,
     pd_matched_rule_id = pr_rule_id rule, pd_matched_priority = pr_priority rule,
     pd_risk_score = pr_risk_score rule, pd_log_event = pr_log_event rule,
     pd_reason_text = reason48 (pr_reason rule) \<rparr>"

definition update_stats_for_action :: "policy_action \<Rightarrow> policy_engine_stats \<Rightarrow> policy_engine_stats" where
  "update_stats_for_action action st0 =
     (let st = st0 \<lparr> pes_evaluations := pes_evaluations st0 + 1 \<rparr> in
      case action of
        POLICY_ACTION_ALLOW \<Rightarrow> st \<lparr> pes_allowed := pes_allowed st + 1 \<rparr>
      | POLICY_ACTION_DENY \<Rightarrow> st \<lparr> pes_denied := pes_denied st + 1 \<rparr>
      | POLICY_ACTION_RATE_LIMIT \<Rightarrow> st \<lparr> pes_rate_limited := pes_rate_limited st + 1 \<rparr>
      | POLICY_ACTION_QUARANTINE \<Rightarrow> st \<lparr> pes_quarantined := pes_quarantined st + 1 \<rparr>
      | POLICY_ACTION_REDIRECT \<Rightarrow> st \<lparr> pes_redirected := pes_redirected st + 1 \<rparr>
      | POLICY_ACTION_LOG_ONLY \<Rightarrow> st \<lparr> pes_log_only := pes_log_only st + 1 \<rparr>
      | POLICY_ACTION_ASK_SWARM \<Rightarrow> st \<lparr> pes_ask_swarm := pes_ask_swarm st + 1 \<rparr>)"

definition policy_rule_zero :: policy_rule where
  "policy_rule_zero = \<lparr> pr_rule_id = 0, pr_enabled = False, pr_priority = 0,
     pr_direction = FLOW_DIRECTION_UNKNOWN, pr_src_ip = 0, pr_src_mask = 0, pr_dst_ip = 0,
     pr_dst_mask = 0, pr_src_port = 0, pr_dst_port = 0, pr_proto = 0,
     pr_action = POLICY_ACTION_ALLOW, pr_risk_score = 0, pr_log_event = False,
     pr_expires_at_ms = 0, pr_reason = replicate 48 0 \<rparr>"

definition policy_slot_zero :: policy_slot where
  "policy_slot_zero = \<lparr> ps_in_use = False, ps_rule = policy_rule_zero \<rparr>"

definition policy_stats_zero :: policy_engine_stats where
  "policy_stats_zero = \<lparr> pes_capacity = 0, pes_active_rules = 0, pes_evaluations = 0,
     pes_allowed = 0, pes_denied = 0, pes_rate_limited = 0, pes_quarantined = 0,
     pes_redirected = 0, pes_log_only = 0, pes_ask_swarm = 0, pes_no_match = 0,
     pes_invalid_input = 0 \<rparr>"

definition pe_find_empty_slot_locked :: "policy_engine \<Rightarrow> nat option" where
  "pe_find_empty_slot_locked p = find_index (\<lambda>s. \<not> ps_in_use s) (pe_rules p)"

definition pe_find_rule_slot_locked :: "u32 \<Rightarrow> policy_engine \<Rightarrow> nat option" where
  "pe_find_rule_slot_locked rule_id p =
     find_index (\<lambda>s. ps_in_use s \<and> pr_rule_id (ps_rule s) = rule_id) (pe_rules p)"

definition policy_engine_init ::
  "policy_engine_config option \<Rightarrow> policy_engine \<Rightarrow> esp_err \<times> policy_engine" where
  "policy_engine_init config p =
     (ESP_OK, \<lparr> pe_rules = replicate POLICY_ENGINE_MAX_RULES policy_slot_zero,
        pe_config = (case config of None \<Rightarrow> pe_load_default_config | Some c \<Rightarrow> c),
        pe_stats = policy_stats_zero \<lparr> pes_capacity := 64 \<rparr>, pe_initialized = True,
        pe_next_rule_id = 1 \<rparr>)"

definition policy_engine_reset :: "policy_engine \<Rightarrow> policy_engine" where
  "policy_engine_reset p =
     p \<lparr> pe_rules := replicate POLICY_ENGINE_MAX_RULES policy_slot_zero,
         pe_stats := policy_stats_zero \<lparr> pes_capacity := 64 \<rparr>, pe_next_rule_id := 1 \<rparr>"

definition policy_engine_add_rule ::
  "policy_rule option \<Rightarrow> u32 option \<Rightarrow> policy_engine \<Rightarrow> esp_err \<times> u32 option \<times> policy_engine" where
  "policy_engine_add_rule rule out_rule_id p =
     (case rule of
        None \<Rightarrow> (ESP_ERR_INVALID_ARG, out_rule_id, p)
      | Some r \<Rightarrow>
          if \<not> pe_initialized p then (ESP_ERR_INVALID_ARG, out_rule_id, p)
          else (case pe_find_empty_slot_locked p of
              None \<Rightarrow> (ESP_ERR_NO_MEM, out_rule_id, p)
            | Some slot \<Rightarrow>
                (let (copy, next) =
                       (if pr_rule_id r = 0
                        then (r \<lparr> pr_rule_id := pe_next_rule_id p \<rparr>, pe_next_rule_id p + 1)
                        else (r, pe_next_rule_id p));
                     copy = copy \<lparr> pr_enabled := True \<rparr>
                 in (ESP_OK, map_option (\<lambda>_. pr_rule_id copy) out_rule_id,
                     p \<lparr> pe_rules := (pe_rules p)[slot := \<lparr> ps_in_use = True, ps_rule = copy \<rparr>],
                         pe_next_rule_id := next,
                         pe_stats := (pe_stats p)
                           \<lparr> pes_active_rules := pes_active_rules (pe_stats p) + 1 \<rparr> \<rparr>))))"

text \<open>\<open>if (s_stats.active_rules > 0) s_stats.active_rules--\<close>\<close>

definition dec_u32 :: "u32 \<Rightarrow> u32" where
  "dec_u32 n = (if n > 0 then n - 1 else n)"

definition policy_engine_remove_rule :: "u32 \<Rightarrow> policy_engine \<Rightarrow> bool \<times> policy_engine" where
  "policy_engine_remove_rule rule_id p =
     (if \<not> pe_initialized p \<or> rule_id = 0 then (False, p)
      else (case pe_find_rule_slot_locked rule_id p of
          None \<Rightarrow> (False, p)
        | Some slot \<Rightarrow>
            (True, p \<lparr> pe_rules := (pe_rules p)[slot := policy_slot_zero],
               pe_stats := (pe_stats p)
                 \<lparr> pes_active_rules := dec_u32 (pes_active_rules (pe_stats p)) \<rparr> \<rparr>)))"

definition policy_engine_get_rule ::
  "u32 \<Rightarrow> policy_rule option \<Rightarrow> policy_engine \<Rightarrow> bool \<times> policy_rule option" where
  "policy_engine_get_rule rule_id out_rule p =
     (if \<not> pe_initialized p \<or> rule_id = 0 \<or> out_rule = None then (False, out_rule)
      else (case pe_find_rule_slot_locked rule_id p of
          None \<Rightarrow> (False, out_rule)
        | Some slot \<Rightarrow> (True, Some (ps_rule (pe_rules p ! slot)))))"

definition pe_hit :: "flow_key \<Rightarrow> flow_direction \<Rightarrow> u32 \<Rightarrow> policy_slot \<Rightarrow> bool" where
  "pe_hit key direction ts s \<longleftrightarrow>
     ps_in_use s \<and> rule_matches (Some (ps_rule s)) (Some key) direction ts"

definition policy_engine_evaluate ::
  "flow_key option \<Rightarrow> flow_direction \<Rightarrow> policy_decision option \<Rightarrow> u32 \<Rightarrow> policy_engine
     \<Rightarrow> esp_err \<times> policy_decision option \<times> policy_engine" where
  "policy_engine_evaluate key direction out_decision ts p =
     (if out_decision = None then (ESP_ERR_INVALID_ARG, out_decision, p)
      else if \<not> pe_initialized p \<or> key = None
      then (ESP_ERR_INVALID_ARG,
        Some \<lparr> pd_action = POLICY_ACTION_DENY, pd_reason = POLICY_REASON_INVALID_INPUT,
          pd_matched_rule_id = 0, pd_matched_priority = 0, pd_risk_score = 0, pd_log_event = False,
          pd_reason_text = reason48 (lit ''invalid_input'') \<rparr>,
        p \<lparr> pe_stats := (pe_stats p) \<lparr> pes_invalid_input := pes_invalid_input (pe_stats p) + 1 \<rparr> \<rparr>)
      else (case best_scan (pe_hit (the key) direction ts) (\<lambda>s. pr_priority (ps_rule s))
                   (pe_rules p) None of
          Some best \<Rightarrow>
            (let decision = fill_rule_decision (ps_rule best)
             in (ESP_OK, Some decision,
                 p \<lparr> pe_stats := update_stats_for_action (pd_action decision) (pe_stats p) \<rparr>))
        | None \<Rightarrow>
            (let decision = fill_default_decision (pe_config p);
                 st = (pe_stats p) \<lparr> pes_no_match := pes_no_match (pe_stats p) + 1 \<rparr>
             in (ESP_OK, Some decision,
                 p \<lparr> pe_stats := update_stats_for_action (pd_action decision) st \<rparr>))))"

definition policy_engine_set_default_action :: "policy_action \<Rightarrow> policy_engine \<Rightarrow> policy_engine" where
  "policy_engine_set_default_action action p =
     p \<lparr> pe_config := (pe_config p) \<lparr> pec_default_action := action \<rparr> \<rparr>"

definition policy_engine_expire_rules :: "u32 \<Rightarrow> policy_engine \<Rightarrow> u32 \<times> policy_engine" where
  "policy_engine_expire_rules ts p =
     (if \<not> pe_initialized p then (0, p)
      else (case fold (expire_step
                    (\<lambda>s. ps_in_use s \<and> rule_is_expired (Some (ps_rule s)) ts) policy_slot_zero)
                  [0..<POLICY_ENGINE_MAX_RULES]
                  (pe_rules p, pes_active_rules (pe_stats p), 0) of
          (rules, active, expired) \<Rightarrow>
            (expired, p \<lparr> pe_rules := rules,
               pe_stats := (pe_stats p) \<lparr> pes_active_rules := active \<rparr> \<rparr>)))"

definition policy_engine_get_stats :: "policy_engine \<Rightarrow> policy_engine_stats" where
  "policy_engine_get_stats p = pe_stats p"

definition policy_engine_foreach_rule :: "policy_engine \<Rightarrow> policy_rule list" where
  "policy_engine_foreach_rule p =
     (if \<not> pe_initialized p then [] else map ps_rule (filter ps_in_use (pe_rules p)))"

subsection \<open>Addresses and masks\<close>

lemma word_bits_eq: "(x :: 'a::len word) = y \<longleftrightarrow> (\<forall>n. bit x n = bit y n)"
  by (auto intro: bit_eqI)

lemma mask_match:
  fixes a b :: u32
  shows "a AND push_bit k 0xFFFFFFFF = b AND push_bit k 0xFFFFFFFF \<longleftrightarrow> drop_bit k a = drop_bit k b"
proof -
  have m: "(0xFFFFFFFF :: u32) = - 1" by simp
  have bm: "bit (push_bit k (- 1 :: u32)) n \<longleftrightarrow> k \<le> n \<and> n < 32" for n
    by (auto simp: bit_simps)
  have in32: "bit a n \<Longrightarrow> n < 32" "bit b n \<Longrightarrow> n < 32" for n
    using bit_imp_le_length[of a n] bit_imp_le_length[of b n] by simp_all
  have "drop_bit k a = drop_bit k b \<longleftrightarrow> (\<forall>n. bit a (k + n) = bit b (k + n))"
    unfolding word_bits_eq[of "drop_bit k a"] by (simp add: bit_drop_bit_eq)
  also have "\<dots> \<longleftrightarrow> (\<forall>n\<ge>k. bit a n = bit b n)"
  proof
    assume h: "\<forall>n. bit a (k + n) = bit b (k + n)"
    show "\<forall>n\<ge>k. bit a n = bit b n"
    proof (rule allI, rule impI)
      fix n assume "k \<le> n"
      then have "k + (n - k) = n" by simp
      with h[rule_format, of "n - k"] show "bit a n = bit b n" by (simp only:)
    qed
  qed simp
  also have "\<dots> \<longleftrightarrow> (\<forall>n. bit (a AND push_bit k (- 1)) n = bit (b AND push_bit k (- 1)) n)"
    unfolding bit_and_iff bm using in32 by blast
  finally show ?thesis unfolding m word_bits_eq[of "a AND push_bit k (- 1)"] by simp
qed

lemma ip_matches_cidr:
  assumes "cidr \<le> 32"
  shows "ip_matches rule_ip (policy_engine_cidr_mask cidr) ip \<longleftrightarrow>
    drop_bit (32 - unat cidr) ip = drop_bit (32 - unat cidr) rule_ip"
proof -
  have all: "drop_bit 32 x = 0" for x :: u32
    by (rule bit_word_eqI) (auto simp: bit_simps dest: bit_imp_le_length)
  consider "cidr = 0" | "cidr = 32" | "cidr \<noteq> 0" "\<not> 32 \<le> cidr" using assms by fastforce
  then show ?thesis
  proof cases
    case 1
    then show ?thesis by (simp add: ip_matches_def policy_engine_cidr_mask_def all)
  next
    case 2
    then show ?thesis using mask_match[of ip 0 rule_ip]
      by (simp add: ip_matches_def policy_engine_cidr_mask_def)
  next
    case 3
    let ?k = "32 - unat cidr"
    have u: "0 < unat cidr" "unat cidr < 32"
      using 3 by (simp_all add: unat_gt_0 word_le_nat_alt)
    have "bit (push_bit ?k (- 1 :: u32)) 31"
      using u by (simp add: bit_simps)
    moreover have "(0xFFFFFFFF :: u32) = - 1" by simp
    ultimately have "bit (push_bit ?k (0xFFFFFFFF :: u32)) 31" by (simp only:)
    then have "push_bit ?k (0xFFFFFFFF :: u32) \<noteq> 0" by (metis bit_0_eq bot_apply bot_bool_def)
    then show ?thesis using 3 mask_match[of ip ?k rule_ip]
      by (simp add: ip_matches_def policy_engine_cidr_mask_def)
  qed
qed

subsection \<open>Invariant\<close>

interpretation pslots: slot_pool ps_in_use policy_slot_zero
  by unfold_locales (simp add: policy_slot_zero_def)

definition pe_stats_ok :: "policy_engine_stats \<Rightarrow> bool" where
  "pe_stats_ok st \<longleftrightarrow> pes_evaluations st = pes_allowed st + pes_denied st + pes_rate_limited st
     + pes_quarantined st + pes_redirected st + pes_log_only st + pes_ask_swarm st"

definition pe_wf :: "policy_engine \<Rightarrow> bool" where
  "pe_wf p \<longleftrightarrow> length (pe_rules p) = POLICY_ENGINE_MAX_RULES \<and>
     pes_active_rules (pe_stats p) = of_nat (used_count ps_in_use (pe_rules p)) \<and>
     (\<forall>s\<in>set (pe_rules p). ps_in_use s \<longrightarrow> pr_enabled (ps_rule s)) \<and> pe_stats_ok (pe_stats p)"

lemma update_stats_ok:
  "pe_stats_ok st \<Longrightarrow> pe_stats_ok (update_stats_for_action a st)"
  "pes_active_rules (update_stats_for_action a st) = pes_active_rules st"
  by (cases a; simp add: pe_stats_ok_def update_stats_for_action_def Let_def)+

datatype pe_op =
    Pe_init "policy_engine_config option"
  | Pe_reset
  | Pe_add "policy_rule option"
  | Pe_remove u32
  | Pe_evaluate "flow_key option" flow_direction u32
  | Pe_set_default policy_action
  | Pe_expire u32

fun pe_step :: "pe_op \<Rightarrow> policy_engine \<Rightarrow> unit \<times> policy_engine" where
  "pe_step (Pe_init c) p = ((), snd (policy_engine_init c p))"
| "pe_step Pe_reset p = ((), policy_engine_reset p)"
| "pe_step (Pe_add r) p = ((), snd (snd (policy_engine_add_rule r None p)))"
| "pe_step (Pe_remove i) p = ((), snd (policy_engine_remove_rule i p))"
| "pe_step (Pe_evaluate k d ts) p =
     ((), snd (snd (policy_engine_evaluate k d (Some (fill_default_decision (pe_config p))) ts p)))"
| "pe_step (Pe_set_default a) p = ((), policy_engine_set_default_action a p)"
| "pe_step (Pe_expire ts) p = ((), snd (policy_engine_expire_rules ts p))"

lemma pe_blank:
  "length (replicate POLICY_ENGINE_MAX_RULES policy_slot_zero) = POLICY_ENGINE_MAX_RULES"
  "used_count ps_in_use (replicate POLICY_ENGINE_MAX_RULES policy_slot_zero) = 0"
  "pe_stats_ok (policy_stats_zero \<lparr> pes_capacity := 64 \<rparr>)"
  using pslots.count_blank by (simp_all add: pe_stats_ok_def policy_stats_zero_def)

lemma pe_add_wf:
  assumes "pe_wf p"
  shows "pe_wf (snd (snd (policy_engine_add_rule r out p)))"
proof (cases "\<exists>x slot. r = Some x \<and> pe_initialized p \<and> pe_find_empty_slot_locked p = Some slot")
  case True
  then obtain x slot where r: "r = Some x" "pe_initialized p" "pe_find_empty_slot_locked p = Some slot"
    by blast
  note f = pslots.free_slot_fresh[OF r(3)[unfolded pe_find_empty_slot_locked_def]]
  have "used_count ps_in_use ((pe_rules p)[slot := \<lparr> ps_in_use = True, ps_rule = y \<rparr>])
      = Suc (used_count ps_in_use (pe_rules p))" for y
    by (rule pslots.count_fill[OF f]) simp
  then show ?thesis using assms r f(1)
    by (auto simp: policy_engine_add_rule_def pe_wf_def pe_stats_ok_def Let_def
        dest!: set_update_subset_insert[THEN subsetD] split: prod.splits if_splits)
next
  case False
  then show ?thesis using assms
    by (auto simp: policy_engine_add_rule_def split: option.splits)
qed

lemma pe_add_initialized: "pe_initialized (snd (snd (policy_engine_add_rule r out p))) = pe_initialized p"
  by (simp add: policy_engine_add_rule_def Let_def split: option.splits)

lemma dec_u32_count: "Suc m = n \<Longrightarrow> n < 2 ^ 32 \<Longrightarrow> dec_u32 (of_nat n) = of_nat m"
  using active_dec[of m n] by (simp add: dec_u32_def)

lemma pe_remove_wf:
  assumes "pe_wf p"
  shows "pe_wf (snd (policy_engine_remove_rule i p))"
proof (cases "\<exists>slot. pe_initialized p \<and> i \<noteq> 0 \<and> pe_find_rule_slot_locked i p = Some slot")
  case True
  then obtain slot where r: "pe_initialized p" "i \<noteq> 0" "pe_find_rule_slot_locked i p = Some slot"
    by blast
  then have s: "slot < length (pe_rules p)" "ps_in_use (pe_rules p ! slot)"
    using find_index_SomeD[OF r(3)[unfolded pe_find_rule_slot_locked_def]] by simp_all
  have "used_count ps_in_use (pe_rules p) < 2 ^ 32"
    using pslots.count_le[of "pe_rules p"] assms by (simp add: pe_wf_def)
  note d = dec_u32_count[OF pslots.count_clear[OF s] this]
  show ?thesis using assms r d
    by (auto simp: policy_engine_remove_rule_def pe_wf_def pe_stats_ok_def policy_slot_zero_def
        dest!: set_update_subset_insert[THEN subsetD])
next
  case False
  then show ?thesis using assms
    by (auto simp: policy_engine_remove_rule_def split: option.splits)
qed

lemma pe_expire:
  assumes "pe_wf p" and "pe_initialized p" and "policy_engine_expire_rules ts p = (n, p')"
  shows "pe_rules p' = sweep (\<lambda>s. ps_in_use s \<and> rule_is_expired (Some (ps_rule s)) ts)
      policy_slot_zero (pe_rules p)"
    "n = of_nat (length (filter (\<lambda>s. ps_in_use s \<and> rule_is_expired (Some (ps_rule s)) ts) (pe_rules p)))"
    "pe_wf p'" "pe_initialized p'" "pe_config p' = pe_config p"
proof -
  let ?d = "\<lambda>s. ps_in_use s \<and> rule_is_expired (Some (ps_rule s)) ts"
  have wf: "length (pe_rules p) = 64"
    "pes_active_rules (pe_stats p) = of_nat (used_count ps_in_use (pe_rules p))"
    using assms(1) by (simp_all add: pe_wf_def)
  have r: "n = of_nat (length (filter ?d (pe_rules p)))"
    "p' = p \<lparr> pe_rules := sweep ?d policy_slot_zero (pe_rules p), pe_stats := (pe_stats p)
      \<lparr> pes_active_rules := of_nat (used_count ps_in_use (sweep ?d policy_slot_zero (pe_rules p))) \<rparr> \<rparr>"
    using assms(2,3) pslots.expire_loop[of ?d "pe_rules p"] wf
    by (auto simp: policy_engine_expire_rules_def)
  show "pe_rules p' = sweep ?d policy_slot_zero (pe_rules p)"
    "n = of_nat (length (filter ?d (pe_rules p)))" "pe_initialized p'" "pe_config p' = pe_config p"
    using r assms(2) by simp_all
  have "\<forall>s\<in>set (sweep ?d policy_slot_zero (pe_rules p)). ps_in_use s \<longrightarrow> pr_enabled (ps_rule s)"
    using assms(1) by (auto simp: sweep_def pe_wf_def policy_slot_zero_def split: if_splits)
  then show "pe_wf p'" using assms(1) r by (simp add: pe_wf_def pe_stats_ok_def)
qed

lemma pe_evaluate_frame:
  "pe_rules (snd (snd (policy_engine_evaluate k d out ts p))) = pe_rules p"
  "pe_config (snd (snd (policy_engine_evaluate k d out ts p))) = pe_config p"
  "pe_initialized (snd (snd (policy_engine_evaluate k d out ts p))) = pe_initialized p"
  "pe_next_rule_id (snd (snd (policy_engine_evaluate k d out ts p))) = pe_next_rule_id p"
  by (simp_all add: policy_engine_evaluate_def Let_def split: option.splits)

lemma pe_evaluate_wf: "pe_wf p \<Longrightarrow> pe_wf (snd (snd (policy_engine_evaluate k d out ts p)))"
  by (simp add: pe_wf_def pe_evaluate_frame)
    (simp add: policy_engine_evaluate_def Let_def update_stats_ok pe_stats_ok_def[of "_\<lparr>pes_no_match := _\<rparr>"]
      pe_stats_ok_def[of "_\<lparr>pes_invalid_input := _\<rparr>"] pe_stats_ok_def[symmetric] split: option.splits)

lemma pe_step_wf: "pe_wf p \<Longrightarrow> pe_wf (snd (pe_step x p))"
proof (cases x)
  case (Pe_init c)
  then show ?thesis using pe_blank
    by (simp add: policy_engine_init_def pe_wf_def policy_slot_zero_def policy_stats_zero_def)
next
  case Pe_reset
  then show ?thesis using pe_blank
    by (simp add: policy_engine_reset_def pe_wf_def policy_slot_zero_def policy_stats_zero_def)
next
  case (Pe_expire ts)
  assume "pe_wf p"
  with Pe_expire show ?thesis
    using pe_expire(3)[OF \<open>pe_wf p\<close> _ prod.collapse[symmetric], of ts]
    by (cases "pe_initialized p") (simp_all add: policy_engine_expire_rules_def)
next
  case (Pe_set_default a)
  assume "pe_wf p"
  with Pe_set_default show ?thesis by (simp add: policy_engine_set_default_action_def pe_wf_def)
qed (simp_all add: pe_add_wf pe_remove_wf pe_evaluate_wf)

interpretation policy: module_invariant pe_wf "\<lambda>x. True" pe_step
  by unfold_locales (rule pe_step_wf)

definition pe_decision_spec ::
  "flow_key \<Rightarrow> flow_direction \<Rightarrow> u32 \<Rightarrow> policy_engine \<Rightarrow> policy_decision" where
  "pe_decision_spec k d ts p =
     (case best_rule (pe_hit k d ts) (\<lambda>s. pr_priority (ps_rule s)) (pe_rules p) of
        Some s \<Rightarrow> fill_rule_decision (ps_rule s)
      | None \<Rightarrow> fill_default_decision (pe_config p))"

lemma pe_evaluate_spec:
  assumes "pe_initialized p"
  shows "fst (policy_engine_evaluate (Some k) d (Some out) ts p) = ESP_OK"
    "fst (snd (policy_engine_evaluate (Some k) d (Some out) ts p)) = Some (pe_decision_spec k d ts p)"
  using assms
  by (simp_all add: policy_engine_evaluate_def pe_decision_spec_def Let_def best_scan_eq_best_rule
      split: option.splits)

lemma rule_is_expired_mono:
  "rule_is_expired r ts \<Longrightarrow> ts \<le> ts' \<Longrightarrow> rule_is_expired r ts'"
  by (auto simp: rule_is_expired_def split: option.splits if_splits)

lemma pe_decision_after_expiry:
  assumes "pe_wf p" and "pe_initialized p" and "ts \<le> ts'"
  shows "pe_decision_spec k d ts' (snd (policy_engine_expire_rules ts p)) = pe_decision_spec k d ts' p"
proof -
  note e = pe_expire[OF assms(1,2) prod.collapse[symmetric], of ts]
  have "best_scan (pe_hit k d ts') (\<lambda>s. pr_priority (ps_rule s))
      (pe_rules (snd (policy_engine_expire_rules ts p))) None
    = best_scan (pe_hit k d ts') (\<lambda>s. pr_priority (ps_rule s)) (pe_rules p) None"
    unfolding e(1)
    by (rule best_scan_sweep)
      (auto simp: pe_hit_def rule_matches_def policy_slot_zero_def dest: rule_is_expired_mono[OF _ assms(3)])
  then show ?thesis by (simp add: pe_decision_spec_def best_scan_eq_best_rule e(5) split: option.split)
qed

abbreviation has_rule_id :: "u32 \<Rightarrow> policy_slot \<Rightarrow> bool" where
  "has_rule_id i s \<equiv> ps_in_use s \<and> pr_rule_id (ps_rule s) = i"

lemma pe_get_rule_iff:
  assumes "pe_initialized p" and "i \<noteq> 0"
  shows "fst (policy_engine_get_rule i (Some out) p) \<longleftrightarrow> filter (has_rule_id i) (pe_rules p) \<noteq> []"
  using assms find_index_None_iff[of "has_rule_id i" "pe_rules p"]
  by (auto simp: policy_engine_get_rule_def pe_find_rule_slot_locked_def filter_empty_conv split: option.splits)

lemma pe_remove_rule_count:
  assumes "pe_initialized p" and "i \<noteq> 0" and "policy_engine_remove_rule i p = (ok, p')"
  shows "ok \<longleftrightarrow> filter (has_rule_id i) (pe_rules p) \<noteq> []"
    "length (filter (has_rule_id i) (pe_rules p')) = length (filter (has_rule_id i) (pe_rules p)) - 1"
    "pe_initialized p'"
proof -
  have "(ok \<longleftrightarrow> filter (has_rule_id i) (pe_rules p) \<noteq> []) \<and>
    length (filter (has_rule_id i) (pe_rules p')) = length (filter (has_rule_id i) (pe_rules p)) - 1
    \<and> pe_initialized p'"
  proof (cases "pe_find_rule_slot_locked i p")
    case None
    then have "filter (has_rule_id i) (pe_rules p) = []"
      by (simp add: pe_find_rule_slot_locked_def find_index_None_iff filter_empty_conv)
    with None assms show ?thesis by (auto simp: policy_engine_remove_rule_def)
  next
    case (Some n)
    note n = find_index_SomeD[OF Some[unfolded pe_find_rule_slot_locked_def]]
    then have n': "n < length (pe_rules p)" "has_rule_id i (pe_rules p ! n)" by auto
    have "pe_rules p' = (pe_rules p)[n := policy_slot_zero]" "ok" "pe_initialized p'"
      using Some assms by (auto simp: policy_engine_remove_rule_def)
    moreover have "filter (has_rule_id i) (pe_rules p) =
        filter (has_rule_id i) (take n (pe_rules p)) @ pe_rules p ! n
        # filter (has_rule_id i) (drop (Suc n) (pe_rules p))"
      using n' by (subst id_take_nth_drop[OF n'(1)]) simp
    ultimately show ?thesis using n'
      by (simp add: upd_conv_take_nth_drop policy_slot_zero_def)
  qed
  then show "ok \<longleftrightarrow> filter (has_rule_id i) (pe_rules p) \<noteq> []"
    "length (filter (has_rule_id i) (pe_rules p')) = length (filter (has_rule_id i) (pe_rules p)) - 1"
    "pe_initialized p'" by auto
qed

definition pe_fresh :: policy_engine where
  "pe_fresh = snd (policy_engine_init None
     \<lparr> pe_rules = [], pe_config = pe_load_default_config, pe_stats = policy_stats_zero,
       pe_initialized = False, pe_next_rule_id = 0 \<rparr>)"

definition block_dns :: policy_rule where
  "block_dns = policy_rule_zero \<lparr> pr_rule_id := 7, pr_priority := 100, pr_dst_port := 53,
     pr_action := POLICY_ACTION_DENY, pr_expires_at_ms := 5000 \<rparr>"

lemma pe_fresh_facts: "pe_wf pe_fresh" "pe_initialized pe_fresh"
  using pe_step_wf[of "pe_fresh" "Pe_init None"] pe_blank
  by (simp_all add: pe_fresh_def policy_engine_init_def pe_wf_def policy_slot_zero_def policy_stats_zero_def)

lemma replicate_64: "replicate POLICY_ENGINE_MAX_RULES z = z # z # replicate 62 z"
  by (simp add: eval_nat_numeral)

subsection \<open>Properties\<close>

text \<open>C28: An evaluation returns the decision of the matching rule (enabled, not expired, direction,
  networks, ports and protocol all agreeing with the flow) of greatest priority, the one in the
  last slot when several share it, and the configured default when no rule matches; it changes
  no rule and no configuration.\<close>

theorem policy_engine_evaluate_best_rule:
  assumes "pe_initialized p"
    and "policy_engine_evaluate (Some k) d (Some out0) ts p = (err, out, p')"
  shows "err = ESP_OK \<and> pe_rules p' = pe_rules p \<and> pe_config p' = pe_config p \<and>
    ((\<exists>xs s ys. pe_rules p = xs @ s # ys \<and> pe_hit k d ts s
        \<and> (\<forall>r\<in>set xs. pe_hit k d ts r \<longrightarrow> pr_priority (ps_rule r) \<le> pr_priority (ps_rule s))
        \<and> (\<forall>r\<in>set ys. pe_hit k d ts r \<longrightarrow> pr_priority (ps_rule r) < pr_priority (ps_rule s))
        \<and> out = Some (fill_rule_decision (ps_rule s)))
     \<or> ((\<forall>s\<in>set (pe_rules p). \<not> pe_hit k d ts s)
        \<and> out = Some (fill_default_decision (pe_config p))))"
proof (cases "best_scan (pe_hit k d ts) (\<lambda>s. pr_priority (ps_rule s)) (pe_rules p) None")
  case None
  then have "\<forall>s\<in>set (pe_rules p). \<not> pe_hit k d ts s" by (simp add: best_scan_None_iff)
  with None assms show ?thesis by (auto simp: policy_engine_evaluate_def Let_def)
next
  case (Some s)
  then have "err = ESP_OK" "out = Some (fill_rule_decision (ps_rule s))"
    "pe_rules p' = pe_rules p" "pe_config p' = pe_config p"
    using assms by (auto simp: policy_engine_evaluate_def Let_def)
  with best_scan_split[OF Some] show ?thesis by blast
qed

theorem policy_engine_evaluate_best_rule_witness:
  "\<exists>err out p'. policy_engine_evaluate (Some k0) FLOW_DIRECTION_UNKNOWN
       (Some (fill_default_decision pe_load_default_config)) 10 pe_fresh = (err, out, p')
     \<and> out = Some (fill_default_decision pe_load_default_config)"
proof -
  obtain err out p' where e: "policy_engine_evaluate (Some k0) FLOW_DIRECTION_UNKNOWN
      (Some (fill_default_decision pe_load_default_config)) 10 pe_fresh = (err, out, p')"
    by (metis prod.collapse)
  have "\<forall>s\<in>set (pe_rules pe_fresh). \<not> pe_hit k0 FLOW_DIRECTION_UNKNOWN 10 s"
    "pe_config pe_fresh = pe_load_default_config"
    by (simp_all add: pe_fresh_def policy_engine_init_def pe_hit_def policy_slot_zero_def)
  with policy_engine_evaluate_best_rule[OF pe_fresh_facts(2) e] e show ?thesis by auto
qed

text \<open>C29: A rule address under the mask built from a prefix length up to 32 matches exactly the
  addresses that agree with it on that many leading bits; prefix length 0 matches every address.\<close>

theorem policy_engine_cidr_prefix:
  assumes "cidr \<le> 32"
  shows "ip_matches rule_ip (policy_engine_cidr_mask cidr) ip \<longleftrightarrow>
    drop_bit (32 - unat cidr) ip = drop_bit (32 - unat cidr) rule_ip"
  by (rule ip_matches_cidr[OF assms])

theorem policy_engine_cidr_prefix_witness:
  "ip_matches (policy_engine_ipv4 192 168 4 0) (policy_engine_cidr_mask 24)
     (policy_engine_ipv4 192 168 4 77)
   \<and> \<not> ip_matches (policy_engine_ipv4 192 168 4 0) (policy_engine_cidr_mask 24)
     (policy_engine_ipv4 192 168 5 77)"
  by (simp add: policy_engine_cidr_prefix policy_engine_ipv4_def)

text \<open>C30: The expiry sweep never changes a decision: every evaluation at the time of the sweep or
  later decides as it would have decided without the sweep.\<close>

theorem policy_engine_expiry_transparent:
  assumes "pe_wf p" and "pe_initialized p" and "ts \<le> ts'"
  shows "fst (snd (policy_engine_evaluate (Some k) d (Some out) ts' (snd (policy_engine_expire_rules ts p))))
    = fst (snd (policy_engine_evaluate (Some k) d (Some out) ts' p))"
  using pe_evaluate_spec(2)[OF assms(2)] pe_decision_after_expiry[OF assms]
    pe_evaluate_spec(2)[OF pe_expire(4)[OF assms(1,2) prod.collapse[symmetric]]] by simp

theorem policy_engine_expiry_transparent_witness:
  "fst (snd (policy_engine_evaluate (Some k0) FLOW_DIRECTION_UNKNOWN
     (Some (fill_default_decision pe_load_default_config)) 9000
     (snd (policy_engine_expire_rules 6000
        (snd (snd (policy_engine_add_rule (Some block_dns) None pe_fresh)))))))
   = fst (snd (policy_engine_evaluate (Some k0) FLOW_DIRECTION_UNKNOWN
     (Some (fill_default_decision pe_load_default_config)) 9000
     (snd (snd (policy_engine_add_rule (Some block_dns) None pe_fresh)))))"
proof (rule policy_engine_expiry_transparent)
  show "pe_wf (snd (snd (policy_engine_add_rule (Some block_dns) None pe_fresh)))"
    by (rule pe_add_wf[OF pe_fresh_facts(1)])
  show "pe_initialized (snd (snd (policy_engine_add_rule (Some block_dns) None pe_fresh)))"
    using pe_fresh_facts(2) by (simp only: pe_add_initialized)
  show "(6000 :: u32) \<le> 9000" by simp
qed



text \<open>After initialisation and any sequence of calls, the counter of active rules is the number
  of occupied slots, every stored rule is enabled, and the number of evaluations is the sum of the
  seven per-action counters.\<close>

theorem policy_engine_books_balance: "pe_wf (snd (run pe_step (Pe_init c # ops) p))"
proof -
  have "pe_wf (snd (pe_step (Pe_init c) p))" using pe_blank
    by (simp add: policy_engine_init_def pe_wf_def policy_slot_zero_def policy_stats_zero_def)
  then show ?thesis using policy.run_inv[of _ ops]
    by (simp add: run_Cons_simp list_all_iff del: run.simps(2) pe_step.simps)
qed

end
