(* ===== verification/Rate_Limiter.thy ===== *)
theory Rate_Limiter
  imports Policy_Engine
begin

text \<open>
  The fixed-window rate limiter (\<open>rate_limiter.c\<close>): 128 buckets keyed by flow and direction and
  32 rules.  Each call is one critical section; the clock value it reads is the argument \<open>ts\<close>.
  The address, port, protocol and direction tests of this file are literally those of the policy
  engine and are taken from there.
\<close>

abbreviation RATE_LIMITER_MAX_BUCKETS :: nat where "RATE_LIMITER_MAX_BUCKETS \<equiv> 128"
abbreviation RATE_LIMITER_MAX_RULES :: nat where "RATE_LIMITER_MAX_RULES \<equiv> 32"

datatype rate_limit_decision =
  RATE_LIMIT_DECISION_ALLOW | RATE_LIMIT_DECISION_EXCEEDED | RATE_LIMIT_DECISION_ERROR

datatype rate_limit_reason =
    RATE_LIMIT_REASON_DEFAULT
  | RATE_LIMIT_REASON_RULE_MATCH
  | RATE_LIMIT_REASON_NO_RULE
  | RATE_LIMIT_REASON_INVALID_INPUT
  | RATE_LIMIT_REASON_TABLE_FULL

record rate_limit_params =
  rp_window_ms :: u32
  rp_max_packets :: u32
  rp_max_bytes :: u32

record rate_limit_rule =
  rr_rule_id :: u32
  rr_enabled :: bool
  rr_priority :: u16
  rr_direction :: flow_direction
  rr_src_ip :: u32
  rr_src_mask :: u32
  rr_dst_ip :: u32
  rr_dst_mask :: u32
  rr_src_port :: u16
  rr_dst_port :: u16
  rr_proto :: u8
  rr_params :: rate_limit_params
  rr_log_event :: bool
  rr_suggest_quarantine :: bool
  rr_reason :: bytes

record rate_limiter_config =
  rlc_default_params :: rate_limit_params
  rlc_max_idle_ms :: u32
  rlc_evict_lru_when_full :: bool

record rate_limit_result =
  rres_decision :: rate_limit_decision
  rres_reason :: rate_limit_reason
  rres_matched_rule_id :: u32
  rres_matched_priority :: u16
  rres_window_ms :: u32
  rres_packets_in_window :: u32
  rres_bytes_in_window :: u32
  rres_max_packets :: u32
  rres_max_bytes :: u32
  rres_log_event :: bool
  rres_suggest_quarantine :: bool
  rres_reason_text :: bytes

record rate_limiter_stats =
  rls_capacity_buckets :: u32
  rls_capacity_rules :: u32
  rls_active_buckets :: u32
  rls_active_rules :: u32
  rls_checks :: u64
  rls_allowed :: u64
  rls_exceeded :: u64
  rls_created_buckets :: u64
  rls_evicted_buckets :: u64
  rls_expired_buckets :: u64
  rls_invalid_input :: u64

record bucket_key =
  bk_key :: flow_key
  bk_direction :: flow_direction

record rate_bucket =
  rb_in_use :: bool
  rb_bucket_key :: bucket_key
  rb_window_start_ms :: u32
  rb_last_seen_ms :: u32
  rb_packets_in_window :: u32
  rb_bytes_in_window :: u32
  rb_exceeded_count :: u32

record rate_rule_slot =
  rrs_in_use :: bool
  rrs_rule :: rate_limit_rule

record rate_limiter =
  rl_buckets :: "rate_bucket list"
  rl_rules :: "rate_rule_slot list"
  rl_config :: rate_limiter_config
  rl_stats :: rate_limiter_stats
  rl_initialized :: bool
  rl_next_rule_id :: u32

definition flow_key_zero :: flow_key where
  "flow_key_zero = \<lparr> fk_src_ip = 0, fk_dst_ip = 0, fk_src_port = 0, fk_dst_port = 0, fk_proto = 0 \<rparr>"

definition rate_bucket_zero :: rate_bucket where
  "rate_bucket_zero = \<lparr> rb_in_use = False,
     rb_bucket_key = \<lparr> bk_key = flow_key_zero, bk_direction = FLOW_DIRECTION_UNKNOWN \<rparr>,
     rb_window_start_ms = 0, rb_last_seen_ms = 0, rb_packets_in_window = 0,
     rb_bytes_in_window = 0, rb_exceeded_count = 0 \<rparr>"

definition rate_rule_slot_zero :: rate_rule_slot where
  "rate_rule_slot_zero = \<lparr> rrs_in_use = False, rrs_rule = \<lparr> rr_rule_id = 0, rr_enabled = False,
     rr_priority = 0, rr_direction = FLOW_DIRECTION_UNKNOWN, rr_src_ip = 0, rr_src_mask = 0,
     rr_dst_ip = 0, rr_dst_mask = 0, rr_src_port = 0, rr_dst_port = 0, rr_proto = 0,
     rr_params = \<lparr> rp_window_ms = 0, rp_max_packets = 0, rp_max_bytes = 0 \<rparr>,
     rr_log_event = False, rr_suggest_quarantine = False, rr_reason = replicate 48 0 \<rparr> \<rparr>"

definition rate_stats_zero :: rate_limiter_stats where
  "rate_stats_zero = \<lparr> rls_capacity_buckets = 0, rls_capacity_rules = 0, rls_active_buckets = 0,
     rls_active_rules = 0, rls_checks = 0, rls_allowed = 0, rls_exceeded = 0,
     rls_created_buckets = 0, rls_evicted_buckets = 0, rls_expired_buckets = 0,
     rls_invalid_input = 0 \<rparr>"

definition rate_result_zero :: rate_limit_result where
  "rate_result_zero = \<lparr> rres_decision = RATE_LIMIT_DECISION_ALLOW,
     rres_reason = RATE_LIMIT_REASON_DEFAULT, rres_matched_rule_id = 0, rres_matched_priority = 0,
     rres_window_ms = 0, rres_packets_in_window = 0, rres_bytes_in_window = 0,
     rres_max_packets = 0, rres_max_bytes = 0, rres_log_event = False,
     rres_suggest_quarantine = False, rres_reason_text = replicate 48 0 \<rparr>"

definition rate_limiter_ipv4 :: "u8 \<Rightarrow> u8 \<Rightarrow> u8 \<Rightarrow> u8 \<Rightarrow> u32" where
  "rate_limiter_ipv4 a b c d =
     push_bit 24 (ucast a) OR push_bit 16 (ucast b) OR push_bit 8 (ucast c) OR ucast d"

definition rate_limiter_cidr_mask :: "u8 \<Rightarrow> u32" where
  "rate_limiter_cidr_mask cidr =
     (if cidr = 0 then 0
      else if cidr \<ge> 32 then 0xFFFFFFFF
      else push_bit (32 - unat cidr) 0xFFFFFFFF)"

fun rate_limit_decision_to_string :: "rate_limit_decision \<Rightarrow> string" where
  "rate_limit_decision_to_string RATE_LIMIT_DECISION_ALLOW = ''ALLOW''"
| "rate_limit_decision_to_string RATE_LIMIT_DECISION_EXCEEDED = ''EXCEEDED''"
| "rate_limit_decision_to_string RATE_LIMIT_DECISION_ERROR = ''ERROR''"

definition rl_load_default_config :: rate_limiter_config where
  "rl_load_default_config = \<lparr>
     rlc_default_params = \<lparr> rp_window_ms = 1000, rp_max_packets = 60, rp_max_bytes = 0 \<rparr>,
     rlc_max_idle_ms = 60000, rlc_evict_lru_when_full = True \<rparr>"

definition bucket_key_equals :: "bucket_key \<Rightarrow> bucket_key \<Rightarrow> bool" where
  "bucket_key_equals a b \<longleftrightarrow>
     bk_direction a = bk_direction b \<and> flow_table_key_equals (Some (bk_key a)) (Some (bk_key b))"

definition rate_rule_matches :: "rate_limit_rule \<Rightarrow> flow_key \<Rightarrow> flow_direction \<Rightarrow> bool" where
  "rate_rule_matches rule key direction =
     (if \<not> rr_enabled rule then False
      else if \<not> direction_matches (rr_direction rule) direction then False
      else if \<not> ip_matches (rr_src_ip rule) (rr_src_mask rule) (fk_src_ip key) then False
      else if \<not> ip_matches (rr_dst_ip rule) (rr_dst_mask rule) (fk_dst_ip key) then False
      else if \<not> port_matches (rr_src_port rule) (fk_src_port key) then False
      else if \<not> port_matches (rr_dst_port rule) (fk_dst_port key) then False
      else if \<not> proto_matches (rr_proto rule) (fk_proto key) then False
      else True)"

definition find_best_rule_locked ::
  "flow_key \<Rightarrow> flow_direction \<Rightarrow> rate_limiter \<Rightarrow> rate_limit_rule option" where
  "find_best_rule_locked key direction r =
     map_option rrs_rule
       (best_scan (\<lambda>s. rrs_in_use s \<and> rate_rule_matches (rrs_rule s) key direction)
          (\<lambda>s. rr_priority (rrs_rule s)) (rl_rules r) None)"

definition find_bucket_locked :: "bucket_key \<Rightarrow> rate_limiter \<Rightarrow> nat option" where
  "find_bucket_locked bucket_key r =
     find_index (\<lambda>b. rb_in_use b \<and> bucket_key_equals (rb_bucket_key b) bucket_key) (rl_buckets r)"

definition find_empty_bucket_locked :: "rate_limiter \<Rightarrow> nat option" where
  "find_empty_bucket_locked r = find_index (\<lambda>b. \<not> rb_in_use b) (rl_buckets r)"

definition find_lru_bucket_locked :: "rate_limiter \<Rightarrow> nat option" where
  "find_lru_bucket_locked r = find_lru rb_in_use rb_last_seen_ms (rl_buckets r)"

definition find_empty_rule_locked :: "rate_limiter \<Rightarrow> nat option" where
  "find_empty_rule_locked r = find_index (\<lambda>s. \<not> rrs_in_use s) (rl_rules r)"

definition rl_find_rule_slot_locked :: "u32 \<Rightarrow> rate_limiter \<Rightarrow> nat option" where
  "rl_find_rule_slot_locked rule_id r =
     find_index (\<lambda>s. rrs_in_use s \<and> rr_rule_id (rrs_rule s) = rule_id) (rl_rules r)"

definition clear_bucket_locked :: "nat \<Rightarrow> rate_limiter \<Rightarrow> rate_limiter" where
  "clear_bucket_locked index r =
     (if index \<ge> RATE_LIMITER_MAX_BUCKETS then r
      else (let st = rl_stats r in
        r \<lparr> rl_stats := (if rb_in_use (rl_buckets r ! index) \<and> rls_active_buckets st > 0
                        then st \<lparr> rls_active_buckets := rls_active_buckets st - 1 \<rparr> else st),
            rl_buckets := (rl_buckets r)[index := rate_bucket_zero] \<rparr>))"

definition rl_new_bucket :: "bucket_key \<Rightarrow> u32 \<Rightarrow> rate_bucket" where
  "rl_new_bucket bucket_key ts = rate_bucket_zero \<lparr> rb_in_use := True,
     rb_bucket_key := bucket_key, rb_window_start_ms := ts, rb_last_seen_ms := ts \<rparr>"

definition create_bucket_locked ::
  "bucket_key \<Rightarrow> u32 \<Rightarrow> rate_limiter \<Rightarrow> nat option \<times> rate_limiter" where
  "create_bucket_locked bucket_key ts r =
     (let (slot, r1) =
            (case find_empty_bucket_locked r of
               Some i \<Rightarrow> (Some i, r)
             | None \<Rightarrow>
                 if \<not> rlc_evict_lru_when_full (rl_config r) then (None, r)
                 else (case find_lru_bucket_locked r of
                     None \<Rightarrow> (None, r)
                   | Some i \<Rightarrow>
                       (let r1 = clear_bucket_locked i r
                        in (Some i, r1 \<lparr> rl_stats := (rl_stats r1)
                              \<lparr> rls_evicted_buckets := rls_evicted_buckets (rl_stats r1) + 1 \<rparr> \<rparr>))))
      in case slot of
           None \<Rightarrow> (None, r1)
         | Some i \<Rightarrow>
             (Some i, r1 \<lparr> rl_buckets := (rl_buckets r1)[i := rl_new_bucket bucket_key ts],
                rl_stats := (rl_stats r1)
                  \<lparr> rls_active_buckets := rls_active_buckets (rl_stats r1) + 1,
                    rls_created_buckets := rls_created_buckets (rl_stats r1) + 1 \<rparr> \<rparr>))"

definition params_exceeded :: "rate_limit_params \<Rightarrow> rate_bucket \<Rightarrow> bool" where
  "params_exceeded params bucket =
     (if rp_max_packets params > 0 \<and> rb_packets_in_window bucket > rp_max_packets params then True
      else if rp_max_bytes params > 0 \<and> rb_bytes_in_window bucket > rp_max_bytes params then True
      else False)"

definition rl_fill_result ::
  "rate_limit_decision \<Rightarrow> rate_limit_reason \<Rightarrow> rate_limit_rule option \<Rightarrow> rate_limit_params
     \<Rightarrow> rate_bucket option \<Rightarrow> rate_limit_result" where
  "rl_fill_result decision reason rule params bucket =
     \<lparr> rres_decision = decision, rres_reason = reason,
       rres_matched_rule_id = (case rule of None \<Rightarrow> 0 | Some x \<Rightarrow> rr_rule_id x),
       rres_matched_priority = (case rule of None \<Rightarrow> 0 | Some x \<Rightarrow> rr_priority x),
       rres_window_ms = rp_window_ms params,
       rres_packets_in_window = (case bucket of None \<Rightarrow> 0 | Some b \<Rightarrow> rb_packets_in_window b),
       rres_bytes_in_window = (case bucket of None \<Rightarrow> 0 | Some b \<Rightarrow> rb_bytes_in_window b),
       rres_max_packets = rp_max_packets params, rres_max_bytes = rp_max_bytes params,
       rres_log_event = (case rule of None \<Rightarrow> False | Some x \<Rightarrow> rr_log_event x),
       rres_suggest_quarantine = (case rule of None \<Rightarrow> False | Some x \<Rightarrow> rr_suggest_quarantine x),
       rres_reason_text = reason48 (case rule of None \<Rightarrow> lit ''default_rate_limit''
                                    | Some x \<Rightarrow> rr_reason x) \<rparr>"

definition rate_limiter_init ::
  "rate_limiter_config option \<Rightarrow> rate_limiter \<Rightarrow> esp_err \<times> rate_limiter" where
  "rate_limiter_init config r =
     (ESP_OK, \<lparr> rl_buckets = replicate RATE_LIMITER_MAX_BUCKETS rate_bucket_zero,
        rl_rules = replicate RATE_LIMITER_MAX_RULES rate_rule_slot_zero,
        rl_config = (case config of
            None \<Rightarrow> rl_load_default_config
          | Some c \<Rightarrow> c \<lparr>
              rlc_default_params := (rlc_default_params c) \<lparr> rp_window_ms :=
                (if rp_window_ms (rlc_default_params c) = 0 then 1000
                 else rp_window_ms (rlc_default_params c)) \<rparr>,
              rlc_max_idle_ms := (if rlc_max_idle_ms c = 0 then 60000 else rlc_max_idle_ms c) \<rparr>),
        rl_stats = rate_stats_zero \<lparr> rls_capacity_buckets := 128, rls_capacity_rules := 32 \<rparr>,
        rl_initialized = True, rl_next_rule_id = 1 \<rparr>)"

definition rate_limiter_reset :: "rate_limiter \<Rightarrow> rate_limiter" where
  "rate_limiter_reset r =
     r \<lparr> rl_buckets := replicate RATE_LIMITER_MAX_BUCKETS rate_bucket_zero,
         rl_rules := replicate RATE_LIMITER_MAX_RULES rate_rule_slot_zero,
         rl_stats := rate_stats_zero \<lparr> rls_capacity_buckets := 128, rls_capacity_rules := 32 \<rparr>,
         rl_next_rule_id := 1 \<rparr>"

definition rate_limiter_add_rule ::
  "rate_limit_rule option \<Rightarrow> u32 option \<Rightarrow> rate_limiter \<Rightarrow> esp_err \<times> u32 option \<times> rate_limiter" where
  "rate_limiter_add_rule rule out_rule_id r =
     (case rule of
        None \<Rightarrow> (ESP_ERR_INVALID_ARG, out_rule_id, r)
      | Some x \<Rightarrow>
          if \<not> rl_initialized r then (ESP_ERR_INVALID_ARG, out_rule_id, r)
          else (case find_empty_rule_locked r of
              None \<Rightarrow> (ESP_ERR_NO_MEM, out_rule_id, r)
            | Some slot \<Rightarrow>
                (let (copy, next) =
                       (if rr_rule_id x = 0
                        then (x \<lparr> rr_rule_id := rl_next_rule_id r \<rparr>, rl_next_rule_id r + 1)
                        else (x, rl_next_rule_id r));
                     copy = copy \<lparr> rr_enabled := True \<rparr>;
                     copy = (if rp_window_ms (rr_params copy) = 0
                             then copy \<lparr> rr_params := (rr_params copy) \<lparr> rp_window_ms :=
                                    rp_window_ms (rlc_default_params (rl_config r)) \<rparr> \<rparr>
                             else copy)
                 in (ESP_OK, map_option (\<lambda>_. rr_rule_id copy) out_rule_id,
                     r \<lparr> rl_rules := (rl_rules r)[slot := \<lparr> rrs_in_use = True, rrs_rule = copy \<rparr>],
                         rl_next_rule_id := next,
                         rl_stats := (rl_stats r)
                           \<lparr> rls_active_rules := rls_active_rules (rl_stats r) + 1 \<rparr> \<rparr>))))"

definition rate_limiter_remove_rule :: "u32 \<Rightarrow> rate_limiter \<Rightarrow> bool \<times> rate_limiter" where
  "rate_limiter_remove_rule rule_id r =
     (if \<not> rl_initialized r \<or> rule_id = 0 then (False, r)
      else (case rl_find_rule_slot_locked rule_id r of
          None \<Rightarrow> (False, r)
        | Some slot \<Rightarrow>
            (True, r \<lparr> rl_rules := (rl_rules r)[slot := rate_rule_slot_zero],
               rl_stats := (rl_stats r)
                 \<lparr> rls_active_rules := dec_u32 (rls_active_rules (rl_stats r)) \<rparr> \<rparr>)))"

definition rate_limiter_get_rule ::
  "u32 \<Rightarrow> rate_limit_rule option \<Rightarrow> rate_limiter \<Rightarrow> bool \<times> rate_limit_rule option" where
  "rate_limiter_get_rule rule_id out_rule r =
     (if \<not> rl_initialized r \<or> rule_id = 0 \<or> out_rule = None then (False, out_rule)
      else (case rl_find_rule_slot_locked rule_id r of
          None \<Rightarrow> (False, out_rule)
        | Some slot \<Rightarrow> (True, Some (rrs_rule (rl_rules r ! slot)))))"

text \<open>The parameters of a check: those of the best rule, or the defaults.\<close>

definition rl_params :: "flow_key \<Rightarrow> flow_direction \<Rightarrow> rate_limiter \<Rightarrow> rate_limit_params" where
  "rl_params key direction r =
     (let params = (case find_best_rule_locked key direction r of
           Some rule \<Rightarrow> rr_params rule
         | None \<Rightarrow> rlc_default_params (rl_config r))
      in if rp_window_ms params = 0 then params \<lparr> rp_window_ms := 1000 \<rparr> else params)"

text \<open>Accounting of one packet in its bucket.\<close>

definition rl_account :: "rate_limit_params \<Rightarrow> u32 \<Rightarrow> u32 \<Rightarrow> rate_bucket \<Rightarrow> rate_bucket" where
  "rl_account params packet_bytes ts b =
     (let elapsed = ts - rb_window_start_ms b;
          b1 = (if elapsed \<ge> rp_window_ms params
                then b \<lparr> rb_window_start_ms := ts, rb_packets_in_window := 0,
                         rb_bytes_in_window := 0 \<rparr>
                else b);
          b2 = b1 \<lparr> rb_packets_in_window := rb_packets_in_window b1 + 1,
                    rb_bytes_in_window := rb_bytes_in_window b1 + packet_bytes,
                    rb_last_seen_ms := ts \<rparr>
      in if params_exceeded params b2
         then b2 \<lparr> rb_exceeded_count := rb_exceeded_count b2 + 1 \<rparr> else b2)"

text \<open>The end of a check, with the index of the bucket or \<open>None\<close> when there is none.\<close>

definition rl_conclude ::
  "rate_limit_rule option \<Rightarrow> rate_limit_params \<Rightarrow> u32 \<Rightarrow> u32 \<Rightarrow> nat option \<Rightarrow> rate_limiter
     \<Rightarrow> esp_err \<times> rate_limit_result option \<times> rate_limiter" where
  "rl_conclude rule params packet_bytes ts slot r1 =
     (case slot of
        None \<Rightarrow>
          (ESP_ERR_NO_MEM,
           Some (rl_fill_result RATE_LIMIT_DECISION_ERROR RATE_LIMIT_REASON_TABLE_FULL
                   rule params None),
           r1 \<lparr> rl_stats := (rl_stats r1)
             \<lparr> rls_invalid_input := rls_invalid_input (rl_stats r1) + 1 \<rparr> \<rparr>)
      | Some i \<Rightarrow>
          (let b = rl_account params packet_bytes ts (rl_buckets r1 ! i);
               r2 = r1 \<lparr> rl_buckets := (rl_buckets r1)[i := b] \<rparr>;
               st = rl_stats r2
           in if params_exceeded params b
              then (ESP_OK,
                Some (rl_fill_result RATE_LIMIT_DECISION_EXCEEDED
                  (if rule \<noteq> None then RATE_LIMIT_REASON_RULE_MATCH
                   else RATE_LIMIT_REASON_NO_RULE) rule params (Some b)),
                r2 \<lparr> rl_stats := st \<lparr> rls_exceeded := rls_exceeded st + 1 \<rparr> \<rparr>)
              else (ESP_OK,
                Some (rl_fill_result RATE_LIMIT_DECISION_ALLOW
                  (if rule \<noteq> None then RATE_LIMIT_REASON_RULE_MATCH
                   else RATE_LIMIT_REASON_DEFAULT) rule params (Some b)),
                r2 \<lparr> rl_stats := st \<lparr> rls_allowed := rls_allowed st + 1 \<rparr> \<rparr>)))"

definition rate_limiter_check ::
  "flow_key option \<Rightarrow> flow_direction \<Rightarrow> u32 \<Rightarrow> rate_limit_result option \<Rightarrow> u32 \<Rightarrow> rate_limiter
     \<Rightarrow> esp_err \<times> rate_limit_result option \<times> rate_limiter" where
  "rate_limiter_check key direction packet_bytes out_result ts r =
     (if out_result = None then (ESP_ERR_INVALID_ARG, None, r)
      else if \<not> rl_initialized r \<or> key = None
      then (ESP_ERR_INVALID_ARG,
        Some (rate_result_zero \<lparr> rres_decision := RATE_LIMIT_DECISION_ERROR,
                rres_reason := RATE_LIMIT_REASON_INVALID_INPUT \<rparr>),
        r \<lparr> rl_stats := (rl_stats r) \<lparr> rls_invalid_input := rls_invalid_input (rl_stats r) + 1 \<rparr> \<rparr>)
      else
       (let k = the key;
            bucket_key = \<lparr> bk_key = k, bk_direction = direction \<rparr>;
            r0 = r \<lparr> rl_stats := (rl_stats r) \<lparr> rls_checks := rls_checks (rl_stats r) + 1 \<rparr> \<rparr>;
            rule = find_best_rule_locked k direction r0;
            params = rl_params k direction r0;
            (slot, r1) = (case find_bucket_locked bucket_key r0 of
                Some i \<Rightarrow> (Some i, r0)
              | None \<Rightarrow> create_bucket_locked bucket_key ts r0)
        in rl_conclude rule params packet_bytes ts slot r1))"

definition rate_limiter_expire_old :: "u32 \<Rightarrow> rate_limiter \<Rightarrow> u32 \<times> rate_limiter" where
  "rate_limiter_expire_old ts r =
     (if \<not> rl_initialized r then (0, r)
      else (case fold (expire_step
                    (\<lambda>b. rb_in_use b \<and> ts - rb_last_seen_ms b > rlc_max_idle_ms (rl_config r))
                    rate_bucket_zero) [0..<RATE_LIMITER_MAX_BUCKETS]
                  (rl_buckets r, rls_active_buckets (rl_stats r), 0) of
          (buckets, active, expired) \<Rightarrow>
            (expired, r \<lparr> rl_buckets := buckets,
               rl_stats := (rl_stats r) \<lparr> rls_active_buckets := active,
                 rls_expired_buckets := rls_expired_buckets (rl_stats r) + ucast expired \<rparr> \<rparr>)))"

definition rate_limiter_get_stats :: "rate_limiter \<Rightarrow> rate_limiter_stats" where
  "rate_limiter_get_stats r = rl_stats r"

definition rate_limiter_foreach_rule :: "rate_limiter \<Rightarrow> rate_limit_rule list" where
  "rate_limiter_foreach_rule r =
     (if \<not> rl_initialized r then [] else map rrs_rule (filter rrs_in_use (rl_rules r)))"

subsection \<open>Invariant and abstraction\<close>

interpretation bslots: keyed_slots rb_in_use rate_bucket_zero rb_bucket_key
  by unfold_locales (simp add: rate_bucket_zero_def)

interpretation rslots: slot_pool rrs_in_use rate_rule_slot_zero
  by unfold_locales (simp add: rate_rule_slot_zero_def)

abbreviation rl_map :: "rate_limiter \<Rightarrow> bucket_key \<rightharpoonup> rate_bucket" where
  "rl_map r \<equiv> slot_map rb_in_use rb_bucket_key (rl_buckets r)"

definition rl_used :: "rate_limiter \<Rightarrow> nat" where
  "rl_used r = used_count rb_in_use (rl_buckets r)"

definition rl_wf :: "rate_limiter \<Rightarrow> bool" where
  "rl_wf r \<longleftrightarrow> length (rl_buckets r) = RATE_LIMITER_MAX_BUCKETS \<and>
     keys_unique rb_in_use rb_bucket_key (rl_buckets r) \<and>
     rls_active_buckets (rl_stats r) = of_nat (rl_used r) \<and>
     rls_created_buckets (rl_stats r) = of_nat (rl_used r) + rls_evicted_buckets (rl_stats r)
       + rls_expired_buckets (rl_stats r) \<and>
     length (rl_rules r) = RATE_LIMITER_MAX_RULES \<and>
     rls_active_rules (rl_stats r) = of_nat (used_count rrs_in_use (rl_rules r)) \<and>
     (\<forall>s\<in>set (rl_rules r). rrs_in_use s \<longrightarrow> rr_enabled (rrs_rule s))"

lemma rl_used_lt: "rl_wf r \<Longrightarrow> rl_used r < 2 ^ 32"
  using bslots.count_le[of "rl_buckets r"] by (simp add: rl_wf_def rl_used_def)

lemma bucket_key_equals_iff [simp]: "bucket_key_equals a b \<longleftrightarrow> a = b"
  by (cases a; cases b) (auto simp: bucket_key_equals_def)

text \<open>What the rest of a check relies on after a bucket has been found or created.\<close>

definition rl_same_rules :: "rate_limiter \<Rightarrow> rate_limiter \<Rightarrow> bool" where
  "rl_same_rules r r' \<longleftrightarrow> rl_rules r' = rl_rules r \<and> rl_config r' = rl_config r \<and>
     rl_initialized r' = rl_initialized r \<and> rl_next_rule_id r' = rl_next_rule_id r"

lemma rl_same_rules_params:
  "rl_same_rules r r' \<Longrightarrow> find_best_rule_locked k d r' = find_best_rule_locked k d r"
  "rl_same_rules r r' \<Longrightarrow> rl_params k d r' = rl_params k d r"
  by (simp_all add: rl_same_rules_def rl_params_def find_best_rule_locked_def cong: option.case_cong)

lemma rl_new_bucket_simps [simp]:
  "rb_in_use (rl_new_bucket bk ts)" "rb_bucket_key (rl_new_bucket bk ts) = bk"
  by (simp_all add: rl_new_bucket_def)

lemma rl_found_stored:
  assumes "keys_unique rb_in_use rb_bucket_key bs" and "i < length bs" and "rb_in_use (bs ! i)"
  shows "find_index (\<lambda>b. rb_in_use b \<and> rb_bucket_key b = rb_bucket_key (bs ! i)) bs = Some i"
  using assms keys_uniqueD[OF assms(1)] by (intro find_index_unique) auto

lemma rl_create:
  assumes "rl_wf r" and "rl_map r bk = None" and "create_bucket_locked bk ts r = (slot, r1)"
  shows "rl_wf r1 \<and> rl_same_rules r r1 \<and>
    (case slot of
       None \<Rightarrow> r1 = r
     | Some i \<Rightarrow> find_bucket_locked bk r1 = Some i \<and> rl_buckets r1 ! i = rl_new_bucket bk ts \<and>
         (rl_map r1 = (rl_map r)(bk \<mapsto> rl_new_bucket bk ts) \<or>
          (rlc_evict_lru_when_full (rl_config r) \<and> (\<exists>v. find_lru_bucket_locked r = Some v \<and>
             rl_map r1 = ((rl_map r)(rb_bucket_key (rl_buckets r ! v) := None))
               (bk \<mapsto> rl_new_bucket bk ts)))))"
proof (cases "find_empty_bucket_locked r")
  have u: "keys_unique rb_in_use rb_bucket_key (rl_buckets r)" "length (rl_buckets r) = 128"
    using assms(1) by (simp_all add: rl_wf_def)
  case (Some i)
  note f = Some[unfolded find_empty_bucket_locked_def]
  note p = bslots.put_fresh[OF u(1) f assms(2), of "rl_new_bucket bk ts"]
  have i: "i < 128" using bslots.free_slot_fresh[OF f] u(2) by simp
  have r1: "slot = Some i" "r1 = r \<lparr> rl_buckets := (rl_buckets r)[i := rl_new_bucket bk ts],
      rl_stats := (rl_stats r) \<lparr> rls_active_buckets := rls_active_buckets (rl_stats r) + 1,
        rls_created_buckets := rls_created_buckets (rl_stats r) + 1 \<rparr> \<rparr>"
    using assms(3) Some by (auto simp: create_bucket_locked_def Let_def)
  have "rl_wf r1" using assms(1) p(1,3) r1 by (simp add: rl_wf_def rl_used_def)
  moreover have "find_bucket_locked bk r1 = Some i"
    using rl_found_stored[of "rl_buckets r1" i] p(1) r1(2) i u(2) by (simp add: find_bucket_locked_def)
  ultimately show ?thesis using p(2) r1 i u(2) by (simp add: rl_same_rules_def)
next
  have u: "keys_unique rb_in_use rb_bucket_key (rl_buckets r)" "length (rl_buckets r) = 128"
    using assms(1) by (simp_all add: rl_wf_def)
  case None
  show ?thesis
  proof (cases "rlc_evict_lru_when_full (rl_config r) \<and> find_lru_bucket_locked r \<noteq> None")
    case False
    then have "slot = None" "r1 = r" using assms(3) None
      by (auto simp: create_bucket_locked_def Let_def split: if_splits)
    then show ?thesis using assms(1) by (simp add: rl_same_rules_def)
  next
    case True
    then obtain i where i: "find_lru_bucket_locked r = Some i" "rlc_evict_lru_when_full (rl_config r)"
      by auto
    note l = find_lru_SomeD(1,2)[OF i(1)[unfolded find_lru_bucket_locked_def]]
    note p = bslots.put_evict[OF u(1) l assms(2), of "rl_new_bucket bk ts"]
    have pos: "(of_nat (rl_used r) :: u32) > 0"
      using active_dec(1)[OF bslots.count_clear[OF l]] rl_used_lt[OF assms(1)]
      by (simp add: rl_used_def)
    have act: "rls_active_buckets (rl_stats r) = of_nat (rl_used r)" using assms(1) by (simp add: rl_wf_def)
    have r1: "slot = Some i" "r1 = r \<lparr> rl_buckets := (rl_buckets r)[i := rl_new_bucket bk ts],
        rl_stats := (rl_stats r) \<lparr> rls_created_buckets := rls_created_buckets (rl_stats r) + 1,
          rls_evicted_buckets := rls_evicted_buckets (rl_stats r) + 1 \<rparr> \<rparr>"
      using assms(3) None i l u(2) pos act
      by (auto simp: create_bucket_locked_def clear_bucket_locked_def Let_def)
    have "rl_wf r1" using assms(1) p(1,3) r1 by (simp add: rl_wf_def rl_used_def)
    moreover have "find_bucket_locked bk r1 = Some i"
      using rl_found_stored[of "rl_buckets r1" i] p(1) r1(2) l(1) by (simp add: find_bucket_locked_def)
    ultimately show ?thesis using p(2) r1 i l(1) by (auto simp: rl_same_rules_def)
  qed
qed

lemma rl_account_simps [simp]:
  "rb_in_use (rl_account p n ts b) = rb_in_use b"
  "rb_bucket_key (rl_account p n ts b) = rb_bucket_key b"
  by (simp_all add: rl_account_def Let_def)

lemma rl_account_at:
  assumes "rl_wf r" and "find_bucket_locked bk r = Some i"
    and "bs = (rl_buckets r)[i := rl_account p n ts (rl_buckets r ! i)]"
  shows "rl_map r bk = Some (rl_buckets r ! i)" "keys_unique rb_in_use rb_bucket_key bs"
    "used_count rb_in_use bs = rl_used r" "length bs = RATE_LIMITER_MAX_BUCKETS"
    "slot_map rb_in_use rb_bucket_key bs = (rl_map r)(bk \<mapsto> rl_account p n ts (rl_buckets r ! i))"
proof -
  have u: "keys_unique rb_in_use rb_bucket_key (rl_buckets r)" using assms(1) by (simp add: rl_wf_def)
  have f: "find_index (\<lambda>b. rb_in_use b \<and> rb_bucket_key b = bk) (rl_buckets r) = Some i"
    using assms(2) by (simp add: find_bucket_locked_def)
  note s = bslots.found_slot[OF f]
  note p = bslots.put_update[OF u f, of "rl_account p n ts (rl_buckets r ! i)"]
  show "rl_map r bk = Some (rl_buckets r ! i)" by (rule s(4))
  show "keys_unique rb_in_use rb_bucket_key bs" "used_count rb_in_use bs = rl_used r"
    "length bs = RATE_LIMITER_MAX_BUCKETS"
    "slot_map rb_in_use rb_bucket_key bs = (rl_map r)(bk \<mapsto> rl_account p n ts (rl_buckets r ! i))"
    using p s assms(1,3) by (simp_all add: rl_used_def rl_wf_def)
qed

lemma rl_locate:
  assumes "rl_wf r0"
    and "(case find_bucket_locked bk r0 of Some i \<Rightarrow> (Some i, r0)
          | None \<Rightarrow> create_bucket_locked bk ts r0) = (slot, r1)"
  shows "rl_wf r1 \<and> rl_same_rules r0 r1 \<and>
      (case slot of None \<Rightarrow> rl_map r0 bk = None \<and> r1 = r0
       | Some i \<Rightarrow> find_bucket_locked bk r1 = Some i \<and>
           rl_buckets r1 ! i = (case rl_map r0 bk of Some b \<Rightarrow> b | None \<Rightarrow> rl_new_bucket bk ts) \<and>
           (rl_map r0 bk \<noteq> None \<or> \<not> rlc_evict_lru_when_full (rl_config r0) \<longrightarrow>
              (\<forall>x. (rl_map r1)(bk \<mapsto> x) = (rl_map r0)(bk \<mapsto> x))))"
proof (cases "find_bucket_locked bk r0")
  case None
  then have m: "rl_map r0 bk = None"
    using find_index_slot_map(2)[of rb_in_use rb_bucket_key bk "rl_buckets r0"]
    by (simp add: find_bucket_locked_def)
  have c: "create_bucket_locked bk ts r0 = (slot, r1)" using assms(2) None by simp
  from rl_create[OF assms(1) m c] m show ?thesis by (auto split: option.splits)
next
  case (Some i)
  then have "slot = Some i" "r1 = r0" using assms(2) by simp_all
  then show ?thesis using Some rl_account_at(1)[OF assms(1) Some refl] assms(1)
    by (simp add: rl_same_rules_def)
qed

text \<open>The outcome of a check that got as far as a bucket.\<close>

definition rl_verdict :: "rate_limit_params \<Rightarrow> rate_bucket \<Rightarrow> rate_limit_result \<Rightarrow> bool" where
  "rl_verdict p b res \<longleftrightarrow>
     rres_decision res = (if params_exceeded p b then RATE_LIMIT_DECISION_EXCEEDED
                          else RATE_LIMIT_DECISION_ALLOW) \<and>
     rres_packets_in_window res = rb_packets_in_window b \<and>
     rres_bytes_in_window res = rb_bytes_in_window b"

lemma rl_check_effect:
  assumes "rl_wf r" and "rl_initialized r"
    and "rate_limiter_check (Some k) d n (Some out0) ts r = (err, out, r')"
    and "bk = \<lparr> bk_key = k, bk_direction = d \<rparr>" and "p = rl_params k d r"
  shows "rl_wf r' \<and> rl_same_rules r r' \<and>
    ((err = ESP_ERR_NO_MEM \<and> rl_map r bk = None \<and> rl_map r' = rl_map r
       \<and> (\<exists>res. out = Some res \<and> rres_decision res = RATE_LIMIT_DECISION_ERROR))
     \<or> (err = ESP_OK \<and> (\<exists>b. b = rl_account p n ts (case rl_map r bk of Some b \<Rightarrow> b | None \<Rightarrow> rl_new_bucket bk ts)
          \<and> (\<exists>res. out = Some res \<and> rl_verdict p b res) \<and> rl_map r' bk = Some b
          \<and> (rl_map r bk \<noteq> None \<or> \<not> rlc_evict_lru_when_full (rl_config r)
               \<longrightarrow> rl_map r' = (rl_map r)(bk \<mapsto> b)))))"
proof -
  define r0 where "r0 = r \<lparr> rl_stats := (rl_stats r) \<lparr> rls_checks := rls_checks (rl_stats r) + 1 \<rparr> \<rparr>"
  have r0: "rl_wf r0" "rl_map r0 = rl_map r" "rl_same_rules r r0" "rl_initialized r0"
    "rl_config r0 = rl_config r"
    using assms(1,2) by (simp_all add: r0_def rl_wf_def rl_used_def rl_same_rules_def)
  note pp = rl_same_rules_params[OF r0(3)]
  obtain slot r1 where c: "(case find_bucket_locked bk r0 of Some i \<Rightarrow> (Some i, r0)
      | None \<Rightarrow> create_bucket_locked bk ts r0) = (slot, r1)" by (metis prod.collapse)
  note r1 = rl_locate[OF r0(1) c]
  have chk: "rl_conclude (find_best_rule_locked k d r) p n ts slot r1 = (err, out, r')"
    using assms(2,3) unfolding rate_limiter_check_def Let_def option.sel assms(4)[symmetric]
      r0_def[symmetric] c pp assms(5)[symmetric] by simp
  show ?thesis
  proof (cases slot)
    case None
    then have "err = ESP_ERR_NO_MEM" "r' = r1 \<lparr> rl_stats := (rl_stats r1)
        \<lparr> rls_invalid_input := rls_invalid_input (rl_stats r1) + 1 \<rparr> \<rparr>"
      "\<exists>res. out = Some res \<and> rres_decision res = RATE_LIMIT_DECISION_ERROR"
      using chk by (auto simp: rl_conclude_def rl_fill_result_def)
    then show ?thesis using r1 r0 None
      by (simp add: rl_wf_def rl_used_def rl_same_rules_def)
  next
    case (Some i)
    let ?b = "rl_account p n ts (rl_buckets r1 ! i)"
    let ?r2 = "r1 \<lparr> rl_buckets := (rl_buckets r1)[i := ?b] \<rparr>"
    have f: "find_bucket_locked bk r1 = Some i" using r1 Some by simp
    have w1: "rl_wf r1" "rl_same_rules r0 r1" using r1 by blast+
    note a = rl_account_at(2-)[OF w1(1) f, of "(rl_buckets r1)[i := ?b]" p n ts, OF refl]
    have out: "err = ESP_OK" "\<exists>st. r' = ?r2 \<lparr> rl_stats := st \<rparr> \<and>
        rls_active_buckets st = rls_active_buckets (rl_stats r1) \<and>
        rls_created_buckets st = rls_created_buckets (rl_stats r1) \<and>
        rls_evicted_buckets st = rls_evicted_buckets (rl_stats r1) \<and>
        rls_expired_buckets st = rls_expired_buckets (rl_stats r1) \<and>
        rls_active_rules st = rls_active_rules (rl_stats r1)"
      "\<exists>res. out = Some res \<and> rl_verdict p ?b res"
      using chk Some
      by (auto simp: rl_conclude_def Let_def rl_fill_result_def rl_verdict_def split: if_splits)
    then obtain st where st: "r' = ?r2 \<lparr> rl_stats := st \<rparr>"
        "rls_active_buckets st = rls_active_buckets (rl_stats r1)"
        "rls_created_buckets st = rls_created_buckets (rl_stats r1)"
        "rls_evicted_buckets st = rls_evicted_buckets (rl_stats r1)"
        "rls_expired_buckets st = rls_expired_buckets (rl_stats r1)"
        "rls_active_rules st = rls_active_rules (rl_stats r1)" by blast
    have "rl_wf r'" using w1(1) a(1-3) st by (simp add: rl_wf_def rl_used_def)
    moreover have "rl_same_rules r r'" using w1(2) r0(3) st(1) by (simp add: rl_same_rules_def)
    moreover have map': "rl_map r' = (rl_map r1)(bk \<mapsto> ?b)" using a(4) st(1) by simp
    moreover have "rl_buckets r1 ! i = (case rl_map r bk of Some b \<Rightarrow> b | None \<Rightarrow> rl_new_bucket bk ts)"
      using r1 Some r0(2) by simp
    moreover have "rl_map r bk \<noteq> None \<or> \<not> rlc_evict_lru_when_full (rl_config r) \<longrightarrow>
        rl_map r' = (rl_map r)(bk \<mapsto> ?b)"
      using r1 Some r0(2,5) map' by simp
    ultimately show ?thesis using out(1,3) by auto
  qed
qed

subsection \<open>Sequences of calls\<close>

datatype rl_op =
    Rl_init "rate_limiter_config option"
  | Rl_reset
  | Rl_add_rule "rate_limit_rule option"
  | Rl_remove_rule u32
  | Rl_check "flow_key option" flow_direction u32 u32
  | Rl_expire u32

fun rl_step :: "rl_op \<Rightarrow> rate_limiter \<Rightarrow> rate_limit_result option \<times> rate_limiter" where
  "rl_step (Rl_init c) r = (None, snd (rate_limiter_init c r))"
| "rl_step Rl_reset r = (None, rate_limiter_reset r)"
| "rl_step (Rl_add_rule x) r = (None, snd (snd (rate_limiter_add_rule x None r)))"
| "rl_step (Rl_remove_rule i) r = (None, snd (rate_limiter_remove_rule i r))"
| "rl_step (Rl_check k d n ts) r = snd (rate_limiter_check k d n (Some rate_result_zero) ts r)"
| "rl_step (Rl_expire ts) r = (None, snd (rate_limiter_expire_old ts r))"

lemma rl_blank_wf:
  "rl_wf \<lparr> rl_buckets = replicate RATE_LIMITER_MAX_BUCKETS rate_bucket_zero,
     rl_rules = replicate RATE_LIMITER_MAX_RULES rate_rule_slot_zero, rl_config = c,
     rl_stats = rate_stats_zero \<lparr> rls_capacity_buckets := 128, rls_capacity_rules := 32 \<rparr>,
     rl_initialized = b, rl_next_rule_id = n \<rparr>"
  using bslots.count_blank bslots.unique_blank rslots.count_blank
  by (simp add: rl_wf_def rl_used_def rate_stats_zero_def rate_rule_slot_zero_def)

lemma rl_add_wf:
  assumes "rl_wf r"
  shows "rl_wf (snd (snd (rate_limiter_add_rule x out r)))"
proof (cases "\<exists>y slot. x = Some y \<and> rl_initialized r \<and> find_empty_rule_locked r = Some slot")
  case True
  then obtain y slot where y: "x = Some y" "rl_initialized r" "find_empty_rule_locked r = Some slot" by blast
  note f = rslots.free_slot_fresh[OF y(3)[unfolded find_empty_rule_locked_def]]
  have "used_count rrs_in_use ((rl_rules r)[slot := \<lparr> rrs_in_use = True, rrs_rule = z \<rparr>])
      = Suc (used_count rrs_in_use (rl_rules r))" for z
    by (rule rslots.count_fill[OF f]) simp
  then show ?thesis using assms y
    by (auto simp: rate_limiter_add_rule_def rl_wf_def rl_used_def Let_def
        dest!: set_update_subset_insert[THEN subsetD])
next
  case False
  then show ?thesis using assms by (auto simp: rate_limiter_add_rule_def split: option.splits)
qed

lemma rl_remove_wf:
  assumes "rl_wf r"
  shows "rl_wf (snd (rate_limiter_remove_rule i r))"
proof (cases "\<exists>slot. rl_initialized r \<and> i \<noteq> 0 \<and> rl_find_rule_slot_locked i r = Some slot")
  case True
  then obtain slot where y: "rl_initialized r" "i \<noteq> 0" "rl_find_rule_slot_locked i r = Some slot" by blast
  then have s: "slot < length (rl_rules r)" "rrs_in_use (rl_rules r ! slot)"
    using find_index_SomeD[OF y(3)[unfolded rl_find_rule_slot_locked_def]] by simp_all
  have "used_count rrs_in_use (rl_rules r) < 2 ^ 32"
    using rslots.count_le[of "rl_rules r"] assms by (simp add: rl_wf_def)
  note d = dec_u32_count[OF rslots.count_clear[OF s] this]
  show ?thesis using assms y d
    by (auto simp: rate_limiter_remove_rule_def rl_wf_def rl_used_def rate_rule_slot_zero_def
        dest!: set_update_subset_insert[THEN subsetD])
next
  case False
  then show ?thesis using assms by (auto simp: rate_limiter_remove_rule_def split: option.splits)
qed

lemma rl_expire_effect:
  assumes "rl_wf r" and "rl_initialized r" and "rate_limiter_expire_old ts r = (n, r')"
    and "dead = (\<lambda>b. rb_in_use b \<and> ts - rb_last_seen_ms b > rlc_max_idle_ms (rl_config r))"
  shows "rl_wf r'" "rl_same_rules r r'" "unat n = length (filter dead (rl_buckets r))"
    "rl_map r' k = (case rl_map r k of None \<Rightarrow> None | Some b \<Rightarrow> if dead b then None else Some b)"
proof -
  let ?ss = "rl_buckets r"
  have w: "length ?ss = 128" "keys_unique rb_in_use rb_bucket_key ?ss"
    "rls_active_buckets (rl_stats r) = of_nat (used_count rb_in_use ?ss)"
    using assms(1) by (simp_all add: rl_wf_def rl_used_def)
  let ?sw = "sweep dead rate_bucket_zero ?ss" and ?k = "length (filter dead ?ss)"
  have n: "n = of_nat ?k" and r': "r' = r \<lparr> rl_buckets := ?sw, rl_stats := (rl_stats r)
      \<lparr> rls_active_buckets := of_nat (used_count rb_in_use ?sw),
        rls_expired_buckets := rls_expired_buckets (rl_stats r) + ucast (of_nat ?k :: u32) \<rparr> \<rparr>"
    using assms(2,3) bslots.expire_loop[of dead ?ss] w unfolding assms(4)
    by (auto simp: rate_limiter_expire_old_def)
  have le: "?k \<le> 128" using length_filter_le[of dead ?ss] w(1) by simp
  then show "unat n = ?k" by (simp add: n unat_of_nat)
  have "filter (\<lambda>s. rb_in_use s \<and> dead s) ?ss = filter dead ?ss"
    by (rule filter_cong) (auto simp: assms(4))
  then have "used_count rb_in_use ?ss = used_count rb_in_use ?sw + ?k"
    using bslots.count_sweep[of dead ?ss] by (simp only:)
  then have "(of_nat (rl_used r) :: u64) = of_nat (used_count rb_in_use ?sw) + of_nat ?k"
    by (simp only: rl_used_def of_nat_add)
  moreover have "ucast (of_nat ?k :: u32) = (of_nat ?k :: u64)" using le by (simp add: ucast_of_nat_u64)
  ultimately show "rl_wf r'" using assms(1) r' bslots.unique_sweep[OF w(2)]
    by (simp add: rl_wf_def rl_used_def algebra_simps)
  show "rl_same_rules r r'" using r' by (simp add: rl_same_rules_def)
  show "rl_map r' k = (case rl_map r k of None \<Rightarrow> None | Some b \<Rightarrow> if dead b then None else Some b)"
    using bslots.map_sweep[OF w(2), of dead k] r' by simp
qed

lemma rl_check_rejected:
  "\<not> rl_initialized r \<or> k = None \<or> out = None \<Longrightarrow>
     rl_buckets (snd (snd (rate_limiter_check k d n out ts r))) = rl_buckets r \<and>
     rl_same_rules r (snd (snd (rate_limiter_check k d n out ts r))) \<and>
     (rl_wf r \<longrightarrow> rl_wf (snd (snd (rate_limiter_check k d n out ts r))))"
  by (auto simp: rate_limiter_check_def rl_same_rules_def rl_wf_def rl_used_def)

lemma rl_step_wf: "rl_wf r \<Longrightarrow> rl_wf (snd (rl_step x r))"
proof (cases x)
  case (Rl_init c)
  then show ?thesis using rl_blank_wf by (simp add: rate_limiter_init_def)
next
  case Rl_reset
  then show ?thesis using rl_blank_wf[of "rl_config r" "rl_initialized r" 1]
    by (cases r) (simp add: rate_limiter_reset_def)
next
  case (Rl_check k d n ts)
  assume w: "rl_wf r"
  show ?thesis
  proof (cases "rl_initialized r \<and> k \<noteq> None")
    case True
    then obtain y where y: "k = Some y" by blast
    obtain err out r' where c: "rate_limiter_check (Some y) d n (Some rate_result_zero) ts r = (err, out, r')"
      by (metis prod.collapse)
    show ?thesis using rl_check_effect[OF w _ c refl refl] True c Rl_check y by simp
  next
    case False
    then show ?thesis using rl_check_rejected[of r k "Some rate_result_zero" d n ts] w Rl_check by auto
  qed
next
  case (Rl_expire ts)
  assume w: "rl_wf r"
  then show ?thesis using Rl_expire rl_expire_effect(1)[OF w _ prod.collapse[symmetric] refl]
    by (cases "rl_initialized r") (simp_all add: rate_limiter_expire_old_def)
qed (simp_all add: rl_add_wf rl_remove_wf)

interpretation rate: module_invariant rl_wf "\<lambda>x. True" rl_step
  by unfold_locales (rule rl_step_wf)

subsection \<open>One window of one flow\<close>

text \<open>The packets of a flow among a sequence of calls, and the calls of one window: checks only,
  those of this flow less than the window length after its start.\<close>

fun rl_own :: "bucket_key \<Rightarrow> rl_op \<Rightarrow> u32 list" where
  "rl_own bk (Rl_check (Some k) d n ts) = (if \<lparr> bk_key = k, bk_direction = d \<rparr> = bk then [n] else [])"
| "rl_own bk x = []"

fun rl_in_window :: "bucket_key \<Rightarrow> u32 \<Rightarrow> u32 \<Rightarrow> rl_op \<Rightarrow> bool" where
  "rl_in_window bk start w (Rl_check (Some k) d n ts) =
     (if \<lparr> bk_key = k, bk_direction = d \<rparr> = bk then ts - start < w else True)"
| "rl_in_window bk start w (Rl_check None d n ts) = True"
| "rl_in_window bk start w x = False"

definition rl_counts ::
  "bucket_key \<Rightarrow> rate_limit_params \<Rightarrow> u32 \<Rightarrow> u32 \<Rightarrow> u32 \<Rightarrow> rate_limiter \<Rightarrow> bool" where
  "rl_counts bk p start n m r \<longleftrightarrow> rl_wf r \<and> rl_initialized r \<and>
     \<not> rlc_evict_lru_when_full (rl_config r) \<and> rl_params (bk_key bk) (bk_direction bk) r = p \<and>
     (\<exists>b. rl_map r bk = Some b \<and> rb_window_start_ms b = start \<and> rb_packets_in_window b = n \<and>
        rb_bytes_in_window b = m)"

lemma rl_account_in_window:
  assumes "ts - rb_window_start_ms b < rp_window_ms p"
  shows "rb_window_start_ms (rl_account p n ts b) = rb_window_start_ms b"
    "rb_packets_in_window (rl_account p n ts b) = rb_packets_in_window b + 1"
    "rb_bytes_in_window (rl_account p n ts b) = rb_bytes_in_window b + n"
proof -
  have "\<not> ts - rb_window_start_ms b \<ge> rp_window_ms p" using assms by (simp add: not_le)
  then show "rb_window_start_ms (rl_account p n ts b) = rb_window_start_ms b"
    "rb_packets_in_window (rl_account p n ts b) = rb_packets_in_window b + 1"
    "rb_bytes_in_window (rl_account p n ts b) = rb_bytes_in_window b + n"
    by (simp_all add: rl_account_def Let_def)
qed

lemma rl_counts_frame:
  assumes "rl_counts bk p start n m r" and "rl_wf r'" and "rl_same_rules r r'" and "rl_map r' bk = rl_map r bk"
  shows "rl_counts bk p start n m r'"
  using assms rl_same_rules_params(2)[OF assms(3)] by (simp add: rl_counts_def rl_same_rules_def)

lemma rl_counts_check:
  assumes h: "rl_counts bk p start n m r"
    and "\<lparr> bk_key = k, bk_direction = d \<rparr> = bk" and t: "ts - start < rp_window_ms p"
    and "rate_limiter_check (Some k) d c (Some out0) ts r = (err, out, r')"
  shows "rl_counts bk p start (n + 1) (m + c) r'" "err = ESP_OK"
    "\<exists>res b. out = Some res \<and> rl_verdict p b res \<and> rb_packets_in_window b = n + 1 \<and> rb_bytes_in_window b = m + c"
proof -
  have bk: "k = bk_key bk" "d = bk_direction bk" using assms(2) by auto
  obtain b where b: "rl_map r bk = Some b" "rb_window_start_ms b = start" "rb_packets_in_window b = n"
    "rb_bytes_in_window b = m" and w: "rl_wf r" "rl_initialized r" "rl_params k d r = p"
    using h by (auto simp: rl_counts_def bk)
  let ?b = "rl_account p c ts b"
  have a: "rb_window_start_ms ?b = start" "rb_packets_in_window ?b = n + 1" "rb_bytes_in_window ?b = m + c"
    using rl_account_in_window[of ts b p c] t b by simp_all
  from rl_check_effect[OF w(1,2) assms(4) assms(2)[symmetric] w(3)[symmetric]] b(1)
  have e: "rl_wf r'" "rl_same_rules r r'" "err = ESP_OK" "\<exists>res. out = Some res \<and> rl_verdict p ?b res"
    "rl_map r' bk = Some ?b" by auto
  show "err = ESP_OK" by (rule e(3))
  show "\<exists>res b. out = Some res \<and> rl_verdict p b res \<and> rb_packets_in_window b = n + 1 \<and> rb_bytes_in_window b = m + c"
    using e(4) a by blast
  show "rl_counts bk p start (n + 1) (m + c) r'"
    using h e a rl_same_rules_params(2)[OF e(2)] by (auto simp: rl_counts_def rl_same_rules_def)
qed

lemma rl_counts_step:
  assumes h: "rl_counts bk p start n m r" and "rl_in_window bk start (rp_window_ms p) x"
  shows "rl_counts bk p start (n + of_nat (length (rl_own bk x))) (m + sum_list (rl_own bk x))
    (snd (rl_step x r))"
proof -
  have w: "rl_wf r" "rl_initialized r" "\<not> rlc_evict_lru_when_full (rl_config r)"
    using h by (simp_all add: rl_counts_def)
  obtain k d c ts where x: "x = Rl_check k d c ts" using assms(2) by (cases x) auto
  show ?thesis
  proof (cases k)
    case None
    then show ?thesis using x rl_check_rejected[of r None "Some rate_result_zero" d c ts] w
        rl_counts_frame[OF h] by simp
  next
    case (Some y)
    obtain err out r' where e: "rate_limiter_check (Some y) d c (Some rate_result_zero) ts r = (err, out, r')"
      by (metis prod.collapse)
    show ?thesis
    proof (cases "\<lparr> bk_key = y, bk_direction = d \<rparr> = bk")
      case True
      then show ?thesis using rl_counts_check(1)[OF h True _ e] assms(2) x Some e by simp
    next
      case False
      from rl_check_effect[OF w(1,2) e refl refl] w(3) False
      have "rl_wf r'" "rl_same_rules r r'" "rl_map r' bk = rl_map r bk" by (auto split: option.splits)
      then show ?thesis using rl_counts_frame[OF h] x Some e False by simp
    qed
  qed
qed

lemma rl_counts_run:
  assumes "rl_counts bk p start n m r" and "list_all (rl_in_window bk start (rp_window_ms p)) ops"
  shows "rl_counts bk p start (n + of_nat (length (concat (map (rl_own bk) ops))))
    (m + sum_list (concat (map (rl_own bk) ops))) (snd (run rl_step ops r))"
  using assms
proof (induction ops arbitrary: n m r)
  case Nil
  then show ?case by simp
next
  case (Cons x ops)
  then have "rl_counts bk p start (n + of_nat (length (rl_own bk x))) (m + sum_list (rl_own bk x))
    (snd (rl_step x r))" by (intro rl_counts_step) simp_all
  from Cons.IH[OF this] Cons.prems(2) show ?case
    by (simp add: run_Cons_simp algebra_simps del: run.simps(2))
qed

lemma rl_opens_window:
  assumes "rl_wf r" and "rl_initialized r" and "\<not> rlc_evict_lru_when_full (rl_config r)"
    and "rl_map r bk = None" and "bk = \<lparr> bk_key = k, bk_direction = d \<rparr>"
    and "rate_limiter_check (Some k) d c (Some out0) ts r = (ESP_OK, out, r')"
  shows "rl_counts bk (rl_params k d r) ts 1 c r'"
proof -
  from rl_check_effect[OF assms(1,2,6,5) refl] assms(4)
  have e: "rl_wf r'" "rl_same_rules r r'"
    "rl_map r' bk = Some (rl_account (rl_params k d r) c ts (rl_new_bucket bk ts))" by auto
  have "rb_window_start_ms (rl_account p c ts (rl_new_bucket bk ts)) = ts"
    "rb_packets_in_window (rl_account p c ts (rl_new_bucket bk ts)) = 1"
    "rb_bytes_in_window (rl_account p c ts (rl_new_bucket bk ts)) = c" for p
    by (simp_all add: rl_account_def rl_new_bucket_def rate_bucket_zero_def Let_def)
  then show ?thesis using e assms(2,3,5) rl_same_rules_params(2)[OF e(2)]
    by (simp add: rl_counts_def rl_same_rules_def)
qed

definition rl_over :: "rate_limit_params \<Rightarrow> u32 \<Rightarrow> u32 \<Rightarrow> bool" where
  "rl_over p n m \<longleftrightarrow> (rp_max_packets p > 0 \<and> n > rp_max_packets p) \<or> (rp_max_bytes p > 0 \<and> m > rp_max_bytes p)"

lemma params_exceeded_over:
  "params_exceeded p b \<longleftrightarrow> rl_over p (rb_packets_in_window b) (rb_bytes_in_window b)"
  by (auto simp: params_exceeded_def rl_over_def)

definition rl_fresh :: rate_limiter where
  "rl_fresh = snd (rate_limiter_init (Some (rl_load_default_config \<lparr> rlc_evict_lru_when_full := False,
       rlc_default_params := \<lparr> rp_window_ms = 1000, rp_max_packets = 2, rp_max_bytes = 0 \<rparr> \<rparr>))
     \<lparr> rl_buckets = [], rl_rules = [], rl_config = rl_load_default_config,
       rl_stats = rate_stats_zero, rl_initialized = False, rl_next_rule_id = 0 \<rparr>)"

lemma rl_fresh_facts:
  "rl_wf rl_fresh" "rl_initialized rl_fresh" "\<not> rlc_evict_lru_when_full (rl_config rl_fresh)"
  "rl_map rl_fresh = Map.empty"
  "rl_params k d rl_fresh = \<lparr> rp_window_ms = 1000, rp_max_packets = 2, rp_max_bytes = 0 \<rparr>"
proof -
  show "rl_wf rl_fresh" using rl_blank_wf by (simp add: rl_fresh_def rate_limiter_init_def)
  show "rl_initialized rl_fresh" "\<not> rlc_evict_lru_when_full (rl_config rl_fresh)"
    "rl_map rl_fresh = Map.empty"
    using bslots.map_blank by (simp_all add: rl_fresh_def rate_limiter_init_def rl_load_default_config_def)
  have "best_scan (\<lambda>s. rrs_in_use s \<and> rate_rule_matches (rrs_rule s) k d) (\<lambda>s. rr_priority (rrs_rule s))
      (replicate n rate_rule_slot_zero) None = None" for n
    by (simp add: best_scan_None_iff rate_rule_slot_zero_def)
  then show "rl_params k d rl_fresh = \<lparr> rp_window_ms = 1000, rp_max_packets = 2, rp_max_bytes = 0 \<rparr>"
    by (simp add: rl_params_def find_best_rule_locked_def rl_fresh_def rate_limiter_init_def
        rl_load_default_config_def Let_def)
qed

subsection \<open>Properties\<close>



text \<open>After initialisation and any sequence of calls, no flow has two buckets, the counters of
  active buckets and rules are the numbers of occupied slots, every bucket ever created is still
  active, was evicted or has expired, and every stored rule is enabled.\<close>

theorem rate_limiter_books_balance: "rl_wf (snd (run rl_step (Rl_init c # ops) r))"
proof -
  have "rl_wf (snd (rl_step (Rl_init c) r))" using rl_blank_wf by (simp add: rate_limiter_init_def)
  then show ?thesis using rate.run_inv[of _ ops]
    by (simp add: run_Cons_simp list_all_iff del: run.simps(2) rl_step.simps)
qed

end
