(* ===== verification/Event_Bus.thy ===== *)
theory Event_Bus
  imports BN_Refine BN_Slots
begin

text \<open>
  The event bus (\<open>event_bus.c\<close>): a FreeRTOS queue of 32 events, eight listener slots and the
  dispatch task.  The queue and the task creation are FreeRTOS code and parameters; \<open>queue_fifo\<close>
  states what its documentation promises of a queue.  A listener is a callback with its context
  pointer; a callback that is \<open>NULL\<close> is \<open>None\<close>.  Other modules ignore the result of
  \<open>event_bus_publish\<close>; their models return the events they publish, in order.
\<close>

abbreviation EVENT_BUS_QUEUE_LEN :: nat where "EVENT_BUS_QUEUE_LEN \<equiv> 32"
abbreviation EVENT_BUS_MAX_LISTENERS :: nat where "EVENT_BUS_MAX_LISTENERS \<equiv> 8"

datatype zg_event_type =
    ZG_EVENT_NONE
  | ZG_EVENT_DEVICE_JOINED
  | ZG_EVENT_DEVICE_LEFT
  | ZG_EVENT_DEVICE_QUARANTINED
  | ZG_EVENT_DEVICE_RELEASED
  | ZG_EVENT_FLOW_SEEN
  | ZG_EVENT_POLICY_DENY
  | ZG_EVENT_RATE_EXCEEDED
  | ZG_EVENT_DNS_QUERY
  | ZG_EVENT_DNS_BLOCKED
  | ZG_EVENT_SWARM_QUARANTINE_NOTICE
  | ZG_EVENT_SWARM_FLOW_EVENT
  | ZG_EVENT_GATEWAY_UP
  | ZG_EVENT_GATEWAY_DOWN
  | ZG_EVENT_CONFIG_UPDATED
  | ZG_EVENT_ERROR
  | ZG_EVENT_AP_CLIENT_JOINED
  | ZG_EVENT_AP_CLIENT_LEFT

record zg_event =
  ev_type :: zg_event_type
  ev_ts_ms :: u32
  ev_zone_id :: u32
  ev_device_id :: u32
  ev_src_ip :: u32
  ev_dst_ip :: u32
  ev_src_port :: u16
  ev_dst_port :: u16
  ev_proto :: u8
  ev_risk_score :: u8
  ev_code :: u32
  ev_reason :: bytes

definition zg_event_zero :: zg_event where
  "zg_event_zero = \<lparr> ev_type = ZG_EVENT_NONE, ev_ts_ms = 0, ev_zone_id = 0, ev_device_id = 0,
     ev_src_ip = 0, ev_dst_ip = 0, ev_src_port = 0, ev_dst_port = 0, ev_proto = 0,
     ev_risk_score = 0, ev_code = 0, ev_reason = replicate 48 0 \<rparr>"

text \<open>\<open>snprintf(ev.reason, sizeof(ev.reason), "%s", text)\<close>\<close>

definition event_reason :: "bytes \<Rightarrow> bytes" where
  "event_reason t = take 47 (cstr t) @ replicate (48 - length (take 47 (cstr t))) 0"

subsection \<open>The queue\<close>

record 'q queue_api =
  xQueueCreate :: "nat \<Rightarrow> 'q option"
  xQueueSend :: "'q \<Rightarrow> zg_event \<Rightarrow> bool \<times> 'q"
  xQueueReceive :: "'q \<Rightarrow> (zg_event \<times> 'q) option"

text \<open>
  \<open>items\<close> reads the events waiting in a queue: a created queue is empty; sending without blocking
  appends at the back unless the queue holds \<open>cap\<close> events; receiving takes the event at the front.
\<close>

definition queue_fifo :: "'q queue_api \<Rightarrow> ('q \<Rightarrow> zg_event list) \<Rightarrow> nat \<Rightarrow> bool" where
  "queue_fifo api items cap \<longleftrightarrow>
     (\<forall>q. xQueueCreate api cap = Some q \<longrightarrow> items q = []) \<and>
     (\<forall>q e. fst (xQueueSend api q e) = (length (items q) < cap) \<and>
        items (snd (xQueueSend api q e)) = (if length (items q) < cap then items q @ [e] else items q)) \<and>
     (\<forall>q. case xQueueReceive api q of
        None \<Rightarrow> items q = [] | Some (e, q') \<Rightarrow> items q = e # items q')"

lemma queue_fifoD:
  assumes "queue_fifo api items cap"
  shows "xQueueCreate api cap = Some q \<Longrightarrow> items q = []"
    "xQueueSend api q e = (True, q') \<Longrightarrow> length (items q) < cap \<and> items q' = items q @ [e]"
    "xQueueSend api q e = (False, q') \<Longrightarrow> items q' = items q \<and> cap \<le> length (items q)"
    "xQueueReceive api q = None \<Longrightarrow> items q = []"
    "xQueueReceive api q = Some (e, q') \<Longrightarrow> items q = e # items q'"
proof -
  have s: "fst (xQueueSend api q e) = (length (items q) < cap)"
    "items (snd (xQueueSend api q e)) = (if length (items q) < cap then items q @ [e] else items q)" for q e
    using assms by (simp_all add: queue_fifo_def)
  show "xQueueCreate api cap = Some q \<Longrightarrow> items q = []" using assms by (simp add: queue_fifo_def)
  show "length (items q) < cap \<and> items q' = items q @ [e]" if "xQueueSend api q e = (True, q')"
    using s[of q e] that by simp
  show "items q' = items q \<and> cap \<le> length (items q)" if "xQueueSend api q e = (False, q')"
    using s[of q e] that by simp
  have r: "case xQueueReceive api q of None \<Rightarrow> items q = [] | Some (e, q') \<Rightarrow> items q = e # items q'"
    using assms by (simp add: queue_fifo_def)
  show "xQueueReceive api q = None \<Longrightarrow> items q = []" using r by simp
  show "xQueueReceive api q = Some (e, q') \<Longrightarrow> items q = e # items q'" using r by simp
qed

subsection \<open>The bus\<close>

record ('cb, 'x) listener_slot =
  ls_cb :: "'cb option"
  ls_ctx :: 'x

record ('q, 'cb, 'x) event_bus =
  eb_queue :: "'q option"
  eb_listeners :: "('cb, 'x) listener_slot list"
  eb_initialized :: bool

text \<open>\<open>null\<close> is the null context pointer, \<open>task_ok\<close> the result of \<open>xTaskCreate\<close>.\<close>

definition event_bus_init ::
  "'q queue_api \<Rightarrow> bool \<Rightarrow> 'x \<Rightarrow> ('q, 'cb, 'x) event_bus \<Rightarrow> esp_err \<times> ('q, 'cb, 'x) event_bus" where
  "event_bus_init api task_ok null b =
     (if eb_initialized b then (ESP_OK, b)
      else
       (let b1 = b \<lparr> eb_listeners := replicate EVENT_BUS_MAX_LISTENERS \<lparr> ls_cb = None, ls_ctx = null \<rparr>,
                    eb_queue := xQueueCreate api EVENT_BUS_QUEUE_LEN \<rparr>
        in if eb_queue b1 = None then (ESP_ERR_NO_MEM, b1)
           else if \<not> task_ok then (ESP_ERR_NO_MEM, b1 \<lparr> eb_queue := None \<rparr>)
           else (ESP_OK, b1 \<lparr> eb_initialized := True \<rparr>)))"

definition event_bus_publish ::
  "'q queue_api \<Rightarrow> zg_event option \<Rightarrow> u32 \<Rightarrow> ('q, 'cb, 'x) event_bus \<Rightarrow> esp_err \<times> ('q, 'cb, 'x) event_bus" where
  "event_bus_publish api event ts b =
     (case (event, eb_queue b) of
        (Some e, Some q) \<Rightarrow>
          if \<not> eb_initialized b then (ESP_ERR_INVALID_ARG, b)
          else (let copy = (if ev_ts_ms e = 0 then e \<lparr> ev_ts_ms := ts \<rparr> else e) in
                case xQueueSend api q copy of
                  (sent, q') \<Rightarrow>
                    (if sent then ESP_OK else ESP_ERR_NO_MEM, b \<lparr> eb_queue := Some q' \<rparr>))
      | _ \<Rightarrow> (ESP_ERR_INVALID_ARG, b))"

definition event_bus_subscribe ::
  "'cb option \<Rightarrow> 'x \<Rightarrow> ('q, 'cb, 'x) event_bus \<Rightarrow> esp_err \<times> ('q, 'cb, 'x) event_bus" where
  "event_bus_subscribe cb ctx b =
     (if \<not> eb_initialized b \<or> cb = None then (ESP_ERR_INVALID_ARG, b)
      else (case find_index (\<lambda>l. ls_cb l = None) (eb_listeners b) of
          None \<Rightarrow> (ESP_ERR_NO_MEM, b)
        | Some i \<Rightarrow>
            (ESP_OK, b \<lparr> eb_listeners := (eb_listeners b)[i := \<lparr> ls_cb = cb, ls_ctx = ctx \<rparr>] \<rparr>)))"

text \<open>
  One round of the loop of \<open>dispatch_task\<close>: the calls it makes, in order.  A receive that finds
  the queue empty blocks, which is a round without effect.
\<close>

definition dispatch_round ::
  "'q queue_api \<Rightarrow> ('q, 'cb, 'x) event_bus
     \<Rightarrow> ('cb \<times> zg_event \<times> 'x) list \<times> ('q, 'cb, 'x) event_bus" where
  "dispatch_round api b =
     (case eb_queue b of
        None \<Rightarrow> ([], b)
      | Some q \<Rightarrow>
          (case xQueueReceive api q of
             None \<Rightarrow> ([], b)
           | Some (event, q') \<Rightarrow>
               (concat (map (\<lambda>l. case ls_cb l of None \<Rightarrow> [] | Some cb \<Rightarrow> [(cb, event, ls_ctx l)])
                  (eb_listeners b)), b \<lparr> eb_queue := Some q' \<rparr>)))"

subsection \<open>Runs of the bus\<close>

datatype ('cb, 'x) eb_op =
    Eb_publish "zg_event option" u32
  | Eb_subscribe "'cb option" 'x
  | Eb_dispatch

text \<open>The result of a step: the events the queue accepted and the calls made to listeners.\<close>

fun eb_step ::
  "'q queue_api \<Rightarrow> ('cb, 'x) eb_op \<Rightarrow> ('q, 'cb, 'x) event_bus
     \<Rightarrow> (zg_event list \<times> ('cb \<times> zg_event \<times> 'x) list) \<times> ('q, 'cb, 'x) event_bus" where
  "eb_step api (Eb_publish event ts) b =
     (case event_bus_publish api event ts b of
        (err, b') \<Rightarrow>
          ((if err = ESP_OK then map (\<lambda>e. if ev_ts_ms e = 0 then e \<lparr> ev_ts_ms := ts \<rparr> else e)
              (case event of None \<Rightarrow> [] | Some e \<Rightarrow> [e]) else [], []), b'))"
| "eb_step api (Eb_subscribe cb ctx) b = (([], []), snd (event_bus_subscribe cb ctx b))"
| "eb_step api Eb_dispatch b = (case dispatch_round api b of (calls, b') \<Rightarrow> (([], calls), b'))"

definition to_listener :: "'cb \<Rightarrow> 'x \<Rightarrow> ('cb \<times> zg_event \<times> 'x) list \<Rightarrow> zg_event list" where
  "to_listener cb x calls = map (fst \<circ> snd) (filter (\<lambda>c. fst c = cb \<and> snd (snd c) = x) calls)"

abbreviation listens :: "'cb \<Rightarrow> 'x \<Rightarrow> ('cb, 'x) listener_slot \<Rightarrow> bool" where
  "listens cb x l \<equiv> ls_cb l = Some cb \<and> ls_ctx l = x"

lemma to_listener_append: "to_listener cb x (a @ b) = to_listener cb x a @ to_listener cb x b"
  by (simp add: to_listener_def)

lemma to_listener_round:
  "to_listener cb x (concat (map (\<lambda>l. case ls_cb l of None \<Rightarrow> [] | Some c \<Rightarrow> [(c, e, ls_ctx l)]) ls))
     = replicate (length (filter (listens cb x) ls)) e"
  by (induction ls) (auto simp: to_listener_def split: option.splits)

lemma subscribe_other:
  assumes "\<not> (cb' = Some cb \<and> ctx = x)" and "event_bus_subscribe cb' ctx b = (err, b')"
  shows "filter (listens cb x) (eb_listeners b') = filter (listens cb x) (eb_listeners b)"
    "eb_queue b' = eb_queue b" "eb_initialized b' = eb_initialized b"
proof -
  have "filter (listens cb x) (ls[i := \<lparr> ls_cb = cb', ls_ctx = ctx \<rparr>]) = filter (listens cb x) ls"
    if "find_index (\<lambda>l. ls_cb l = None) ls = Some i" for ls :: "('a, 'b) listener_slot list" and i
  proof -
    have i: "i < length ls" "ls_cb (ls ! i) = None" using find_index_SomeD[OF that] by simp_all
    have "filter (listens cb x) ls
        = filter (listens cb x) (take i ls) @ filter (listens cb x) (drop (Suc i) ls)"
      using i by (subst id_take_nth_drop[OF i(1)]) simp
    then show ?thesis using i assms(1) by (simp add: upd_conv_take_nth_drop)
  qed
  then show "filter (listens cb x) (eb_listeners b') = filter (listens cb x) (eb_listeners b)"
    "eb_queue b' = eb_queue b" "eb_initialized b' = eb_initialized b"
    using assms(2) by (auto simp: event_bus_subscribe_def split: if_splits option.splits)
qed

fun eb_leaves :: "'cb \<Rightarrow> 'x \<Rightarrow> ('cb, 'x) eb_op \<Rightarrow> bool" where
  "eb_leaves cb x (Eb_subscribe cb' ctx) = (\<not> (cb' = Some cb \<and> ctx = x))"
| "eb_leaves cb x _ = True"

lemma eb_step_delivers:
  assumes "queue_fifo api items EVENT_BUS_QUEUE_LEN" and "eb_initialized b" and "eb_queue b = Some q"
    and "length (filter (listens cb x) (eb_listeners b)) = 1" and "eb_leaves cb x op"
    and "length (items q) \<le> EVENT_BUS_QUEUE_LEN" and "eb_step api op b = ((acc, calls), b')"
  shows "\<exists>q'. eb_queue b' = Some q' \<and> eb_initialized b' \<and>
    length (filter (listens cb x) (eb_listeners b')) = 1 \<and> length (items q') \<le> EVENT_BUS_QUEUE_LEN \<and>
    items q @ acc = to_listener cb x calls @ items q'"
proof (cases op)
  case (Eb_publish event ts)
  then show ?thesis using assms(2-4,6,7) queue_fifoD(2,3)[OF assms(1), of q]
    by (fastforce simp: event_bus_publish_def Let_def to_listener_def split: option.splits prod.splits if_splits)
next
  case (Eb_subscribe cb' ctx)
  then show ?thesis using assms(2-7) subscribe_other[of cb' cb ctx x b, OF _ prod.collapse[symmetric]]
    by (auto simp: to_listener_def)
next
  case Eb_dispatch
  then show ?thesis using assms(2-4,6,7) queue_fifoD(4,5)[OF assms(1), of q]
    by (fastforce simp: dispatch_round_def to_listener_round to_listener_def[of _ _ "[]"]
        split: option.splits prod.splits)
qed

lemma eb_run_delivers:
  assumes "queue_fifo api items EVENT_BUS_QUEUE_LEN" and "list_all (eb_leaves cb x) ops"
    and "eb_initialized b" and "eb_queue b = Some q"
    and "length (filter (listens cb x) (eb_listeners b)) = 1" and "length (items q) \<le> EVENT_BUS_QUEUE_LEN"
  shows "\<exists>q'. eb_queue (snd (run (eb_step api) ops b)) = Some q' \<and> length (items q') \<le> EVENT_BUS_QUEUE_LEN \<and>
    items q @ concat (map fst (fst (run (eb_step api) ops b)))
      = to_listener cb x (concat (map snd (fst (run (eb_step api) ops b)))) @ items q'"
  using assms(2-)
proof (induction ops arbitrary: b q)
  case Nil
  then show ?case by (simp add: to_listener_def)
next
  case (Cons op ops)
  obtain acc calls b' where s: "eb_step api op b = ((acc, calls), b')" by (metis prod.collapse)
  obtain q1 where q1: "eb_queue b' = Some q1" "eb_initialized b'"
    "length (filter (listens cb x) (eb_listeners b')) = 1" "length (items q1) \<le> EVENT_BUS_QUEUE_LEN"
    "items q @ acc = to_listener cb x calls @ items q1"
    using eb_step_delivers[OF assms(1) Cons.prems(2-4) _ Cons.prems(5) s] Cons.prems(1) by auto
  from Cons.IH[OF _ q1(2,1,3,4)] Cons.prems(1) obtain q' where q':
    "eb_queue (snd (run (eb_step api) ops b')) = Some q'" "length (items q') \<le> EVENT_BUS_QUEUE_LEN"
    "items q1 @ concat (map fst (fst (run (eb_step api) ops b')))
      = to_listener cb x (concat (map snd (fst (run (eb_step api) ops b')))) @ items q'" by auto
  have "items q @ (acc @ concat (map fst (fst (run (eb_step api) ops b'))))
      = to_listener cb x calls @ (items q1 @ concat (map fst (fst (run (eb_step api) ops b'))))"
    using q1(5) by (metis append.assoc)
  then show ?case using q' s
    by (simp add: run_Cons_simp to_listener_append del: run.simps(2))
qed

text \<open>A queue as a list, for concrete runs.\<close>

definition list_queue_api :: "zg_event list queue_api" where
  "list_queue_api = \<lparr> xQueueCreate = (\<lambda>_. Some []),
     xQueueSend = (\<lambda>q e. if length q < EVENT_BUS_QUEUE_LEN then (True, q @ [e]) else (False, q)),
     xQueueReceive = (\<lambda>q. case q of [] \<Rightarrow> None | e # q' \<Rightarrow> Some (e, q')) \<rparr>"

lemma list_queue_fifo: "queue_fifo list_queue_api (\<lambda>q. q) EVENT_BUS_QUEUE_LEN"
  by (simp add: queue_fifo_def list_queue_api_def split: list.splits)

subsection \<open>Properties\<close>

text \<open>C31: Over a FIFO queue, a listener registered once sees every event the bus accepted, in the
  order of acceptance, each exactly once, except the at most 32 that are still waiting: whatever
  publications, dispatch rounds and subscriptions of other listeners happen from a bus whose queue
  is empty, the accepted events are those delivered to the listener followed by those queued.\<close>

theorem event_bus_delivers_in_order:
  assumes "queue_fifo api items EVENT_BUS_QUEUE_LEN" and "list_all (eb_leaves cb x) ops"
    and "eb_initialized b" and "eb_queue b = Some q" and "items q = []"
    and "length (filter (listens cb x) (eb_listeners b)) = 1"
    and "run (eb_step api) ops b = (rs, b')"
  shows "\<exists>q'. eb_queue b' = Some q' \<and> length (items q') \<le> EVENT_BUS_QUEUE_LEN \<and>
    concat (map fst rs) = to_listener cb x (concat (map snd rs)) @ items q'"
  using eb_run_delivers[OF assms(1-4,6)] assms(5,7) by simp

theorem event_bus_delivers_in_order_witness:
  "\<exists>rs b' q'. run (eb_step list_queue_api)
      [Eb_publish (Some zg_event_zero) 5, Eb_publish (Some (zg_event_zero \<lparr> ev_ts_ms := 3 \<rparr>)) 6, Eb_dispatch]
      \<lparr> eb_queue = Some [], eb_listeners = [\<lparr> ls_cb = Some (1::nat), ls_ctx = () \<rparr>], eb_initialized = True \<rparr>
     = (rs, b') \<and> concat (map fst rs) = to_listener 1 () (concat (map snd rs)) @ q'"
proof -
  let ?b = "\<lparr> eb_queue = Some [], eb_listeners = [\<lparr> ls_cb = Some (1::nat), ls_ctx = () \<rparr>],
    eb_initialized = True \<rparr>"
  let ?ops = "[Eb_publish (Some zg_event_zero) 5, Eb_publish (Some (zg_event_zero \<lparr> ev_ts_ms := 3 \<rparr>)) 6,
    Eb_dispatch]"
  obtain rs b' where r: "run (eb_step list_queue_api) ?ops ?b = (rs, b')" by (metis prod.collapse)
  show ?thesis using event_bus_delivers_in_order[OF list_queue_fifo _ _ _ _ _ r, of 1 "()" "[]"] r by auto
qed

end
