(* ===== verification/Device_Registry.thy ===== *)
theory Device_Registry
  imports Event_Bus BN_Hash
begin

text \<open>
  The registry of the zone's devices (\<open>device_registry.c\<close>): 32 slots, looked up by MAC, by address
  and by an identifier derived from the MAC.  Each call is one critical section; the clock value
  it reads is the argument \<open>ts\<close>; the events it publishes are part of its result.
\<close>

abbreviation DEVICE_REGISTRY_MAX_DEVICES :: nat where "DEVICE_REGISTRY_MAX_DEVICES \<equiv> 32"
abbreviation DEVICE_REGISTRY_NAME_LEN :: nat where "DEVICE_REGISTRY_NAME_LEN \<equiv> 32"
abbreviation DEVICE_REGISTRY_PROFILE_LEN :: nat where "DEVICE_REGISTRY_PROFILE_LEN \<equiv> 24"

datatype device_state =
    DEVICE_STATE_UNKNOWN
  | DEVICE_STATE_TRUSTED
  | DEVICE_STATE_SUSPICIOUS
  | DEVICE_STATE_QUARANTINED
  | DEVICE_STATE_BLOCKED

record device_record =
  dr_device_id :: u32
  dr_mac :: bytes
  dr_ip :: u32
  dr_zone_id :: u32
  dr_state :: device_state
  dr_risk_score :: u8
  dr_first_seen_ms :: u32
  dr_last_seen_ms :: u32
  dr_name :: bytes
  dr_profile :: bytes

record device_registry_stats =
  drs_capacity :: u32
  drs_active_devices :: u32
  drs_added :: u64
  drs_updated :: u64
  drs_removed :: u64
  drs_lookups :: u64
  drs_misses :: u64

record device_slot =
  ds_in_use :: bool
  ds_record :: device_record

record device_registry =
  reg_devices :: "device_slot list"
  reg_stats :: device_registry_stats
  reg_zone_id :: u32
  reg_initialized :: bool

definition device_record_zero :: device_record where
  "device_record_zero = \<lparr> dr_device_id = 0, dr_mac = replicate 6 0, dr_ip = 0, dr_zone_id = 0,
     dr_state = DEVICE_STATE_UNKNOWN, dr_risk_score = 0, dr_first_seen_ms = 0, dr_last_seen_ms = 0,
     dr_name = replicate DEVICE_REGISTRY_NAME_LEN 0,
     dr_profile = replicate DEVICE_REGISTRY_PROFILE_LEN 0 \<rparr>"

definition device_slot_zero :: device_slot where
  "device_slot_zero = \<lparr> ds_in_use = False, ds_record = device_record_zero \<rparr>"

definition device_stats_zero :: device_registry_stats where
  "device_stats_zero = \<lparr> drs_capacity = 0, drs_active_devices = 0, drs_added = 0, drs_updated = 0,
     drs_removed = 0, drs_lookups = 0, drs_misses = 0 \<rparr>"

definition mac_valid :: "bytes option \<Rightarrow> bool" where
  "mac_valid mac \<longleftrightarrow> (case mac of None \<Rightarrow> False | Some m \<Rightarrow> take 6 m \<noteq> replicate 6 0)"

definition mac_equal :: "bytes \<Rightarrow> bytes \<Rightarrow> bool" where
  "mac_equal a b \<longleftrightarrow> take 6 a = take 6 b"

definition device_registry_make_id_from_mac :: "bytes option \<Rightarrow> u32" where
  "device_registry_make_id_from_mac mac =
     (case mac of
        None \<Rightarrow> 0
      | Some m \<Rightarrow> (let h = fnv1a32_update 2166136261 (take 6 m) in if h = 0 then 1 else h))"

fun device_state_to_string :: "device_state \<Rightarrow> string" where
  "device_state_to_string DEVICE_STATE_UNKNOWN = ''UNKNOWN''"
| "device_state_to_string DEVICE_STATE_TRUSTED = ''TRUSTED''"
| "device_state_to_string DEVICE_STATE_SUSPICIOUS = ''SUSPICIOUS''"
| "device_state_to_string DEVICE_STATE_QUARANTINED = ''QUARANTINED''"
| "device_state_to_string DEVICE_STATE_BLOCKED = ''BLOCKED''"

definition find_by_ip_locked :: "u32 \<Rightarrow> device_registry \<Rightarrow> nat option" where
  "find_by_ip_locked ip g = find_index (\<lambda>s. ds_in_use s \<and> dr_ip (ds_record s) = ip) (reg_devices g)"

definition find_by_mac_locked :: "bytes \<Rightarrow> device_registry \<Rightarrow> nat option" where
  "find_by_mac_locked mac g =
     find_index (\<lambda>s. ds_in_use s \<and> mac_equal (dr_mac (ds_record s)) mac) (reg_devices g)"

definition find_by_id_locked :: "u32 \<Rightarrow> device_registry \<Rightarrow> nat option" where
  "find_by_id_locked device_id g =
     find_index (\<lambda>s. ds_in_use s \<and> dr_device_id (ds_record s) = device_id) (reg_devices g)"

definition dr_find_empty_locked :: "device_registry \<Rightarrow> nat option" where
  "dr_find_empty_locked g = find_index (\<lambda>s. \<not> ds_in_use s) (reg_devices g)"

definition device_registry_init :: "u32 \<Rightarrow> device_registry \<Rightarrow> esp_err \<times> device_registry" where
  "device_registry_init zone_id g =
     (ESP_OK, \<lparr> reg_devices = replicate DEVICE_REGISTRY_MAX_DEVICES device_slot_zero,
        reg_stats = device_stats_zero \<lparr> drs_capacity := 32 \<rparr>, reg_zone_id = zone_id,
        reg_initialized = True \<rparr>)"

definition device_registry_reset :: "device_registry \<Rightarrow> device_registry" where
  "device_registry_reset g =
     g \<lparr> reg_devices := replicate DEVICE_REGISTRY_MAX_DEVICES device_slot_zero,
         reg_stats := device_stats_zero \<lparr> drs_capacity := 32 \<rparr> \<rparr>"

text \<open>The fields an upsert writes in every case, and the record of a device seen for the first time.\<close>

definition dr_seen :: "u32 \<Rightarrow> bytes option \<Rightarrow> bytes option \<Rightarrow> u32 \<Rightarrow> device_record \<Rightarrow> device_record" where
  "dr_seen ip name profile ts d =
     d \<lparr> dr_ip := ip, dr_last_seen_ms := ts,
         dr_name := (case name of None \<Rightarrow> dr_name d
                     | Some n \<Rightarrow> safe_copy (dr_name d) DEVICE_REGISTRY_NAME_LEN (Some n)),
         dr_profile := (case profile of None \<Rightarrow> dr_profile d
                     | Some n \<Rightarrow> safe_copy (dr_profile d) DEVICE_REGISTRY_PROFILE_LEN (Some n)) \<rparr>"

definition dr_new :: "bytes \<Rightarrow> u32 \<Rightarrow> u32 \<Rightarrow> device_record" where
  "dr_new mac zone_id ts = device_record_zero \<lparr>
     dr_device_id := device_registry_make_id_from_mac (Some mac), dr_mac := take 6 mac,
     dr_zone_id := zone_id, dr_state := DEVICE_STATE_UNKNOWN, dr_first_seen_ms := ts \<rparr>"

definition device_registry_upsert_mac_ip ::
  "bytes option \<Rightarrow> u32 \<Rightarrow> bytes option \<Rightarrow> bytes option \<Rightarrow> device_record option \<Rightarrow> u32 \<Rightarrow> device_registry
     \<Rightarrow> esp_err \<times> device_record option \<times> device_registry \<times> zg_event list" where
  "device_registry_upsert_mac_ip mac ip name profile out_record ts g =
     (if \<not> reg_initialized g \<or> \<not> mac_valid mac \<or> ip = 0 then (ESP_ERR_INVALID_ARG, out_record, g, [])
      else
       (let m = the mac;
            idx = (case find_by_mac_locked m g of Some i \<Rightarrow> Some i | None \<Rightarrow> find_by_ip_locked ip g)
        in case idx of
             Some i \<Rightarrow>
               (let d = dr_seen ip name profile ts (ds_record (reg_devices g ! i))
                in (ESP_OK, map_option (\<lambda>_. d) out_record,
                    g \<lparr> reg_devices := (reg_devices g)[i := (reg_devices g ! i) \<lparr> ds_record := d \<rparr>],
                        reg_stats := (reg_stats g) \<lparr> drs_updated := drs_updated (reg_stats g) + 1 \<rparr> \<rparr>,
                    []))
           | None \<Rightarrow>
               (case dr_find_empty_locked g of
                  None \<Rightarrow> (ESP_ERR_NO_MEM, out_record, g, [])
                | Some i \<Rightarrow>
                    (let d = dr_seen ip name profile ts (dr_new m (reg_zone_id g) ts)
                     in (ESP_OK, map_option (\<lambda>_. d) out_record,
                         g \<lparr> reg_devices := (reg_devices g)[i := \<lparr> ds_in_use = True, ds_record = d \<rparr>],
                             reg_stats := (reg_stats g)
                               \<lparr> drs_active_devices := drs_active_devices (reg_stats g) + 1,
                                 drs_added := drs_added (reg_stats g) + 1 \<rparr> \<rparr>,
                         [zg_event_zero \<lparr> ev_type := ZG_EVENT_DEVICE_JOINED, ev_zone_id := reg_zone_id g,
                            ev_device_id := dr_device_id d, ev_src_ip := dr_ip d,
                            ev_reason := event_reason (lit ''device_joined'') \<rparr>])))))"

text \<open>The common body of the three lookups.\<close>

definition dr_lookup ::
  "nat option \<Rightarrow> device_record \<Rightarrow> device_registry \<Rightarrow> bool \<times> device_record option \<times> device_registry" where
  "dr_lookup idx out g =
     (let st = (reg_stats g) \<lparr> drs_lookups := drs_lookups (reg_stats g) + 1 \<rparr>
      in case idx of
           Some i \<Rightarrow> (True, Some (ds_record (reg_devices g ! i)), g \<lparr> reg_stats := st \<rparr>)
         | None \<Rightarrow> (False, Some out, g \<lparr> reg_stats := st \<lparr> drs_misses := drs_misses st + 1 \<rparr> \<rparr>))"

definition device_registry_find_by_ip ::
  "u32 \<Rightarrow> device_record option \<Rightarrow> device_registry \<Rightarrow> bool \<times> device_record option \<times> device_registry" where
  "device_registry_find_by_ip ip out_record g =
     (if \<not> reg_initialized g \<or> out_record = None \<or> ip = 0 then (False, out_record, g)
      else dr_lookup (find_by_ip_locked ip g) (the out_record) g)"

definition device_registry_find_by_mac ::
  "bytes option \<Rightarrow> device_record option \<Rightarrow> device_registry
     \<Rightarrow> bool \<times> device_record option \<times> device_registry" where
  "device_registry_find_by_mac mac out_record g =
     (if \<not> reg_initialized g \<or> out_record = None \<or> \<not> mac_valid mac then (False, out_record, g)
      else dr_lookup (find_by_mac_locked (the mac) g) (the out_record) g)"

definition device_registry_find_by_id ::
  "u32 \<Rightarrow> device_record option \<Rightarrow> device_registry \<Rightarrow> bool \<times> device_record option \<times> device_registry" where
  "device_registry_find_by_id device_id out_record g =
     (if \<not> reg_initialized g \<or> out_record = None \<or> device_id = 0 then (False, out_record, g)
      else dr_lookup (find_by_id_locked device_id g) (the out_record) g)"

definition dr_set :: "device_state \<Rightarrow> u8 \<Rightarrow> nat \<Rightarrow> device_registry \<Rightarrow> device_registry" where
  "dr_set state risk_score i g =
     g \<lparr> reg_devices := (reg_devices g)[i := (reg_devices g ! i) \<lparr> ds_record :=
       (ds_record (reg_devices g ! i)) \<lparr> dr_state := state,
          dr_risk_score := (if risk_score > 100 then 100 else risk_score) \<rparr> \<rparr>] \<rparr>"

definition dr_quarantined_event :: "u32 \<Rightarrow> u32 \<Rightarrow> u32 \<Rightarrow> u8 \<Rightarrow> zg_event" where
  "dr_quarantined_event zone_id device_id ip risk_score =
     zg_event_zero \<lparr> ev_type := ZG_EVENT_DEVICE_QUARANTINED, ev_zone_id := zone_id,
       ev_device_id := device_id, ev_src_ip := ip, ev_risk_score := risk_score,
       ev_reason := event_reason (lit ''registry_state_quarantined'') \<rparr>"

definition device_registry_set_state_by_ip ::
  "u32 \<Rightarrow> device_state \<Rightarrow> u8 \<Rightarrow> device_registry \<Rightarrow> bool \<times> device_registry \<times> zg_event list" where
  "device_registry_set_state_by_ip ip state risk_score g =
     (if \<not> reg_initialized g \<or> ip = 0 then (False, g, [])
      else (case find_by_ip_locked ip g of
          None \<Rightarrow> (False, g, [])
        | Some i \<Rightarrow>
            (True, dr_set state risk_score i g,
             if state = DEVICE_STATE_QUARANTINED
             then [dr_quarantined_event (reg_zone_id g) (dr_device_id (ds_record (reg_devices g ! i)))
                     ip risk_score]
             else [])))"

definition device_registry_set_state_by_id ::
  "u32 \<Rightarrow> device_state \<Rightarrow> u8 \<Rightarrow> device_registry \<Rightarrow> bool \<times> device_registry \<times> zg_event list" where
  "device_registry_set_state_by_id device_id state risk_score g =
     (if \<not> reg_initialized g \<or> device_id = 0 then (False, g, [])
      else (case find_by_id_locked device_id g of
          None \<Rightarrow> (False, g, [])
        | Some i \<Rightarrow>
            (True, dr_set state risk_score i g,
             if state = DEVICE_STATE_QUARANTINED
             then [dr_quarantined_event (reg_zone_id g) device_id (dr_ip (ds_record (reg_devices g ! i)))
                     risk_score]
             else [])))"

definition device_registry_remove_by_ip :: "u32 \<Rightarrow> device_registry \<Rightarrow> bool \<times> device_registry" where
  "device_registry_remove_by_ip ip g =
     (if \<not> reg_initialized g \<or> ip = 0 then (False, g)
      else (case find_by_ip_locked ip g of
          None \<Rightarrow> (False, g)
        | Some i \<Rightarrow>
            (let st = reg_stats g in
             (True, g \<lparr> reg_devices := (reg_devices g)[i := device_slot_zero],
                reg_stats := st \<lparr> drs_active_devices :=
                    (if drs_active_devices st > 0 then drs_active_devices st - 1
                     else drs_active_devices st),
                  drs_removed := drs_removed st + 1 \<rparr> \<rparr>))))"

definition device_registry_foreach :: "device_registry \<Rightarrow> device_record list" where
  "device_registry_foreach g =
     (if \<not> reg_initialized g then [] else map ds_record (filter ds_in_use (reg_devices g)))"

definition device_registry_get_stats :: "device_registry \<Rightarrow> device_registry_stats" where
  "device_registry_get_stats g = reg_stats g"

subsection \<open>Invariant\<close>

definition ds_key :: "device_slot \<Rightarrow> bytes" where
  "ds_key s = take 6 (dr_mac (ds_record s))"

interpretation dslots: keyed_slots ds_in_use device_slot_zero ds_key
  by unfold_locales (simp add: device_slot_zero_def)

definition dr_ok :: "device_record \<Rightarrow> bool" where
  "dr_ok d \<longleftrightarrow> dr_device_id d = device_registry_make_id_from_mac (Some (dr_mac d)) \<and>
     take 6 (dr_mac d) \<noteq> replicate 6 0 \<and> dr_ip d \<noteq> 0 \<and> dr_risk_score d \<le> 100"

definition reg_used :: "device_registry \<Rightarrow> nat" where
  "reg_used g = used_count ds_in_use (reg_devices g)"

definition reg_wf :: "device_registry \<Rightarrow> bool" where
  "reg_wf g \<longleftrightarrow> length (reg_devices g) = DEVICE_REGISTRY_MAX_DEVICES \<and>
     keys_unique ds_in_use ds_key (reg_devices g) \<and>
     (\<forall>s\<in>set (reg_devices g). ds_in_use s \<longrightarrow> dr_ok (ds_record s)) \<and>
     drs_active_devices (reg_stats g) = of_nat (reg_used g) \<and>
     drs_added (reg_stats g) = of_nat (reg_used g) + drs_removed (reg_stats g)"

lemma find_by_mac_eq:
  "find_by_mac_locked m g = find_index (\<lambda>s. ds_in_use s \<and> ds_key s = take 6 m) (reg_devices g)"
  by (simp add: find_by_mac_locked_def mac_equal_def ds_key_def)

text \<open>Rewriting the record of an occupied slot without touching its MAC.\<close>

lemma reg_rewrite:
  assumes "reg_wf g" and "i < length (reg_devices g)" and "ds_in_use (reg_devices g ! i)"
    and "dr_mac d = dr_mac (ds_record (reg_devices g ! i))" and "dr_ok d"
    and "g' = g \<lparr> reg_devices := (reg_devices g)[i := (reg_devices g ! i) \<lparr> ds_record := d \<rparr>], reg_stats := st \<rparr>"
    and "drs_active_devices st = drs_active_devices (reg_stats g)"
    and "drs_added st = drs_added (reg_stats g)" and "drs_removed st = drs_removed (reg_stats g)"
  shows "reg_wf g'"
proof -
  let ?s = "(reg_devices g ! i) \<lparr> ds_record := d \<rparr>"
  have u: "keys_unique ds_in_use ds_key (reg_devices g)" using assms(1) by (simp add: reg_wf_def)
  have k: "ds_key ?s = ds_key (reg_devices g ! i)" "ds_in_use ?s" using assms(3,4) by (simp_all add: ds_key_def)
  have "keys_unique ds_in_use ds_key ((reg_devices g)[i := ?s])"
    by (rule dslots.unique_store[OF u assms(2)]) (metis keys_uniqueD[OF u _ assms(2) _ assms(3)] k(1))
  moreover have "used_count ds_in_use ((reg_devices g)[i := ?s]) = reg_used g"
    unfolding reg_used_def by (rule dslots.count_refresh) (use assms(2,3) in simp_all)
  ultimately show ?thesis using assms(1,5-9)
    by (auto simp: reg_wf_def reg_used_def dest!: set_update_subset_insert[THEN subsetD])
qed

lemma reg_slot_ok:
  "reg_wf g \<Longrightarrow> i < length (reg_devices g) \<Longrightarrow> ds_in_use (reg_devices g ! i) \<Longrightarrow>
     dr_ok (ds_record (reg_devices g ! i))"
  by (simp add: reg_wf_def)

lemma dr_seen_simps [simp]:
  "dr_mac (dr_seen ip name profile ts d) = dr_mac d"
  "dr_device_id (dr_seen ip name profile ts d) = dr_device_id d"
  "dr_ip (dr_seen ip name profile ts d) = ip"
  "dr_risk_score (dr_seen ip name profile ts d) = dr_risk_score d"
  by (simp_all add: dr_seen_def)

lemma dr_seen_ok: "dr_ok d \<Longrightarrow> ip \<noteq> 0 \<Longrightarrow> dr_ok (dr_seen ip name profile ts d)"
  by (simp add: dr_ok_def)

lemma dr_new_ok: "mac_valid (Some m) \<Longrightarrow> ip \<noteq> 0 \<Longrightarrow> dr_ok (dr_seen ip name profile ts (dr_new m z ts'))"
  by (simp add: dr_ok_def dr_new_def device_record_zero_def device_registry_make_id_from_mac_def mac_valid_def)

lemma upsert_cases:
  assumes "reg_wf g" and "reg_initialized g" and "mac_valid (Some m)" and "ip \<noteq> 0"
    and "device_registry_upsert_mac_ip (Some m) ip name profile out ts g = (err, out', g', evs)"
  shows "reg_wf g'" "reg_initialized g' = reg_initialized g"
    "find_by_mac_locked m g = Some i \<Longrightarrow> err = ESP_OK \<and> reg_devices g' = (reg_devices g)[i :=
       (reg_devices g ! i) \<lparr> ds_record := dr_seen ip name profile ts (ds_record (reg_devices g ! i)) \<rparr>]"
    "find_by_mac_locked m g = None \<Longrightarrow> find_by_ip_locked ip g = Some i \<Longrightarrow> err = ESP_OK \<and>
       reg_devices g' = (reg_devices g)[i :=
       (reg_devices g ! i) \<lparr> ds_record := dr_seen ip name profile ts (ds_record (reg_devices g ! i)) \<rparr>]"
    "find_by_mac_locked m g = None \<Longrightarrow> find_by_ip_locked ip g = None \<Longrightarrow> err = ESP_OK \<Longrightarrow>
       \<exists>i. dr_find_empty_locked g = Some i \<and> reg_devices g' = (reg_devices g)[i :=
         \<lparr> ds_in_use = True, ds_record = dr_seen ip name profile ts (dr_new m (reg_zone_id g) ts) \<rparr>]"
proof -
  have hit: "reg_wf g'" if "(case find_by_mac_locked m g of Some i \<Rightarrow> Some i
      | None \<Rightarrow> find_by_ip_locked ip g) = Some i" for i
  proof -
    have i: "i < length (reg_devices g)" "ds_in_use (reg_devices g ! i)"
      using that by (auto simp: find_by_mac_locked_def find_by_ip_locked_def dest!: find_index_SomeD
          split: option.splits)
    show ?thesis using assms(2-5) that
      by (intro reg_rewrite[OF assms(1) i _ dr_seen_ok[OF reg_slot_ok[OF assms(1) i] assms(4)],
            of name profile ts _ "(reg_stats g) \<lparr> drs_updated := drs_updated (reg_stats g) + 1 \<rparr>"])
        (auto simp: device_registry_upsert_mac_ip_def Let_def)
  qed
  have new: "reg_wf g'" if "find_by_mac_locked m g = None" "find_by_ip_locked ip g = None"
  proof (cases "dr_find_empty_locked g")
    case None
    then show ?thesis using assms that by (simp add: device_registry_upsert_mac_ip_def Let_def)
  next
    case (Some i)
    let ?s = "\<lparr> ds_in_use = True, ds_record = dr_seen ip name profile ts (dr_new m (reg_zone_id g) ts) \<rparr>"
    have u: "keys_unique ds_in_use ds_key (reg_devices g)" using assms(1) by (simp add: reg_wf_def)
    have n: "slot_map ds_in_use ds_key (reg_devices g) (take 6 m) = None"
      using that(1) find_index_slot_map(2)[of ds_in_use ds_key "take 6 m" "reg_devices g"]
      by (simp add: find_by_mac_eq)
    have k: "ds_key ?s = take 6 m" by (simp add: ds_key_def dr_new_def)
    note f = dslots.put_fresh[OF u Some[unfolded dr_find_empty_locked_def] n _ k]
    show ?thesis using assms that Some f(1,3) dr_new_ok[OF assms(3,4), of name profile ts "reg_zone_id g" ts]
      by (auto simp: device_registry_upsert_mac_ip_def Let_def reg_wf_def reg_used_def
          dest!: set_update_subset_insert[THEN subsetD])
  qed
  show "reg_wf g'" using hit new by (cases "find_by_mac_locked m g"; cases "find_by_ip_locked ip g") auto
  show "reg_initialized g' = reg_initialized g" using assms(2-5)
    by (auto simp: device_registry_upsert_mac_ip_def Let_def split: option.splits)
  show "find_by_mac_locked m g = Some i \<Longrightarrow> err = ESP_OK \<and> reg_devices g' = (reg_devices g)[i :=
       (reg_devices g ! i) \<lparr> ds_record := dr_seen ip name profile ts (ds_record (reg_devices g ! i)) \<rparr>]"
    "find_by_mac_locked m g = None \<Longrightarrow> find_by_ip_locked ip g = Some i \<Longrightarrow> err = ESP_OK \<and>
       reg_devices g' = (reg_devices g)[i :=
       (reg_devices g ! i) \<lparr> ds_record := dr_seen ip name profile ts (ds_record (reg_devices g ! i)) \<rparr>]"
    "find_by_mac_locked m g = None \<Longrightarrow> find_by_ip_locked ip g = None \<Longrightarrow> err = ESP_OK \<Longrightarrow>
       \<exists>i. dr_find_empty_locked g = Some i \<and> reg_devices g' = (reg_devices g)[i :=
         \<lparr> ds_in_use = True, ds_record = dr_seen ip name profile ts (dr_new m (reg_zone_id g) ts) \<rparr>]"
    using assms(2-5) by (auto simp: device_registry_upsert_mac_ip_def Let_def split: option.splits)
qed

lemma dr_set_wf:
  assumes "reg_wf g" and "i < length (reg_devices g)" and "ds_in_use (reg_devices g ! i)"
  shows "reg_wf (dr_set state risk i g)"
  by (rule reg_rewrite[OF assms, of "(ds_record (reg_devices g ! i)) \<lparr> dr_state := state,
        dr_risk_score := (if risk > 100 then 100 else risk) \<rparr>" _ "reg_stats g"])
    (use reg_slot_ok[OF assms] in \<open>simp_all add: dr_ok_def dr_set_def not_less\<close>)

lemma dr_remove_wf:
  assumes "reg_wf g"
  shows "reg_wf (snd (device_registry_remove_by_ip ip g))"
proof (cases "\<exists>i. reg_initialized g \<and> ip \<noteq> 0 \<and> find_by_ip_locked ip g = Some i")
  case True
  then obtain i where i: "reg_initialized g" "ip \<noteq> 0" "find_by_ip_locked ip g = Some i" by blast
  then have s: "i < length (reg_devices g)" "ds_in_use (reg_devices g ! i)"
    using find_index_SomeD[OF i(3)[unfolded find_by_ip_locked_def]] by simp_all
  note c = dslots.count_clear[OF s]
  have "reg_used g < 2 ^ 32" using dslots.count_le[of "reg_devices g"] assms
    by (simp add: reg_wf_def reg_used_def)
  note d = active_dec[OF c[folded reg_used_def] this]
  have w: "(of_nat (reg_used g) :: u64) = of_nat (used_count ds_in_use ((reg_devices g)[i := device_slot_zero])) + 1"
    using c by (metis of_nat_Suc reg_used_def add.commute)
  let ?ds = "(reg_devices g)[i := device_slot_zero]"
  have "drs_active_devices (reg_stats g) = of_nat (reg_used g)" using assms by (simp add: reg_wf_def)
  then have g': "snd (device_registry_remove_by_ip ip g) = g \<lparr> reg_devices := ?ds,
      reg_stats := (reg_stats g) \<lparr> drs_active_devices := of_nat (used_count ds_in_use ?ds),
        drs_removed := drs_removed (reg_stats g) + 1 \<rparr> \<rparr>"
    using i d by (simp add: device_registry_remove_by_ip_def Let_def)
  have "\<forall>s\<in>set ?ds. ds_in_use s \<longrightarrow> dr_ok (ds_record s)"
    using assms by (auto simp: reg_wf_def device_slot_zero_def dest!: set_update_subset_insert[THEN subsetD])
  moreover have "keys_unique ds_in_use ds_key ?ds"
    using assms by (intro dslots.unique_clear) (simp add: reg_wf_def)
  ultimately show ?thesis using assms w unfolding g'
    by (simp add: reg_wf_def reg_used_def[of "_\<lparr>reg_devices := _, reg_stats := _\<rparr>"])
next
  case False
  then show ?thesis using assms by (auto simp: device_registry_remove_by_ip_def split: option.splits)
qed

subsection \<open>Sequences of calls\<close>

datatype dr_op =
    Dr_init u32
  | Dr_reset
  | Dr_upsert "bytes option" u32 "bytes option" "bytes option" u32
  | Dr_find_ip u32
  | Dr_find_mac "bytes option"
  | Dr_find_id u32
  | Dr_set_ip u32 device_state u8
  | Dr_set_id u32 device_state u8
  | Dr_remove u32

fun dr_step :: "dr_op \<Rightarrow> device_registry \<Rightarrow> zg_event list \<times> device_registry" where
  "dr_step (Dr_init z) g = ([], snd (device_registry_init z g))"
| "dr_step Dr_reset g = ([], device_registry_reset g)"
| "dr_step (Dr_upsert mac ip name profile ts) g =
     (case device_registry_upsert_mac_ip mac ip name profile None ts g of (_, _, g', evs) \<Rightarrow> (evs, g'))"
| "dr_step (Dr_find_ip ip) g = ([], snd (snd (device_registry_find_by_ip ip (Some device_record_zero) g)))"
| "dr_step (Dr_find_mac m) g = ([], snd (snd (device_registry_find_by_mac m (Some device_record_zero) g)))"
| "dr_step (Dr_find_id i) g = ([], snd (snd (device_registry_find_by_id i (Some device_record_zero) g)))"
| "dr_step (Dr_set_ip ip st risk) g =
     (case device_registry_set_state_by_ip ip st risk g of (_, g', evs) \<Rightarrow> (evs, g'))"
| "dr_step (Dr_set_id i st risk) g =
     (case device_registry_set_state_by_id i st risk g of (_, g', evs) \<Rightarrow> (evs, g'))"
| "dr_step (Dr_remove ip) g = ([], snd (device_registry_remove_by_ip ip g))"

lemma reg_blank_wf:
  "reg_wf \<lparr> reg_devices = replicate DEVICE_REGISTRY_MAX_DEVICES device_slot_zero,
     reg_stats = device_stats_zero \<lparr> drs_capacity := 32 \<rparr>, reg_zone_id = z, reg_initialized = b \<rparr>"
  using dslots.count_blank dslots.unique_blank
  by (simp add: reg_wf_def reg_used_def device_stats_zero_def device_slot_zero_def)

lemma reg_wf_stats:
  assumes "reg_wf g" and "drs_active_devices st = drs_active_devices (reg_stats g)"
    and "drs_added st = drs_added (reg_stats g)" and "drs_removed st = drs_removed (reg_stats g)"
  shows "reg_wf (g \<lparr> reg_stats := st \<rparr>)"
  using assms by (simp add: reg_wf_def reg_used_def)

lemma dr_lookup_wf: "reg_wf g \<Longrightarrow> reg_wf (snd (snd (dr_lookup idx out g)))"
  by (auto simp: dr_lookup_def Let_def intro!: reg_wf_stats split: option.splits)

lemma set_state_wf:
  assumes "reg_wf g"
  shows "reg_wf (fst (snd (device_registry_set_state_by_ip ip st risk g)))"
    "reg_wf (fst (snd (device_registry_set_state_by_id i st risk g)))"
  using assms dr_set_wf[OF assms]
  by (auto simp: device_registry_set_state_by_ip_def device_registry_set_state_by_id_def
      find_by_ip_locked_def find_by_id_locked_def dest!: find_index_SomeD split: option.splits)

lemma dr_step_wf: "reg_wf g \<Longrightarrow> reg_wf (snd (dr_step x g))"
proof (cases x)
  case (Dr_init z)
  then show ?thesis using reg_blank_wf by (simp add: device_registry_init_def)
next
  case Dr_reset
  then show ?thesis using reg_blank_wf[of "reg_zone_id g" "reg_initialized g"]
    by (cases g) (simp add: device_registry_reset_def)
next
  case (Dr_upsert mac ip name profile ts)
  assume w: "reg_wf g"
  obtain err out g' evs where u: "device_registry_upsert_mac_ip mac ip name profile None ts g = (err, out, g', evs)"
    by (metis prod.collapse)
  have "reg_wf g'"
  proof (cases "reg_initialized g \<and> mac_valid mac \<and> ip \<noteq> 0")
    case True
    then obtain m where "mac = Some m" by (cases mac) (auto simp: mac_valid_def)
    then show ?thesis using upsert_cases(1)[OF w _ _ _ u[unfolded \<open>mac = Some m\<close>]] True by simp
  next
    case False
    then show ?thesis using u w by (auto simp: device_registry_upsert_mac_ip_def)
  qed
  then show ?thesis using Dr_upsert u by simp
qed (simp_all add: device_registry_find_by_ip_def device_registry_find_by_mac_def
    device_registry_find_by_id_def dr_lookup_wf set_state_wf dr_remove_wf case_prod_beta)

interpretation registry: module_invariant reg_wf "\<lambda>x. True" dr_step
  by unfold_locales (rule dr_step_wf)

subsection \<open>Lookup after an upsert\<close>

abbreviation reg_map :: "device_registry \<Rightarrow> bytes \<rightharpoonup> device_slot" where
  "reg_map g \<equiv> slot_map ds_in_use ds_key (reg_devices g)"

lemma find_by_mac_map:
  assumes "reg_initialized g" and "mac_valid (Some m)"
    and "device_registry_find_by_mac (Some m) (Some out) g = (found, r, g')"
  shows "case reg_map g (take 6 m) of Some s \<Rightarrow> found \<and> r = Some (ds_record s) | None \<Rightarrow> \<not> found"
proof (cases "find_by_mac_locked m g")
  case None
  then have "reg_map g (take 6 m) = None"
    using find_index_slot_map(2)[of ds_in_use ds_key "take 6 m" "reg_devices g"] by (simp add: find_by_mac_eq)
  then show ?thesis using assms None by (simp add: device_registry_find_by_mac_def dr_lookup_def Let_def)
next
  case (Some i)
  then have "reg_map g (take 6 m) = Some (reg_devices g ! i)"
    using find_index_slot_map(1)[of ds_in_use ds_key "take 6 m" "reg_devices g" i] by (simp add: find_by_mac_eq)
  then show ?thesis using assms Some by (simp add: device_registry_find_by_mac_def dr_lookup_def Let_def)
qed

lemma reg_map_find:
  "reg_map g (take 6 m) = None \<longleftrightarrow> find_by_mac_locked m g = None"
  using find_index_slot_map(2)[of ds_in_use ds_key "take 6 m" "reg_devices g"] by (simp add: find_by_mac_eq)

lemma reg_map_rewrite:
  assumes "reg_wf g" and "i < length (reg_devices g)" and "ds_in_use (reg_devices g ! i)"
    and "dr_mac d = dr_mac (ds_record (reg_devices g ! i))"
  shows "slot_map ds_in_use ds_key ((reg_devices g)[i := (reg_devices g ! i) \<lparr> ds_record := d \<rparr>])
    = (reg_map g)(ds_key (reg_devices g ! i) \<mapsto> (reg_devices g ! i) \<lparr> ds_record := d \<rparr>)"
proof -
  have u: "keys_unique ds_in_use ds_key (reg_devices g)" using assms(1) by (simp add: reg_wf_def)
  have f: "find_index (\<lambda>s. ds_in_use s \<and> ds_key s = ds_key (reg_devices g ! i)) (reg_devices g) = Some i"
    using assms(2,3) keys_uniqueD[OF u] by (intro find_index_unique) auto
  show ?thesis by (rule dslots.put_update(2)[OF u f]) (use assms(3,4) in \<open>simp_all add: ds_key_def\<close>)
qed

lemma reg_map_upsert:
  assumes "reg_wf g" and "reg_initialized g" and "mac_valid (Some m)" and "ip \<noteq> 0"
    and "device_registry_upsert_mac_ip (Some m) ip name profile out ts g = (ESP_OK, out', g', evs)"
  shows "if find_by_mac_locked m g = None \<and> find_by_ip_locked ip g \<noteq> None
    then reg_map g' (take 6 m) = None
    else \<exists>s. reg_map g' (take 6 m) = Some s \<and> dr_ip (ds_record s) = ip"
proof (cases "find_by_mac_locked m g")
  case (Some i)
  then have i: "i < length (reg_devices g)" "ds_in_use (reg_devices g ! i)"
    "ds_key (reg_devices g ! i) = take 6 m"
    using find_index_SomeD[OF Some[unfolded find_by_mac_eq]] by simp_all
  show ?thesis using upsert_cases(3)[OF assms Some] reg_map_rewrite[OF assms(1) i(1,2)] i(3) Some by simp
next
  case None
  note n = None[folded reg_map_find]
  show ?thesis
  proof (cases "find_by_ip_locked ip g")
    case (Some i)
    then have i: "i < length (reg_devices g)" "ds_in_use (reg_devices g ! i)"
      using find_index_SomeD[OF Some[unfolded find_by_ip_locked_def]] by simp_all
    then have "ds_key (reg_devices g ! i) \<noteq> take 6 m" using n by (simp add: slot_map_None_iff)
    then show ?thesis using upsert_cases(4)[OF assms None Some] reg_map_rewrite[OF assms(1) i] None Some n
      by simp
  next
    case False: None
    obtain i where e: "dr_find_empty_locked g = Some i" "reg_devices g' = (reg_devices g)[i :=
        \<lparr> ds_in_use = True, ds_record = dr_seen ip name profile ts (dr_new m (reg_zone_id g) ts) \<rparr>]"
      using upsert_cases(5)[OF assms None False] by auto
    have u: "keys_unique ds_in_use ds_key (reg_devices g)" using assms(1) by (simp add: reg_wf_def)
    show ?thesis using dslots.put_fresh(2)[OF u e(1)[unfolded dr_find_empty_locked_def] n] e(2) False
      by (simp add: ds_key_def dr_new_def)
  qed
qed

definition reg_fresh :: device_registry where
  "reg_fresh = snd (device_registry_init 1 \<lparr> reg_devices = [], reg_stats = device_stats_zero,
     reg_zone_id = 0, reg_initialized = False \<rparr>)"

lemma reg_fresh_facts:
  "reg_wf reg_fresh" "reg_initialized reg_fresh" "find_by_mac_locked m reg_fresh = None"
  "find_by_ip_locked ip reg_fresh = None" "dr_find_empty_locked reg_fresh = Some 0"
  using reg_blank_wf
  by (simp_all add: reg_fresh_def device_registry_init_def find_by_mac_locked_def find_by_ip_locked_def
      find_index_None_iff device_slot_zero_def dr_find_empty_locked_def eval_nat_numeral)

subsection \<open>Properties\<close>

text \<open>After initialisation and any sequence of calls, no MAC address is registered twice, every
  registered device carries the identifier derived from its MAC, a non-zero MAC and address and a
  risk score of at most 100, and every device ever added is still registered or was removed.\<close>

theorem device_registry_invariant: "reg_wf (snd (run dr_step (Dr_init z # ops) g))"
proof -
  have "reg_wf (snd (dr_step (Dr_init z) g))" using reg_blank_wf by (simp add: device_registry_init_def)
  then show ?thesis using registry.run_inv[of _ ops]
    by (simp add: run_Cons_simp list_all_iff del: run.simps(2) dr_step.simps)
qed

text \<open>C32: What a successful upsert guarantees. Afterwards the device is found by its MAC with the
  address just reported, with exactly one exception: the MAC was unknown and the address belonged to
  another registered device; then that device's record is updated and the MAC stays unknown.\<close>

theorem device_upsert_then_find_by_mac:
  assumes "reg_wf g" and "reg_initialized g" and "mac_valid (Some m)" and "ip \<noteq> 0"
    and "device_registry_upsert_mac_ip (Some m) ip name profile out ts g = (ESP_OK, out', g', evs)"
    and "device_registry_find_by_mac (Some m) (Some r0) g' = (found, r, g'')"
  shows "(found \<longleftrightarrow> \<not> (find_by_mac_locked m g = None \<and> find_by_ip_locked ip g \<noteq> None)) \<and>
    (found \<longrightarrow> (\<exists>d. r = Some d \<and> dr_ip d = ip))"
proof -
  have "reg_initialized g'" using upsert_cases(2)[OF assms(1-5)] assms(2) by simp
  from find_by_mac_map[OF this assms(3,6)] reg_map_upsert[OF assms(1-5)]
  show ?thesis by (auto split: option.splits if_splits)
qed

theorem device_upsert_then_find_by_mac_witness:
  "fst (device_registry_find_by_mac (Some [2, 0, 0, 0, 0, 1]) (Some device_record_zero)
     (fst (snd (snd (device_registry_upsert_mac_ip (Some [2, 0, 0, 0, 0, 1]) 7 None None None 5 reg_fresh)))))"
proof -
  let ?m = "[2, 0, 0, 0, 0, 1] :: bytes"
  have v: "mac_valid (Some ?m)" by (simp add: mac_valid_def eval_nat_numeral)
  obtain err out g' evs where u:
    "device_registry_upsert_mac_ip (Some ?m) 7 None None None 5 reg_fresh = (err, out, g', evs)"
    by (metis prod.collapse)
  then have "err = ESP_OK" using v reg_fresh_facts(2)
    by (auto simp: device_registry_upsert_mac_ip_def reg_fresh_facts Let_def)
  obtain f r g'' where f: "device_registry_find_by_mac (Some ?m) (Some device_record_zero) g' = (f, r, g'')"
    by (metis prod.collapse)
  have "f" using device_upsert_then_find_by_mac[OF reg_fresh_facts(1,2) v _ u[unfolded \<open>err = ESP_OK\<close>] f]
    by (simp add: reg_fresh_facts)
  then show ?thesis using u f by simp
qed

end
