(* ===== verification/Zone_Firewall.thy ===== *)
theory Zone_Firewall
  imports Quarantine_Manager Rate_Limiter Device_Registry
begin

text \<open>
  The firewall of the zone (\<open>zone_firewall.c\<close>): every flow passes the flow table, the quarantine
  list, the policy engine and the rate limiter, in this order.  The state \<open>guardian\<close> is the static
  state of the firewall and of the modules it calls.  Each of those calls reads the clock on its
  own: \<open>clk\<close> gives the value of the n-th read.  The result carries the events published.
\<close>

datatype zone_firewall_verdict =
    ZONE_FIREWALL_VERDICT_ALLOW
  | ZONE_FIREWALL_VERDICT_DROP
  | ZONE_FIREWALL_VERDICT_REDIRECT
  | ZONE_FIREWALL_VERDICT_LOG_ONLY

record zone_firewall_config =
  zfc_zone_id :: u32
  zfc_default_allow :: bool
  zfc_auto_quarantine_on_rate_limit :: bool
  zfc_quarantine_ttl_ms :: u32

record zone_firewall_decision =
  zd_verdict :: zone_firewall_verdict
  zd_policy_action :: policy_action
  zd_rate_exceeded :: bool
  zd_quarantined :: bool
  zd_risk_score :: u8
  zd_reason :: bytes

record zone_firewall_stats =
  zs_evaluations :: u64
  zs_allowed :: u64
  zs_dropped :: u64
  zs_redirected :: u64
  zs_quarantined_hits :: u64
  zs_rate_exceeded :: u64
  zs_policy_denied :: u64

record guardian =
  zf_config :: zone_firewall_config
  zf_stats :: zone_firewall_stats
  zf_initialized :: bool
  g_flows :: flow_table
  g_quarantine :: quarantine_manager
  g_policy :: policy_engine
  g_rates :: rate_limiter
  g_registry :: device_registry

definition zone_stats_zero :: zone_firewall_stats where
  "zone_stats_zero = \<lparr> zs_evaluations = 0, zs_allowed = 0, zs_dropped = 0, zs_redirected = 0,
     zs_quarantined_hits = 0, zs_rate_exceeded = 0, zs_policy_denied = 0 \<rparr>"

definition zone_decision_zero :: zone_firewall_decision where
  "zone_decision_zero = \<lparr> zd_verdict = ZONE_FIREWALL_VERDICT_ALLOW,
     zd_policy_action = POLICY_ACTION_ALLOW, zd_rate_exceeded = False, zd_quarantined = False,
     zd_risk_score = 0, zd_reason = replicate 64 0 \<rparr>"

fun zone_firewall_verdict_to_string :: "zone_firewall_verdict \<Rightarrow> string" where
  "zone_firewall_verdict_to_string ZONE_FIREWALL_VERDICT_ALLOW = ''ALLOW''"
| "zone_firewall_verdict_to_string ZONE_FIREWALL_VERDICT_DROP = ''DROP''"
| "zone_firewall_verdict_to_string ZONE_FIREWALL_VERDICT_REDIRECT = ''REDIRECT''"
| "zone_firewall_verdict_to_string ZONE_FIREWALL_VERDICT_LOG_ONLY = ''LOG_ONLY''"

definition set_reason :: "bytes \<Rightarrow> bytes \<Rightarrow> bytes" where
  "set_reason dst reason = safe_copy dst 64 (Some reason)"

definition zf_event :: "guardian \<Rightarrow> zg_event_type \<Rightarrow> flow_key \<Rightarrow> u8 \<Rightarrow> bytes \<Rightarrow> zg_event" where
  "zf_event g type key risk reason =
     zg_event_zero \<lparr> ev_type := type, ev_zone_id := zfc_zone_id (zf_config g),
       ev_src_ip := fk_src_ip key, ev_dst_ip := fk_dst_ip key, ev_src_port := fk_src_port key,
       ev_dst_port := fk_dst_port key, ev_proto := fk_proto key, ev_risk_score := risk,
       ev_reason := event_reason reason \<rparr>"

definition zone_firewall_init :: "zone_firewall_config option \<Rightarrow> guardian \<Rightarrow> esp_err \<times> guardian" where
  "zone_firewall_init config g =
     (let c = (case config of
           None \<Rightarrow> \<lparr> zfc_zone_id = 0, zfc_default_allow = False,
                     zfc_auto_quarantine_on_rate_limit = False, zfc_quarantine_ttl_ms = 0 \<rparr>
         | Some c \<Rightarrow> c)
      in (ESP_OK, g \<lparr> zf_config := c \<lparr> zfc_quarantine_ttl_ms :=
             (if zfc_quarantine_ttl_ms c = 0 then 60000 else zfc_quarantine_ttl_ms c) \<rparr>,
           zf_stats := zone_stats_zero, zf_initialized := True \<rparr>))"

text \<open>Quarantine of the source address with the state change in the registry (lines 137 to 146 and
  187 to 200).\<close>

definition zf_quarantine ::
  "flow_key \<Rightarrow> quarantine_source \<Rightarrow> u8 \<Rightarrow> bytes \<Rightarrow> u32 \<Rightarrow> guardian \<Rightarrow> guardian \<times> zg_event list" where
  "zf_quarantine key source risk reason ts g =
     (let q' = snd (quarantine_manager_add_ip (fk_src_ip key) QUARANTINE_MODE_BLOCK_ALL source
                 (zfc_quarantine_ttl_ms (zf_config g)) risk (Some reason) ts (g_quarantine g));
          (ok, reg', evs) = device_registry_set_state_by_ip (fk_src_ip key) DEVICE_STATE_QUARANTINED
                 risk (g_registry g)
      in (g \<lparr> g_quarantine := q', g_registry := reg' \<rparr>, evs))"

text \<open>The rate-limit stage and the final verdict (lines 171 to 223), with the decision so far.\<close>

definition zf_rate_stage ::
  "flow_key \<Rightarrow> flow_direction \<Rightarrow> u32 \<Rightarrow> (nat \<Rightarrow> u32) \<Rightarrow> zone_firewall_decision \<Rightarrow> guardian
     \<Rightarrow> esp_err \<times> zone_firewall_decision option \<times> guardian \<times> zg_event list" where
  "zf_rate_stage key direction packet_bytes clk d g =
     (let (err, res, rates) = rate_limiter_check (Some key) direction packet_bytes
            (Some rate_result_zero) (clk 3) (g_rates g);
          r = the res;
          g = g \<lparr> g_rates := rates \<rparr>
      in if err = ESP_OK \<and> rres_decision r = RATE_LIMIT_DECISION_EXCEEDED
         then
          (let risk = (if zd_risk_score d < 80 then 80 else zd_risk_score d);
               d = d \<lparr> zd_rate_exceeded := True, zd_risk_score := risk,
                       zd_reason := set_reason (zd_reason d) (rres_reason_text r) \<rparr>;
               g = g \<lparr> zf_stats := (zf_stats g) \<lparr> zs_rate_exceeded := zs_rate_exceeded (zf_stats g) + 1 \<rparr> \<rparr>;
               ev = zf_event g ZG_EVENT_RATE_EXCEEDED key risk (rres_reason_text r);
               (g, evs) = (if zfc_auto_quarantine_on_rate_limit (zf_config g) \<and> rres_suggest_quarantine r
                           then zf_quarantine key QUARANTINE_SOURCE_RATE_LIMIT risk (rres_reason_text r)
                                  (clk 4) g
                           else (g, []))
           in (ESP_OK, Some (d \<lparr> zd_verdict := ZONE_FIREWALL_VERDICT_DROP \<rparr>),
               g \<lparr> zf_stats := (zf_stats g) \<lparr> zs_dropped := zs_dropped (zf_stats g) + 1 \<rparr> \<rparr>, ev # evs))
         else
          (let (d, evs) =
                 (if zd_policy_action d = POLICY_ACTION_LOG_ONLY
                  then (d \<lparr> zd_verdict := ZONE_FIREWALL_VERDICT_LOG_ONLY \<rparr>,
                        [zf_event g ZG_EVENT_FLOW_SEEN key (zd_risk_score d) (zd_reason d)])
                  else (d \<lparr> zd_verdict := ZONE_FIREWALL_VERDICT_ALLOW \<rparr>, []))
           in (ESP_OK, Some d,
               g \<lparr> zf_stats := (zf_stats g) \<lparr> zs_allowed := zs_allowed (zf_stats g) + 1 \<rparr> \<rparr>, evs)))"

text \<open>The policy stage (lines 112 to 169).\<close>

definition policy_decision_zero :: policy_decision where
  "policy_decision_zero = \<lparr> pd_action = POLICY_ACTION_ALLOW, pd_reason = POLICY_REASON_DEFAULT,
     pd_matched_rule_id = 0, pd_matched_priority = 0, pd_risk_score = 0, pd_log_event = False,
     pd_reason_text = replicate 48 0 \<rparr>"

definition zf_count_dropped :: "guardian \<Rightarrow> guardian" where
  "zf_count_dropped g = g \<lparr> zf_stats := (zf_stats g) \<lparr> zs_dropped := zs_dropped (zf_stats g) + 1,
     zs_policy_denied := zs_policy_denied (zf_stats g) + 1 \<rparr> \<rparr>"

definition zf_policy_stage ::
  "flow_key \<Rightarrow> flow_direction \<Rightarrow> u32 \<Rightarrow> (nat \<Rightarrow> u32) \<Rightarrow> zone_firewall_decision \<Rightarrow> guardian
     \<Rightarrow> esp_err \<times> zone_firewall_decision option \<times> guardian \<times> zg_event list" where
  "zf_policy_stage key direction packet_bytes clk d g =
     (let (err, out, pol) = policy_engine_evaluate (Some key) direction (Some policy_decision_zero)
            (clk 2) (g_policy g);
          p = the out;
          g = g \<lparr> g_policy := pol \<rparr>
      in if err \<noteq> ESP_OK
         then zf_rate_stage key direction packet_bytes clk
                (d \<lparr> zd_verdict := (if zfc_default_allow (zf_config g) then ZONE_FIREWALL_VERDICT_ALLOW
                                  else ZONE_FIREWALL_VERDICT_DROP) \<rparr>) g
         else
          (let d = d \<lparr> zd_policy_action := pd_action p, zd_risk_score := pd_risk_score p,
                       zd_reason := set_reason (zd_reason d) (pd_reason_text p) \<rparr>
           in if pd_action p = POLICY_ACTION_DENY
              then (ESP_OK, Some (d \<lparr> zd_verdict := ZONE_FIREWALL_VERDICT_DROP \<rparr>), zf_count_dropped g,
                    [zf_event g ZG_EVENT_POLICY_DENY key (pd_risk_score p) (pd_reason_text p)])
              else if pd_action p = POLICY_ACTION_QUARANTINE
              then (let (g, evs) = zf_quarantine key QUARANTINE_SOURCE_LOCAL_POLICY (pd_risk_score p)
                          (pd_reason_text p) (clk 4) g
                    in (ESP_OK, Some (d \<lparr> zd_verdict := ZONE_FIREWALL_VERDICT_DROP \<rparr>), zf_count_dropped g,
                        evs @ [zf_event g ZG_EVENT_DEVICE_QUARANTINED key (pd_risk_score p)
                                 (pd_reason_text p)]))
              else if pd_action p = POLICY_ACTION_REDIRECT
              then (ESP_OK, Some (d \<lparr> zd_verdict := ZONE_FIREWALL_VERDICT_REDIRECT \<rparr>),
                    g \<lparr> zf_stats := (zf_stats g) \<lparr> zs_redirected := zs_redirected (zf_stats g) + 1 \<rparr> \<rparr>, [])
              else zf_rate_stage key direction packet_bytes clk d g))"

definition zone_firewall_evaluate_flow ::
  "flow_key option \<Rightarrow> flow_direction \<Rightarrow> u32 \<Rightarrow> zone_firewall_decision option \<Rightarrow> (nat \<Rightarrow> u32) \<Rightarrow> guardian
     \<Rightarrow> esp_err \<times> zone_firewall_decision option \<times> guardian \<times> zg_event list" where
  "zone_firewall_evaluate_flow key direction packet_bytes out_decision clk g =
     (if \<not> zf_initialized g \<or> key = None \<or> out_decision = None
      then (ESP_ERR_INVALID_ARG, out_decision, g, [])
      else
       (let k = the key;
            d = zone_decision_zero;
            g = g \<lparr> zf_stats := (zf_stats g) \<lparr> zs_evaluations := zs_evaluations (zf_stats g) + 1 \<rparr> \<rparr>;
            g = g \<lparr> g_flows := snd (snd (flow_table_touch key direction packet_bytes
                      (Some flow_entry_zero) (clk 0) (g_flows g))) \<rparr>;
            (quarantined, qout, qm) = quarantine_manager_check_flow_src key
                      (Some quarantine_result_zero) (clk 1) (g_quarantine g);
            q = the qout;
            g = g \<lparr> g_quarantine := qm \<rparr>
        in if quarantined
           then
            (let d = d \<lparr> zd_quarantined := True, zd_risk_score := qr_risk_score q,
                         zd_reason := set_reason (zd_reason d) (qr_reason q) \<rparr>
             in if qr_mode q = QUARANTINE_MODE_BLOCK_ALL
                then (ESP_OK, Some (d \<lparr> zd_verdict := ZONE_FIREWALL_VERDICT_DROP \<rparr>),
                      g \<lparr> zf_stats := (zf_stats g) \<lparr> zs_dropped := zs_dropped (zf_stats g) + 1,
                        zs_quarantined_hits := zs_quarantined_hits (zf_stats g) + 1 \<rparr> \<rparr>,
                      [zf_event g ZG_EVENT_POLICY_DENY k (qr_risk_score q) (lit ''quarantine_block'')])
                else zf_policy_stage k direction packet_bytes clk d g)
           else zf_policy_stage k direction packet_bytes clk d g))"

definition zone_firewall_get_stats :: "guardian \<Rightarrow> zone_firewall_stats" where
  "zone_firewall_get_stats g = zf_stats g"

subsection \<open>Invariant\<close>

definition zs_ok :: "zone_firewall_stats \<Rightarrow> bool" where
  "zs_ok st \<longleftrightarrow> zs_evaluations st = zs_allowed st + zs_dropped st + zs_redirected st"

definition guardian_wf :: "guardian \<Rightarrow> bool" where
  "guardian_wf g \<longleftrightarrow> ft_wf (g_flows g) \<and> qm_wf (g_quarantine g) \<and> pe_wf (g_policy g) \<and>
     rl_wf (g_rates g) \<and> reg_wf (g_registry g)"

lemma qm_step_add_ip: "qm_wf q \<Longrightarrow> qm_wf (snd (quarantine_manager_add_ip ip m src ttl risk reason ts q))"
  using qm_step_wf[of q "Qm_add (Some (quarantine_subject_from_ip ip)) m src ttl risk reason ts"]
  by (simp add: quarantine_manager_add_ip_def case_prod_beta)

lemma check_flow_src_wf: "qm_wf q \<Longrightarrow>
    qm_wf (snd (snd (quarantine_manager_check_flow_src (Some k) (Some quarantine_result_zero) ts q)))"
  using qm_step_wf[of q "Qm_check (Some (quarantine_subject_from_ip (fk_src_ip k))) ts"]
  by (simp add: quarantine_manager_check_flow_src_def quarantine_manager_check_ip_def case_prod_beta)

lemma touch_wf: "ft_wf t \<Longrightarrow> ft_wf (snd (snd (flow_table_touch k d n out ts t)))"
proof -
  have "snd (snd (flow_table_touch k d n out ts t)) = snd (snd (flow_table_touch k d n None ts t))"
    by (simp add: flow_table_touch_def Let_def split: option.splits)
  then show "ft_wf t \<Longrightarrow> ft_wf (snd (snd (flow_table_touch k d n out ts t)))"
    using ft_step_wf[of t "Ft_touch k d n ts"] by simp
qed

lemma rate_check_wf:
  "rl_wf r \<Longrightarrow> rl_wf (snd (snd (rate_limiter_check k d n (Some rate_result_zero) ts r)))"
  using rl_step_wf[of r "Rl_check k d n ts"] by simp

lemma zf_quarantine_frame:
  assumes "zf_quarantine key src risk reason ts g = (g', evs)"
  shows "g_flows g' = g_flows g" "g_policy g' = g_policy g" "g_rates g' = g_rates g"
    "zf_stats g' = zf_stats g" "zf_config g' = zf_config g" "zf_initialized g' = zf_initialized g"
    "g_quarantine g' = snd (quarantine_manager_add_ip (fk_src_ip key) QUARANTINE_MODE_BLOCK_ALL src
       (zfc_quarantine_ttl_ms (zf_config g)) risk (Some reason) ts (g_quarantine g))"
    "guardian_wf g \<Longrightarrow> guardian_wf g'"
  using assms set_state_wf(1)[of "g_registry g" "fk_src_ip key" DEVICE_STATE_QUARANTINED risk]
  by (auto simp: zf_quarantine_def Let_def guardian_wf_def qm_step_add_ip split: prod.splits)

text \<open>What the two later stages do, for a decision \<open>d\<close> made so far.\<close>

definition zf_exceeded :: "flow_key \<Rightarrow> flow_direction \<Rightarrow> u32 \<Rightarrow> u32 \<Rightarrow> rate_limiter \<Rightarrow> bool" where
  "zf_exceeded key direction packet_bytes ts r =
     (case rate_limiter_check (Some key) direction packet_bytes (Some rate_result_zero) ts r of
        (err, res, _) \<Rightarrow> err = ESP_OK \<and> rres_decision (the res) = RATE_LIMIT_DECISION_EXCEEDED)"

lemma zf_rate_stage_effect:
  assumes "zf_rate_stage key dir n clk d g = (err, out, g', evs)"
  shows "err = ESP_OK" "guardian_wf g \<Longrightarrow> guardian_wf g'"
    "zf_config g' = zf_config g" "zf_initialized g' = zf_initialized g"
    "zs_evaluations (zf_stats g') = zs_evaluations (zf_stats g)"
    "zs_allowed (zf_stats g') + zs_dropped (zf_stats g') + zs_redirected (zf_stats g')
       = zs_allowed (zf_stats g) + zs_dropped (zf_stats g) + zs_redirected (zf_stats g) + 1"
    "\<exists>d'. out = Some d' \<and> zd_policy_action d' = zd_policy_action d \<and> zd_quarantined d' = zd_quarantined d \<and>
       zd_verdict d' = (if zf_exceeded key dir n (clk 3) (g_rates g) then ZONE_FIREWALL_VERDICT_DROP
         else if zd_policy_action d = POLICY_ACTION_LOG_ONLY then ZONE_FIREWALL_VERDICT_LOG_ONLY
         else ZONE_FIREWALL_VERDICT_ALLOW)"
    "g_quarantine g' = g_quarantine g \<or> (\<exists>risk reason. g_quarantine g' =
       snd (quarantine_manager_add_ip (fk_src_ip key) QUARANTINE_MODE_BLOCK_ALL
         QUARANTINE_SOURCE_RATE_LIMIT (zfc_quarantine_ttl_ms (zf_config g)) risk (Some reason) (clk 4)
         (g_quarantine g)))"
proof -
  obtain e res rates where r: "rate_limiter_check (Some key) dir n (Some rate_result_zero) (clk 3) (g_rates g)
      = (e, res, rates)" by (metis prod.collapse)
  have w: "guardian_wf (g \<lparr> g_rates := rates \<rparr>)" if "guardian_wf g"
    using that rate_check_wf[of "g_rates g" "Some key" dir n "clk 3"] r by (simp add: guardian_wf_def)
  show "err = ESP_OK" using assms r by (auto simp: zf_rate_stage_def Let_def split: if_splits prod.splits)
  show "guardian_wf g'" if "guardian_wf g"
    using assms r w[OF that] zf_quarantine_frame(8)
    by (fastforce simp: zf_rate_stage_def Let_def guardian_wf_def split: if_splits prod.splits)
  show "zf_config g' = zf_config g" "zf_initialized g' = zf_initialized g"
    "zs_evaluations (zf_stats g') = zs_evaluations (zf_stats g)"
    "zs_allowed (zf_stats g') + zs_dropped (zf_stats g') + zs_redirected (zf_stats g')
       = zs_allowed (zf_stats g) + zs_dropped (zf_stats g) + zs_redirected (zf_stats g) + 1"
    using assms r by (auto simp: zf_rate_stage_def Let_def zf_quarantine_frame split: if_splits prod.splits)
  show "\<exists>d'. out = Some d' \<and> zd_policy_action d' = zd_policy_action d \<and> zd_quarantined d' = zd_quarantined d \<and>
       zd_verdict d' = (if zf_exceeded key dir n (clk 3) (g_rates g) then ZONE_FIREWALL_VERDICT_DROP
         else if zd_policy_action d = POLICY_ACTION_LOG_ONLY then ZONE_FIREWALL_VERDICT_LOG_ONLY
         else ZONE_FIREWALL_VERDICT_ALLOW)"
    using assms r by (auto simp: zf_rate_stage_def zf_exceeded_def Let_def split: if_splits prod.splits)
  show "g_quarantine g' = g_quarantine g \<or> (\<exists>risk reason. g_quarantine g' =
       snd (quarantine_manager_add_ip (fk_src_ip key) QUARANTINE_MODE_BLOCK_ALL
         QUARANTINE_SOURCE_RATE_LIMIT (zfc_quarantine_ttl_ms (zf_config g)) risk (Some reason) (clk 4)
         (g_quarantine g)))"
    using assms r
    by (auto simp: zf_rate_stage_def Let_def zf_quarantine_frame(7) split: if_splits prod.splits; blast)
qed

lemma zf_count_dropped_simps [simp]:
  "zf_config (zf_count_dropped g) = zf_config g" "zf_initialized (zf_count_dropped g) = zf_initialized g"
  "g_quarantine (zf_count_dropped g) = g_quarantine g" "guardian_wf (zf_count_dropped g) = guardian_wf g"
  "zs_evaluations (zf_stats (zf_count_dropped g)) = zs_evaluations (zf_stats g)"
  "zs_allowed (zf_stats (zf_count_dropped g)) = zs_allowed (zf_stats g)"
  "zs_dropped (zf_stats (zf_count_dropped g)) = zs_dropped (zf_stats g) + 1"
  "zs_redirected (zf_stats (zf_count_dropped g)) = zs_redirected (zf_stats g)"
  by (simp_all add: zf_count_dropped_def guardian_wf_def)

text \<open>The verdict once the quarantine stage has been passed.\<close>

definition zf_stage_verdict ::
  "flow_key \<Rightarrow> flow_direction \<Rightarrow> u32 \<Rightarrow> (nat \<Rightarrow> u32) \<Rightarrow> policy_engine \<Rightarrow> rate_limiter \<Rightarrow> zone_firewall_verdict" where
  "zf_stage_verdict key dir n clk pol r =
     (case pd_action (pe_decision_spec key dir (clk 2) pol) of
        POLICY_ACTION_DENY \<Rightarrow> ZONE_FIREWALL_VERDICT_DROP
      | POLICY_ACTION_QUARANTINE \<Rightarrow> ZONE_FIREWALL_VERDICT_DROP
      | POLICY_ACTION_REDIRECT \<Rightarrow> ZONE_FIREWALL_VERDICT_REDIRECT
      | a \<Rightarrow> if zf_exceeded key dir n (clk 3) r then ZONE_FIREWALL_VERDICT_DROP
             else if a = POLICY_ACTION_LOG_ONLY then ZONE_FIREWALL_VERDICT_LOG_ONLY
             else ZONE_FIREWALL_VERDICT_ALLOW)"

definition zf_quarantines :: "flow_key \<Rightarrow> guardian \<Rightarrow> u32 \<Rightarrow> quarantine_manager \<Rightarrow> bool" where
  "zf_quarantines key g ts q \<longleftrightarrow> (\<exists>src risk reason. q =
     snd (quarantine_manager_add_ip (fk_src_ip key) QUARANTINE_MODE_BLOCK_ALL src
       (zfc_quarantine_ttl_ms (zf_config g)) risk (Some reason) ts (g_quarantine g)))"

lemma zf_policy_stage_effect:
  assumes "zf_policy_stage key dir n clk d g = (err, out, g', evs)"
  shows "err = ESP_OK" "guardian_wf g \<Longrightarrow> guardian_wf g'"
    "zf_config g' = zf_config g" "zf_initialized g' = zf_initialized g"
    "zs_evaluations (zf_stats g') = zs_evaluations (zf_stats g)"
    "zs_allowed (zf_stats g') + zs_dropped (zf_stats g') + zs_redirected (zf_stats g')
       = zs_allowed (zf_stats g) + zs_dropped (zf_stats g) + zs_redirected (zf_stats g) + 1"
    "pe_initialized (g_policy g) \<Longrightarrow> \<exists>d'. out = Some d' \<and> zd_quarantined d' = zd_quarantined d \<and>
       zd_policy_action d' = pd_action (pe_decision_spec key dir (clk 2) (g_policy g)) \<and>
       zd_verdict d' = zf_stage_verdict key dir n clk (g_policy g) (g_rates g)"
    "g_quarantine g' = g_quarantine g \<or> zf_quarantines key g (clk 4) (g_quarantine g')"
    "pe_initialized (g_policy g) \<Longrightarrow>
       pd_action (pe_decision_spec key dir (clk 2) (g_policy g)) = POLICY_ACTION_QUARANTINE \<Longrightarrow>
       zf_quarantines key g (clk 4) (g_quarantine g')"
proof -
  obtain e po pol where r: "policy_engine_evaluate (Some key) dir (Some policy_decision_zero) (clk 2) (g_policy g)
      = (e, po, pol)" by (metis prod.collapse)
  have w: "guardian_wf (g \<lparr> g_policy := pol \<rparr>)" if "guardian_wf g"
    using that pe_evaluate_wf[of "g_policy g" "Some key" dir "Some policy_decision_zero" "clk 2"] r
    by (simp add: guardian_wf_def)
  note rs = zf_rate_stage_effect
  show "err = ESP_OK" using assms r
    by (auto simp: zf_policy_stage_def Let_def dest: rs(1) split: if_splits prod.splits)
  show "guardian_wf g'" if "guardian_wf g"
    using assms r w[OF that]
    by (auto simp: zf_policy_stage_def Let_def guardian_wf_def[of "_\<lparr>zf_stats := _\<rparr>"]
        guardian_wf_def[of "_\<lparr>g_policy := _\<rparr>"] dest: rs(2) zf_quarantine_frame(8)
        split: if_splits prod.splits)
  show "zf_config g' = zf_config g" "zf_initialized g' = zf_initialized g"
    "zs_evaluations (zf_stats g') = zs_evaluations (zf_stats g)"
    "zs_allowed (zf_stats g') + zs_dropped (zf_stats g') + zs_redirected (zf_stats g')
       = zs_allowed (zf_stats g) + zs_dropped (zf_stats g) + zs_redirected (zf_stats g) + 1"
    using assms r
    by (auto simp: zf_policy_stage_def Let_def zf_quarantine_frame(4-6) dest: rs(3-6)
        split: if_splits prod.splits)
  show "g_quarantine g' = g_quarantine g \<or> zf_quarantines key g (clk 4) (g_quarantine g')"
    using assms r
    by (auto simp: zf_policy_stage_def Let_def zf_quarantines_def zf_quarantine_frame(7)
        dest!: rs(8) split: if_splits prod.splits; blast)
  show "\<exists>d'. out = Some d' \<and> zd_quarantined d' = zd_quarantined d \<and>
       zd_policy_action d' = pd_action (pe_decision_spec key dir (clk 2) (g_policy g)) \<and>
       zd_verdict d' = zf_stage_verdict key dir n clk (g_policy g) (g_rates g)"
    if "pe_initialized (g_policy g)"
    using assms r pe_evaluate_spec[OF that, of key dir policy_decision_zero "clk 2"]
    by (auto simp: zf_policy_stage_def Let_def zf_stage_verdict_def dest!: rs(7)
        split: if_splits prod.splits policy_action.splits)
  show "zf_quarantines key g (clk 4) (g_quarantine g')" if "pe_initialized (g_policy g)"
    "pd_action (pe_decision_spec key dir (clk 2) (g_policy g)) = POLICY_ACTION_QUARANTINE"
    using assms r pe_evaluate_spec[OF that(1), of key dir policy_decision_zero "clk 2"] that(2)
    by (auto simp: zf_policy_stage_def Let_def zf_quarantines_def zf_quarantine_frame(7)
        split: prod.splits; blast)
qed

subsection \<open>The whole evaluation\<close>

text \<open>The source of the flow is blocked: a quarantine in force at \<open>ts\<close> with mode block-all.\<close>

definition zf_blocked :: "flow_key \<Rightarrow> u32 \<Rightarrow> quarantine_manager \<Rightarrow> bool" where
  "zf_blocked k ts q \<longleftrightarrow> fk_src_ip k \<noteq> 0 \<and>
     (\<exists>e. qm_abs q (QUARANTINE_SUBJECT_IP (fk_src_ip k)) = Some e \<and>
        in_force_at (qe_expires_at_ms e) ts \<and> qe_mode e = QUARANTINE_MODE_BLOCK_ALL)"

lemma check_src:
  assumes "qm_wf q" and "qm_initialized q"
    and "quarantine_manager_check_flow_src (Some k) (Some quarantine_result_zero) ts q = (f, out, q')"
  shows "f \<and> qr_mode (the out) = QUARANTINE_MODE_BLOCK_ALL \<longleftrightarrow> zf_blocked k ts q"
    "qm_wf q'" "qm_initialized q'" "qm_config q' = qm_config q" "qm_used q' \<le> qm_used q"
proof -
  let ?s = "QUARANTINE_SUBJECT_IP (fk_src_ip k)"
  have c: "quarantine_manager_check (Some ?s) (Some quarantine_result_zero) ts q = (f, out, q')"
    using assms(3) by (simp add: quarantine_manager_check_flow_src_def quarantine_manager_check_ip_def
        quarantine_subject_from_ip_def)
  have v: "subject_is_valid (Some ?s) \<longleftrightarrow> fk_src_ip k \<noteq> 0" by (simp add: subject_is_valid_def)
  have "(f \<and> qr_mode (the out) = QUARANTINE_MODE_BLOCK_ALL \<longleftrightarrow> zf_blocked k ts q) \<and> qm_wf q' \<and>
      qm_initialized q' \<and> qm_config q' = qm_config q \<and> qm_used q' \<le> qm_used q"
  proof (cases "fk_src_ip k = 0")
    case True
    then show ?thesis using c v assms(1,2)
      by (auto simp: quarantine_manager_check_def zf_blocked_def qm_wf_def qm_used_def)
  next
    case False
    with v have "subject_is_valid (Some ?s)" by simp
    from qm_check_effect[OF assms(1,2) this c] qm_check_used[OF assms(1,2) this c] False show ?thesis
      by (auto simp: zf_blocked_def entry_is_expired_iff fill_check_result_def assms(2)
          split: option.splits if_splits)
  qed
  then show "f \<and> qr_mode (the out) = QUARANTINE_MODE_BLOCK_ALL \<longleftrightarrow> zf_blocked k ts q"
    "qm_wf q'" "qm_initialized q'" "qm_config q' = qm_config q" "qm_used q' \<le> qm_used q" by auto
qed

text \<open>An evaluation is its first stage followed, unless the source is blocked, by the other two.\<close>

definition zf_entered :: "flow_key \<Rightarrow> (nat \<Rightarrow> u32) \<Rightarrow> guardian \<Rightarrow> guardian \<Rightarrow> bool" where
  "zf_entered k clk g g0 \<longleftrightarrow>
     g_quarantine g0 = snd (snd (quarantine_manager_check_flow_src (Some k)
       (Some quarantine_result_zero) (clk 1) (g_quarantine g))) \<and>
     g_policy g0 = g_policy g \<and> g_rates g0 = g_rates g \<and> zf_config g0 = zf_config g \<and>
     zf_initialized g0 = zf_initialized g \<and> (guardian_wf g \<longrightarrow> guardian_wf g0) \<and>
     zs_evaluations (zf_stats g0) = zs_evaluations (zf_stats g) + 1 \<and>
     zs_allowed (zf_stats g0) = zs_allowed (zf_stats g) \<and>
     zs_dropped (zf_stats g0) = zs_dropped (zf_stats g) \<and>
     zs_redirected (zf_stats g0) = zs_redirected (zf_stats g)"

definition zf_block_exit ::
  "guardian \<Rightarrow> esp_err \<Rightarrow> zone_firewall_decision option \<Rightarrow> guardian \<Rightarrow> bool" where
  "zf_block_exit g0 err out g' \<longleftrightarrow> err = ESP_OK \<and>
     (\<exists>d. out = Some d \<and> zd_verdict d = ZONE_FIREWALL_VERDICT_DROP \<and> zd_quarantined d \<and>
        zd_policy_action d = POLICY_ACTION_ALLOW) \<and>
     g' = g0 \<lparr> zf_stats := (zf_stats g0) \<lparr> zs_dropped := zs_dropped (zf_stats g0) + 1,
       zs_quarantined_hits := zs_quarantined_hits (zf_stats g0) + 1 \<rparr> \<rparr>"

lemma evaluate_unfold:
  assumes "zf_initialized g" and "qm_wf (g_quarantine g)" and "qm_initialized (g_quarantine g)"
    and "zone_firewall_evaluate_flow (Some k) dir n (Some out0) clk g = (err, out, g', evs)"
  obtains g0 d where "zf_entered k clk g g0"
    "if zf_blocked k (clk 1) (g_quarantine g) then zf_block_exit g0 err out g'
     else zf_policy_stage k dir n clk d g0 = (err, out, g', evs)"
proof -
  obtain f qo qm where c: "quarantine_manager_check_flow_src (Some k) (Some quarantine_result_zero) (clk 1)
      (g_quarantine g) = (f, qo, qm)" by (metis prod.collapse)
  define g0 where "g0 = g \<lparr> zf_stats := (zf_stats g) \<lparr> zs_evaluations := zs_evaluations (zf_stats g) + 1 \<rparr>,
    g_flows := snd (snd (flow_table_touch (Some k) dir n (Some flow_entry_zero) (clk 0) (g_flows g))),
    g_quarantine := qm \<rparr>"
  let ?d = "zone_decision_zero \<lparr> zd_quarantined := True, zd_risk_score := qr_risk_score (the qo),
    zd_reason := set_reason (zd_reason zone_decision_zero) (qr_reason (the qo)) \<rparr>"
  note b = check_src(1,2)[OF assms(2,3) c]
  have w: "guardian_wf g0" if "guardian_wf g"
    using that b(2) touch_wf[of "g_flows g"] by (simp add: guardian_wf_def g0_def)
  have e: "zone_firewall_evaluate_flow (Some k) dir n (Some out0) clk g =
      (if f then (if qr_mode (the qo) = QUARANTINE_MODE_BLOCK_ALL
         then (ESP_OK, Some (?d \<lparr> zd_verdict := ZONE_FIREWALL_VERDICT_DROP \<rparr>),
            g0 \<lparr> zf_stats := (zf_stats g0) \<lparr> zs_dropped := zs_dropped (zf_stats g0) + 1,
              zs_quarantined_hits := zs_quarantined_hits (zf_stats g0) + 1 \<rparr> \<rparr>,
            [zf_event g0 ZG_EVENT_POLICY_DENY k (qr_risk_score (the qo)) (lit ''quarantine_block'')])
         else zf_policy_stage k dir n clk ?d g0)
       else zf_policy_stage k dir n clk zone_decision_zero g0)"
    using assms(1) c by (simp add: zone_firewall_evaluate_flow_def Let_def g0_def)
  have last: "if zf_blocked k (clk 1) (g_quarantine g) then zf_block_exit g0 err out g'
     else zf_policy_stage k dir n clk (if f then ?d else zone_decision_zero) g0 = (err, out, g', evs)"
  proof (cases "f \<and> qr_mode (the qo) = QUARANTINE_MODE_BLOCK_ALL")
    case True
    then have "(err, out, g') = (ESP_OK, Some (?d \<lparr> zd_verdict := ZONE_FIREWALL_VERDICT_DROP \<rparr>),
        g0 \<lparr> zf_stats := (zf_stats g0) \<lparr> zs_dropped := zs_dropped (zf_stats g0) + 1,
          zs_quarantined_hits := zs_quarantined_hits (zf_stats g0) + 1 \<rparr> \<rparr>)"
      using e assms(4) by simp
    then show ?thesis using b(1) True by (simp add: zone_decision_zero_def zf_block_exit_def)
  next
    case False
    then have "zf_policy_stage k dir n clk (if f then ?d else zone_decision_zero) g0 = (err, out, g', evs)"
      using e assms(4) by (cases f) simp_all
    then show ?thesis using b(1) False by (simp only: if_False)
  qed
  show ?thesis
    by (rule that[OF _ last]) (use w c in \<open>simp add: g0_def zf_entered_def\<close>)
qed

lemma triple_collapse: "t = (fst t, fst (snd t), snd (snd t))"
  by simp

type_synonym zf_op = "flow_key option \<times> flow_direction \<times> u32 \<times> (nat \<Rightarrow> u32)"

fun zf_step :: "zf_op \<Rightarrow> guardian \<Rightarrow> zone_firewall_decision option \<times> guardian" where
  "zf_step (key, dir, n, clk) g =
     (case zone_firewall_evaluate_flow key dir n (Some zone_decision_zero) clk g of
        (err, out, g', evs) \<Rightarrow> (out, g'))"

lemma add_ip_frame:
  assumes "qm_wf q"
  shows "qm_initialized (snd (quarantine_manager_add_ip ip m src ttl risk reason ts q)) = qm_initialized q"
    "qm_config (snd (quarantine_manager_add_ip ip m src ttl risk reason ts q)) = qm_config q"
proof -
  let ?s = "QUARANTINE_SUBJECT_IP ip"
  let ?a = "quarantine_manager_add (Some ?s) m src ttl risk reason ts q"
  have "qm_initialized (snd ?a) = qm_initialized q \<and> qm_config (snd ?a) = qm_config q"
  proof (cases "qm_initialized q \<and> subject_is_valid (Some ?s)")
    case True
    then show ?thesis using qm_add_cases[OF assms _ _ prod.collapse[symmetric] refl refl, of ?s m src ttl risk reason ts]
      by simp
  next
    case False
    then show ?thesis using qm_rejected(3,4)[OF False, of m src ttl risk reason ts] by simp
  qed
  then show "qm_initialized (snd (quarantine_manager_add_ip ip m src ttl risk reason ts q)) = qm_initialized q"
    "qm_config (snd (quarantine_manager_add_ip ip m src ttl risk reason ts q)) = qm_config q"
    by (simp_all add: quarantine_manager_add_ip_def quarantine_subject_from_ip_def)
qed

text \<open>Every module is initialised and the books of the firewall balance.\<close>

definition guardian_inv :: "guardian \<Rightarrow> bool" where
  "guardian_inv g \<longleftrightarrow> guardian_wf g \<and> zf_initialized g \<and> qm_initialized (g_quarantine g) \<and> zs_ok (zf_stats g)"

lemma evaluate_inv:
  assumes "guardian_inv g"
    and "zone_firewall_evaluate_flow (Some k) dir n (Some out0) clk g = (err, out, g', evs)"
  shows "guardian_inv g' \<and> err = ESP_OK \<and> zf_config g' = zf_config g"
proof -
  have q: "zf_initialized g" "qm_wf (g_quarantine g)" "qm_initialized (g_quarantine g)" "guardian_wf g"
    "zs_ok (zf_stats g)"
    using assms(1) by (simp_all add: guardian_inv_def guardian_wf_def)
  obtain g0 d where en: "zf_entered k clk g g0"
    and r: "if zf_blocked k (clk 1) (g_quarantine g) then zf_block_exit g0 err out g'
     else zf_policy_stage k dir n clk d g0 = (err, out, g', evs)"
    by (rule evaluate_unfold[OF q(1-3) assms(2)])
  note c = check_src(2-4)[OF q(2,3) triple_collapse, of k "clk 1"]
  have c: "qm_wf (g_quarantine g0)" "qm_initialized (g_quarantine g0)"
    using c en by (simp_all add: zf_entered_def)
  show ?thesis
  proof (cases "zf_blocked k (clk 1) (g_quarantine g)")
    case True
    then show ?thesis using r en c q
      by (auto simp: guardian_inv_def guardian_wf_def zs_ok_def zf_entered_def zf_block_exit_def)
  next
    case False
    then have s: "zf_policy_stage k dir n clk d g0 = (err, out, g', evs)" using r by simp
    note e = zf_policy_stage_effect[OF s]
    have "qm_initialized (g_quarantine g')"
      using e(8) c(2) add_ip_frame(1)[OF c(1)] by (auto simp: zf_quarantines_def)
    then show ?thesis using e(1-6) en q by (simp add: guardian_inv_def zs_ok_def zf_entered_def)
  qed
qed

lemma zf_step_inv: "guardian_inv g \<Longrightarrow> guardian_inv (snd (zf_step x g))"
proof (cases x)
  case (fields key dir n clk)
  assume w: "guardian_inv g"
  show ?thesis
  proof (cases key)
    case None
    then show ?thesis using w fields by (simp add: zone_firewall_evaluate_flow_def)
  next
    case (Some k)
    obtain err out g' evs where e:
      "zone_firewall_evaluate_flow (Some k) dir n (Some zone_decision_zero) clk g = (err, out, g', evs)"
      by (metis prod.collapse)
    show ?thesis using evaluate_inv[OF w e] e fields Some by simp
  qed
qed

interpretation firewall: module_invariant guardian_inv "\<lambda>x. True" zf_step
  by unfold_locales (rule zf_step_inv)

subsection \<open>Quarantine across evaluations\<close>

definition zf_hold :: "u32 \<Rightarrow> u32 \<Rightarrow> guardian \<Rightarrow> bool" where
  "zf_hold a until g \<longleftrightarrow> guardian_inv g \<and> a \<noteq> 0 \<and>
     qm_holds (QUARANTINE_SUBJECT_IP a) QUARANTINE_MODE_BLOCK_ALL until (g_quarantine g)"

text \<open>An evaluation whose quarantine check happens before the expiry time.\<close>

fun zf_before :: "u32 \<Rightarrow> zf_op \<Rightarrow> bool" where
  "zf_before until (key, dir, n, clk) = in_force_at until (clk 1)"

lemma zf_hold_blocked:
  assumes "zf_hold (fk_src_ip k) until g" and "in_force_at until ts"
  shows "zf_blocked k ts (g_quarantine g)"
  using assms by (auto simp: zf_hold_def qm_holds_def zf_blocked_def)

lemma zf_check_src_holds:
  assumes "qm_holds s m until q" and "in_force_at until ts"
  shows "qm_holds s m until (snd (snd (quarantine_manager_check_flow_src (Some k)
    (Some quarantine_result_zero) ts q)))"
  using qm_holds_step[OF assms(1), of "Qm_check (Some (quarantine_subject_from_ip (fk_src_ip k))) ts"] assms(2)
  by (simp add: quarantine_manager_check_flow_src_def quarantine_manager_check_ip_def case_prod_beta)

lemma zf_add_ip_holds:
  assumes "qm_holds (QUARANTINE_SUBJECT_IP a) m until q" and "ip \<noteq> a"
  shows "qm_holds (QUARANTINE_SUBJECT_IP a) m until
    (snd (quarantine_manager_add_ip ip md src ttl risk reason ts q))"
  using qm_holds_step[OF assms(1), of "Qm_add (Some (quarantine_subject_from_ip ip)) md src ttl risk reason ts"]
    assms(2)
  by (simp add: quarantine_manager_add_ip_def quarantine_subject_from_ip_def case_prod_beta)

lemma zf_hold_evaluate:
  assumes h: "zf_hold a until g" and t: "in_force_at until (clk 1)"
    and e: "zone_firewall_evaluate_flow (Some k) dir n (Some out0) clk g = (err, out, g', evs)"
  shows "zf_hold a until g'"
    "fk_src_ip k = a \<Longrightarrow> \<exists>d. out = Some d \<and> zd_verdict d = ZONE_FIREWALL_VERDICT_DROP \<and> zd_quarantined d"
proof -
  have q: "guardian_inv g" "zf_initialized g" "qm_wf (g_quarantine g)" "qm_initialized (g_quarantine g)"
    and hq: "qm_holds (QUARANTINE_SUBJECT_IP a) QUARANTINE_MODE_BLOCK_ALL until (g_quarantine g)" "a \<noteq> 0"
    using h by (simp_all add: zf_hold_def guardian_inv_def guardian_wf_def)
  obtain g0 d where en: "zf_entered k clk g g0"
    and r: "if zf_blocked k (clk 1) (g_quarantine g) then zf_block_exit g0 err out g'
     else zf_policy_stage k dir n clk d g0 = (err, out, g', evs)"
    by (rule evaluate_unfold[OF q(2-4) e])
  have h0: "qm_holds (QUARANTINE_SUBJECT_IP a) QUARANTINE_MODE_BLOCK_ALL until (g_quarantine g0)"
    using en zf_check_src_holds[OF hq(1) t] by (simp add: zf_entered_def)
  have "qm_holds (QUARANTINE_SUBJECT_IP a) QUARANTINE_MODE_BLOCK_ALL until (g_quarantine g')"
  proof (cases "zf_blocked k (clk 1) (g_quarantine g)")
    case True
    then show ?thesis using r h0 by (auto simp: zf_block_exit_def)
  next
    case False
    then have "fk_src_ip k \<noteq> a" using h t zf_hold_blocked by blast
    moreover have "zf_policy_stage k dir n clk d g0 = (err, out, g', evs)" using False r by simp
    note zf_policy_stage_effect(8)[OF this]
    ultimately show ?thesis using zf_add_ip_holds[OF h0] h0 by (auto simp: zf_quarantines_def)
  qed
  then show "zf_hold a until g'" using evaluate_inv[OF q(1) e] hq(2) by (simp add: zf_hold_def)
  show "\<exists>d. out = Some d \<and> zd_verdict d = ZONE_FIREWALL_VERDICT_DROP \<and> zd_quarantined d" if "fk_src_ip k = a"
    using zf_hold_blocked[of k until g "clk 1"] h t that r by (auto simp: zf_block_exit_def)
qed

lemma zf_hold_run:
  assumes "zf_hold a until g" and "list_all (zf_before until) ops"
  shows "zf_hold a until (snd (run zf_step ops g))"
proof -
  have "zf_hold a until (snd (zf_step x g))" if "zf_hold a until g" "zf_before until x" for x g
  proof (cases x)
    case (fields key dir n clk)
    obtain err out g' evs where e:
      "zone_firewall_evaluate_flow key dir n (Some zone_decision_zero) clk g = (err, out, g', evs)"
      by (metis prod.collapse)
    show ?thesis
    proof (cases key)
      case None
      then show ?thesis using that fields by (simp add: zone_firewall_evaluate_flow_def)
    next
      case (Some k)
      then show ?thesis using zf_hold_evaluate(1)[OF that(1)] that(2) e fields by simp
    qed
  qed
  then have "module_invariant (zf_hold a until) (zf_before until) zf_step"
    by unfold_locales
  then show ?thesis using assms by (rule module_invariant.run_inv)
qed

text \<open>The source of a flow whose policy action is quarantine is held from then on.\<close>

lemma zf_quarantine_holds:
  assumes w: "guardian_inv g" and cfg: "\<not> qmc_evict_lru_when_full (qm_config (g_quarantine g))"
    and room: "qm_used (g_quarantine g) < QUARANTINE_MAX_ENTRIES" and ttl: "zfc_quarantine_ttl_ms (zf_config g) \<noteq> 0"
    and src: "fk_src_ip k \<noteq> 0" and nb: "\<not> zf_blocked k (clk 1) (g_quarantine g)"
    and pol: "pe_initialized (g_policy g)"
      "pd_action (pe_decision_spec k dir (clk 2) (g_policy g)) = POLICY_ACTION_QUARANTINE"
    and e: "zone_firewall_evaluate_flow (Some k) dir n (Some out0) clk g = (err, out, g', evs)"
  shows "zf_hold (fk_src_ip k) (clk 4 + zfc_quarantine_ttl_ms (zf_config g)) g'"
proof -
  let ?s = "QUARANTINE_SUBJECT_IP (fk_src_ip k)" and ?ttl = "zfc_quarantine_ttl_ms (zf_config g)"
  have q: "zf_initialized g" "qm_wf (g_quarantine g)" "qm_initialized (g_quarantine g)"
    using w by (simp_all add: guardian_inv_def guardian_wf_def)
  obtain g0 d where en: "zf_entered k clk g g0"
    and "if zf_blocked k (clk 1) (g_quarantine g) then zf_block_exit g0 err out g'
     else zf_policy_stage k dir n clk d g0 = (err, out, g', evs)"
    by (rule evaluate_unfold[OF q e])
  then have r: "zf_policy_stage k dir n clk d g0 = (err, out, g', evs)" using nb by simp
  note c = check_src(2-5)[OF q(2,3) triple_collapse, of k "clk 1"]
  have q0: "qm_wf (g_quarantine g0)" "qm_initialized (g_quarantine g0)"
    "\<not> qmc_evict_lru_when_full (qm_config (g_quarantine g0))"
    "qm_used (g_quarantine g0) < QUARANTINE_MAX_ENTRIES" "zf_config g0 = zf_config g"
    using c en cfg room by (simp_all add: zf_entered_def)
  have v: "subject_is_valid (Some ?s)" using src by (simp add: subject_is_valid_def)
  obtain sc risk reason where g': "g_quarantine g' = snd (quarantine_manager_add (Some ?s)
      QUARANTINE_MODE_BLOCK_ALL sc ?ttl risk reason (clk 4) (g_quarantine g0))"
    using zf_policy_stage_effect(9)[OF r] pol en q0(5)
    by (auto simp: zf_quarantines_def zf_entered_def quarantine_manager_add_ip_def quarantine_subject_from_ip_def)
  obtain er where a: "quarantine_manager_add (Some ?s) QUARANTINE_MODE_BLOCK_ALL sc ?ttl risk reason
      (clk 4) (g_quarantine g0) = (er, g_quarantine g')" using g' by (metis prod.collapse)
  then have "er = ESP_OK" using qm_add_cases[OF q0(1,2) v a refl refl] q0(4)
    by (auto simp: Let_def split: option.splits)
  then show ?thesis using qm_added_holds[OF q0(1-3) v ttl] a evaluate_inv[OF w e] src
    by (simp add: zf_hold_def)
qed

text \<open>The verdict set when the policy engine fails is overwritten by the rate stage, so the
  configured default has no effect.\<close>

definition with_default :: "bool \<Rightarrow> guardian \<Rightarrow> guardian" where
  "with_default b g = g \<lparr> zf_config := (zf_config g) \<lparr> zfc_default_allow := b \<rparr> \<rparr>"

lemma with_default_simps [simp]:
  "zf_initialized (with_default b g) = zf_initialized g" "g_flows (with_default b g) = g_flows g"
  "g_quarantine (with_default b g) = g_quarantine g" "g_policy (with_default b g) = g_policy g"
  "g_rates (with_default b g) = g_rates g" "g_registry (with_default b g) = g_registry g"
  "zf_stats (with_default b g) = zf_stats g"
  "zfc_zone_id (zf_config (with_default b g)) = zfc_zone_id (zf_config g)"
  "zfc_auto_quarantine_on_rate_limit (zf_config (with_default b g))
     = zfc_auto_quarantine_on_rate_limit (zf_config g)"
  "zfc_quarantine_ttl_ms (zf_config (with_default b g)) = zfc_quarantine_ttl_ms (zf_config g)"
  by (simp_all add: with_default_def)

lemma with_default_updates:
  "(with_default b g) \<lparr> zf_stats := x \<rparr> = with_default b (g \<lparr> zf_stats := x \<rparr>)"
  "(with_default b g) \<lparr> g_flows := x1 \<rparr> = with_default b (g \<lparr> g_flows := x1 \<rparr>)"
  "(with_default b g) \<lparr> g_quarantine := x2 \<rparr> = with_default b (g \<lparr> g_quarantine := x2 \<rparr>)"
  "(with_default b g) \<lparr> g_policy := x3 \<rparr> = with_default b (g \<lparr> g_policy := x3 \<rparr>)"
  "(with_default b g) \<lparr> g_rates := x4 \<rparr> = with_default b (g \<lparr> g_rates := x4 \<rparr>)"
  "(with_default b g) \<lparr> g_registry := x5 \<rparr> = with_default b (g \<lparr> g_registry := x5 \<rparr>)"
  "zf_count_dropped (with_default b g) = with_default b (zf_count_dropped g)"
  "zf_event (with_default b g) ty k risk reason = zf_event g ty k risk reason"
  by (simp_all add: with_default_def zf_count_dropped_def zf_event_def)

lemma zf_quarantine_with_default:
  "zf_quarantine key src risk reason ts (with_default b g)
     = apfst (with_default b) (zf_quarantine key src risk reason ts g)"
  by (simp add: zf_quarantine_def Let_def with_default_updates split: prod.split)

definition on_guardian :: "(guardian \<Rightarrow> guardian) \<Rightarrow> esp_err \<times> zone_firewall_decision option \<times> guardian \<times> zg_event list
    \<Rightarrow> esp_err \<times> zone_firewall_decision option \<times> guardian \<times> zg_event list" where
  "on_guardian f = apsnd (apsnd (apfst f))"

lemma zf_rate_stage_with_default:
  "zf_rate_stage key dir n clk (d \<lparr> zd_verdict := v \<rparr>) (with_default b g)
     = on_guardian (with_default b) (zf_rate_stage key dir n clk (d \<lparr> zd_verdict := v' \<rparr>) g)"
  "zf_rate_stage key dir n clk d (with_default b g)
     = on_guardian (with_default b) (zf_rate_stage key dir n clk d g)"
  by (simp_all add: zf_rate_stage_def Let_def with_default_updates zf_quarantine_with_default
      on_guardian_def split: prod.split)

lemma zf_policy_stage_with_default:
  "zf_policy_stage key dir n clk d (with_default b g)
     = on_guardian (with_default b) (zf_policy_stage key dir n clk d g)"
proof -
  obtain e po pol where r: "policy_engine_evaluate (Some key) dir (Some policy_decision_zero) (clk 2) (g_policy g)
      = (e, po, pol)" by (metis prod.collapse)
  show ?thesis
  proof (cases "e = ESP_OK")
    case True
    then show ?thesis using r
      by (simp add: zf_policy_stage_def Let_def with_default_updates zf_quarantine_with_default
          zf_rate_stage_with_default(2) on_guardian_def split: prod.split)
  next
    case False
    then show ?thesis using r
      by (simp add: zf_policy_stage_def Let_def with_default_updates zf_rate_stage_with_default(1))
  qed
qed

lemma evaluate_with_default:
  "zone_firewall_evaluate_flow key dir n out clk (with_default b g)
     = on_guardian (with_default b) (zone_firewall_evaluate_flow key dir n out clk g)"
  by (simp add: zone_firewall_evaluate_flow_def Let_def with_default_updates
      zf_policy_stage_with_default on_guardian_def split: prod.split)

subsection \<open>Properties\<close>

text \<open>A firewall over freshly initialised modules, with a default policy action.\<close>

definition guardian_fresh :: "policy_action \<Rightarrow> guardian" where
  "guardian_fresh a = snd (zone_firewall_init None
     \<lparr> zf_config = \<lparr> zfc_zone_id = 0, zfc_default_allow = False,
         zfc_auto_quarantine_on_rate_limit = False, zfc_quarantine_ttl_ms = 0 \<rparr>,
       zf_stats = zone_stats_zero, zf_initialized = False, g_flows = ft_fresh, g_quarantine = qm_fresh,
       g_policy = snd (policy_engine_init (Some \<lparr> pec_default_action = a, pec_default_log_event = False,
         pec_default_risk_score = 10 \<rparr>) pe_fresh),
       g_rates = rl_fresh, g_registry = reg_fresh \<rparr>)"

lemma guardian_fresh_facts:
  "guardian_inv (guardian_fresh a)" "pe_initialized (g_policy (guardian_fresh a))"
  "g_quarantine (guardian_fresh a) = qm_fresh" "zfc_quarantine_ttl_ms (zf_config (guardian_fresh a)) = 60000"
  "pd_action (pe_decision_spec k d ts (g_policy (guardian_fresh a))) = a"
proof -
  have "pe_wf (snd (policy_engine_init c pe_fresh))" for c
    using pe_step_wf[OF pe_fresh_facts(1), of "Pe_init c"] by simp
  then show "guardian_inv (guardian_fresh a)"
    by (simp add: guardian_inv_def guardian_wf_def guardian_fresh_def zone_firewall_init_def zs_ok_def
        zone_stats_zero_def ft_fresh_facts qm_fresh_facts rl_fresh_facts reg_fresh_facts)
  show "pe_initialized (g_policy (guardian_fresh a))" "g_quarantine (guardian_fresh a) = qm_fresh"
    "zfc_quarantine_ttl_ms (zf_config (guardian_fresh a)) = 60000"
    by (simp_all add: guardian_fresh_def zone_firewall_init_def policy_engine_init_def)
  show "pd_action (pe_decision_spec k d ts (g_policy (guardian_fresh a))) = a"
    by (simp add: guardian_fresh_def zone_firewall_init_def policy_engine_init_def pe_decision_spec_def
        best_rule_def pe_hit_def policy_slot_zero_def fill_default_decision_def)
qed

lemma zf_fresh_unblocked: "\<not> zf_blocked k ts (g_quarantine (guardian_fresh a))"
  by (simp add: guardian_fresh_facts zf_blocked_def qm_fresh_facts)

text \<open>C7: The verdict on a flow. A source under a block-all quarantine in force is dropped. Otherwise
  the policy decision rules: deny and quarantine drop, redirect redirects, and every other action
  passes to the rate limiter, where an exceeded limit drops, log-only is reported as log-only and
  the rest is allowed. The call succeeds and keeps the invariant of all modules.\<close>

theorem firewall_verdict:
  assumes "guardian_inv g" and "pe_initialized (g_policy g)"
    and "zone_firewall_evaluate_flow (Some k) dir n (Some out0) clk g = (err, out, g', evs)"
  shows "err = ESP_OK \<and> guardian_inv g' \<and> (\<exists>d. out = Some d \<and>
    zd_verdict d = (if zf_blocked k (clk 1) (g_quarantine g) then ZONE_FIREWALL_VERDICT_DROP
      else case pd_action (pe_decision_spec k dir (clk 2) (g_policy g)) of
          POLICY_ACTION_DENY \<Rightarrow> ZONE_FIREWALL_VERDICT_DROP
        | POLICY_ACTION_QUARANTINE \<Rightarrow> ZONE_FIREWALL_VERDICT_DROP
        | POLICY_ACTION_REDIRECT \<Rightarrow> ZONE_FIREWALL_VERDICT_REDIRECT
        | a \<Rightarrow> if zf_exceeded k dir n (clk 3) (g_rates g) then ZONE_FIREWALL_VERDICT_DROP
               else if a = POLICY_ACTION_LOG_ONLY then ZONE_FIREWALL_VERDICT_LOG_ONLY
               else ZONE_FIREWALL_VERDICT_ALLOW))"
proof -
  have q: "zf_initialized g" "qm_wf (g_quarantine g)" "qm_initialized (g_quarantine g)"
    using assms(1) by (simp_all add: guardian_inv_def guardian_wf_def)
  obtain g0 d where en: "zf_entered k clk g g0"
    and r: "if zf_blocked k (clk 1) (g_quarantine g) then zf_block_exit g0 err out g'
     else zf_policy_stage k dir n clk d g0 = (err, out, g', evs)"
    by (rule evaluate_unfold[OF q assms(3)])
  have "g_policy g0 = g_policy g" "g_rates g0 = g_rates g" using en by (simp_all add: zf_entered_def)
  then show ?thesis using r zf_policy_stage_effect(7)[of k dir n clk d g0 err out g' evs] assms(2)
      evaluate_inv[OF assms(1,3)]
    by (auto simp: zf_block_exit_def zf_stage_verdict_def split: if_splits)
qed

theorem firewall_verdict_witness:
  "\<exists>d. fst (snd (zone_firewall_evaluate_flow (Some k0) FLOW_DIRECTION_UNKNOWN 60 (Some zone_decision_zero)
     (\<lambda>i. 100) (guardian_fresh POLICY_ACTION_DENY))) = Some d \<and> zd_verdict d = ZONE_FIREWALL_VERDICT_DROP"
proof -
  obtain err out g' evs where e: "zone_firewall_evaluate_flow (Some k0) FLOW_DIRECTION_UNKNOWN 60
      (Some zone_decision_zero) (\<lambda>i. 100) (guardian_fresh POLICY_ACTION_DENY) = (err, out, g', evs)"
    by (metis prod.collapse)
  show ?thesis using firewall_verdict[OF guardian_fresh_facts(1,2) e] e
    by (auto simp: guardian_fresh_facts(5) split: if_splits)
qed

text \<open>C8: Quarantine holds across the whole firewall. When the policy puts the source of a flow in
  quarantine, with eviction off and a free entry, then whatever flows are evaluated afterwards
  before the expiry time, every later flow from that source evaluated before the expiry time is
  dropped and reported as quarantined.\<close>

theorem firewall_quarantine_persists:
  assumes "guardian_inv g" and "\<not> qmc_evict_lru_when_full (qm_config (g_quarantine g))"
    and "qm_used (g_quarantine g) < QUARANTINE_MAX_ENTRIES" and "zfc_quarantine_ttl_ms (zf_config g) \<noteq> 0"
    and "fk_src_ip k \<noteq> 0" and "\<not> zf_blocked k (clk 1) (g_quarantine g)" and "pe_initialized (g_policy g)"
    and "pd_action (pe_decision_spec k dir (clk 2) (g_policy g)) = POLICY_ACTION_QUARANTINE"
    and "zone_firewall_evaluate_flow (Some k) dir n (Some out0) clk g = (err, out, g1, evs)"
    and "until = clk 4 + zfc_quarantine_ttl_ms (zf_config g)"
    and "list_all (zf_before until) flows" and "fk_src_ip k' = fk_src_ip k" and "in_force_at until (clk' 1)"
    and "zone_firewall_evaluate_flow (Some k') dir' n' (Some out1) clk' (snd (run zf_step flows g1))
      = (err', out', g2, evs')"
  shows "\<exists>d. out' = Some d \<and> zd_verdict d = ZONE_FIREWALL_VERDICT_DROP \<and> zd_quarantined d"
proof -
  have "zf_hold (fk_src_ip k) until g1" unfolding assms(10) by (rule zf_quarantine_holds[OF assms(1-9)])
  from zf_hold_evaluate(2)[OF zf_hold_run[OF this assms(11)] assms(13,14,12)] show ?thesis .
qed

theorem firewall_quarantine_persists_witness:
  "\<exists>d. fst (snd (zone_firewall_evaluate_flow (Some k0) FLOW_DIRECTION_UNKNOWN 60 (Some zone_decision_zero)
     (\<lambda>i. 50000) (snd (run zf_step [(Some k0, FLOW_DIRECTION_UNKNOWN, 60, \<lambda>i. 200),
        (Some flow_key_zero, FLOW_DIRECTION_UNKNOWN, 60, \<lambda>i. 300)]
       (snd (zf_step (Some k0, FLOW_DIRECTION_UNKNOWN, 60, \<lambda>i. 100)
          (guardian_fresh POLICY_ACTION_QUARANTINE))))))) = Some d \<and> zd_quarantined d"
proof -
  let ?g = "guardian_fresh POLICY_ACTION_QUARANTINE"
  obtain err out g1 evs where e: "zone_firewall_evaluate_flow (Some k0) FLOW_DIRECTION_UNKNOWN 60
      (Some zone_decision_zero) (\<lambda>i. 100) ?g = (err, out, g1, evs)" by (metis prod.collapse)
  let ?ops = "[(Some k0, FLOW_DIRECTION_UNKNOWN, 60, \<lambda>i. 200), (Some flow_key_zero, FLOW_DIRECTION_UNKNOWN, 60, \<lambda>i. 300)] :: zf_op list"
  obtain err' out' g2 evs' where e': "zone_firewall_evaluate_flow (Some k0) FLOW_DIRECTION_UNKNOWN 60
      (Some zone_decision_zero) (\<lambda>i. 50000) (snd (run zf_step ?ops g1)) = (err', out', g2, evs')"
    by (metis prod.collapse)
  have "\<exists>d. out' = Some d \<and> zd_verdict d = ZONE_FIREWALL_VERDICT_DROP \<and> zd_quarantined d"
    by (rule firewall_quarantine_persists[OF guardian_fresh_facts(1) _ _ _ _ zf_fresh_unblocked
          guardian_fresh_facts(2) guardian_fresh_facts(5) e refl _ refl _ e'])
      (simp_all add: guardian_fresh_facts qm_fresh_facts k0_def in_force_at_def)
  then show ?thesis using e e' by auto
qed

text \<open>C38: The configured default has no effect. Evaluating a flow with default_allow set either way
  gives the same error code, the same decision and the same events, also when the policy engine
  cannot evaluate: the verdict taken from the default is overwritten by the rate-limit stage.\<close>

theorem firewall_default_has_no_effect:
  "zone_firewall_evaluate_flow key dir n out clk (with_default b g)
     = on_guardian (with_default b) (zone_firewall_evaluate_flow key dir n out clk g)"
  by (rule evaluate_with_default)

text \<open>Over any sequence of flows the firewall stays consistent: all modules keep their invariants
  and every evaluation is counted exactly once as allowed, dropped or redirected.\<close>

theorem firewall_books_balance:
  assumes "guardian_inv g"
  shows "guardian_inv (snd (run zf_step flows g))"
  using firewall.run_inv[OF assms, of flows] by (simp add: list_all_iff)

theorem firewall_books_balance_witness:
  "guardian_inv (snd (run zf_step [(Some k0, FLOW_DIRECTION_UNKNOWN, 60, \<lambda>i. 200), (None, FLOW_DIRECTION_UNKNOWN, 60, \<lambda>i. 300)]
     (guardian_fresh POLICY_ACTION_ALLOW)))"
  by (rule firewall_books_balance[OF guardian_fresh_facts(1)])

end
