(* ===== verification/Amino_Acids.thy ===== *)
theory Amino_Acids
  imports BN_Prelude
begin

text \<open>
  The catalogue of atomic commands (\<open>amino_acids.c\<close>).  Identifiers arrive inside decrypted
  payloads and stored templates, so \<open>amino_acid_id_t\<close> is the full 32-bit word and not only
  the enumerated values.
\<close>

type_synonym amino_acid_id_t = "32 word"
type_synonym i32 = "32 word"

abbreviation AMINO_INVALID :: amino_acid_id_t where "AMINO_INVALID \<equiv> 0"
abbreviation AMINO_ON :: amino_acid_id_t where "AMINO_ON \<equiv> 1"
abbreviation AMINO_OFF :: amino_acid_id_t where "AMINO_OFF \<equiv> 2"
abbreviation AMINO_OPEN :: amino_acid_id_t where "AMINO_OPEN \<equiv> 3"
abbreviation AMINO_CLOSE :: amino_acid_id_t where "AMINO_CLOSE \<equiv> 4"
abbreviation AMINO_SET_SPEED :: amino_acid_id_t where "AMINO_SET_SPEED \<equiv> 5"
abbreviation AMINO_SET_LEVEL :: amino_acid_id_t where "AMINO_SET_LEVEL \<equiv> 6"
abbreviation AMINO_READ_STATE :: amino_acid_id_t where "AMINO_READ_STATE \<equiv> 7"
abbreviation AMINO_TOGGLE :: amino_acid_id_t where "AMINO_TOGGLE \<equiv> 8"
abbreviation AMINO_LOCK :: amino_acid_id_t where "AMINO_LOCK \<equiv> 9"
abbreviation AMINO_UNLOCK :: amino_acid_id_t where "AMINO_UNLOCK \<equiv> 10"
abbreviation AMINO_SET_TEMPERATURE :: amino_acid_id_t where "AMINO_SET_TEMPERATURE \<equiv> 11"
abbreviation AMINO_SET_MODE :: amino_acid_id_t where "AMINO_SET_MODE \<equiv> 12"

datatype amino_value_type = AMINO_VALUE_NONE | AMINO_VALUE_BOOL | AMINO_VALUE_INT

text \<open>The numeric value of the enumerator, as the wire format carries it.\<close>

fun amino_value_type_code :: "amino_value_type \<Rightarrow> u32" where
  "amino_value_type_code AMINO_VALUE_NONE = 0"
| "amino_value_type_code AMINO_VALUE_BOOL = 1"
| "amino_value_type_code AMINO_VALUE_INT = 2"

definition AMINO_FLAG_MUTATES_STATE :: u32 where
  "AMINO_FLAG_MUTATES_STATE = push_bit 0 1"

definition AMINO_FLAG_READ_ONLY :: u32 where
  "AMINO_FLAG_READ_ONLY = push_bit 1 1"

record amino_acid =
  aa_id :: amino_acid_id_t
  aa_name :: string
  aa_value_type :: amino_value_type
  aa_flags :: u32

definition AMINO_ACIDS :: "amino_acid list" where
  "AMINO_ACIDS =
    [\<lparr> aa_id = AMINO_ON, aa_name = ''ON'',
       aa_value_type = AMINO_VALUE_NONE, aa_flags = AMINO_FLAG_MUTATES_STATE \<rparr>,
     \<lparr> aa_id = AMINO_OFF, aa_name = ''OFF'',
       aa_value_type = AMINO_VALUE_NONE, aa_flags = AMINO_FLAG_MUTATES_STATE \<rparr>,
     \<lparr> aa_id = AMINO_OPEN, aa_name = ''OPEN'',
       aa_value_type = AMINO_VALUE_NONE, aa_flags = AMINO_FLAG_MUTATES_STATE \<rparr>,
     \<lparr> aa_id = AMINO_CLOSE, aa_name = ''CLOSE'',
       aa_value_type = AMINO_VALUE_NONE, aa_flags = AMINO_FLAG_MUTATES_STATE \<rparr>,
     \<lparr> aa_id = AMINO_SET_SPEED, aa_name = ''SET_SPEED'',
       aa_value_type = AMINO_VALUE_INT, aa_flags = AMINO_FLAG_MUTATES_STATE \<rparr>,
     \<lparr> aa_id = AMINO_SET_LEVEL, aa_name = ''SET_LEVEL'',
       aa_value_type = AMINO_VALUE_INT, aa_flags = AMINO_FLAG_MUTATES_STATE \<rparr>,
     \<lparr> aa_id = AMINO_READ_STATE, aa_name = ''READ_STATE'',
       aa_value_type = AMINO_VALUE_NONE, aa_flags = AMINO_FLAG_READ_ONLY \<rparr>,
     \<lparr> aa_id = AMINO_TOGGLE, aa_name = ''TOGGLE'',
       aa_value_type = AMINO_VALUE_NONE, aa_flags = AMINO_FLAG_MUTATES_STATE \<rparr>,
     \<lparr> aa_id = AMINO_LOCK, aa_name = ''LOCK'',
       aa_value_type = AMINO_VALUE_NONE, aa_flags = AMINO_FLAG_MUTATES_STATE \<rparr>,
     \<lparr> aa_id = AMINO_UNLOCK, aa_name = ''UNLOCK'',
       aa_value_type = AMINO_VALUE_NONE, aa_flags = AMINO_FLAG_MUTATES_STATE \<rparr>,
     \<lparr> aa_id = AMINO_SET_TEMPERATURE, aa_name = ''SET_TEMPERATURE'',
       aa_value_type = AMINO_VALUE_INT, aa_flags = AMINO_FLAG_MUTATES_STATE \<rparr>,
     \<lparr> aa_id = AMINO_SET_MODE, aa_name = ''SET_MODE'',
       aa_value_type = AMINO_VALUE_INT, aa_flags = AMINO_FLAG_MUTATES_STATE \<rparr>]"

definition amino_acids_count :: nat where
  "amino_acids_count = length AMINO_ACIDS"

text \<open>The optional output count comes back beside the table.\<close>

definition amino_acids_all :: "nat option \<Rightarrow> amino_acid list \<times> nat option" where
  "amino_acids_all out_count =
     (AMINO_ACIDS, map_option (\<lambda>_. amino_acids_count) out_count)"

definition amino_acid_value_type_valid :: "u32 \<Rightarrow> bool" where
  "amino_acid_value_type_valid t \<longleftrightarrow>
     t = amino_value_type_code AMINO_VALUE_NONE \<or>
     t = amino_value_type_code AMINO_VALUE_BOOL \<or>
     t = amino_value_type_code AMINO_VALUE_INT"

definition amino_acid_find :: "amino_acid_id_t \<Rightarrow> amino_acid option" where
  "amino_acid_find i = find (\<lambda>a. aa_id a = i) AMINO_ACIDS"

definition amino_acid_id_valid :: "amino_acid_id_t \<Rightarrow> bool" where
  "amino_acid_id_valid i \<longleftrightarrow> amino_acid_find i \<noteq> None"

definition amino_acid_validate_payload :: "amino_acid_id_t \<Rightarrow> i32 option \<Rightarrow> esp_err" where
  "amino_acid_validate_payload i v =
     (case amino_acid_find i of
        None \<Rightarrow> ESP_ERR_NOT_FOUND
      | Some acid \<Rightarrow>
          if aa_value_type acid = AMINO_VALUE_NONE
          then (if v \<noteq> None then ESP_ERR_INVALID_ARG else ESP_OK)
          else (case v of
              None \<Rightarrow> ESP_ERR_INVALID_ARG
            | Some x \<Rightarrow>
                if aa_value_type acid = AMINO_VALUE_BOOL \<and> x \<noteq> 0 \<and> x \<noteq> 1
                then ESP_ERR_INVALID_ARG else ESP_OK))"

definition amino_acid_validate_value :: "amino_acid_id_t \<Rightarrow> i32 option \<Rightarrow> esp_err" where
  "amino_acid_validate_value i v = amino_acid_validate_payload i v"

subsection \<open>What the catalogue accepts\<close>

definition amino_with_value :: "amino_acid_id_t list" where
  "amino_with_value = [AMINO_SET_SPEED, AMINO_SET_LEVEL, AMINO_SET_TEMPERATURE, AMINO_SET_MODE]"

definition amino_without_value :: "amino_acid_id_t list" where
  "amino_without_value =
     [AMINO_ON, AMINO_OFF, AMINO_OPEN, AMINO_CLOSE, AMINO_READ_STATE, AMINO_TOGGLE,
      AMINO_LOCK, AMINO_UNLOCK]"

lemma amino_ids_distinct: "distinct (map aa_id AMINO_ACIDS)"
  by (simp add: AMINO_ACIDS_def)

lemma amino_acid_find_Some_iff:
  "amino_acid_find i = Some a \<longleftrightarrow> a \<in> set AMINO_ACIDS \<and> aa_id a = i"
  using find_key_Some_iff[OF amino_ids_distinct] by (simp add: amino_acid_find_def)

lemma amino_acid_id_valid_iff:
  "amino_acid_id_valid i \<longleftrightarrow> i \<in> set amino_with_value \<or> i \<in> set amino_without_value"
proof -
  have "amino_acid_id_valid i \<longleftrightarrow> i \<in> set (map aa_id AMINO_ACIDS)"
    by (auto simp: amino_acid_id_valid_def amino_acid_find_def find_None_iff)
  also have "set (map aa_id AMINO_ACIDS) = set amino_with_value \<union> set amino_without_value"
    by (auto simp: AMINO_ACIDS_def amino_with_value_def amino_without_value_def)
  finally show ?thesis by simp
qed

lemma amino_value_type_by_id:
  assumes "a \<in> set AMINO_ACIDS"
  shows "aa_value_type a = AMINO_VALUE_INT \<longleftrightarrow> aa_id a \<in> set amino_with_value"
    and "aa_value_type a = AMINO_VALUE_NONE \<longleftrightarrow> aa_id a \<in> set amino_without_value"
  using assms by (auto simp: AMINO_ACIDS_def amino_with_value_def amino_without_value_def)

lemma amino_lists_disjoint: "set amino_with_value \<inter> set amino_without_value = {}"
  by (simp add: amino_with_value_def amino_without_value_def)

text \<open>
  The payload check accepts exactly: the eight parameterless commands with no value, and the
  four \<open>SET_*\<close> commands with some value.  The last branch of the code (range of a boolean
  payload) is never taken because no catalogue entry is boolean.
\<close>

lemma amino_acid_validate_payload_cases:
  "amino_acid_validate_payload i v =
     (if i \<in> set amino_without_value then (if v = None then ESP_OK else ESP_ERR_INVALID_ARG)
      else if i \<in> set amino_with_value then (if v = None then ESP_ERR_INVALID_ARG else ESP_OK)
      else ESP_ERR_NOT_FOUND)"
proof (cases "amino_acid_find i")
  case None
  then have "\<not> amino_acid_id_valid i" by (simp add: amino_acid_id_valid_def)
  then have "i \<notin> set amino_with_value" "i \<notin> set amino_without_value"
    by (simp_all add: amino_acid_id_valid_iff)
  with None show ?thesis by (simp add: amino_acid_validate_payload_def)
next
  case (Some a)
  then have a: "a \<in> set AMINO_ACIDS" "aa_id a = i" by (auto simp: amino_acid_find_Some_iff)
  have "amino_acid_id_valid i" using Some by (simp add: amino_acid_id_valid_def)
  then have "i \<in> set amino_with_value \<or> i \<in> set amino_without_value"
    by (simp add: amino_acid_id_valid_iff)
  with a amino_value_type_by_id[OF a(1)] amino_lists_disjoint Some show ?thesis
    by (cases v) (auto simp: amino_acid_validate_payload_def)
qed

end
