(* ===== verification/Nvs_Port.thy ===== *)
theory Nvs_Port
  imports BN_Prelude
begin

text \<open>
  The non-volatile storage the tables persist in.  NVS belongs to the ESP-IDF and not to this
  repository, so it is a parameter: a record of the calls the firmware makes, over an abstract
  storage state \<open>'n\<close>.  A handle stands for its namespace, a read-only handle cannot change the
  storage, and \<open>nvs_get_blob\<close> returns the data it copied, whose length is the updated
  \<open>*length\<close>.  \<open>nvs_durable\<close> is the documented behaviour the stores rely on.

  The three helpers below are the call sequences that \<open>rna_membrane.c\<close> and
  \<open>ribosome_store.c\<close> share word for word.
\<close>

record 'n nvs_api =
  nvs_open_ro :: "string \<Rightarrow> 'n \<Rightarrow> esp_err"
  nvs_open_rw :: "string \<Rightarrow> 'n \<Rightarrow> esp_err \<times> 'n"
  nvs_get_blob :: "string \<Rightarrow> string \<Rightarrow> nat \<Rightarrow> 'n \<Rightarrow> esp_err \<times> bytes"
  nvs_set_blob :: "string \<Rightarrow> string \<Rightarrow> bytes \<Rightarrow> 'n \<Rightarrow> esp_err \<times> 'n"
  nvs_commit :: "string \<Rightarrow> 'n \<Rightarrow> esp_err \<times> 'n"
  nvs_erase_key :: "string \<Rightarrow> string \<Rightarrow> 'n \<Rightarrow> esp_err \<times> 'n"

definition nvs_load_blob ::
  "'n nvs_api \<Rightarrow> string \<Rightarrow> string \<Rightarrow> nat \<Rightarrow> 'n \<Rightarrow> esp_err \<times> bytes" where
  "nvs_load_blob api ns key sz n =
     (let err = nvs_open_ro api ns n in
      if err \<noteq> ESP_OK then (err, [])
      else (let (err, blob) = nvs_get_blob api ns key sz n in
        if err \<noteq> ESP_OK then (err, [])
        else if length blob \<noteq> sz then (ESP_ERR_INVALID_SIZE, [])
        else (ESP_OK, blob)))"

definition nvs_save_blob ::
  "'n nvs_api \<Rightarrow> string \<Rightarrow> string \<Rightarrow> bytes \<Rightarrow> 'n \<Rightarrow> esp_err \<times> 'n" where
  "nvs_save_blob api ns key blob n =
     (let (err, n1) = nvs_open_rw api ns n in
      if err \<noteq> ESP_OK then (err, n1)
      else (let (err, n2) = nvs_set_blob api ns key blob n1 in
        if err = ESP_OK then nvs_commit api ns n2 else (err, n2)))"

definition nvs_erase_blob ::
  "'n nvs_api \<Rightarrow> string \<Rightarrow> string \<Rightarrow> 'n \<Rightarrow> esp_err \<times> 'n" where
  "nvs_erase_blob api ns key n =
     (let (err, n1) = nvs_open_rw api ns n in
      if err \<noteq> ESP_OK then (if err = ESP_ERR_NVS_NOT_FOUND then ESP_OK else err, n1)
      else (let (err, n2) = nvs_erase_key api ns key n1;
                err = (if err = ESP_ERR_NVS_NOT_FOUND then ESP_OK else err) in
        if err = ESP_OK then nvs_commit api ns n2 else (err, n2)))"

subsection \<open>The documented behaviour\<close>

text \<open>What a successful set and commit leave behind can be read back in full.\<close>

definition nvs_durable :: "'n nvs_api \<Rightarrow> bool" where
  "nvs_durable api \<longleftrightarrow>
     (\<forall>ns key data n n1 n2 n3.
        nvs_open_rw api ns n = (ESP_OK, n1) \<longrightarrow>
        nvs_set_blob api ns key data n1 = (ESP_OK, n2) \<longrightarrow>
        nvs_commit api ns n2 = (ESP_OK, n3) \<longrightarrow>
        nvs_open_ro api ns n3 = ESP_OK \<and>
        nvs_get_blob api ns key (length data) n3 = (ESP_OK, data))"

text \<open>After a successful erase and commit the key is reported as not found.\<close>

definition nvs_erases :: "'n nvs_api \<Rightarrow> bool" where
  "nvs_erases api \<longleftrightarrow>
     (\<forall>ns key sz n n1 e n2 n3.
        nvs_open_rw api ns n = (ESP_OK, n1) \<longrightarrow>
        nvs_erase_key api ns key n1 = (e, n2) \<longrightarrow>
        e = ESP_OK \<or> e = ESP_ERR_NVS_NOT_FOUND \<longrightarrow>
        nvs_commit api ns n2 = (ESP_OK, n3) \<longrightarrow>
        nvs_open_ro api ns n3 = ESP_OK \<and>
        fst (nvs_get_blob api ns key sz n3) = ESP_ERR_NVS_NOT_FOUND)"

lemma nvs_load_after_save:
  assumes "nvs_durable api" and "nvs_save_blob api ns key blob n = (ESP_OK, n')"
  shows "nvs_load_blob api ns key (length blob) n' = (ESP_OK, blob)"
proof -
  obtain n1 n2 where "nvs_open_rw api ns n = (ESP_OK, n1)"
    "nvs_set_blob api ns key blob n1 = (ESP_OK, n2)" "nvs_commit api ns n2 = (ESP_OK, n')"
    using assms(2) by (auto simp: nvs_save_blob_def Let_def split: prod.splits if_splits)
  with assms(1) have "nvs_open_ro api ns n' = ESP_OK"
    "nvs_get_blob api ns key (length blob) n' = (ESP_OK, blob)"
    unfolding nvs_durable_def by blast+
  then show ?thesis by (simp add: nvs_load_blob_def)
qed

lemma nvs_load_blobD:
  assumes "nvs_load_blob api ns key sz n = (err, blob)"
  shows "err = ESP_OK \<Longrightarrow> length blob = sz"
    and "err \<noteq> ESP_OK \<Longrightarrow> blob = []"
  using assms by (auto simp: nvs_load_blob_def Let_def split: prod.splits if_splits)

text \<open>Namespaces are separate: writing to one leaves what another shows to a reader unchanged.\<close>

definition nvs_isolated :: "'n nvs_api \<Rightarrow> bool" where
  "nvs_isolated api \<longleftrightarrow>
     (\<forall>ns ns' key key' sz data n. ns \<noteq> ns' \<longrightarrow>
        nvs_open_ro api ns (snd (nvs_open_rw api ns' n)) = nvs_open_ro api ns n \<and>
        nvs_get_blob api ns key sz (snd (nvs_open_rw api ns' n)) = nvs_get_blob api ns key sz n \<and>
        nvs_open_ro api ns (snd (nvs_set_blob api ns' key' data n)) = nvs_open_ro api ns n \<and>
        nvs_get_blob api ns key sz (snd (nvs_set_blob api ns' key' data n)) = nvs_get_blob api ns key sz n \<and>
        nvs_open_ro api ns (snd (nvs_commit api ns' n)) = nvs_open_ro api ns n \<and>
        nvs_get_blob api ns key sz (snd (nvs_commit api ns' n)) = nvs_get_blob api ns key sz n)"

lemma nvs_load_other_save:
  assumes "nvs_isolated api" and "ns \<noteq> ns'"
  shows "nvs_load_blob api ns key sz (snd (nvs_save_blob api ns' key' data n)) = nvs_load_blob api ns key sz n"
proof -
  note i = assms(1)[unfolded nvs_isolated_def, rule_format, OF assms(2)]
  show ?thesis by (simp add: nvs_save_blob_def nvs_load_blob_def Let_def case_prod_beta i)
qed

subsection \<open>Tables stored as one sealed blob\<close>

text \<open>
  The contract of a table codec: every table the module can hold is encoded into a blob of the
  fixed size, decoding gives the table back, and a blob with one damaged byte is refused.
\<close>

locale blob_codec =
  fixes encode :: "'t \<Rightarrow> esp_err \<times> bytes"
    and decode :: "bytes \<Rightarrow> esp_err \<times> 't"
    and ok :: "'t \<Rightarrow> bool"
    and sz :: nat
  assumes encode_total: "ok t \<Longrightarrow> \<exists>b. encode t = (ESP_OK, b)"
    and encode_size: "ok t \<Longrightarrow> encode t = (ESP_OK, b) \<Longrightarrow> length b = sz"
    and decode_encode: "ok t \<Longrightarrow> encode t = (ESP_OK, b) \<Longrightarrow> decode b = (ESP_OK, t)"
    and decode_damaged: "ok t \<Longrightarrow> encode t = (ESP_OK, b) \<Longrightarrow> i < sz \<Longrightarrow> b ! i \<noteq> v \<Longrightarrow>
      fst (decode (b[i := v])) \<noteq> ESP_OK"
begin

lemma load_after_save:
  assumes "nvs_durable api" and "ok t" and "encode t = (ESP_OK, b)"
    and "nvs_save_blob api ns key b n = (ESP_OK, n')"
  shows "\<exists>raw. nvs_load_blob api ns key sz n' = (ESP_OK, raw) \<and> decode raw = (ESP_OK, t)"
  using nvs_load_after_save[OF assms(1,4)] encode_size[OF assms(2,3)] decode_encode[OF assms(2,3)]
  by simp

lemma encode_inj:
  assumes "ok t" and "ok u" and "encode t = (ESP_OK, b)" and "encode u = (ESP_OK, b)"
  shows "t = u"
  using decode_encode[OF assms(1,3)] decode_encode[OF assms(2,4)] by simp

lemma damaged_refused:
  assumes "ok t" and "encode t = (ESP_OK, b)" and "i < sz" and "b ! i \<noteq> v"
    and "nvs_load_blob api ns key sz n = (ESP_OK, b[i := v])"
  shows "\<exists>raw e u. nvs_load_blob api ns key sz n = (ESP_OK, raw) \<and> decode raw = (e, u)
    \<and> e \<noteq> ESP_OK"
  using decode_damaged[OF assms(1-4)] assms(5) by (metis prod.collapse)

end

subsection \<open>A storage that behaves as documented\<close>

text \<open>
  An in-memory storage, used to show that \<open>nvs_durable\<close> and \<open>nvs_erases\<close> can hold: one flat
  association from namespace and key to data, every call succeeding.
\<close>

type_synonym nvs_mem = "((string \<times> string) \<times> bytes) list"

definition nvs_mem_api :: "nvs_mem nvs_api" where
  "nvs_mem_api = \<lparr>
     nvs_open_ro = (\<lambda>ns n. ESP_OK),
     nvs_open_rw = (\<lambda>ns n. (ESP_OK, n)),
     nvs_get_blob = (\<lambda>ns key sz n.
        case map_of n (ns, key) of
          None \<Rightarrow> (ESP_ERR_NVS_NOT_FOUND, [])
        | Some d \<Rightarrow> if length d \<le> sz then (ESP_OK, d) else (ESP_ERR_OTHER 0, [])),
     nvs_set_blob = (\<lambda>ns key d n. (ESP_OK, ((ns, key), d) # n)),
     nvs_commit = (\<lambda>ns n. (ESP_OK, n)),
     nvs_erase_key = (\<lambda>ns key n.
        (if map_of n (ns, key) = None then ESP_ERR_NVS_NOT_FOUND else ESP_OK,
         filter (\<lambda>e. fst e \<noteq> (ns, key)) n)) \<rparr>"

lemma nvs_mem_durable: "nvs_durable nvs_mem_api"
  by (auto simp: nvs_durable_def nvs_mem_api_def)

lemma nvs_mem_isolated: "nvs_isolated nvs_mem_api"
  by (simp add: nvs_isolated_def nvs_mem_api_def)

lemma nvs_mem_erases: "nvs_erases nvs_mem_api"
proof -
  have "map_of (filter (\<lambda>e. fst e \<noteq> k) n) k = None" for k and n :: nvs_mem
    by (auto simp: map_of_eq_None_iff)
  then show ?thesis by (auto simp: nvs_erases_def nvs_mem_api_def)
qed

end
