(* ===== verification/Rna_Membrane.thy ===== *)
theory Rna_Membrane
  imports Amino_Acids BN_Hash Nvs_Port
begin

text \<open>
  Capability templates (\<open>rna_membrane.c\<close>): a template names the commands a class of devices
  accepts; the membrane keeps up to sixteen of them and persists them as one sealed blob.

  The blob is modelled at the level of its bytes, with the layout the target compiler gives the
  C structs: an \<open>rna_template_t\<close> is 88 bytes (id at 0, name at 2, amino_count at 34, one byte
  of padding, aminos at 36, flags at 84) and the blob is 8 + 16 * 88 + 4 bytes.
\<close>

type_synonym rna_template_id_t = u16

abbreviation RNA_TEMPLATE_NAME_LEN :: nat where "RNA_TEMPLATE_NAME_LEN \<equiv> 32"
abbreviation RNA_TEMPLATE_MAX_AMINOS :: nat where "RNA_TEMPLATE_MAX_AMINOS \<equiv> 12"
abbreviation RNA_MAX_TEMPLATES :: nat where "RNA_MAX_TEMPLATES \<equiv> 16"
abbreviation RNA_TEMPLATE_ID_INVALID :: rna_template_id_t where "RNA_TEMPLATE_ID_INVALID \<equiv> 0"
abbreviation RNA_TEMPLATE_BYTES :: nat where "RNA_TEMPLATE_BYTES \<equiv> 88"
abbreviation RNA_STORE_CHECKSUM_OFFSET :: nat where "RNA_STORE_CHECKSUM_OFFSET \<equiv> 1416"
abbreviation RNA_STORE_BYTES :: nat where "RNA_STORE_BYTES \<equiv> 1420"

definition RNA_STORE_MAGIC :: u32 where "RNA_STORE_MAGIC = 0x524E414D"
definition RNA_STORE_VERSION :: u16 where "RNA_STORE_VERSION = 2"

definition RNA_NVS_NS :: string where "RNA_NVS_NS = ''rna_membrane''"
definition RNA_NVS_KEY :: string where "RNA_NVS_KEY = ''templates''"

record rna_template =
  rt_id :: rna_template_id_t
  rt_name :: bytes
  rt_amino_count :: u8
  rt_aminos :: "amino_acid_id_t list"
  rt_flags :: u32

record rna_template_table =
  rtt_templates :: "rna_template list"
  rtt_count :: nat

subsection \<open>Templates\<close>

text \<open>All bytes zero, as \<open>memset\<close> leaves the struct.\<close>

definition rna_template_clear :: rna_template where
  "rna_template_clear = \<lparr> rt_id = 0, rt_name = replicate RNA_TEMPLATE_NAME_LEN 0,
     rt_amino_count = 0, rt_aminos = replicate RNA_TEMPLATE_MAX_AMINOS 0, rt_flags = 0 \<rparr>"

definition rna_template_id_valid :: "rna_template_id_t \<Rightarrow> bool" where
  "rna_template_id_valid i \<longleftrightarrow> i \<noteq> RNA_TEMPLATE_ID_INVALID"

text \<open>The two nested loops: \<open>seen\<close> holds the identifiers at the indices below the current one.\<close>

fun rna_aminos_check :: "amino_acid_id_t list \<Rightarrow> amino_acid_id_t list \<Rightarrow> esp_err" where
  "rna_aminos_check seen [] = ESP_OK"
| "rna_aminos_check seen (a # rest) =
     (if \<not> amino_acid_id_valid a then ESP_ERR_INVALID_ARG
      else if a \<in> set seen then ESP_ERR_INVALID_ARG
      else rna_aminos_check (seen @ [a]) rest)"

definition rna_template_validate :: "rna_template option \<Rightarrow> esp_err" where
  "rna_template_validate template_rule =
     (case template_rule of
        None \<Rightarrow> ESP_ERR_INVALID_ARG
      | Some r \<Rightarrow>
          if \<not> rna_template_id_valid (rt_id r) \<or>
             \<not> string_valid (Some (rt_name r)) RNA_TEMPLATE_NAME_LEN \<or>
             rt_amino_count r = 0 \<or>
             unat (rt_amino_count r) > RNA_TEMPLATE_MAX_AMINOS
          then ESP_ERR_INVALID_ARG
          else rna_aminos_check [] (take (unat (rt_amino_count r)) (rt_aminos r)))"

definition copy_template_sanitized :: "rna_template \<Rightarrow> rna_template" where
  "copy_template_sanitized src =
     rna_template_clear \<lparr> rt_id := rt_id src, rt_amino_count := rt_amino_count src,
       rt_flags := rt_flags src,
       rt_name := strncpy (rt_name rna_template_clear) (rt_name src) (RNA_TEMPLATE_NAME_LEN - 1),
       rt_aminos := rt_aminos src \<rparr>"

subsection \<open>The table\<close>

text \<open>The table \<open>rna_template_table_init\<close> writes, and the call itself.\<close>

definition rna_table_zero :: rna_template_table where
  "rna_table_zero = \<lparr> rtt_templates = replicate RNA_MAX_TEMPLATES rna_template_clear,
     rtt_count = 0 \<rparr>"

definition rna_template_table_init ::
  "rna_template_table option \<Rightarrow> esp_err \<times> rna_template_table option" where
  "rna_template_table_init table = deref table (\<lambda>t. (ESP_OK, rna_table_zero))"

definition rna_table_count_valid :: "rna_template_table option \<Rightarrow> bool" where
  "rna_table_count_valid table =
     (case table of None \<Rightarrow> False | Some t \<Rightarrow> rtt_count t \<le> RNA_MAX_TEMPLATES)"

definition rna_template_table_find ::
  "rna_template_table option \<Rightarrow> rna_template_id_t \<Rightarrow> rna_template option" where
  "rna_template_table_find table i =
     (if \<not> rna_table_count_valid table \<or> \<not> rna_template_id_valid i then None
      else (case table of
          None \<Rightarrow> None
        | Some t \<Rightarrow> find (\<lambda>r. rt_id r = i) (take (rtt_count t) (rtt_templates t))))"

definition template_id_exists :: "rna_template_table option \<Rightarrow> rna_template_id_t \<Rightarrow> bool" where
  "template_id_exists table i \<longleftrightarrow> rna_template_table_find table i \<noteq> None"

definition rna_template_table_add ::
  "rna_template_table option \<Rightarrow> rna_template option
     \<Rightarrow> esp_err \<times> rna_template_table option" where
  "rna_template_table_add table template_rule = deref table (\<lambda>t.
     case template_rule of
       None \<Rightarrow> (ESP_ERR_INVALID_ARG, t)
     | Some r \<Rightarrow>
         if \<not> rna_table_count_valid table then (ESP_ERR_INVALID_ARG, t)
         else if rtt_count t \<ge> RNA_MAX_TEMPLATES then (ESP_ERR_NO_MEM, t)
         else if rna_template_validate (Some r) \<noteq> ESP_OK then (ESP_ERR_INVALID_ARG, t)
         else if template_id_exists table (rt_id r) then (ESP_ERR_INVALID_STATE, t)
         else (ESP_OK, t \<lparr>
           rtt_templates := (rtt_templates t)[rtt_count t := copy_template_sanitized r],
           rtt_count := rtt_count t + 1 \<rparr>))"

definition rna_template_has_capability :: "rna_template option \<Rightarrow> amino_acid_id_t \<Rightarrow> bool" where
  "rna_template_has_capability template_rule amino_id =
     (case template_rule of
        None \<Rightarrow> False
      | Some r \<Rightarrow>
          if \<not> amino_acid_id_valid amino_id then False
          else if unat (rt_amino_count r) > RNA_TEMPLATE_MAX_AMINOS then False
          else list_ex (\<lambda>a. a = amino_id) (take (unat (rt_amino_count r)) (rt_aminos r)))"

definition rna_template_allows :: "rna_template option \<Rightarrow> amino_acid_id_t \<Rightarrow> bool" where
  "rna_template_allows template_rule amino_id = rna_template_has_capability template_rule amino_id"

definition rna_template_table_has_capability ::
  "rna_template_table option \<Rightarrow> rna_template_id_t \<Rightarrow> amino_acid_id_t \<Rightarrow> bool" where
  "rna_template_table_has_capability table i amino_id =
     rna_template_has_capability (rna_template_table_find table i) amino_id"

definition rna_template_table_allows ::
  "rna_template_table option \<Rightarrow> rna_template_id_t \<Rightarrow> amino_acid_id_t \<Rightarrow> bool" where
  "rna_template_table_allows table i amino_id =
     rna_template_table_has_capability table i amino_id"

text \<open>
  The loop \<open>for (i = 0; i < n; ++i) { err = rna_template_table_add(..); if (err) .. }\<close> of
  \<open>table_to_blob\<close>, \<open>blob_to_table\<close> and \<open>rna_membrane_load_defaults\<close>: the first error and the
  table at that moment.
\<close>

fun rna_add_loop :: "rna_template_table \<Rightarrow> rna_template list \<Rightarrow> esp_err \<times> rna_template_table" where
  "rna_add_loop t [] = (ESP_OK, t)"
| "rna_add_loop t (r # rs) =
     (case rna_template_table_add (Some t) (Some r) of
        (err, Some t') \<Rightarrow> if err \<noteq> ESP_OK then (err, t') else rna_add_loop t' rs
      | (err, None) \<Rightarrow> (err, t))"

subsection \<open>Default templates\<close>

text \<open>A designated initialiser: the fields not named, and the rest of each array, are zero.\<close>

definition rna_default :: "u16 \<Rightarrow> string \<Rightarrow> u8 \<Rightarrow> amino_acid_id_t list \<Rightarrow> rna_template" where
  "rna_default i name n aminos = \<lparr> rt_id = i,
     rt_name = packed 0 RNA_TEMPLATE_NAME_LEN (lit name), rt_amino_count = n,
     rt_aminos = packed 0 RNA_TEMPLATE_MAX_AMINOS aminos, rt_flags = 0 \<rparr>"

definition RNA_DEFAULT_TEMPLATES :: "rna_template list" where
  "RNA_DEFAULT_TEMPLATES =
    [rna_default 1 ''LIGHT_SWITCH'' 4 [AMINO_ON, AMINO_OFF, AMINO_TOGGLE, AMINO_READ_STATE],
     rna_default 2 ''OUTLET'' 4 [AMINO_ON, AMINO_OFF, AMINO_TOGGLE, AMINO_READ_STATE],
     rna_default 3 ''DOOR'' 5
       [AMINO_OPEN, AMINO_CLOSE, AMINO_LOCK, AMINO_UNLOCK, AMINO_READ_STATE],
     rna_default 4 ''AIR_CONDITIONER'' 6
       [AMINO_ON, AMINO_OFF, AMINO_SET_TEMPERATURE, AMINO_SET_SPEED, AMINO_SET_MODE,
        AMINO_READ_STATE],
     rna_default 5 ''DIMMER'' 5
       [AMINO_ON, AMINO_OFF, AMINO_TOGGLE, AMINO_SET_LEVEL, AMINO_READ_STATE],
     rna_default 6 ''FAN'' 5
       [AMINO_ON, AMINO_OFF, AMINO_TOGGLE, AMINO_SET_SPEED, AMINO_READ_STATE],
     rna_default 7 ''SENSOR_READ_ONLY'' 1 [AMINO_READ_STATE]]"

definition rna_membrane_defaults :: "nat option \<Rightarrow> rna_template list \<times> nat option" where
  "rna_membrane_defaults out_count =
     (RNA_DEFAULT_TEMPLATES, map_option (\<lambda>_. length RNA_DEFAULT_TEMPLATES) out_count)"

definition rna_membrane_load_defaults ::
  "rna_template_table option \<Rightarrow> esp_err \<times> rna_template_table option" where
  "rna_membrane_load_defaults out_table = deref out_table (\<lambda>_.
     case rna_add_loop rna_table_zero RNA_DEFAULT_TEMPLATES of
       (err, t) \<Rightarrow> if err \<noteq> ESP_OK then (err, rna_table_zero) else (ESP_OK, t))"

subsection \<open>The stored blob\<close>

definition rna_template_bytes :: "rna_template \<Rightarrow> bytes" where
  "rna_template_bytes r =
     le16 (rt_id r) @ rt_name r @ [rt_amino_count r] @ [0]
       @ concat (map le32 (rt_aminos r)) @ le32 (rt_flags r)"

definition rna_template_of_bytes :: "bytes \<Rightarrow> rna_template" where
  "rna_template_of_bytes bs = \<lparr> rt_id = of_le16 bs,
     rt_name = take RNA_TEMPLATE_NAME_LEN (drop 2 bs),
     rt_amino_count = rd (drop 34 bs) 0,
     rt_aminos = map (\<lambda>i. of_le32 (drop (4 * i) (drop 36 bs))) [0..<RNA_TEMPLATE_MAX_AMINOS],
     rt_flags = of_le32 (drop 84 bs) \<rparr>"

definition rna_blob_body :: "rna_template_table \<Rightarrow> bytes" where
  "rna_blob_body t =
     le32 RNA_STORE_MAGIC @ le16 RNA_STORE_VERSION @ le16 (of_nat (rtt_count t))
       @ concat (map rna_template_bytes (rtt_templates t))"

definition rna_blob_checksum :: "bytes \<Rightarrow> u32" where
  "rna_blob_checksum raw = fnv1a32_update 2166136261 (take RNA_STORE_CHECKSUM_OFFSET raw)"

definition rna_blob_templates :: "bytes \<Rightarrow> rna_template list" where
  "rna_blob_templates raw =
     map (\<lambda>i. rna_template_of_bytes (drop (RNA_TEMPLATE_BYTES * i) (drop 8 raw)))
       [0..<RNA_MAX_TEMPLATES]"

definition rna_table_to_blob :: "rna_template_table option \<Rightarrow> esp_err \<times> bytes" where
  "rna_table_to_blob table =
     (case table of
        None \<Rightarrow> (ESP_ERR_INVALID_ARG, [])
      | Some t \<Rightarrow>
          if \<not> rna_table_count_valid table \<or> rtt_count t = 0 then (ESP_ERR_INVALID_ARG, [])
          else (case rna_add_loop rna_table_zero (take (rtt_count t) (rtt_templates t)) of
            (err, validated) \<Rightarrow>
              if err \<noteq> ESP_OK then (err, [])
              else (let body = rna_blob_body validated
                    in (ESP_OK, body @ le32 (rna_blob_checksum body)))))"

definition rna_blob_to_table ::
  "bytes \<Rightarrow> rna_template_table \<Rightarrow> esp_err \<times> rna_template_table" where
  "rna_blob_to_table raw out_table =
     (if of_le32 raw \<noteq> RNA_STORE_MAGIC \<or>
         of_le16 (drop 4 raw) \<noteq> RNA_STORE_VERSION \<or>
         of_le16 (drop 6 raw) = 0 \<or>
         unat (of_le16 (drop 6 raw)) > RNA_MAX_TEMPLATES
      then (ESP_ERR_INVALID_VERSION, out_table)
      else if of_le32 (drop RNA_STORE_CHECKSUM_OFFSET raw) \<noteq> rna_blob_checksum raw
      then (ESP_ERR_INVALID_CRC, out_table)
      else (case rna_add_loop rna_table_zero
                   (take (unat (of_le16 (drop 6 raw))) (rna_blob_templates raw)) of
        (err, t) \<Rightarrow> if err \<noteq> ESP_OK then (err, out_table) else (ESP_OK, t)))"

definition rna_membrane_load ::
  "'n nvs_api \<Rightarrow> 'n \<Rightarrow> rna_template_table option \<Rightarrow> esp_err \<times> rna_template_table option" where
  "rna_membrane_load api n out_table = deref out_table (\<lambda>_.
     case nvs_load_blob api RNA_NVS_NS RNA_NVS_KEY RNA_STORE_BYTES n of
       (err, blob) \<Rightarrow>
         if err \<noteq> ESP_OK then (err, rna_table_zero)
         else rna_blob_to_table blob rna_table_zero)"

definition rna_membrane_load_or_init ::
  "'n nvs_api \<Rightarrow> 'n \<Rightarrow> rna_template_table option \<Rightarrow> esp_err \<times> rna_template_table option" where
  "rna_membrane_load_or_init api n out_table =
     (if out_table = None then (ESP_ERR_INVALID_ARG, None)
      else (case rna_membrane_load api n out_table of
        (err, out1) \<Rightarrow>
          if err = ESP_OK then (ESP_OK, out1)
          else if err \<noteq> ESP_ERR_NVS_NOT_FOUND then (err, out1)
          else rna_membrane_load_defaults out1))"

definition rna_membrane_save ::
  "'n nvs_api \<Rightarrow> rna_template_table option \<Rightarrow> 'n \<Rightarrow> esp_err \<times> 'n" where
  "rna_membrane_save api table n =
     (case rna_table_to_blob table of
        (err, blob) \<Rightarrow>
          if err \<noteq> ESP_OK then (err, n)
          else nvs_save_blob api RNA_NVS_NS RNA_NVS_KEY blob n)"

definition rna_membrane_erase :: "'n nvs_api \<Rightarrow> 'n \<Rightarrow> esp_err \<times> 'n" where
  "rna_membrane_erase api n = nvs_erase_blob api RNA_NVS_NS RNA_NVS_KEY n"

subsection \<open>Valid templates\<close>

lemma rna_aminos_check_iff:
  "rna_aminos_check seen xs = ESP_OK \<longleftrightarrow>
     distinct xs \<and> set xs \<inter> set seen = {} \<and> (\<forall>a\<in>set xs. amino_acid_id_valid a)"
  by (induction seen xs rule: rna_aminos_check.induct) auto

definition rna_template_ok :: "rna_template \<Rightarrow> bool" where
  "rna_template_ok r \<longleftrightarrow>
     rt_id r \<noteq> 0 \<and> 0 < strlen (rt_name r) \<and> strlen (rt_name r) < RNA_TEMPLATE_NAME_LEN \<and>
     0 < unat (rt_amino_count r) \<and> unat (rt_amino_count r) \<le> RNA_TEMPLATE_MAX_AMINOS \<and>
     distinct (take (unat (rt_amino_count r)) (rt_aminos r)) \<and>
     (\<forall>a\<in>set (take (unat (rt_amino_count r)) (rt_aminos r)). amino_acid_id_valid a)"

lemma rna_aminos_check_cases:
  "rna_aminos_check seen xs = ESP_OK \<or> rna_aminos_check seen xs = ESP_ERR_INVALID_ARG"
  by (induction seen xs rule: rna_aminos_check.induct) auto

lemma rna_template_validate_eq:
  "rna_template_validate (Some r) = (if rna_template_ok r then ESP_OK else ESP_ERR_INVALID_ARG)"
proof -
  let ?xs = "take (unat (rt_amino_count r)) (rt_aminos r)"
  have zero: "rt_amino_count r = 0 \<longleftrightarrow> \<not> 0 < unat (rt_amino_count r)"
    by (simp add: unat_gt_0)
  show ?thesis
    using rna_aminos_check_iff[of "[]" ?xs] rna_aminos_check_cases[of "[]" ?xs]
    by (auto simp: rna_template_validate_def rna_template_id_valid_def string_valid_iff
        rna_template_ok_def zero)
qed

definition rna_template_fits :: "rna_template \<Rightarrow> bool" where
  "rna_template_fits r \<longleftrightarrow>
     length (rt_name r) = RNA_TEMPLATE_NAME_LEN \<and> length (rt_aminos r) = RNA_TEMPLATE_MAX_AMINOS"

lemma cstr_sanitized_name:
  "strlen (rt_name r) < RNA_TEMPLATE_NAME_LEN \<Longrightarrow>
     cstr (rt_name (copy_template_sanitized r)) = cstr (rt_name r)"
  by (auto simp: copy_template_sanitized_def rna_template_clear_def strlen_def strncpy_zeroed
      cstr_append_clean cstr_no_nul simp flip: replicate_add)

lemma copy_template_sanitized_simps [simp]:
  "rt_id (copy_template_sanitized r) = rt_id r"
  "rt_amino_count (copy_template_sanitized r) = rt_amino_count r"
  "rt_aminos (copy_template_sanitized r) = rt_aminos r"
  "rt_flags (copy_template_sanitized r) = rt_flags r"
  by (simp_all add: copy_template_sanitized_def)

lemma rna_template_ok_sanitized:
  "rna_template_ok r \<Longrightarrow> rna_template_ok (copy_template_sanitized r)"
  using cstr_sanitized_name[of r] by (auto simp: rna_template_ok_def strlen_def)

lemma rna_template_fits_sanitized:
  "rna_template_fits r \<Longrightarrow> rna_template_fits (copy_template_sanitized r)"
  by (simp add: rna_template_fits_def copy_template_sanitized_def rna_template_clear_def
      length_strncpy)

lemma copy_template_sanitized_idem:
  assumes "rna_template_ok r"
  shows "copy_template_sanitized (copy_template_sanitized r) = copy_template_sanitized r"
proof -
  have "strncpy z (rt_name (copy_template_sanitized r)) m = strncpy z (rt_name r) m" for z m
    using cstr_sanitized_name[of r] assms by (simp add: strncpy_def rna_template_ok_def)
  then show ?thesis by (simp add: copy_template_sanitized_def)
qed

subsection \<open>The table as a list of templates\<close>

definition rna_table_of :: "rna_template list \<Rightarrow> rna_template_table" where
  "rna_table_of rs = \<lparr> rtt_templates = packed rna_template_clear RNA_MAX_TEMPLATES rs,
     rtt_count = length rs \<rparr>"

definition rna_templates_ok :: "rna_template list \<Rightarrow> bool" where
  "rna_templates_ok rs \<longleftrightarrow>
     length rs \<le> RNA_MAX_TEMPLATES \<and> distinct (map rt_id rs) \<and>
     (\<forall>r\<in>set rs. rna_template_ok r \<and> rna_template_fits r \<and> copy_template_sanitized r = r)"

definition rna_live :: "rna_template_table \<Rightarrow> rna_template list" where
  "rna_live t = take (rtt_count t) (rtt_templates t)"

definition rna_table_wf :: "rna_template_table \<Rightarrow> bool" where
  "rna_table_wf t \<longleftrightarrow> t = rna_table_of (rna_live t) \<and> rna_templates_ok (rna_live t)"

lemma rna_live_table_of [simp]: "rna_live (rna_table_of rs) = rs"
  by (simp add: rna_live_def rna_table_of_def)

lemma rna_table_wf_of [simp]: "rna_table_wf (rna_table_of rs) \<longleftrightarrow> rna_templates_ok rs"
  by (simp add: rna_table_wf_def)

lemma rna_table_zero_of: "rna_table_zero = rna_table_of []"
  by (simp add: rna_table_zero_def rna_table_of_def)

lemma rna_table_wfE:
  assumes "rna_table_wf t"
  obtains rs where "t = rna_table_of rs" "rna_templates_ok rs"
  using assms unfolding rna_table_wf_def by blast

lemma rna_table_find_of:
  assumes "rna_templates_ok rs"
  shows "rna_template_table_find (Some (rna_table_of rs)) i = find (\<lambda>r. rt_id r = i) rs"
proof -
  have "find (\<lambda>r. rt_id r = 0) rs = None"
    using assms by (auto simp: find_None_iff rna_templates_ok_def rna_template_ok_def)
  then show ?thesis using assms
    by (auto simp: rna_template_table_find_def rna_table_count_valid_def rna_template_id_valid_def
        rna_table_of_def rna_templates_ok_def)
qed

lemma rna_template_exists_of:
  "rna_templates_ok rs \<Longrightarrow>
     template_id_exists (Some (rna_table_of rs)) i \<longleftrightarrow> i \<in> rt_id ` set rs"
  by (auto simp: template_id_exists_def rna_table_find_of find_None_iff)

lemma rna_table_add_of:
  assumes "rna_templates_ok rs"
  shows "rna_template_table_add (Some (rna_table_of rs)) (Some r) =
    (if length rs = RNA_MAX_TEMPLATES then (ESP_ERR_NO_MEM, Some (rna_table_of rs))
     else if \<not> rna_template_ok r then (ESP_ERR_INVALID_ARG, Some (rna_table_of rs))
     else if rt_id r \<in> rt_id ` set rs then (ESP_ERR_INVALID_STATE, Some (rna_table_of rs))
     else (ESP_OK, Some (rna_table_of (rs @ [copy_template_sanitized r]))))"
proof -
  have le: "length rs \<le> RNA_MAX_TEMPLATES" using assms by (simp add: rna_templates_ok_def)
  have push: "(packed rna_template_clear RNA_MAX_TEMPLATES rs)[length rs := x]
      = packed rna_template_clear RNA_MAX_TEMPLATES (rs @ [x])"
    if "length rs < RNA_MAX_TEMPLATES" for x using that by (rule packed_push)
  show ?thesis
    using le rna_template_exists_of[OF assms] push
    by (auto simp: rna_template_table_add_def rna_table_count_valid_def rna_template_validate_eq
        rna_table_of_def)
qed

lemma rna_templates_ok_snoc:
  assumes "rna_templates_ok rs" and "length rs < RNA_MAX_TEMPLATES"
    and "rna_template_ok r" and "rna_template_fits r" and "rt_id r \<notin> rt_id ` set rs"
  shows "rna_templates_ok (rs @ [copy_template_sanitized r])"
  using assms rna_template_ok_sanitized rna_template_fits_sanitized copy_template_sanitized_idem
  by (auto simp: rna_templates_ok_def)

lemma rna_add_loop_of:
  assumes "rna_templates_ok (rs @ qs)"
  shows "rna_add_loop (rna_table_of rs) qs = (ESP_OK, rna_table_of (rs @ qs))"
  using assms
proof (induction qs arbitrary: rs)
  case Nil
  then show ?case by simp
next
  case (Cons q qs)
  have "rna_templates_ok rs" "length rs \<noteq> RNA_MAX_TEMPLATES" "rna_template_ok q"
    "rt_id q \<notin> rt_id ` set rs" "copy_template_sanitized q = q"
    using Cons.prems by (auto simp: rna_templates_ok_def)
  then show ?case using Cons.IH[of "rs @ [q]"] Cons.prems by (simp add: rna_table_add_of)
qed

subsection \<open>The blob round trip\<close>

lemma length_rna_template_bytes:
  "rna_template_fits r \<Longrightarrow> length (rna_template_bytes r) = RNA_TEMPLATE_BYTES"
  using length_concat_chunks[of "rt_aminos r" le32 4]
  by (simp add: rna_template_bytes_def rna_template_fits_def)

lemma rna_template_of_bytes_bytes:
  assumes "rna_template_fits r"
  shows "rna_template_of_bytes (rna_template_bytes r @ rest) = r"
proof -
  let ?bs = "rna_template_bytes r @ rest" and ?as = "concat (map le32 (rt_aminos r))"
  have n: "length (rt_name r) = 32" and a: "length (rt_aminos r) = 12"
    using assms by (simp_all add: rna_template_fits_def)
  have la: "length ?as = 48" using length_concat_chunks[of "rt_aminos r" le32 4] a by simp
  have d2: "drop 2 ?bs = rt_name r @ rt_amino_count r # 0 # ?as @ le32 (rt_flags r) @ rest"
    by (simp add: rna_template_bytes_def)
  have d34: "drop 34 ?bs = rt_amino_count r # 0 # ?as @ le32 (rt_flags r) @ rest"
    using n by (simp add: rna_template_bytes_def)
  have d36: "drop 36 ?bs = ?as @ le32 (rt_flags r) @ rest"
    using n by (simp add: rna_template_bytes_def)
  have d84: "drop 84 ?bs = le32 (rt_flags r) @ rest"
    using n la by (simp add: rna_template_bytes_def)
  have "map (\<lambda>i. of_le32 (drop (4 * i) (drop 36 ?bs))) [0..<12] = rt_aminos r"
    unfolding d36 using read_chunks[of "rt_aminos r" le32 4 of_le32 "le32 (rt_flags r) @ rest"] a
    by (simp del: drop_append)
  then show ?thesis
    using n unfolding rna_template_of_bytes_def d2 d34 d84
    by (simp add: rna_template_bytes_def)
qed

lemma rna_template_clear_fits: "rna_template_fits rna_template_clear"
  by (simp add: rna_template_fits_def rna_template_clear_def)

lemma rna_packed_fits:
  "rna_templates_ok rs \<Longrightarrow> r \<in> set (packed rna_template_clear m rs) \<Longrightarrow> rna_template_fits r"
  by (auto simp: packed_def rna_templates_ok_def rna_template_clear_fits split: if_splits)

lemma length_rna_blob_body:
  assumes "rna_templates_ok rs"
  shows "length (rna_blob_body (rna_table_of rs)) = RNA_STORE_CHECKSUM_OFFSET"
proof -
  let ?ps = "packed rna_template_clear RNA_MAX_TEMPLATES rs"
  have "length (concat (map rna_template_bytes ?ps)) = RNA_TEMPLATE_BYTES * length ?ps"
    by (rule length_concat_chunks)
      (rule length_rna_template_bytes, rule rna_packed_fits[OF assms])
  then show ?thesis using assms
    by (simp add: rna_blob_body_def rna_table_of_def rna_templates_ok_def length_packed)
qed

lemma rna_table_to_blob_of:
  assumes "rna_templates_ok rs" and "rs \<noteq> []"
  shows "rna_table_to_blob (Some (rna_table_of rs)) = (ESP_OK, seal (rna_blob_body (rna_table_of rs)))"
proof -
  have "rna_add_loop rna_table_zero (take (length rs) (rtt_templates (rna_table_of rs)))
      = (ESP_OK, rna_table_of rs)"
    using rna_add_loop_of[of "[]" rs] assms(1) by (simp add: rna_table_zero_of rna_table_of_def)
  then show ?thesis
    using assms length_rna_blob_body[OF assms(1)]
    by (simp add: rna_table_to_blob_def rna_table_count_valid_def rna_table_of_def
        rna_templates_ok_def seal_def rna_blob_checksum_def FNV_OFFSET_def Let_def)
qed

lemma rna_blob_templates_of:
  assumes "rna_templates_ok rs"
  shows "rna_blob_templates (rna_blob_body (rna_table_of rs) @ rest)
     = packed rna_template_clear RNA_MAX_TEMPLATES rs"
proof -
  let ?ps = "packed rna_template_clear RNA_MAX_TEMPLATES rs"
  have "length ?ps = RNA_MAX_TEMPLATES" using assms by (simp add: rna_templates_ok_def length_packed)
  moreover have "drop 8 (rna_blob_body (rna_table_of rs) @ rest)
      = concat (map rna_template_bytes ?ps) @ rest"
    by (simp add: rna_blob_body_def rna_table_of_def)
  ultimately show ?thesis
    using read_chunks[of ?ps rna_template_bytes RNA_TEMPLATE_BYTES rna_template_of_bytes rest]
      rna_packed_fits[OF assms] length_rna_template_bytes rna_template_of_bytes_bytes
    by (simp add: rna_blob_templates_def del: drop_append)
qed

lemma rna_blob_header:
  "of_le32 (rna_blob_body t @ rest) = RNA_STORE_MAGIC"
  "of_le16 (drop 4 (rna_blob_body t @ rest)) = RNA_STORE_VERSION"
  "of_le16 (drop 6 (rna_blob_body t @ rest)) = of_nat (rtt_count t)"
  by (simp_all add: rna_blob_body_def)

lemma rna_blob_to_table_seal:
  assumes "rna_templates_ok rs" and "rs \<noteq> []"
  shows "rna_blob_to_table (seal (rna_blob_body (rna_table_of rs))) out = (ESP_OK, rna_table_of rs)"
proof -
  let ?b = "rna_blob_body (rna_table_of rs)"
  have n: "length rs \<le> RNA_MAX_TEMPLATES" using assms by (simp add: rna_templates_ok_def)
  then have "unat (of_nat (length rs) :: u16) = length rs" by (simp add: unat_of_nat)
  moreover from this assms(2) have "(of_nat (length rs) :: u16) \<noteq> 0"
    by (metis length_0_conv unat_0)
  moreover have "rtt_count (rna_table_of rs) = length rs" by (simp add: rna_table_of_def)
  moreover have "rna_add_loop rna_table_zero rs = (ESP_OK, rna_table_of rs)"
    using rna_add_loop_of[of "[]" rs] assms(1) by (simp add: rna_table_zero_of)
  ultimately show ?thesis
    using n length_rna_blob_body[OF assms(1)]
    unfolding rna_blob_to_table_def seal_def rna_blob_header rna_blob_templates_of[OF assms(1)]
    by (simp add: rna_blob_checksum_def FNV_OFFSET_def)
qed

lemma rna_blob_damaged:
  assumes "rna_templates_ok rs" and "rs \<noteq> []" and "i < RNA_STORE_BYTES"
    and "seal (rna_blob_body (rna_table_of rs)) ! i \<noteq> v"
  shows "fst (rna_blob_to_table ((seal (rna_blob_body (rna_table_of rs)))[i := v]) out)
     \<in> {ESP_ERR_INVALID_VERSION, ESP_ERR_INVALID_CRC}"
proof -
  let ?raw = "(seal (rna_blob_body (rna_table_of rs)))[i := v]"
  have "\<not> sealed_ok RNA_STORE_CHECKSUM_OFFSET ?raw"
    using seal_detects_update[of i "rna_blob_body (rna_table_of rs)" v] assms(3,4)
      length_rna_blob_body[OF assms(1)] by simp
  then have "of_le32 (drop RNA_STORE_CHECKSUM_OFFSET ?raw) \<noteq> rna_blob_checksum ?raw"
    by (simp add: sealed_ok_def rna_blob_checksum_def FNV_OFFSET_def)
  then show ?thesis by (simp add: rna_blob_to_table_def)
qed

interpretation rna_blob: blob_codec
  "\<lambda>t. rna_table_to_blob (Some t)" "\<lambda>raw. rna_blob_to_table raw rna_table_zero"
  "\<lambda>t. rna_table_wf t \<and> rtt_count t \<noteq> 0" RNA_STORE_BYTES
proof (unfold_locales, goal_cases)
  case (1 t)
  then obtain rs where "t = rna_table_of rs" "rna_templates_ok rs" "rs \<noteq> []"
    by (auto elim: rna_table_wfE simp: rna_table_of_def)
  then show ?case by (simp add: rna_table_to_blob_of)
next
  case (2 t b)
  then obtain rs where "t = rna_table_of rs" "rna_templates_ok rs" "rs \<noteq> []"
    by (auto elim: rna_table_wfE simp: rna_table_of_def)
  then show ?case using 2(2) length_rna_blob_body by (auto simp: rna_table_to_blob_of)
next
  case (3 t b)
  then obtain rs where "t = rna_table_of rs" "rna_templates_ok rs" "rs \<noteq> []"
    by (auto elim: rna_table_wfE simp: rna_table_of_def)
  then show ?case using 3(2) rna_blob_to_table_seal by (auto simp: rna_table_to_blob_of)
next
  case (4 t b i v)
  then obtain rs where "t = rna_table_of rs" "rna_templates_ok rs" "rs \<noteq> []"
    by (auto elim: rna_table_wfE simp: rna_table_of_def)
  then show ?case using 4(2-4) rna_blob_damaged[of rs i v rna_table_zero]
    by (auto simp: rna_table_to_blob_of)
qed

subsection \<open>Whatever the flash holds\<close>

lemma rna_template_of_bytes_fits:
  "34 \<le> length bs \<Longrightarrow> rna_template_fits (rna_template_of_bytes bs)"
  by (simp add: rna_template_fits_def rna_template_of_bytes_def)

lemma rna_blob_templates_fit:
  assumes "length raw = RNA_STORE_BYTES" and "r \<in> set (rna_blob_templates raw)"
  shows "rna_template_fits r"
  using assms by (auto simp: rna_blob_templates_def intro!: rna_template_of_bytes_fits)

lemma rna_add_loop_ok:
  assumes "rna_templates_ok rs" and "\<forall>q\<in>set qs. rna_template_fits q"
    and "rna_add_loop (rna_table_of rs) qs = (ESP_OK, t)"
  shows "\<exists>us. t = rna_table_of (rs @ us) \<and> rna_templates_ok (rs @ us) \<and> length us = length qs"
  using assms
proof (induction qs arbitrary: rs)
  case Nil
  then show ?case by auto
next
  case (Cons q qs)
  let ?rs = "rs @ [copy_template_sanitized q]"
  have step: "length rs \<noteq> RNA_MAX_TEMPLATES" "rna_template_ok q" "rt_id q \<notin> rt_id ` set rs"
    "rna_add_loop (rna_table_of ?rs) qs = (ESP_OK, t)"
    using Cons.prems(1,3) by (auto simp: rna_table_add_of split: if_splits)
  have "rna_templates_ok ?rs"
  proof (rule rna_templates_ok_snoc[OF Cons.prems(1) _ step(2) _ step(3)])
    show "length rs < RNA_MAX_TEMPLATES"
      using Cons.prems(1) step(1) by (simp add: rna_templates_ok_def)
    show "rna_template_fits q" using Cons.prems(2) by simp
  qed
  from Cons.IH[OF this _ step(4)] Cons.prems(2) obtain us where
    "t = rna_table_of (?rs @ us)" "rna_templates_ok (?rs @ us)" "length us = length qs" by auto
  then show ?case by (intro exI[of _ "copy_template_sanitized q # us"]) simp
qed

lemma rna_templates_ok_Nil [simp]: "rna_templates_ok []"
  by (simp add: rna_templates_ok_def)

lemma rna_blob_to_table_wf:
  assumes "length raw = RNA_STORE_BYTES" and "rna_blob_to_table raw rna_table_zero = (e, t)"
  shows "rna_table_wf t \<and> (e = ESP_OK \<longrightarrow> rtt_count t \<noteq> 0) \<and> (e \<noteq> ESP_OK \<longrightarrow> t = rna_table_zero)"
proof (cases "e = ESP_OK")
  case True
  let ?n = "unat (of_le16 (drop 6 raw))"
  from assms(2) True have
    loop: "rna_add_loop rna_table_zero (take ?n (rna_blob_templates raw)) = (ESP_OK, t)"
    and n: "of_le16 (drop 6 raw) \<noteq> 0" "?n \<le> RNA_MAX_TEMPLATES"
    by (auto simp: rna_blob_to_table_def split: if_splits prod.splits)
  have "\<forall>q\<in>set (take ?n (rna_blob_templates raw)). rna_template_fits q"
    using rna_blob_templates_fit[OF assms(1)] by (auto dest: in_set_takeD)
  from rna_add_loop_ok[OF rna_templates_ok_Nil this] loop obtain us where
    us: "t = rna_table_of us" "rna_templates_ok us" "length us = min RNA_MAX_TEMPLATES ?n"
    by (auto simp: rna_table_zero_of rna_blob_templates_def)
  have "?n \<noteq> 0" using n(1) by (simp add: unat_eq_zero)
  then have "rtt_count t \<noteq> 0" using us n(2) by (simp add: rna_table_of_def)
  with us(1,2) True show ?thesis by simp
next
  case False
  then have "t = rna_table_zero"
    using assms(2) by (auto simp: rna_blob_to_table_def split: if_splits prod.splits)
  then show ?thesis using False by (simp add: rna_table_zero_of)
qed

lemma rna_default_ok:
  assumes "i \<noteq> 0" and "0 \<notin> set (lit name)" and "name \<noteq> []" and "length name < RNA_TEMPLATE_NAME_LEN"
    and "unat n = length as" and "as \<noteq> []" and "length as \<le> RNA_TEMPLATE_MAX_AMINOS"
    and "distinct as" and "set as \<subseteq> set amino_with_value \<union> set amino_without_value"
  shows "rna_template_ok (rna_default i name n as) \<and> rna_template_fits (rna_default i name n as)
    \<and> copy_template_sanitized (rna_default i name n as) = rna_default i name n as"
proof -
  have l: "length (lit name) = length name" by (simp add: lit_def)
  show ?thesis
    using assms l cstr_packed[OF assms(2), of 32] strncpy_packed[OF assms(2), of 32]
    by (auto simp: rna_template_ok_def rna_template_fits_def rna_default_def strlen_def
        copy_template_sanitized_def rna_template_clear_def length_packed amino_acid_id_valid_iff)
qed

lemma rna_defaults_ok: "rna_templates_ok RNA_DEFAULT_TEMPLATES"
  by (simp add: rna_templates_ok_def RNA_DEFAULT_TEMPLATES_def rna_default_ok lit_def
      amino_with_value_def amino_without_value_def)
    (simp add: rna_default_def)

lemma rna_defaults_saved:
  "rna_membrane_save nvs_mem_api (Some (rna_table_of RNA_DEFAULT_TEMPLATES)) [] =
     (ESP_OK, [((RNA_NVS_NS, RNA_NVS_KEY), seal (rna_blob_body (rna_table_of RNA_DEFAULT_TEMPLATES)))])"
proof -
  have "RNA_DEFAULT_TEMPLATES \<noteq> []" by (simp add: RNA_DEFAULT_TEMPLATES_def)
  from rna_table_to_blob_of[OF rna_defaults_ok this] show ?thesis
    by (simp add: rna_membrane_save_def nvs_save_blob_def nvs_mem_api_def)
qed

subsection \<open>Properties\<close>

lemma rna_store_save_load:
  assumes "nvs_durable api" and "rna_table_wf t"
    and "rna_membrane_save api (Some t) n = (ESP_OK, n')"
  shows "rna_membrane_load api n' (Some u) = (ESP_OK, Some t)"
proof -
  have "rtt_count t \<noteq> 0"
    using assms(3) by (cases "rtt_count t = 0") (simp_all add: rna_membrane_save_def rna_table_to_blob_def)
  with assms(2) have ok: "rna_table_wf t \<and> rtt_count t \<noteq> 0" by simp
  then obtain b where b: "rna_table_to_blob (Some t) = (ESP_OK, b)"
    using rna_blob.encode_total by blast
  then have "nvs_save_blob api RNA_NVS_NS RNA_NVS_KEY b n = (ESP_OK, n')"
    using assms(3) by (simp add: rna_membrane_save_def)
  from rna_blob.load_after_save[OF assms(1) ok b this] show ?thesis
    by (auto simp: rna_membrane_load_def)
qed

text \<open>A capability table that was saved successfully is read back unchanged after the
  save, template by template, provided NVS keeps what was committed.\<close>

theorem rna_save_then_load:
  assumes "nvs_durable api" and "rna_table_wf t"
    and "rna_membrane_save api (Some t) n = (ESP_OK, n')"
  shows "rna_membrane_load api n' (Some u) = (ESP_OK, Some t)"
  by (rule rna_store_save_load[OF assms])

theorem rna_save_then_load_witness:
  "rna_membrane_load nvs_mem_api
     (snd (rna_membrane_save nvs_mem_api (Some (rna_table_of RNA_DEFAULT_TEMPLATES)) []))
     (Some rna_table_zero) = (ESP_OK, Some (rna_table_of RNA_DEFAULT_TEMPLATES))"
  using rna_save_then_load[OF nvs_mem_durable, of "rna_table_of RNA_DEFAULT_TEMPLATES" "[]" _
      rna_table_zero] rna_defaults_ok rna_defaults_saved by simp

lemma rna_store_load_wf:
  "\<exists>e t. rna_membrane_load api n (Some u) = (e, Some t) \<and> rna_table_wf t \<and>
     (if e = ESP_OK then rtt_count t \<noteq> 0 else t = rna_table_zero)"
proof -
  obtain e b where l: "nvs_load_blob api RNA_NVS_NS RNA_NVS_KEY RNA_STORE_BYTES n = (e, b)"
    by (metis surj_pair)
  show ?thesis
  proof (cases "e = ESP_OK")
    case True
    obtain e' t where "rna_blob_to_table b rna_table_zero = (e', t)" by (metis surj_pair)
    with rna_blob_to_table_wf[OF nvs_load_blobD(1)[OF l True] this] True l show ?thesis
      by (simp add: rna_membrane_load_def)
  next
    case False
    with l show ?thesis by (simp add: rna_membrane_load_def rna_table_zero_of)
  qed
qed

text \<open>Whatever bytes the flash holds, loading leaves a well-formed table behind: at most
  sixteen valid templates with distinct identifiers and cleared cells after them; the table is
  non-empty on success and completely cleared on every error.\<close>

theorem rna_load_wf:
  "\<exists>e t. rna_membrane_load api n (Some u) = (e, Some t) \<and> rna_table_wf t \<and>
     (if e = ESP_OK then rtt_count t \<noteq> 0 else t = rna_table_zero)"
  by (rule rna_store_load_wf)

lemma rna_allows_iff:
  assumes "rna_table_wf t"
  shows "rna_template_table_allows (Some t) i a \<longleftrightarrow>
    (\<exists>r\<in>set (rna_live t). rt_id r = i \<and> a \<in> set (take (unat (rt_amino_count r)) (rt_aminos r)))"
proof -
  obtain rs where t: "t = rna_table_of rs" and ok: "rna_templates_ok rs"
    using assms by (rule rna_table_wfE)
  have cap: "rna_template_has_capability (Some r) a \<longleftrightarrow>
      a \<in> set (take (unat (rt_amino_count r)) (rt_aminos r))" if "r \<in> set rs" for r
    using ok that by (auto simp: rna_template_has_capability_def rna_templates_ok_def
        rna_template_ok_def list_ex_iff)
  have allows: "rna_template_table_allows (Some t) i a \<longleftrightarrow>
      rna_template_has_capability (find (\<lambda>r. rt_id r = i) rs) a"
    by (simp add: t rna_template_table_allows_def rna_template_table_has_capability_def
        rna_table_find_of[OF ok])
  have dist: "distinct (map rt_id rs)" using ok by (simp add: rna_templates_ok_def)
  show ?thesis
  proof (cases "find (\<lambda>r. rt_id r = i) rs")
    case None
    then have "\<not> rna_template_table_allows (Some t) i a" "i \<notin> rt_id ` set rs"
      using allows find_key_None_iff[of rt_id i rs] by (simp_all add: rna_template_has_capability_def)
    then show ?thesis by (auto simp: t)
  next
    case (Some q)
    have q: "q \<in> set rs" "rt_id q = i"
      using find_key_Some_iff[OF dist] Some by auto
    have uniq: "r \<in> set rs \<Longrightarrow> rt_id r = i \<Longrightarrow> r = q" for r
      using find_key_Some_iff[OF dist, of i r] Some by simp
    have "(\<exists>r\<in>set rs. rt_id r = i \<and> a \<in> set (take (unat (rt_amino_count r)) (rt_aminos r)))
        \<longleftrightarrow> a \<in> set (take (unat (rt_amino_count q)) (rt_aminos q))"
      using q uniq by blast
    then show ?thesis using allows cap[OF q(1)] Some by (simp add: t)
  qed
qed

text \<open>A table allows a command for a template identifier exactly when one of its templates
  has that identifier and lists the command among its first \<open>amino_count\<close> entries; identifiers
  outside the catalogue are never allowed.\<close>

theorem rna_table_allows_iff:
  assumes "rna_table_wf t"
  shows "rna_template_table_allows (Some t) i a \<longleftrightarrow>
    (\<exists>r\<in>set (rna_live t). rt_id r = i \<and> a \<in> set (take (unat (rt_amino_count r)) (rt_aminos r)))"
  by (rule rna_allows_iff[OF assms])

theorem rna_table_allows_iff_witness:
  "rna_template_table_allows (Some (rna_table_of RNA_DEFAULT_TEMPLATES)) 3 AMINO_LOCK \<and>
   \<not> rna_template_table_allows (Some (rna_table_of RNA_DEFAULT_TEMPLATES)) 7 AMINO_UNLOCK"
proof -
  have wf: "rna_table_wf (rna_table_of RNA_DEFAULT_TEMPLATES)" using rna_defaults_ok by simp
  show ?thesis unfolding rna_table_allows_iff[OF wf]
    by (simp add: RNA_DEFAULT_TEMPLATES_def rna_default_def packed_def)
qed

text \<open>One damaged byte anywhere in the stored capability blob, its checksum included, is
  noticed: loading fails with a version or checksum error and hands out the empty table.\<close>

theorem rna_damaged_blob_refused:
  assumes "rna_table_wf t" and "rna_table_to_blob (Some t) = (ESP_OK, b)"
    and "i < RNA_STORE_BYTES" and "b ! i \<noteq> v"
    and "nvs_load_blob api RNA_NVS_NS RNA_NVS_KEY RNA_STORE_BYTES n = (ESP_OK, b[i := v])"
  shows "fst (rna_membrane_load api n (Some u)) \<in> {ESP_ERR_INVALID_VERSION, ESP_ERR_INVALID_CRC}
    \<and> snd (rna_membrane_load api n (Some u)) = Some rna_table_zero"
proof -
  obtain rs where t: "t = rna_table_of rs" and ok: "rna_templates_ok rs"
    using assms(1) by (rule rna_table_wfE)
  have ne: "rs \<noteq> []"
    using assms(2) by (cases "rs = []") (simp_all add: t rna_table_to_blob_def rna_table_of_def)
  have b: "b = seal (rna_blob_body (rna_table_of rs))"
    using assms(2) by (simp add: t rna_table_to_blob_of[OF ok ne])
  obtain e u' where r: "rna_blob_to_table (b[i := v]) rna_table_zero = (e, u')"
    by (metis surj_pair)
  have e: "e \<in> {ESP_ERR_INVALID_VERSION, ESP_ERR_INVALID_CRC}"
    using rna_blob_damaged[OF ok ne assms(3) assms(4)[unfolded b], of rna_table_zero] r
    by (simp add: b)
  have "length (b[i := v]) = RNA_STORE_BYTES" using nvs_load_blobD(1)[OF assms(5)] by simp
  from rna_blob_to_table_wf[OF this r] e have "u' = rna_table_zero" by auto
  with r e assms(5) show ?thesis by (auto simp: rna_membrane_load_def)
qed

theorem rna_damaged_blob_refused_witness:
  "fst (rna_membrane_load nvs_mem_api
     [((RNA_NVS_NS, RNA_NVS_KEY),
        (snd (rna_table_to_blob (Some (rna_table_of RNA_DEFAULT_TEMPLATES))))[0 := 0])]
     (Some rna_table_zero)) \<in> {ESP_ERR_INVALID_VERSION, ESP_ERR_INVALID_CRC}"
proof -
  let ?t = "rna_table_of RNA_DEFAULT_TEMPLATES"
  let ?b = "seal (rna_blob_body ?t)"
  have b: "rna_table_to_blob (Some ?t) = (ESP_OK, ?b)"
    using rna_table_to_blob_of[OF rna_defaults_ok] by (simp add: RNA_DEFAULT_TEMPLATES_def)
  have "?b ! 0 \<noteq> 0"
    by (simp add: seal_def rna_blob_body_def le32_def RNA_STORE_MAGIC_def)
  moreover have "nvs_load_blob nvs_mem_api RNA_NVS_NS RNA_NVS_KEY RNA_STORE_BYTES
      [((RNA_NVS_NS, RNA_NVS_KEY), ?b[0 := 0])] = (ESP_OK, ?b[0 := 0])"
    using length_rna_blob_body[OF rna_defaults_ok] by (simp add: nvs_load_blob_def nvs_mem_api_def)
  ultimately show ?thesis
    using rna_damaged_blob_refused[OF _ b, of 0 0 nvs_mem_api _ rna_table_zero] rna_defaults_ok b
    by simp
qed

text \<open>The built-in templates are accepted by the table they are loaded into: loading the
  defaults succeeds and yields exactly the seven built-in templates, in order.\<close>

theorem rna_defaults_loaded:
  "rna_membrane_load_defaults (Some u) = (ESP_OK, Some (rna_table_of RNA_DEFAULT_TEMPLATES)) \<and>
     rna_table_wf (rna_table_of RNA_DEFAULT_TEMPLATES)"
  using rna_defaults_ok rna_add_loop_of[of "[]" RNA_DEFAULT_TEMPLATES]
  by (simp add: rna_membrane_load_defaults_def rna_table_zero_of)

end
