(* ===== verification/Ribosome_Table.thy ===== *)
theory Ribosome_Table
  imports Rna_Membrane BN_Refine BN_Slots
begin

text \<open>
  The table of enrolled devices (\<open>ribosome_table.c\<close>): for every MQTT client identifier the
  capability template, the key epoch and the 32-byte device secret.  The entries fill the first
  \<open>count\<close> cells of a fixed array; removal shifts the later entries down.  The specification is
  a finite map from client identifiers to what is stored for them.

  \<open>mbedtls_platform_zeroize\<close> overwrites with zeros, like \<open>memset\<close>.
\<close>

abbreviation RIBOSOME_MQTT_CLIENT_ID_LEN :: nat where "RIBOSOME_MQTT_CLIENT_ID_LEN \<equiv> 33"
abbreviation RIBOSOME_DEVICE_SECRET_LEN :: nat where "RIBOSOME_DEVICE_SECRET_LEN \<equiv> 32"
abbreviation RIBOSOME_MAX_ENTRIES :: nat where "RIBOSOME_MAX_ENTRIES \<equiv> 20"

record ribosome_table_entry =
  re_mqtt_client_id :: bytes
  re_template_id :: rna_template_id_t
  re_epoch :: u32
  re_device_secret :: bytes

record ribosome_table =
  rib_entries :: "ribosome_table_entry list"
  rib_count :: nat

record ribosome_entry_config =
  rc_mqtt_client_id :: "bytes option"
  rc_template_id :: rna_template_id_t
  rc_epoch :: u32
  rc_device_secret :: "bytes option"

definition ribosome_template_id_valid :: "rna_template_id_t \<Rightarrow> bool" where
  "ribosome_template_id_valid i = rna_template_id_valid i"

definition ribosome_table_clear_entry :: ribosome_table_entry where
  "ribosome_table_clear_entry = \<lparr> re_mqtt_client_id = replicate RIBOSOME_MQTT_CLIENT_ID_LEN 0,
     re_template_id = 0, re_epoch = 0,
     re_device_secret = replicate RIBOSOME_DEVICE_SECRET_LEN 0 \<rparr>"

definition rib_table_zero :: ribosome_table where
  "rib_table_zero = \<lparr> rib_entries = replicate RIBOSOME_MAX_ENTRIES ribosome_table_clear_entry,
     rib_count = 0 \<rparr>"

definition ribosome_table_init :: "ribosome_table option \<Rightarrow> esp_err \<times> ribosome_table option" where
  "ribosome_table_init table = deref table (\<lambda>t. (ESP_OK, rib_table_zero))"

definition rib_table_count_valid :: "ribosome_table option \<Rightarrow> bool" where
  "rib_table_count_valid table =
     (case table of None \<Rightarrow> False | Some t \<Rightarrow> rib_count t \<le> RIBOSOME_MAX_ENTRIES)"

definition copy_entry_sanitized :: "ribosome_table_entry \<Rightarrow> ribosome_table_entry" where
  "copy_entry_sanitized src =
     ribosome_table_clear_entry \<lparr>
       re_mqtt_client_id := strncpy (re_mqtt_client_id ribosome_table_clear_entry)
         (re_mqtt_client_id src) (RIBOSOME_MQTT_CLIENT_ID_LEN - 1),
       re_template_id := re_template_id src,
       re_epoch := re_epoch src,
       re_device_secret := take RIBOSOME_DEVICE_SECRET_LEN (re_device_secret src) \<rparr>"

definition ribosome_table_make_entry ::
  "ribosome_entry_config option \<Rightarrow> ribosome_table_entry option
     \<Rightarrow> esp_err \<times> ribosome_table_entry option" where
  "ribosome_table_make_entry config out_entry =
     (case config of
        None \<Rightarrow> (ESP_ERR_INVALID_ARG, out_entry)
      | Some c \<Rightarrow>
          if out_entry = None \<or> rc_device_secret c = None then (ESP_ERR_INVALID_ARG, out_entry)
          else if \<not> string_valid (rc_mqtt_client_id c) RIBOSOME_MQTT_CLIENT_ID_LEN
          then (ESP_ERR_INVALID_ARG, out_entry)
          else if \<not> ribosome_template_id_valid (rc_template_id c)
          then (ESP_ERR_INVALID_ARG, out_entry)
          else if bytes_all_zero (rc_device_secret c) RIBOSOME_DEVICE_SECRET_LEN
          then (ESP_ERR_INVALID_ARG, out_entry)
          else (ESP_OK, Some (ribosome_table_clear_entry \<lparr>
            re_mqtt_client_id := strncpy (re_mqtt_client_id ribosome_table_clear_entry)
              (the (rc_mqtt_client_id c)) (RIBOSOME_MQTT_CLIENT_ID_LEN - 1),
            re_template_id := rc_template_id c,
            re_epoch := rc_epoch c,
            re_device_secret :=
              take RIBOSOME_DEVICE_SECRET_LEN (the (rc_device_secret c)) \<rparr>)))"

text \<open>The scan all lookups share: the first live cell whose identifier compares equal.\<close>

definition rib_same_id :: "bytes \<Rightarrow> ribosome_table_entry \<Rightarrow> bool" where
  "rib_same_id cid e = strncmp_eq (re_mqtt_client_id e) cid RIBOSOME_MQTT_CLIENT_ID_LEN"

definition ribosome_table_entry_exists :: "ribosome_table option \<Rightarrow> bytes option \<Rightarrow> bool" where
  "ribosome_table_entry_exists table cid =
     (case (table, cid) of
        (Some t, Some c) \<Rightarrow>
          rib_table_count_valid table \<and> string_valid cid RIBOSOME_MQTT_CLIENT_ID_LEN \<and>
          list_ex (rib_same_id c) (take (rib_count t) (rib_entries t))
      | _ \<Rightarrow> False)"

definition ribosome_table_add_entry ::
  "ribosome_table option \<Rightarrow> ribosome_table_entry option
     \<Rightarrow> esp_err \<times> ribosome_table option" where
  "ribosome_table_add_entry table entry = deref table (\<lambda>t.
     case entry of
       None \<Rightarrow> (ESP_ERR_INVALID_ARG, t)
     | Some e \<Rightarrow>
         if \<not> rib_table_count_valid table then (ESP_ERR_INVALID_ARG, t)
         else if \<not> string_valid (Some (re_mqtt_client_id e)) RIBOSOME_MQTT_CLIENT_ID_LEN
         then (ESP_ERR_INVALID_ARG, t)
         else if \<not> ribosome_template_id_valid (re_template_id e) then (ESP_ERR_INVALID_ARG, t)
         else if bytes_all_zero (Some (re_device_secret e)) RIBOSOME_DEVICE_SECRET_LEN
         then (ESP_ERR_INVALID_ARG, t)
         else if rib_count t \<ge> RIBOSOME_MAX_ENTRIES then (ESP_ERR_NO_MEM, t)
         else if ribosome_table_entry_exists table (Some (re_mqtt_client_id e))
         then (ESP_ERR_INVALID_STATE, t)
         else (ESP_OK, t \<lparr>
           rib_entries := (rib_entries t)[rib_count t := copy_entry_sanitized e],
           rib_count := rib_count t + 1 \<rparr>))"

definition ribosome_table_add_from_config ::
  "ribosome_table option \<Rightarrow> ribosome_entry_config option
     \<Rightarrow> esp_err \<times> ribosome_table option" where
  "ribosome_table_add_from_config table config = deref table (\<lambda>t.
     case config of
       None \<Rightarrow> (ESP_ERR_INVALID_ARG, t)
     | Some c \<Rightarrow>
         if \<not> rib_table_count_valid table then (ESP_ERR_INVALID_ARG, t)
         else if rib_count t \<ge> RIBOSOME_MAX_ENTRIES then (ESP_ERR_NO_MEM, t)
         else if \<not> string_valid (rc_mqtt_client_id c) RIBOSOME_MQTT_CLIENT_ID_LEN
         then (ESP_ERR_INVALID_ARG, t)
         else if ribosome_table_entry_exists table (rc_mqtt_client_id c)
         then (ESP_ERR_INVALID_STATE, t)
         else (case ribosome_table_make_entry config (Some (rib_entries t ! rib_count t)) of
             (err, cell) \<Rightarrow>
               if err \<noteq> ESP_OK
               then (err, t \<lparr> rib_entries :=
                 (rib_entries t)[rib_count t := ribosome_table_clear_entry] \<rparr>)
               else (ESP_OK, t \<lparr>
                 rib_entries := (rib_entries t)[rib_count t := the cell],
                 rib_count := rib_count t + 1 \<rparr>)))"

text \<open>\<open>for (j = i; j + 1 < count; ++j) copy_entry_sanitized(&entries[j], &entries[j + 1])\<close>\<close>

definition rib_shift_down ::
  "nat \<Rightarrow> nat \<Rightarrow> ribosome_table_entry list \<Rightarrow> ribosome_table_entry list" where
  "rib_shift_down j n es = shift_down copy_entry_sanitized j n es"

definition ribosome_table_remove_entry ::
  "ribosome_table option \<Rightarrow> bytes option \<Rightarrow> esp_err \<times> ribosome_table option" where
  "ribosome_table_remove_entry table cid = deref table (\<lambda>t.
     if \<not> rib_table_count_valid table \<or> \<not> string_valid cid RIBOSOME_MQTT_CLIENT_ID_LEN
     then (ESP_ERR_INVALID_ARG, t)
     else (case find_index (rib_same_id (the cid)) (take (rib_count t) (rib_entries t)) of
         None \<Rightarrow> (ESP_ERR_NOT_FOUND, t)
       | Some i \<Rightarrow>
           (ESP_OK, t \<lparr>
             rib_entries := (rib_shift_down i (rib_count t) (rib_entries t))
               [rib_count t - 1 := ribosome_table_clear_entry],
             rib_count := rib_count t - 1 \<rparr>)))"

definition ribosome_table_get_entry ::
  "ribosome_table option \<Rightarrow> bytes option \<Rightarrow> ribosome_table_entry option
     \<Rightarrow> esp_err \<times> ribosome_table_entry option" where
  "ribosome_table_get_entry table cid out_entry =
     (if \<not> rib_table_count_valid table \<or> out_entry = None \<or>
         \<not> string_valid cid RIBOSOME_MQTT_CLIENT_ID_LEN
      then (ESP_ERR_INVALID_ARG, out_entry)
      else (case table of
          None \<Rightarrow> (ESP_ERR_INVALID_ARG, out_entry)
        | Some t \<Rightarrow>
            (case find (rib_same_id (the cid)) (take (rib_count t) (rib_entries t)) of
               Some e \<Rightarrow> (ESP_OK, Some (copy_entry_sanitized e))
             | None \<Rightarrow> (ESP_ERR_NOT_FOUND, out_entry))))"

definition ribosome_table_count :: "ribosome_table option \<Rightarrow> nat" where
  "ribosome_table_count table =
     (case table of
        None \<Rightarrow> 0
      | Some t \<Rightarrow> if \<not> rib_table_count_valid table then 0 else rib_count t)"

subsection \<open>Entries\<close>

definition rib_key :: "ribosome_table_entry \<Rightarrow> bytes" where
  "rib_key e = cstr (re_mqtt_client_id e)"

definition rib_id_ok :: "bytes \<Rightarrow> bool" where
  "rib_id_ok c \<longleftrightarrow> 0 < strlen c \<and> strlen c < RIBOSOME_MQTT_CLIENT_ID_LEN"

definition rib_entry_ok :: "ribosome_table_entry \<Rightarrow> bool" where
  "rib_entry_ok e \<longleftrightarrow> rib_id_ok (re_mqtt_client_id e) \<and> re_template_id e \<noteq> 0 \<and>
     \<not> bytes_all_zero (Some (re_device_secret e)) RIBOSOME_DEVICE_SECRET_LEN"

definition rib_entry_fits :: "ribosome_table_entry \<Rightarrow> bool" where
  "rib_entry_fits e \<longleftrightarrow> length (re_mqtt_client_id e) = RIBOSOME_MQTT_CLIENT_ID_LEN \<and>
     length (re_device_secret e) = RIBOSOME_DEVICE_SECRET_LEN"

lemma rib_key_sanitized:
  "rib_id_ok (re_mqtt_client_id e) \<Longrightarrow> rib_key (copy_entry_sanitized e) = rib_key e"
  by (auto simp: rib_key_def rib_id_ok_def copy_entry_sanitized_def ribosome_table_clear_entry_def
      strlen_def strncpy_zeroed cstr_append_clean cstr_no_nul simp flip: replicate_add)

lemma copy_entry_sanitized_simps [simp]:
  "re_template_id (copy_entry_sanitized e) = re_template_id e"
  "re_epoch (copy_entry_sanitized e) = re_epoch e"
  "re_device_secret (copy_entry_sanitized e)
     = take RIBOSOME_DEVICE_SECRET_LEN (re_device_secret e)"
  by (simp_all add: copy_entry_sanitized_def)

lemma rib_entry_fits_sanitized:
  "length (re_device_secret e) = RIBOSOME_DEVICE_SECRET_LEN \<Longrightarrow> rib_entry_fits (copy_entry_sanitized e)"
  by (simp add: rib_entry_fits_def copy_entry_sanitized_def ribosome_table_clear_entry_def
      length_strncpy)

lemma rib_entry_ok_sanitized:
  assumes "rib_entry_ok e"
  shows "rib_entry_ok (copy_entry_sanitized e)"
  using assms rib_key_sanitized[of e]
  by (auto simp: rib_entry_ok_def rib_id_ok_def rib_key_def strlen_def
      bytes_all_zero_iff)

lemma copy_entry_sanitized_idem:
  assumes "rib_id_ok (re_mqtt_client_id e)"
  shows "copy_entry_sanitized (copy_entry_sanitized e) = copy_entry_sanitized e"
proof -
  have "strncpy z (re_mqtt_client_id (copy_entry_sanitized e)) m
      = strncpy z (re_mqtt_client_id e) m" for z m
    using rib_key_sanitized[OF assms] by (simp add: strncpy_def rib_key_def)
  then show ?thesis by (simp add: copy_entry_sanitized_def)
qed

lemma rib_same_id_iff:
  assumes "rib_id_ok (re_mqtt_client_id e)" and "rib_id_ok c"
  shows "rib_same_id c e \<longleftrightarrow> rib_key e = cstr c"
  using assms by (simp add: rib_same_id_def strncmp_eq_iff rib_key_def rib_id_ok_def strlen_def)

lemma string_valid_rib [simp]:
  "string_valid (Some c) RIBOSOME_MQTT_CLIENT_ID_LEN \<longleftrightarrow> rib_id_ok c"
  by (simp add: string_valid_iff rib_id_ok_def)

subsection \<open>The table as a list of entries\<close>

definition rib_table_of :: "ribosome_table_entry list \<Rightarrow> ribosome_table" where
  "rib_table_of es = \<lparr> rib_entries = packed ribosome_table_clear_entry RIBOSOME_MAX_ENTRIES es,
     rib_count = length es \<rparr>"

definition rib_list_ok :: "ribosome_table_entry list \<Rightarrow> bool" where
  "rib_list_ok es \<longleftrightarrow>
     length es \<le> RIBOSOME_MAX_ENTRIES \<and> distinct (map rib_key es) \<and>
     (\<forall>e\<in>set es. rib_entry_ok e \<and> rib_entry_fits e \<and> copy_entry_sanitized e = e)"

definition rib_live :: "ribosome_table \<Rightarrow> ribosome_table_entry list" where
  "rib_live t = take (rib_count t) (rib_entries t)"

definition rib_table_wf :: "ribosome_table \<Rightarrow> bool" where
  "rib_table_wf t \<longleftrightarrow> t = rib_table_of (rib_live t) \<and> rib_list_ok (rib_live t)"

lemma rib_live_table_of [simp]: "rib_live (rib_table_of es) = es"
  by (simp add: rib_live_def rib_table_of_def)

lemma rib_take_table_of [simp]:
  "take (rib_count (rib_table_of es)) (rib_entries (rib_table_of es)) = es"
  using rib_live_table_of[of es] by (simp only: rib_live_def)

lemma rib_table_wf_of [simp]: "rib_table_wf (rib_table_of es) \<longleftrightarrow> rib_list_ok es"
  by (simp add: rib_table_wf_def)

lemma rib_table_zero_of: "rib_table_zero = rib_table_of []"
  by (simp add: rib_table_zero_def rib_table_of_def)

lemma rib_list_ok_Nil [simp]: "rib_list_ok []"
  by (simp add: rib_list_ok_def)

lemma rib_table_wfE:
  assumes "rib_table_wf t"
  obtains es where "t = rib_table_of es" "rib_list_ok es"
  using assms unfolding rib_table_wf_def by blast

lemma rib_count_valid_of [simp]: "rib_list_ok es \<Longrightarrow> rib_table_count_valid (Some (rib_table_of es))"
  by (simp add: rib_table_count_valid_def rib_table_of_def rib_list_ok_def)

lemma rib_same_id_live:
  "rib_list_ok es \<Longrightarrow> e \<in> set es \<Longrightarrow> rib_id_ok c \<Longrightarrow> rib_same_id c e \<longleftrightarrow> rib_key e = cstr c"
  by (rule rib_same_id_iff) (auto simp: rib_list_ok_def rib_entry_ok_def)

lemma rib_exists_of:
  "rib_list_ok es \<Longrightarrow> ribosome_table_entry_exists (Some (rib_table_of es)) (Some c) \<longleftrightarrow>
     rib_id_ok c \<and> cstr c \<in> rib_key ` set es"
  using rib_same_id_live[of es _ c]
  by (auto simp: ribosome_table_entry_exists_def list_ex_iff image_iff
      dest: sym)

lemma rib_push_of:
  "length es < RIBOSOME_MAX_ENTRIES \<Longrightarrow>
   (rib_table_of es) \<lparr> rib_entries := (rib_entries (rib_table_of es))[rib_count (rib_table_of es) := e],
      rib_count := rib_count (rib_table_of es) + 1 \<rparr> = rib_table_of (es @ [e])"
  by (simp add: rib_table_of_def packed_push)

lemma rib_add_entry_of:
  assumes "rib_list_ok es"
  shows "ribosome_table_add_entry (Some (rib_table_of es)) (Some e) =
    (if \<not> rib_entry_ok e then (ESP_ERR_INVALID_ARG, Some (rib_table_of es))
     else if length es = RIBOSOME_MAX_ENTRIES then (ESP_ERR_NO_MEM, Some (rib_table_of es))
     else if rib_key e \<in> rib_key ` set es then (ESP_ERR_INVALID_STATE, Some (rib_table_of es))
     else (ESP_OK, Some (rib_table_of (es @ [copy_entry_sanitized e]))))"
proof -
  have "length es \<le> RIBOSOME_MAX_ENTRIES" using assms by (simp add: rib_list_ok_def)
  moreover have "rib_count (rib_table_of es) = length es" by (simp add: rib_table_of_def)
  ultimately show ?thesis
    using assms rib_exists_of[OF assms, of "re_mqtt_client_id e"] rib_push_of[of es]
    by (auto simp: ribosome_table_add_entry_def ribosome_template_id_valid_def
        rna_template_id_valid_def rib_entry_ok_def rib_key_def)
qed

lemma rib_list_ok_snoc:
  assumes "rib_list_ok es" and "length es < RIBOSOME_MAX_ENTRIES"
    and "rib_entry_ok e" and "length (re_device_secret e) = RIBOSOME_DEVICE_SECRET_LEN"
    and "rib_key e \<notin> rib_key ` set es"
  shows "rib_list_ok (es @ [copy_entry_sanitized e])"
proof -
  have "rib_id_ok (re_mqtt_client_id e)" using assms(3) by (simp add: rib_entry_ok_def)
  then show ?thesis
    using assms rib_entry_ok_sanitized[OF assms(3)] rib_entry_fits_sanitized[OF assms(4)]
      copy_entry_sanitized_idem[of e] rib_key_sanitized[of e]
    by (auto simp: rib_list_ok_def)
qed

text \<open>The entry a configuration describes.\<close>

definition rib_config_entry :: "ribosome_entry_config \<Rightarrow> ribosome_table_entry" where
  "rib_config_entry c = \<lparr> re_mqtt_client_id = the (rc_mqtt_client_id c),
     re_template_id = rc_template_id c, re_epoch = rc_epoch c,
     re_device_secret = the (rc_device_secret c) \<rparr>"

definition rib_config_full :: "ribosome_entry_config \<Rightarrow> bool" where
  "rib_config_full c \<longleftrightarrow> rc_mqtt_client_id c \<noteq> None \<and> rc_device_secret c \<noteq> None"

lemma rib_make_entry_eq:
  "ribosome_table_make_entry (Some c) (Some old) =
     (if rib_config_full c \<and> rib_entry_ok (rib_config_entry c)
      then (ESP_OK, Some (copy_entry_sanitized (rib_config_entry c)))
      else (ESP_ERR_INVALID_ARG, Some old))"
  by (cases "rc_mqtt_client_id c"; cases "rc_device_secret c")
    (auto simp: ribosome_table_make_entry_def rib_config_full_def rib_config_entry_def
      rib_entry_ok_def ribosome_template_id_valid_def rna_template_id_valid_def
      copy_entry_sanitized_def string_valid_None)

lemma rib_add_config_of:
  assumes "rib_list_ok es"
  shows "ribosome_table_add_from_config (Some (rib_table_of es)) (Some c) =
    (if length es = RIBOSOME_MAX_ENTRIES then (ESP_ERR_NO_MEM, Some (rib_table_of es))
     else if rc_mqtt_client_id c = None \<or> \<not> rib_id_ok (the (rc_mqtt_client_id c))
     then (ESP_ERR_INVALID_ARG, Some (rib_table_of es))
     else if cstr (the (rc_mqtt_client_id c)) \<in> rib_key ` set es
     then (ESP_ERR_INVALID_STATE, Some (rib_table_of es))
     else if \<not> rib_config_full c \<or> \<not> rib_entry_ok (rib_config_entry c)
     then (ESP_ERR_INVALID_ARG, Some (rib_table_of es))
     else (ESP_OK, Some (rib_table_of (es @ [copy_entry_sanitized (rib_config_entry c)]))))"
proof -
  have le: "length es \<le> RIBOSOME_MAX_ENTRIES" using assms by (simp add: rib_list_ok_def)
  have n: "rib_count (rib_table_of es) = length es" by (simp add: rib_table_of_def)
  have clear: "(rib_table_of es) \<lparr> rib_entries :=
      (rib_entries (rib_table_of es))[length es := ribosome_table_clear_entry] \<rparr> = rib_table_of es"
    if "length es < RIBOSOME_MAX_ENTRIES"
    using that by (simp add: rib_table_of_def packed_push_blank)
  show ?thesis
  proof (cases "rc_mqtt_client_id c")
    case None
    then show ?thesis using assms le n
      by (auto simp: ribosome_table_add_from_config_def string_valid_None)
  next
    case (Some cid)
    then show ?thesis
      using assms le n clear rib_push_of[of es] rib_exists_of[OF assms, of cid]
      by (auto simp: ribosome_table_add_from_config_def rib_make_entry_eq)
  qed
qed

subsection \<open>Removal\<close>

lemma rib_shift_remove:
  assumes "rib_list_ok es" and "i < length es"
  shows "(rib_shift_down i (length es) (packed ribosome_table_clear_entry RIBOSOME_MAX_ENTRIES es))
      [length es - 1 := ribosome_table_clear_entry]
    = packed ribosome_table_clear_entry RIBOSOME_MAX_ENTRIES (remove_nth i es)"
  using assms unfolding rib_shift_down_def by (intro shift_remove) (auto simp: rib_list_ok_def)

lemma rib_list_ok_remove:
  "rib_list_ok es \<Longrightarrow> rib_list_ok (remove_nth i es)"
  using distinct_remove_nth[of rib_key es i]
  by (auto simp: rib_list_ok_def remove_nth_def dest: in_set_takeD in_set_dropD)

lemma rib_remove_of:
  assumes "rib_list_ok es"
  shows "ribosome_table_remove_entry (Some (rib_table_of es)) (Some c) =
    (if \<not> rib_id_ok c then (ESP_ERR_INVALID_ARG, Some (rib_table_of es))
     else (case find_index (\<lambda>e. rib_key e = cstr c) es of
         None \<Rightarrow> (ESP_ERR_NOT_FOUND, Some (rib_table_of es))
       | Some i \<Rightarrow> (ESP_OK, Some (rib_table_of (remove_nth i es)))))"
proof (cases "rib_id_ok c")
  case True
  have "find_index (rib_same_id c) es = find_index (\<lambda>e. rib_key e = cstr c) es"
    by (rule find_index_cong) (rule rib_same_id_live[OF assms _ True])
  moreover have "rib_table_of es \<lparr>
      rib_entries := (rib_shift_down i (rib_count (rib_table_of es)) (rib_entries (rib_table_of es)))
        [rib_count (rib_table_of es) - 1 := ribosome_table_clear_entry],
      rib_count := rib_count (rib_table_of es) - 1 \<rparr> = rib_table_of (remove_nth i es)"
    if "i < length es" for i
    using rib_shift_remove[OF assms that] length_remove_nth[OF that] by (simp add: rib_table_of_def)
  ultimately show ?thesis using assms True find_index_SomeD[of "\<lambda>e. rib_key e = cstr c" es]
    by (auto simp: ribosome_table_remove_entry_def split: option.splits)
next
  case False
  then show ?thesis using assms by (simp add: ribosome_table_remove_entry_def)
qed

lemma rib_get_of:
  assumes "rib_list_ok es"
  shows "ribosome_table_get_entry (Some (rib_table_of es)) (Some c) (Some out) =
    (if \<not> rib_id_ok c then (ESP_ERR_INVALID_ARG, Some out)
     else (case find (\<lambda>e. rib_key e = cstr c) es of
         None \<Rightarrow> (ESP_ERR_NOT_FOUND, Some out)
       | Some e \<Rightarrow> (ESP_OK, Some e)))"
proof (cases "rib_id_ok c")
  case True
  have "find (rib_same_id c) es = find (\<lambda>e. rib_key e = cstr c) es"
    by (rule find_cong[OF refl]) (rule rib_same_id_live[OF assms _ True])
  moreover have "copy_entry_sanitized e = e" if "find (\<lambda>e. rib_key e = cstr c) es = Some e" for e
    using assms that by (auto simp: find_Some_iff rib_list_ok_def)
  ultimately show ?thesis using assms True
    by (auto simp: ribosome_table_get_entry_def split: option.splits)
next
  case False
  then show ?thesis using assms by (simp add: ribosome_table_get_entry_def)
qed

subsection \<open>The specification: a bounded map\<close>

type_synonym rib_info = "u16 \<times> u32 \<times> bytes"
type_synonym rib_map = "bytes \<rightharpoonup> rib_info"

datatype rib_op =
    Rib_add ribosome_table_entry
  | Rib_add_config ribosome_entry_config
  | Rib_remove bytes
  | Rib_get bytes

definition rib_info_of :: "ribosome_table_entry \<Rightarrow> rib_info" where
  "rib_info_of e = (re_template_id e, re_epoch e,
     take RIBOSOME_DEVICE_SECRET_LEN (re_device_secret e))"

text \<open>A client's call: the error code and, for a successful lookup, what was found.\<close>

fun rib_step :: "rib_op \<Rightarrow> ribosome_table \<Rightarrow> (esp_err \<times> rib_info option) \<times> ribosome_table" where
  "rib_step (Rib_add e) t =
     (case ribosome_table_add_entry (Some t) (Some e) of (err, t') \<Rightarrow> ((err, None), the t'))"
| "rib_step (Rib_add_config c) t =
     (case ribosome_table_add_from_config (Some t) (Some c) of (err, t') \<Rightarrow> ((err, None), the t'))"
| "rib_step (Rib_remove c) t =
     (case ribosome_table_remove_entry (Some t) (Some c) of (err, t') \<Rightarrow> ((err, None), the t'))"
| "rib_step (Rib_get c) t =
     (case ribosome_table_get_entry (Some t) (Some c) (Some ribosome_table_clear_entry) of
        (err, out) \<Rightarrow> ((err, if err = ESP_OK then map_option rib_info_of out else None), t))"

text \<open>The same call on the specification.\<close>

fun rib_spec_step :: "rib_op \<Rightarrow> rib_map \<Rightarrow> (esp_err \<times> rib_info option) \<times> rib_map" where
  "rib_spec_step (Rib_add e) m =
     (if \<not> rib_entry_ok e then ((ESP_ERR_INVALID_ARG, None), m)
      else if card (dom m) = RIBOSOME_MAX_ENTRIES then ((ESP_ERR_NO_MEM, None), m)
      else if rib_key e \<in> dom m then ((ESP_ERR_INVALID_STATE, None), m)
      else ((ESP_OK, None), m(rib_key e \<mapsto> rib_info_of e)))"
| "rib_spec_step (Rib_add_config c) m =
     (if card (dom m) = RIBOSOME_MAX_ENTRIES then ((ESP_ERR_NO_MEM, None), m)
      else if rc_mqtt_client_id c = None \<or> \<not> rib_id_ok (the (rc_mqtt_client_id c))
      then ((ESP_ERR_INVALID_ARG, None), m)
      else if cstr (the (rc_mqtt_client_id c)) \<in> dom m then ((ESP_ERR_INVALID_STATE, None), m)
      else if rc_device_secret c = None \<or> \<not> rib_entry_ok (rib_config_entry c)
      then ((ESP_ERR_INVALID_ARG, None), m)
      else ((ESP_OK, None), m(rib_key (rib_config_entry c) \<mapsto> rib_info_of (rib_config_entry c))))"
| "rib_spec_step (Rib_remove c) m =
     (if \<not> rib_id_ok c then ((ESP_ERR_INVALID_ARG, None), m)
      else if cstr c \<notin> dom m then ((ESP_ERR_NOT_FOUND, None), m)
      else ((ESP_OK, None), m(cstr c := None)))"
| "rib_spec_step (Rib_get c) m =
     (if \<not> rib_id_ok c then ((ESP_ERR_INVALID_ARG, None), m)
      else (case m (cstr c) of
          None \<Rightarrow> ((ESP_ERR_NOT_FOUND, None), m)
        | Some v \<Rightarrow> ((ESP_OK, Some v), m)))"

text \<open>Every array the call hands over has its declared size.\<close>

fun rib_legal :: "rib_op \<Rightarrow> bool" where
  "rib_legal (Rib_add e) = rib_entry_fits e"
| "rib_legal (Rib_add_config c) =
     (case rc_device_secret c of None \<Rightarrow> True | Some d \<Rightarrow> length d = RIBOSOME_DEVICE_SECRET_LEN)"
| "rib_legal (Rib_remove c) = True"
| "rib_legal (Rib_get c) = True"

definition rib_abs_list :: "ribosome_table_entry list \<Rightarrow> rib_map" where
  "rib_abs_list es = map_of (map (\<lambda>e. (rib_key e, rib_info_of e)) es)"

definition rib_abs :: "ribosome_table \<Rightarrow> rib_map" where
  "rib_abs t = rib_abs_list (rib_live t)"

subsection \<open>The table refines the map\<close>

lemma dom_rib_abs_list: "dom (rib_abs_list es) = rib_key ` set es"
  by (force simp: rib_abs_list_def dom_map_of_conv_image_fst)

lemma card_dom_rib_abs:
  "distinct (map rib_key es) \<Longrightarrow> card (dom (rib_abs_list es)) = length es"
  by (metis dom_rib_abs_list distinct_card length_map list.set_map)

lemma rib_abs_list_find:
  "rib_abs_list es k = map_option rib_info_of (find (\<lambda>e. rib_key e = k) es)"
  by (induction es) (auto simp: rib_abs_list_def)

lemma rib_abs_list_snoc:
  assumes "rib_key e \<notin> rib_key ` set es"
  shows "rib_abs_list (es @ [e]) = (rib_abs_list es)(rib_key e \<mapsto> rib_info_of e)"
proof -
  have "rib_abs_list es (rib_key e) = None"
    using assms dom_rib_abs_list by (metis domIff)
  then show ?thesis
    by (auto simp: rib_abs_list_def map_add_def fun_eq_iff split: option.splits)
qed

lemma rib_abs_list_remove:
  assumes "distinct (map rib_key es)" and "i < length es"
  shows "rib_abs_list (remove_nth i es) = (rib_abs_list es)(rib_key (es ! i) := None)"
proof
  fix k
  note d = distinct_remove_nth[OF assms(1), of i]
  have "find (\<lambda>e. rib_key e = k) (remove_nth i es) =
      (if k = rib_key (es ! i) then None else find (\<lambda>e. rib_key e = k) es)"
    using find_key_Some_iff[OF d] find_key_Some_iff[OF assms(1)]
      set_remove_nth_distinct[OF assms(2,1)]
    by (intro option_eqI) auto
  then show "rib_abs_list (remove_nth i es) k = ((rib_abs_list es)(rib_key (es ! i) := None)) k"
    by (simp add: rib_abs_list_find)
qed

lemma rib_info_of_sanitized [simp]: "rib_info_of (copy_entry_sanitized e) = rib_info_of e"
  by (simp add: rib_info_of_def)

lemma rib_add_sim:
  assumes "rib_list_ok es" and "length es \<noteq> RIBOSOME_MAX_ENTRIES" and "rib_entry_ok e"
    and "length (re_device_secret e) = RIBOSOME_DEVICE_SECRET_LEN" and "rib_key e \<notin> rib_key ` set es"
  shows "rib_list_ok (es @ [copy_entry_sanitized e])"
    and "rib_abs_list (es @ [copy_entry_sanitized e])
      = (rib_abs_list es)(rib_key e \<mapsto> rib_info_of e)"
proof -
  have "length es < RIBOSOME_MAX_ENTRIES" using assms(1,2) by (simp add: rib_list_ok_def)
  from rib_list_ok_snoc[OF assms(1) this assms(3,4,5)]
  show "rib_list_ok (es @ [copy_entry_sanitized e])" .
  have k: "rib_key (copy_entry_sanitized e) = rib_key e"
    using assms(3) by (simp add: rib_key_sanitized rib_entry_ok_def)
  show "rib_abs_list (es @ [copy_entry_sanitized e]) = (rib_abs_list es)(rib_key e \<mapsto> rib_info_of e)"
    using rib_abs_list_snoc[of "copy_entry_sanitized e" es] assms(5) by (simp add: k)
qed

lemma rib_step_sim:
  assumes "rib_list_ok es" and "rib_legal x"
  shows "\<exists>es'. snd (rib_step x (rib_table_of es)) = rib_table_of es' \<and> rib_list_ok es' \<and>
    rib_spec_step x (rib_abs_list es) = (fst (rib_step x (rib_table_of es)), rib_abs_list es')"
proof -
  have d: "distinct (map rib_key es)" using assms(1) by (simp add: rib_list_ok_def)
  have "card (rib_key ` set es) = length es"
    using card_dom_rib_abs[OF d] by (simp add: dom_rib_abs_list)
  note abs = dom_rib_abs_list[of es] this
  show ?thesis
  proof (cases x)
    case (Rib_add e)
    with assms(2) have "length (re_device_secret e) = RIBOSOME_DEVICE_SECRET_LEN"
      by (simp add: rib_entry_fits_def)
    note sim = rib_add_sim[OF assms(1) _ _ this]
    show ?thesis unfolding Rib_add rib_step.simps rib_add_entry_of[OF assms(1)] rib_spec_step.simps abs
      using assms(1) sim by auto
  next
    case (Rib_add_config c)
    have k: "rib_key (rib_config_entry c) = cstr (the (rc_mqtt_client_id c))"
      by (simp add: rib_key_def rib_config_entry_def)
    have "length (re_device_secret (rib_config_entry c)) = RIBOSOME_DEVICE_SECRET_LEN"
      if "rib_config_full c"
      using assms(2) that Rib_add_config by (auto simp: rib_config_full_def rib_config_entry_def)
    note sim = rib_add_sim[OF assms(1) _ _ this]
    show ?thesis
      unfolding Rib_add_config rib_step.simps rib_add_config_of[OF assms(1)] rib_spec_step.simps abs
      using assms(1) sim k by (auto simp: rib_config_full_def)
  next
    case (Rib_remove c)
    show ?thesis
    proof (cases "find_index (\<lambda>e. rib_key e = cstr c) es")
      case None
      then have "cstr c \<notin> rib_key ` set es" by (auto simp: find_index_None_iff)
      then show ?thesis unfolding Rib_remove rib_step.simps rib_remove_of[OF assms(1)]
          rib_spec_step.simps abs using assms(1) None by auto
    next
      case (Some i)
      from find_index_SomeD[OF this] have i: "i < length es" "rib_key (es ! i) = cstr c" by auto
      then have "cstr c \<in> rib_key ` set es" by (metis image_eqI nth_mem)
      then show ?thesis unfolding Rib_remove rib_step.simps rib_remove_of[OF assms(1)]
          rib_spec_step.simps abs
        using assms(1) Some rib_list_ok_remove[OF assms(1)] rib_abs_list_remove[OF d i(1)] i(2)
        by auto
    qed
  next
    case (Rib_get c)
    show ?thesis unfolding Rib_get rib_step.simps rib_get_of[OF assms(1)] rib_spec_step.simps
        rib_abs_list_find
      using assms(1) by (auto split: option.splits)
  qed
qed

interpretation ribosome: refinement rib_table_wf rib_legal rib_step rib_abs rib_spec_step
proof (unfold_locales, goal_cases)
  case (1 t x)
  then obtain es where es: "t = rib_table_of es" "rib_list_ok es" by (auto elim: rib_table_wfE)
  from rib_step_sim[OF es(2) 1(2)] show ?case by (auto simp: es(1))
next
  case (2 t x)
  then obtain es where es: "t = rib_table_of es" "rib_list_ok es" by (auto elim: rib_table_wfE)
  from rib_step_sim[OF es(2) 2(2)] show ?case by (auto simp: es(1) rib_abs_def)
qed

subsection \<open>Properties\<close>

text \<open>C21: The device table implements a map of at most twenty entries.  Starting from the
  cleared table, every sequence of adds (from an entry or from a configuration), removals and
  lookups returns call by call the error code and the data that the same calls return on a
  finite map from client identifiers to template, epoch and secret; and the table invariant
  (distinct valid identifiers, no zero secret, unused cells cleared) holds at the end.\<close>

theorem ribosome_table_refines_map:
  assumes "list_all rib_legal ops"
  shows "fst (run rib_step ops rib_table_zero) = fst (run rib_spec_step ops Map.empty)
    \<and> rib_table_wf (snd (run rib_step ops rib_table_zero))"
proof -
  have wf: "rib_table_wf rib_table_zero" by (simp add: rib_table_zero_of)
  have "rib_abs rib_table_zero = Map.empty"
    by (simp add: rib_abs_def rib_table_zero_of rib_abs_list_def)
  with ribosome.run_sim[OF wf assms] ribosome.run_inv[OF wf assms] show ?thesis by simp
qed

definition rib_sample :: ribosome_table_entry where
  "rib_sample = \<lparr> re_mqtt_client_id = packed 0 RIBOSOME_MQTT_CLIENT_ID_LEN (lit ''lamp''),
     re_template_id = 1, re_epoch = 7,
     re_device_secret = replicate RIBOSOME_DEVICE_SECRET_LEN 9 \<rparr>"

lemma rib_sample_facts:
  "rib_entry_fits rib_sample" "rib_entry_ok rib_sample" "rib_key rib_sample = lit ''lamp''"
  "copy_entry_sanitized rib_sample = rib_sample" "rib_id_ok (lit ''lamp'')"
  "cstr (lit ''lamp'') = lit ''lamp''"
  "rib_info_of rib_sample = (1, 7, replicate RIBOSOME_DEVICE_SECRET_LEN 9)"
proof -
  have z: "0 \<notin> set (lit ''lamp'')" and l: "length (lit ''lamp'') = 4" by (simp_all add: lit_def)
  show c: "cstr (lit ''lamp'') = lit ''lamp''" by (simp add: lit_def)
  show "rib_id_ok (lit ''lamp'')" by (simp add: rib_id_ok_def strlen_def c l)
  show "rib_key rib_sample = lit ''lamp''" using cstr_packed[OF z] by (simp add: rib_key_def rib_sample_def)
  show "rib_entry_fits rib_sample" using l by (simp add: rib_entry_fits_def rib_sample_def length_packed)
  show "rib_entry_ok rib_sample"
    using cstr_packed[OF z] l
    by (simp add: rib_entry_ok_def rib_id_ok_def rib_sample_def strlen_def bytes_all_zero_iff)
  show "copy_entry_sanitized rib_sample = rib_sample"
    using strncpy_packed[OF z, of RIBOSOME_MQTT_CLIENT_ID_LEN] l
    by (simp add: copy_entry_sanitized_def rib_sample_def ribosome_table_clear_entry_def)
  show "rib_info_of rib_sample = (1, 7, replicate RIBOSOME_DEVICE_SECRET_LEN 9)"
    by (simp add: rib_info_of_def rib_sample_def)
qed

theorem ribosome_table_refines_map_witness:
  "fst (run rib_step
     [Rib_add rib_sample, Rib_get (lit ''lamp''), Rib_add rib_sample,
      Rib_remove (lit ''lamp''), Rib_get (lit ''lamp'')] rib_table_zero) =
   [(ESP_OK, None), (ESP_OK, Some (1, 7, replicate RIBOSOME_DEVICE_SECRET_LEN 9)),
    (ESP_ERR_INVALID_STATE, None), (ESP_OK, None), (ESP_ERR_NOT_FOUND, None)]"
  using ribosome_table_refines_map[of "[Rib_add rib_sample, Rib_get (lit ''lamp''),
      Rib_add rib_sample, Rib_remove (lit ''lamp''), Rib_get (lit ''lamp'')]"]
  by (simp add: rib_sample_facts)

text \<open>C22: Removing a device erases its secret from memory: after a successful removal every
  cell of the array, the unused ones included, is either completely zero or one of the other
  devices' entries, unchanged.\<close>

theorem ribosome_remove_scrubs_secret:
  assumes "rib_table_wf t" and "ribosome_table_remove_entry (Some t) (Some c) = (ESP_OK, Some t')"
  shows "\<forall>cell \<in> set (rib_entries t'). cell = ribosome_table_clear_entry \<or>
    (cell \<in> set (rib_live t) \<and> rib_key cell \<noteq> cstr c)"
proof -
  obtain es where t: "t = rib_table_of es" and ok: "rib_list_ok es"
    using assms(1) by (rule rib_table_wfE)
  from assms(2) obtain i where fi: "find_index (\<lambda>e. rib_key e = cstr c) es = Some i"
    and t': "t' = rib_table_of (remove_nth i es)"
    by (auto simp: t rib_remove_of[OF ok] split: if_splits option.splits)
  from find_index_SomeD[OF fi] have i: "i < length es" "rib_key (es ! i) = cstr c" by auto
  have "distinct (map rib_key es)" using ok by (simp add: rib_list_ok_def)
  note rest = set_remove_nth_distinct[OF i(1) this]
  have cells: "set (rib_entries t') \<subseteq> set (remove_nth i es) \<union> {ribosome_table_clear_entry}"
    by (auto simp: t' rib_table_of_def packed_def)
  have live: "rib_live t = es" by (simp add: t)
  show ?thesis
  proof
    fix cell assume "cell \<in> set (rib_entries t')"
    with cells have "cell \<in> set (remove_nth i es) \<or> cell = ribosome_table_clear_entry" by blast
    then show "cell = ribosome_table_clear_entry \<or>
        (cell \<in> set (rib_live t) \<and> rib_key cell \<noteq> cstr c)"
      unfolding rest live i(2) by blast
  qed
qed

theorem ribosome_remove_scrubs_secret_witness:
  "rib_sample \<notin> set (rib_entries (the (snd (ribosome_table_remove_entry
     (Some (rib_table_of [rib_sample])) (Some (lit ''lamp''))))))"
proof -
  have ok: "rib_list_ok [rib_sample]" by (simp add: rib_list_ok_def rib_sample_facts)
  have r: "ribosome_table_remove_entry (Some (rib_table_of [rib_sample])) (Some (lit ''lamp''))
      = (ESP_OK, Some (rib_table_of []))"
    using rib_remove_of[OF ok] by (simp add: rib_sample_facts remove_nth_def)
  have "rib_sample \<noteq> ribosome_table_clear_entry"
    by (simp add: rib_sample_def ribosome_table_clear_entry_def)
  with ribosome_remove_scrubs_secret[OF _ r] ok show ?thesis
    by (auto simp: r rib_sample_facts)
qed

end
