(* ===== verification/Ribosome_Store.thy ===== *)
theory Ribosome_Store
  imports Ribosome_Table
begin

text \<open>
  Persistence of the device table (\<open>ribosome_store.c\<close>).  The blob is 8 + 20 * 72 + 4 bytes: an
  entry has its identifier at 0, one byte of padding, the template at 34, the epoch at 36 and the
  secret at 40.  The blob and the entries are cleared before they are filled and copied as whole
  structs, so the padding byte is zero.  Scratch copies that the code zeroizes before returning
  are not visible to a caller and have no counterpart here.
\<close>

abbreviation RIB_ENTRY_BYTES :: nat where "RIB_ENTRY_BYTES \<equiv> 72"
abbreviation RIB_CHECKSUM_OFFSET :: nat where "RIB_CHECKSUM_OFFSET \<equiv> 1448"
abbreviation RIB_STORE_BYTES :: nat where "RIB_STORE_BYTES \<equiv> 1452"

definition RIBOSOME_STORE_MAGIC :: u32 where "RIBOSOME_STORE_MAGIC = 0x5249424F"
definition RIBOSOME_STORE_VERSION :: u16 where "RIBOSOME_STORE_VERSION = 2"
definition RIB_NVS_NS :: string where "RIB_NVS_NS = ''ribosome''"
definition RIB_NVS_KEY :: string where "RIB_NVS_KEY = ''table''"

definition rib_entry_bytes :: "ribosome_table_entry \<Rightarrow> bytes" where
  "rib_entry_bytes e = re_mqtt_client_id e @ [0] @ le16 (re_template_id e) @ le32 (re_epoch e)
     @ re_device_secret e"

definition rib_entry_of_bytes :: "bytes \<Rightarrow> ribosome_table_entry" where
  "rib_entry_of_bytes bs = \<lparr> re_mqtt_client_id = take RIBOSOME_MQTT_CLIENT_ID_LEN bs,
     re_template_id = of_le16 (drop 34 bs), re_epoch = of_le32 (drop 36 bs),
     re_device_secret = take RIBOSOME_DEVICE_SECRET_LEN (drop 40 bs) \<rparr>"

text \<open>The four calls of \<open>fnv1a32_update\<close> over magic, version, entry count and entries.\<close>

definition rib_blob_checksum :: "bytes \<Rightarrow> u32" where
  "rib_blob_checksum raw =
     (let hash = 2166136261;
          hash = fnv1a32_update hash (take 4 raw);
          hash = fnv1a32_update hash (take 2 (drop 4 raw));
          hash = fnv1a32_update hash (take 2 (drop 6 raw));
          hash = fnv1a32_update hash (take (RIBOSOME_MAX_ENTRIES * RIB_ENTRY_BYTES) (drop 8 raw))
      in hash)"

text \<open>The loop over \<open>ribosome_table_add_entry\<close> of \<open>table_to_blob\<close> and \<open>blob_to_table\<close>.\<close>

fun rib_add_loop ::
  "ribosome_table \<Rightarrow> ribosome_table_entry list \<Rightarrow> esp_err \<times> ribosome_table" where
  "rib_add_loop t [] = (ESP_OK, t)"
| "rib_add_loop t (e # es) =
     (case ribosome_table_add_entry (Some t) (Some e) of
        (err, Some t') \<Rightarrow> if err \<noteq> ESP_OK then (err, rib_table_zero) else rib_add_loop t' es
      | (err, None) \<Rightarrow> (err, t))"

text \<open>
  The blob before its checksum: header, the validated entries, and the cells that stay zero.
\<close>

definition rib_blob_body :: "ribosome_table \<Rightarrow> bytes" where
  "rib_blob_body validated =
     le32 RIBOSOME_STORE_MAGIC @ le16 RIBOSOME_STORE_VERSION @ le16 (of_nat (rib_count validated))
       @ concat (map rib_entry_bytes
           (take (rib_count validated) (rib_entries validated)
            @ replicate (RIBOSOME_MAX_ENTRIES - rib_count validated) ribosome_table_clear_entry))"

definition rib_blob_entries :: "bytes \<Rightarrow> ribosome_table_entry list" where
  "rib_blob_entries raw =
     map (\<lambda>i. rib_entry_of_bytes (drop (RIB_ENTRY_BYTES * i) (drop 8 raw)))
       [0..<RIBOSOME_MAX_ENTRIES]"

definition rib_table_to_blob :: "ribosome_table option \<Rightarrow> esp_err \<times> bytes" where
  "rib_table_to_blob table =
     (case table of
        None \<Rightarrow> (ESP_ERR_INVALID_ARG, [])
      | Some t \<Rightarrow>
          if rib_count t > RIBOSOME_MAX_ENTRIES then (ESP_ERR_INVALID_ARG, [])
          else (case rib_add_loop rib_table_zero (take (rib_count t) (rib_entries t)) of
            (err, validated) \<Rightarrow>
              if err \<noteq> ESP_OK then (err, [])
              else (let body = rib_blob_body validated
                    in (ESP_OK, body @ le32 (rib_blob_checksum body)))))"

definition rib_blob_to_table :: "bytes \<Rightarrow> ribosome_table \<Rightarrow> esp_err \<times> ribosome_table" where
  "rib_blob_to_table raw out_table =
     (if of_le32 raw \<noteq> RIBOSOME_STORE_MAGIC \<or>
         of_le16 (drop 4 raw) \<noteq> RIBOSOME_STORE_VERSION \<or>
         unat (of_le16 (drop 6 raw)) > RIBOSOME_MAX_ENTRIES
      then (ESP_ERR_INVALID_VERSION, out_table)
      else if of_le32 (drop RIB_CHECKSUM_OFFSET raw) \<noteq> rib_blob_checksum raw
      then (ESP_ERR_INVALID_CRC, out_table)
      else (case rib_add_loop rib_table_zero
                   (take (unat (of_le16 (drop 6 raw))) (rib_blob_entries raw)) of
        (err, t) \<Rightarrow> if err \<noteq> ESP_OK then (err, out_table) else (ESP_OK, t)))"

definition ribosome_store_load ::
  "'n nvs_api \<Rightarrow> 'n \<Rightarrow> ribosome_table option \<Rightarrow> esp_err \<times> ribosome_table option" where
  "ribosome_store_load api n out_table = deref out_table (\<lambda>_.
     case nvs_load_blob api RIB_NVS_NS RIB_NVS_KEY RIB_STORE_BYTES n of
       (err, blob) \<Rightarrow>
         if err \<noteq> ESP_OK then (err, rib_table_zero)
         else rib_blob_to_table blob rib_table_zero)"

definition ribosome_store_load_or_init ::
  "'n nvs_api \<Rightarrow> 'n \<Rightarrow> ribosome_table option \<Rightarrow> esp_err \<times> ribosome_table option" where
  "ribosome_store_load_or_init api n out_table =
     (if out_table = None then (ESP_ERR_INVALID_ARG, None)
      else (case ribosome_store_load api n out_table of
        (err, out1) \<Rightarrow>
          if err = ESP_OK then (ESP_OK, out1)
          else if err \<noteq> ESP_ERR_NVS_NOT_FOUND then (err, out1)
          else ribosome_table_init out1))"

definition ribosome_store_save ::
  "'n nvs_api \<Rightarrow> ribosome_table option \<Rightarrow> 'n \<Rightarrow> esp_err \<times> 'n" where
  "ribosome_store_save api table n =
     (case rib_table_to_blob table of
        (err, blob) \<Rightarrow>
          if err \<noteq> ESP_OK then (err, n)
          else nvs_save_blob api RIB_NVS_NS RIB_NVS_KEY blob n)"

definition ribosome_store_erase :: "'n nvs_api \<Rightarrow> 'n \<Rightarrow> esp_err \<times> 'n" where
  "ribosome_store_erase api n = nvs_erase_blob api RIB_NVS_NS RIB_NVS_KEY n"

subsection \<open>The blob round trip\<close>

lemma rib_add_loop_of:
  assumes "rib_list_ok (es @ qs)"
  shows "rib_add_loop (rib_table_of es) qs = (ESP_OK, rib_table_of (es @ qs))"
  using assms
proof (induction qs arbitrary: es)
  case Nil
  then show ?case by simp
next
  case (Cons q qs)
  have "rib_list_ok es" "length es \<noteq> RIBOSOME_MAX_ENTRIES" "rib_entry_ok q"
    "rib_key q \<notin> rib_key ` set es" "copy_entry_sanitized q = q"
    using Cons.prems by (auto simp: rib_list_ok_def)
  then show ?case using Cons.IH[of "es @ [q]"] Cons.prems by (simp add: rib_add_entry_of)
qed

lemma length_rib_entry_bytes: "rib_entry_fits e \<Longrightarrow> length (rib_entry_bytes e) = RIB_ENTRY_BYTES"
  by (simp add: rib_entry_bytes_def rib_entry_fits_def)

lemma rib_entry_of_bytes_bytes:
  "rib_entry_fits e \<Longrightarrow> rib_entry_of_bytes (rib_entry_bytes e @ rest) = e"
  by (simp add: rib_entry_of_bytes_def rib_entry_bytes_def rib_entry_fits_def)

lemma rib_clear_fits: "rib_entry_fits ribosome_table_clear_entry"
  by (simp add: rib_entry_fits_def ribosome_table_clear_entry_def)

lemma rib_packed_fits:
  "rib_list_ok es \<Longrightarrow> e \<in> set (packed ribosome_table_clear_entry m es) \<Longrightarrow> rib_entry_fits e"
  by (auto simp: packed_def rib_list_ok_def rib_clear_fits split: if_splits)

lemma rib_blob_body_of:
  "rib_blob_body (rib_table_of es) =
     le32 RIBOSOME_STORE_MAGIC @ le16 RIBOSOME_STORE_VERSION @ le16 (of_nat (length es))
       @ concat (map rib_entry_bytes (packed ribosome_table_clear_entry RIBOSOME_MAX_ENTRIES es))"
  by (simp add: rib_blob_body_def rib_table_of_def packed_def)

lemma length_rib_blob_body:
  assumes "rib_list_ok es"
  shows "length (rib_blob_body (rib_table_of es)) = RIB_CHECKSUM_OFFSET"
proof -
  let ?ps = "packed ribosome_table_clear_entry RIBOSOME_MAX_ENTRIES es"
  have "length (concat (map rib_entry_bytes ?ps)) = RIB_ENTRY_BYTES * length ?ps"
    by (rule length_concat_chunks) (rule length_rib_entry_bytes, rule rib_packed_fits[OF assms])
  then show ?thesis using assms by (simp add: rib_blob_body_of rib_list_ok_def length_packed)
qed

lemma rib_blob_checksum_eq:
  "rib_blob_checksum raw = fnv1a32_update FNV_OFFSET (take RIB_CHECKSUM_OFFSET raw)"
proof -
  have "take RIB_CHECKSUM_OFFSET raw = take 4 raw @ take 2 (drop 4 raw) @ take 2 (drop 6 raw)
      @ take 1440 (drop 8 raw)"
    using take_add[of 4 1444 raw] take_add[of 2 1442 "drop 4 raw"] take_add[of 2 1440 "drop 6 raw"]
    by simp
  then show ?thesis by (simp add: rib_blob_checksum_def FNV_OFFSET_def fnv1a32_update_append)
qed

lemma rib_table_to_blob_of:
  assumes "rib_list_ok es"
  shows "rib_table_to_blob (Some (rib_table_of es)) = (ESP_OK, seal (rib_blob_body (rib_table_of es)))"
proof -
  have "rib_add_loop rib_table_zero es = (ESP_OK, rib_table_of es)"
    using rib_add_loop_of[of "[]" es] assms by (simp add: rib_table_zero_of)
  moreover have "rib_count (rib_table_of es) \<le> RIBOSOME_MAX_ENTRIES"
    using assms by (simp add: rib_table_of_def rib_list_ok_def)
  ultimately show ?thesis using length_rib_blob_body[OF assms]
    by (simp add: rib_table_to_blob_def seal_def rib_blob_checksum_eq Let_def)
qed

lemma rib_blob_entries_of:
  assumes "rib_list_ok es"
  shows "rib_blob_entries (rib_blob_body (rib_table_of es) @ rest)
     = packed ribosome_table_clear_entry RIBOSOME_MAX_ENTRIES es"
proof -
  let ?ps = "packed ribosome_table_clear_entry RIBOSOME_MAX_ENTRIES es"
  have "length ?ps = RIBOSOME_MAX_ENTRIES" using assms by (simp add: rib_list_ok_def length_packed)
  moreover have "drop 8 (rib_blob_body (rib_table_of es) @ rest)
      = concat (map rib_entry_bytes ?ps) @ rest"
    by (simp add: rib_blob_body_of)
  ultimately show ?thesis
    using read_chunks[of ?ps rib_entry_bytes RIB_ENTRY_BYTES rib_entry_of_bytes rest]
      rib_packed_fits[OF assms] length_rib_entry_bytes rib_entry_of_bytes_bytes
    by (simp add: rib_blob_entries_def del: drop_append)
qed

lemma rib_blob_header:
  "of_le32 (rib_blob_body (rib_table_of es) @ rest) = RIBOSOME_STORE_MAGIC"
  "of_le16 (drop 4 (rib_blob_body (rib_table_of es) @ rest)) = RIBOSOME_STORE_VERSION"
  "of_le16 (drop 6 (rib_blob_body (rib_table_of es) @ rest)) = of_nat (length es)"
  by (simp_all add: rib_blob_body_of)

lemma rib_blob_to_table_seal:
  assumes "rib_list_ok es"
  shows "rib_blob_to_table (seal (rib_blob_body (rib_table_of es))) out = (ESP_OK, rib_table_of es)"
proof -
  have n: "length es \<le> RIBOSOME_MAX_ENTRIES" using assms by (simp add: rib_list_ok_def)
  then have "unat (of_nat (length es) :: u16) = length es" by (simp add: unat_of_nat)
  moreover have "rib_add_loop rib_table_zero es = (ESP_OK, rib_table_of es)"
    using rib_add_loop_of[of "[]" es] assms by (simp add: rib_table_zero_of)
  ultimately show ?thesis
    using n length_rib_blob_body[OF assms]
    unfolding rib_blob_to_table_def seal_def rib_blob_header rib_blob_entries_of[OF assms]
    by (simp add: rib_blob_checksum_eq)
qed

lemma rib_blob_damaged:
  assumes "rib_list_ok es" and "i < RIB_STORE_BYTES"
    and "seal (rib_blob_body (rib_table_of es)) ! i \<noteq> v"
  shows "fst (rib_blob_to_table ((seal (rib_blob_body (rib_table_of es)))[i := v]) out)
     \<in> {ESP_ERR_INVALID_VERSION, ESP_ERR_INVALID_CRC}"
proof -
  let ?raw = "(seal (rib_blob_body (rib_table_of es)))[i := v]"
  have "\<not> sealed_ok RIB_CHECKSUM_OFFSET ?raw"
    using seal_detects_update[of i "rib_blob_body (rib_table_of es)" v] assms(2,3)
      length_rib_blob_body[OF assms(1)] by simp
  then have "of_le32 (drop RIB_CHECKSUM_OFFSET ?raw) \<noteq> rib_blob_checksum ?raw"
    by (simp add: sealed_ok_def rib_blob_checksum_eq)
  then show ?thesis by (simp add: rib_blob_to_table_def)
qed

interpretation rib_blob: blob_codec
  "\<lambda>t. rib_table_to_blob (Some t)" "\<lambda>raw. rib_blob_to_table raw rib_table_zero"
  rib_table_wf RIB_STORE_BYTES
proof (unfold_locales, goal_cases)
  case (1 t)
  then show ?case by (auto elim!: rib_table_wfE simp: rib_table_to_blob_of)
next
  case (2 t b)
  then show ?case by (auto elim!: rib_table_wfE simp: rib_table_to_blob_of length_rib_blob_body)
next
  case (3 t b)
  then show ?case by (auto elim!: rib_table_wfE simp: rib_table_to_blob_of rib_blob_to_table_seal)
next
  case (4 t b i v)
  from 4(1) obtain es where "t = rib_table_of es" "rib_list_ok es" by (rule rib_table_wfE)
  then show ?case using 4(2-4) rib_blob_damaged[of es i v rib_table_zero]
    by (auto simp: rib_table_to_blob_of)
qed

subsection \<open>Whatever the flash holds\<close>

lemma rib_entry_of_bytes_fits: "72 \<le> length bs \<Longrightarrow> rib_entry_fits (rib_entry_of_bytes bs)"
  by (simp add: rib_entry_fits_def rib_entry_of_bytes_def)

lemma rib_blob_entries_fit:
  "length raw = RIB_STORE_BYTES \<Longrightarrow> e \<in> set (rib_blob_entries raw) \<Longrightarrow> rib_entry_fits e"
  by (auto simp: rib_blob_entries_def intro!: rib_entry_of_bytes_fits)

lemma rib_add_loop_ok:
  assumes "rib_list_ok es" and "\<forall>q\<in>set qs. rib_entry_fits q"
    and "rib_add_loop (rib_table_of es) qs = (ESP_OK, t)"
  shows "rib_table_wf t"
  using assms
proof (induction qs arbitrary: es)
  case Nil
  then show ?case by auto
next
  case (Cons q qs)
  let ?es = "es @ [copy_entry_sanitized q]"
  have step: "rib_entry_ok q" "length es \<noteq> RIBOSOME_MAX_ENTRIES" "rib_key q \<notin> rib_key ` set es"
    "rib_add_loop (rib_table_of ?es) qs = (ESP_OK, t)"
    using Cons.prems(1,3) by (auto simp: rib_add_entry_of split: if_splits)
  have "rib_list_ok ?es"
    using rib_add_sim(1)[OF Cons.prems(1) step(2,1) _ step(3)] Cons.prems(2)
    by (simp add: rib_entry_fits_def)
  from Cons.IH[OF this _ step(4)] Cons.prems(2) show ?case by simp
qed

lemma rib_blob_to_table_wf:
  assumes "length raw = RIB_STORE_BYTES" and "rib_blob_to_table raw rib_table_zero = (e, t)"
  shows "rib_table_wf t \<and> (e \<noteq> ESP_OK \<longrightarrow> t = rib_table_zero)"
proof (cases "e = ESP_OK")
  case True
  let ?qs = "take (unat (of_le16 (drop 6 raw))) (rib_blob_entries raw)"
  from assms(2) True have "rib_add_loop (rib_table_of []) ?qs = (ESP_OK, t)"
    by (auto simp: rib_blob_to_table_def rib_table_zero_of split: if_splits prod.splits)
  moreover have "\<forall>q\<in>set ?qs. rib_entry_fits q"
    using rib_blob_entries_fit[OF assms(1)] by (auto dest: in_set_takeD)
  ultimately show ?thesis using rib_add_loop_ok[OF rib_list_ok_Nil] True by blast
next
  case False
  then have "t = rib_table_zero"
    using assms(2) by (auto simp: rib_blob_to_table_def split: if_splits prod.splits)
  then show ?thesis by (simp add: rib_table_zero_of)
qed

lemma rib_sample_ok: "rib_list_ok [rib_sample]"
  by (simp add: rib_list_ok_def rib_sample_facts)

lemma rib_sample_blob:
  "rib_table_to_blob (Some (rib_table_of [rib_sample])) =
     (ESP_OK, seal (rib_blob_body (rib_table_of [rib_sample])))"
  by (rule rib_table_to_blob_of[OF rib_sample_ok])

subsection \<open>Properties\<close>

lemma rib_store_save_load:
  assumes "nvs_durable api" and "rib_table_wf t"
    and "ribosome_store_save api (Some t) n = (ESP_OK, n')"
  shows "ribosome_store_load_or_init api n' (Some u) = (ESP_OK, Some t)"
proof -
  obtain b where b: "rib_table_to_blob (Some t) = (ESP_OK, b)"
    using rib_blob.encode_total[OF assms(2)] by blast
  then have "nvs_save_blob api RIB_NVS_NS RIB_NVS_KEY b n = (ESP_OK, n')"
    using assms(3) by (simp add: ribosome_store_save_def)
  from rib_blob.load_after_save[OF assms(1,2) b this] show ?thesis
    by (auto simp: ribosome_store_load_or_init_def ribosome_store_load_def)
qed

text \<open>The enrolled devices survive a restart: a table that was saved successfully is read
  back unchanged, identifiers, templates, epochs and secrets included, provided NVS keeps what
  was committed.\<close>

theorem ribosome_save_then_load:
  assumes "nvs_durable api" and "rib_table_wf t"
    and "ribosome_store_save api (Some t) n = (ESP_OK, n')"
  shows "ribosome_store_load_or_init api n' (Some u) = (ESP_OK, Some t)"
  by (rule rib_store_save_load[OF assms])

theorem ribosome_save_then_load_witness:
  "ribosome_store_load_or_init nvs_mem_api
     (snd (ribosome_store_save nvs_mem_api (Some (rib_table_of [rib_sample])) []))
     (Some rib_table_zero) = (ESP_OK, Some (rib_table_of [rib_sample]))"
proof -
  have "ribosome_store_save nvs_mem_api (Some (rib_table_of [rib_sample])) [] =
      (ESP_OK, [((RIB_NVS_NS, RIB_NVS_KEY), seal (rib_blob_body (rib_table_of [rib_sample])))])"
    by (simp add: ribosome_store_save_def rib_sample_blob nvs_save_blob_def nvs_mem_api_def)
  with ribosome_save_then_load[OF nvs_mem_durable _ this] rib_sample_ok show ?thesis by simp
qed

lemma rib_store_load_wf:
  "\<exists>e t. ribosome_store_load api n (Some u) = (e, Some t) \<and> rib_table_wf t \<and>
     (e = ESP_OK \<or> t = rib_table_zero)"
proof -
  obtain e b where l: "nvs_load_blob api RIB_NVS_NS RIB_NVS_KEY RIB_STORE_BYTES n = (e, b)"
    by (metis surj_pair)
  show ?thesis
  proof (cases "e = ESP_OK")
    case True
    obtain e' t where "rib_blob_to_table b rib_table_zero = (e', t)" by (metis surj_pair)
    with rib_blob_to_table_wf[OF nvs_load_blobD(1)[OF l True] this] True l show ?thesis
      by (auto simp: ribosome_store_load_def)
  next
    case False
    with l show ?thesis by (simp add: ribosome_store_load_def rib_table_zero_of)
  qed
qed

text \<open>C23: Whatever bytes the flash holds, the device table is well formed after loading, and
  completely cleared when loading reports an error: no partially validated entry is ever used.\<close>

theorem ribosome_load_wf:
  "\<exists>e t. ribosome_store_load api n (Some u) = (e, Some t) \<and> rib_table_wf t \<and>
     (e = ESP_OK \<or> t = rib_table_zero)"
  by (rule rib_store_load_wf)

text \<open>C24: One damaged byte anywhere in the stored device table, the checksum included, is
  noticed: the load fails with a version or checksum error and no device is enrolled.\<close>

theorem ribosome_damaged_blob_refused:
  assumes "rib_table_wf t" and "rib_table_to_blob (Some t) = (ESP_OK, b)"
    and "i < RIB_STORE_BYTES" and "b ! i \<noteq> v"
    and "nvs_load_blob api RIB_NVS_NS RIB_NVS_KEY RIB_STORE_BYTES n = (ESP_OK, b[i := v])"
  shows "fst (ribosome_store_load api n (Some u)) \<in> {ESP_ERR_INVALID_VERSION, ESP_ERR_INVALID_CRC}
    \<and> snd (ribosome_store_load api n (Some u)) = Some rib_table_zero"
proof -
  obtain es where t: "t = rib_table_of es" and ok: "rib_list_ok es"
    using assms(1) by (rule rib_table_wfE)
  have b: "b = seal (rib_blob_body (rib_table_of es))"
    using assms(2) by (simp add: t rib_table_to_blob_of[OF ok])
  obtain e u' where r: "rib_blob_to_table (b[i := v]) rib_table_zero = (e, u')"
    by (metis surj_pair)
  have e: "e \<in> {ESP_ERR_INVALID_VERSION, ESP_ERR_INVALID_CRC}"
    using rib_blob_damaged[OF ok assms(3) assms(4)[unfolded b], of rib_table_zero] r by (simp add: b)
  have "length (b[i := v]) = RIB_STORE_BYTES" using nvs_load_blobD(1)[OF assms(5)] by simp
  from rib_blob_to_table_wf[OF this r] e have "u' = rib_table_zero" by auto
  with r e assms(5) show ?thesis by (auto simp: ribosome_store_load_def)
qed

theorem ribosome_damaged_blob_refused_witness:
  "snd (ribosome_store_load nvs_mem_api
     [((RIB_NVS_NS, RIB_NVS_KEY),
        (snd (rib_table_to_blob (Some (rib_table_of [rib_sample]))))[0 := 0])]
     (Some rib_table_zero)) = Some rib_table_zero"
proof -
  let ?b = "seal (rib_blob_body (rib_table_of [rib_sample]))"
  have "?b ! 0 \<noteq> 0"
    by (simp add: seal_def rib_blob_body_def le32_def RIBOSOME_STORE_MAGIC_def)
  moreover have "nvs_load_blob nvs_mem_api RIB_NVS_NS RIB_NVS_KEY RIB_STORE_BYTES
      [((RIB_NVS_NS, RIB_NVS_KEY), ?b[0 := 0])] = (ESP_OK, ?b[0 := 0])"
    using length_rib_blob_body[OF rib_sample_ok] by (simp add: nvs_load_blob_def nvs_mem_api_def)
  ultimately show ?thesis
    using ribosome_damaged_blob_refused[OF _ rib_sample_blob, of 0 0 nvs_mem_api _ rib_table_zero]
      rib_sample_ok rib_sample_blob by simp
qed

text \<open>Erasing the store un-enrols every device: once the erase has been committed, the next
  start loads the empty table and reports success.\<close>

theorem ribosome_erase_then_load:
  assumes "nvs_erases api" and "nvs_open_rw api RIB_NVS_NS n = (ESP_OK, n1)"
    and "ribosome_store_erase api n = (ESP_OK, n')"
  shows "ribosome_store_load_or_init api n' (Some u) = (ESP_OK, Some rib_table_zero)"
proof -
  obtain e n2 where e: "nvs_erase_key api RIB_NVS_NS RIB_NVS_KEY n1 = (e, n2)" by (metis surj_pair)
  then have "e = ESP_OK \<or> e = ESP_ERR_NVS_NOT_FOUND" "nvs_commit api RIB_NVS_NS n2 = (ESP_OK, n')"
    using assms(2,3)
    by (auto simp: ribosome_store_erase_def nvs_erase_blob_def Let_def split: if_splits)
  with assms(1,2) e have "nvs_open_ro api RIB_NVS_NS n' = ESP_OK"
    "fst (nvs_get_blob api RIB_NVS_NS RIB_NVS_KEY RIB_STORE_BYTES n') = ESP_ERR_NVS_NOT_FOUND"
    unfolding nvs_erases_def by blast+
  then show ?thesis
    by (auto simp: ribosome_store_load_or_init_def ribosome_store_load_def nvs_load_blob_def
        ribosome_table_init_def split: prod.splits)
qed

theorem ribosome_erase_then_load_witness:
  "ribosome_store_load_or_init nvs_mem_api
     (snd (ribosome_store_erase nvs_mem_api [((RIB_NVS_NS, RIB_NVS_KEY), [1, 2, 3])]))
     (Some (rib_table_of [rib_sample])) = (ESP_OK, Some rib_table_zero)"
proof -
  have o: "nvs_open_rw nvs_mem_api RIB_NVS_NS [((RIB_NVS_NS, RIB_NVS_KEY), [1, 2, 3])]
      = (ESP_OK, [((RIB_NVS_NS, RIB_NVS_KEY), [1, 2, 3])])"
    and e: "ribosome_store_erase nvs_mem_api [((RIB_NVS_NS, RIB_NVS_KEY), [1, 2, 3])] = (ESP_OK, [])"
    by (simp_all add: ribosome_store_erase_def nvs_erase_blob_def nvs_mem_api_def)
  from ribosome_erase_then_load[OF nvs_mem_erases o e] show ?thesis by (simp add: e)
qed

end
