(* ===== verification/Cortex_Membrane.thy ===== *)
theory Cortex_Membrane
  imports Ribosome_Store
begin

text \<open>
  The membrane of the cortex (\<open>cortex/src/logic/membrane.rs\<close>): the device table and the template
  table in one object, with the checks that tie them together.  \<open>Result\<close> is the error code, with
  \<open>ESP_OK\<close> for \<open>Ok(())\<close>; the C functions are called through \<open>esp_result\<close>, which does the same.
\<close>

record membrane =
  mem_ribosome_table :: ribosome_table
  mem_rna_templates :: rna_template_table
  mem_initialized :: bool

definition membrane_new :: membrane where
  "membrane_new = \<lparr> mem_ribosome_table = rib_table_zero, mem_rna_templates = rna_table_zero,
     mem_initialized = False \<rparr>"

definition membrane_init :: "'n nvs_api \<Rightarrow> 'n \<Rightarrow> membrane \<Rightarrow> esp_err \<times> membrane" where
  "membrane_init api n m =
     (case ribosome_store_load_or_init api n (Some (mem_ribosome_table m)) of
        (err, t) \<Rightarrow>
          (let m = m \<lparr> mem_ribosome_table := the t \<rparr> in
           if err \<noteq> ESP_OK then (err, m \<lparr> mem_initialized := False \<rparr>)
           else (case rna_membrane_load_or_init api n (Some (mem_rna_templates m)) of
               (err, u) \<Rightarrow>
                 (let m = m \<lparr> mem_rna_templates := the u \<rparr> in
                  if err \<noteq> ESP_OK then (err, m \<lparr> mem_initialized := False \<rparr>)
                  else (ESP_OK, m \<lparr> mem_initialized := True \<rparr>)))))"

definition membrane_save :: "'n nvs_api \<Rightarrow> membrane \<Rightarrow> 'n \<Rightarrow> esp_err \<times> 'n" where
  "membrane_save api m n =
     (if \<not> mem_initialized m then (ESP_ERR_INVALID_STATE, n)
      else (case ribosome_store_save api (Some (mem_ribosome_table m)) n of
          (err, n) \<Rightarrow>
            if err \<noteq> ESP_OK then (err, n)
            else rna_membrane_save api (Some (mem_rna_templates m)) n))"

definition find_template :: "membrane \<Rightarrow> rna_template_id_t \<Rightarrow> rna_template option" where
  "find_template m template_id =
     (if \<not> mem_initialized m then None
      else rna_template_table_find (Some (mem_rna_templates m)) template_id)"

definition membrane_allows :: "membrane \<Rightarrow> ribosome_table_entry \<Rightarrow> amino_acid_id_t \<Rightarrow> i32 option \<Rightarrow> bool" where
  "membrane_allows m device amino_id payload =
     (if \<not> mem_initialized m then False
      else if \<not> ribosome_template_id_valid (re_template_id device) then False
      else if amino_acid_validate_payload amino_id payload \<noteq> ESP_OK then False
      else (case find_template m (re_template_id device) of
          Some template_rule \<Rightarrow> rna_template_allows (Some template_rule) amino_id
        | None \<Rightarrow> False))"

definition get_device ::
  "membrane \<Rightarrow> bytes option \<Rightarrow> ribosome_table_entry \<Rightarrow> esp_err \<times> ribosome_table_entry" where
  "get_device m mqtt_client_id out_device =
     (if \<not> mem_initialized m then (ESP_ERR_INVALID_STATE, out_device)
      else (case ribosome_table_get_entry (Some (mem_ribosome_table m)) mqtt_client_id (Some out_device) of
          (err, out) \<Rightarrow> (err, the out)))"

definition add_device :: "ribosome_entry_config \<Rightarrow> membrane \<Rightarrow> esp_err \<times> membrane" where
  "add_device config m =
     (if \<not> mem_initialized m then (ESP_ERR_INVALID_STATE, m)
      else if find_template m (rc_template_id config) = None then (ESP_ERR_NOT_FOUND, m)
      else (case ribosome_table_add_from_config (Some (mem_ribosome_table m)) (Some config) of
          (err, t) \<Rightarrow> (err, m \<lparr> mem_ribosome_table := the t \<rparr>)))"

definition remove_device :: "bytes option \<Rightarrow> membrane \<Rightarrow> esp_err \<times> membrane" where
  "remove_device mqtt_client_id m =
     (if \<not> mem_initialized m then (ESP_ERR_INVALID_STATE, m)
      else (case ribosome_table_remove_entry (Some (mem_ribosome_table m)) mqtt_client_id of
          (err, t) \<Rightarrow> (err, m \<lparr> mem_ribosome_table := the t \<rparr>)))"

text \<open>The two loops over at most 33 characters.\<close>

definition mqtt_client_id_valid :: "bytes option \<Rightarrow> bool" where
  "mqtt_client_id_valid mqtt_client_id =
     (case mqtt_client_id of
        None \<Rightarrow> False
      | Some s \<Rightarrow> if rd s 0 = 0 then False
                  else list_ex (\<lambda>i. rd s i = 0) [0..<RIBOSOME_MQTT_CLIENT_ID_LEN])"

definition mqtt_client_id_equal :: "bytes option \<Rightarrow> bytes option \<Rightarrow> bool" where
  "mqtt_client_id_equal a b =
     (case (a, b) of
        (Some x, Some y) \<Rightarrow> strncmp_eq x y RIBOSOME_MQTT_CLIENT_ID_LEN
      | _ \<Rightarrow> False)"

text \<open>The position of the slot whose reference the code returns.\<close>

definition find_device_slot :: "ribosome_table \<Rightarrow> bytes option \<Rightarrow> nat option" where
  "find_device_slot t mqtt_client_id =
     (if \<not> mqtt_client_id_valid mqtt_client_id then None
      else find_index (\<lambda>e. mqtt_client_id_equal (Some (re_mqtt_client_id e)) mqtt_client_id)
             (take (rib_count t) (rib_entries t)))"

definition find_template_slot :: "rna_template_table \<Rightarrow> rna_template_id_t \<Rightarrow> nat option" where
  "find_template_slot t template_id =
     (if \<not> rna_template_id_valid template_id then None
      else find_index (\<lambda>r. rt_id r = template_id) (take (rtt_count t) (rtt_templates t)))"

definition assign_template :: "bytes option \<Rightarrow> rna_template_id_t \<Rightarrow> membrane \<Rightarrow> esp_err \<times> membrane" where
  "assign_template mqtt_client_id template_id m =
     (if \<not> mem_initialized m then (ESP_ERR_INVALID_STATE, m)
      else if find_template m template_id = None then (ESP_ERR_NOT_FOUND, m)
      else (let t = mem_ribosome_table m in
        case find_device_slot t mqtt_client_id of
          Some i \<Rightarrow> (ESP_OK, m \<lparr> mem_ribosome_table := t \<lparr> rib_entries :=
            (rib_entries t)[i := (rib_entries t ! i) \<lparr> re_template_id := template_id \<rparr>] \<rparr> \<rparr>)
        | None \<Rightarrow> (if mqtt_client_id_valid mqtt_client_id then ESP_ERR_NOT_FOUND
                   else ESP_ERR_INVALID_ARG, m)))"

definition template_in_use :: "membrane \<Rightarrow> rna_template_id_t \<Rightarrow> bool" where
  "template_in_use m template_id =
     (if \<not> mem_initialized m \<or> \<not> rna_template_id_valid template_id then False
      else list_ex (\<lambda>e. re_template_id e = template_id)
             (take (rib_count (mem_ribosome_table m)) (rib_entries (mem_ribosome_table m))))"

definition add_template :: "rna_template \<Rightarrow> membrane \<Rightarrow> esp_err \<times> membrane" where
  "add_template template_rule m =
     (if \<not> mem_initialized m then (ESP_ERR_INVALID_STATE, m)
      else (case rna_template_table_add (Some (mem_rna_templates m)) (Some template_rule) of
          (err, t) \<Rightarrow> (err, m \<lparr> mem_rna_templates := the t \<rparr>)))"

text \<open>\<open>for i in 0..limit\<close>, \<open>limit = min (dst.len() - 1) src.len()\<close>, with the early return.\<close>

fun copy_c_chars :: "nat \<Rightarrow> nat \<Rightarrow> bytes \<Rightarrow> bytes \<Rightarrow> bytes" where
  "copy_c_chars i 0 dst src = dst[i := 0]"
| "copy_c_chars i (Suc k) dst src =
     (if src ! i = 0 then dst[i := src ! i]
      else copy_c_chars (Suc i) k (dst[i := src ! i]) src)"

definition copy_c_char_buffer :: "bytes \<Rightarrow> bytes \<Rightarrow> bytes" where
  "copy_c_char_buffer dst src =
     (if dst = [] then dst else copy_c_chars 0 (min (length dst - 1) (length src)) dst src)"

definition rs_copy_template_sanitized :: "rna_template \<Rightarrow> rna_template" where
  "rs_copy_template_sanitized src =
     rna_template_clear \<lparr> rt_id := rt_id src, rt_amino_count := rt_amino_count src,
       rt_flags := rt_flags src, rt_name := copy_c_char_buffer (rt_name rna_template_clear) (rt_name src),
       rt_aminos := rt_aminos src \<rparr>"

definition replace_template :: "rna_template \<Rightarrow> membrane \<Rightarrow> esp_err \<times> membrane" where
  "replace_template template_rule m =
     (if \<not> mem_initialized m then (ESP_ERR_INVALID_STATE, m)
      else if rna_template_validate (Some template_rule) \<noteq> ESP_OK then (ESP_ERR_INVALID_ARG, m)
      else (let t = mem_rna_templates m in
        case find_template_slot t (rt_id template_rule) of
          Some i \<Rightarrow> (ESP_OK, m \<lparr> mem_rna_templates := t \<lparr> rtt_templates :=
            (rtt_templates t)[i := rs_copy_template_sanitized template_rule] \<rparr> \<rparr>)
        | None \<Rightarrow> (ESP_ERR_NOT_FOUND, m)))"

definition remove_template :: "rna_template_id_t \<Rightarrow> membrane \<Rightarrow> esp_err \<times> membrane" where
  "remove_template template_id m =
     (if \<not> mem_initialized m then (ESP_ERR_INVALID_STATE, m)
      else if \<not> rna_template_id_valid template_id then (ESP_ERR_INVALID_ARG, m)
      else if template_in_use m template_id then (ESP_ERR_INVALID_STATE, m)
      else (let t = mem_rna_templates m in
        case find_index (\<lambda>r. rt_id r = template_id) (take (rtt_count t) (rtt_templates t)) of
          Some i \<Rightarrow> (ESP_OK, m \<lparr> mem_rna_templates := t \<lparr>
            rtt_templates := (shift_down rs_copy_template_sanitized i (rtt_count t) (rtt_templates t))
              [rtt_count t - 1 := rna_template_clear],
            rtt_count := rtt_count t - 1 \<rparr> \<rparr>)
        | None \<Rightarrow> (ESP_ERR_NOT_FOUND, m)))"

subsection \<open>The copy of a template\<close>

lemma copy_c_chars_spec:
  "length pre = i \<Longrightarrow> k \<le> length rest \<Longrightarrow> copy_c_chars i k (pre @ replicate (Suc k) 0) (pre @ rest)
     = pre @ take k (cstr rest) @ replicate (Suc k - length (take k (cstr rest))) 0"
proof (induction k arbitrary: i pre rest)
  case 0
  then show ?case by (simp add: list_update_append)
next
  case (Suc k)
  then obtain b rest' where r: "rest = b # rest'" by (cases rest) auto
  have "(pre @ replicate (Suc (Suc k)) 0)[i := b] = (pre @ [b]) @ replicate (Suc k) 0"
    using Suc.prems(1) by (simp add: list_update_append)
  moreover have "(pre @ rest) ! i = b" using r by (simp flip: Suc.prems(1))
  ultimately show ?case using Suc.IH[of "pre @ [b]" "Suc i" rest'] Suc.prems r by auto
qed

lemma rs_copy_template_sanitized_eq:
  assumes "length (rt_name r) = RNA_TEMPLATE_NAME_LEN"
  shows "rs_copy_template_sanitized r = copy_template_sanitized r"
proof -
  have "copy_c_char_buffer (replicate 32 0) (rt_name r)
      = take 31 (cstr (rt_name r)) @ replicate (32 - length (take 31 (cstr (rt_name r)))) 0"
    using copy_c_chars_spec[of "[]" 0 31 "rt_name r"] assms by (simp add: copy_c_char_buffer_def)
  also have "\<dots> = strncpy (replicate 32 0) (rt_name r) 31"
  proof (cases "length (cstr (rt_name r)) \<le> 31")
    case True
    have "replicate (31 - length (cstr (rt_name r))) (0 :: u8) @ [0]
        = replicate (Suc (31 - length (cstr (rt_name r)))) 0" by (simp add: replicate_append_same)
    moreover have "Suc (31 - length (cstr (rt_name r))) = 32 - length (cstr (rt_name r))" using True by simp
    ultimately show ?thesis using True by (simp only: strncpy_zeroed) simp
  qed (simp add: strncpy_zeroed)
  finally show ?thesis
    by (simp add: rs_copy_template_sanitized_def copy_template_sanitized_def rna_template_clear_def)
qed

subsection \<open>The two tables agree\<close>

text \<open>Every device refers to a template of the table.\<close>

definition membrane_wf :: "membrane \<Rightarrow> bool" where
  "membrane_wf m \<longleftrightarrow> mem_initialized m \<and> rib_table_wf (mem_ribosome_table m) \<and>
     rna_table_wf (mem_rna_templates m) \<and>
     re_template_id ` set (rib_live (mem_ribosome_table m)) \<subseteq> rt_id ` set (rna_live (mem_rna_templates m))"

datatype mem_op =
    Mem_add_device ribosome_entry_config
  | Mem_remove_device "bytes option"
  | Mem_assign_template "bytes option" rna_template_id_t
  | Mem_add_template rna_template
  | Mem_replace_template rna_template
  | Mem_remove_template rna_template_id_t

fun mem_step :: "mem_op \<Rightarrow> membrane \<Rightarrow> esp_err \<times> membrane" where
  "mem_step (Mem_add_device c) m = add_device c m"
| "mem_step (Mem_remove_device c) m = remove_device c m"
| "mem_step (Mem_assign_template c t) m = assign_template c t m"
| "mem_step (Mem_add_template r) m = add_template r m"
| "mem_step (Mem_replace_template r) m = replace_template r m"
| "mem_step (Mem_remove_template t) m = remove_template t m"

text \<open>Arguments have the sizes of the structures they stand for.\<close>

fun mem_legal :: "mem_op \<Rightarrow> bool" where
  "mem_legal (Mem_add_device c) =
     (case rc_device_secret c of None \<Rightarrow> True | Some d \<Rightarrow> length d = RIBOSOME_DEVICE_SECRET_LEN)"
| "mem_legal (Mem_add_template r) = rna_template_fits r"
| "mem_legal (Mem_replace_template r) = rna_template_fits r"
| "mem_legal x = True"

text \<open>A well-formed membrane is given by its devices \<open>es\<close> and its templates \<open>rs\<close>.\<close>

definition membrane_of :: "ribosome_table_entry list \<Rightarrow> rna_template list \<Rightarrow> membrane" where
  "membrane_of es rs = \<lparr> mem_ribosome_table = rib_table_of es, mem_rna_templates = rna_table_of rs,
     mem_initialized = True \<rparr>"

definition mem_ok :: "ribosome_table_entry list \<Rightarrow> rna_template list \<Rightarrow> bool" where
  "mem_ok es rs \<longleftrightarrow> rib_list_ok es \<and> rna_templates_ok rs \<and> re_template_id ` set es \<subseteq> rt_id ` set rs"

lemma membrane_wf_of: "membrane_wf m \<longleftrightarrow> (\<exists>es rs. m = membrane_of es rs \<and> mem_ok es rs)"
proof
  assume "membrane_wf m"
  then show "\<exists>es rs. m = membrane_of es rs \<and> mem_ok es rs"
    by (intro exI[of _ "rib_live (mem_ribosome_table m)"] exI[of _ "rna_live (mem_rna_templates m)"], cases m)
      (simp add: membrane_wf_def membrane_of_def mem_ok_def rib_table_wf_def rna_table_wf_def)
qed (elim exE conjE, simp add: membrane_wf_def membrane_of_def mem_ok_def)

lemma find_template_of:
  "rna_templates_ok rs \<Longrightarrow> find_template (membrane_of es rs) i = find (\<lambda>r. rt_id r = i) rs"
  by (simp add: find_template_def membrane_of_def rna_table_find_of)

lemma find_template_None_of:
  "rna_templates_ok rs \<Longrightarrow> find_template (membrane_of es rs) i = None \<longleftrightarrow> i \<notin> rt_id ` set rs"
  by (simp add: find_template_of find_key_None_iff)

lemma membrane_of_simps [simp]:
  "mem_initialized (membrane_of es rs)" "mem_ribosome_table (membrane_of es rs) = rib_table_of es"
  "mem_rna_templates (membrane_of es rs) = rna_table_of rs"
  "(membrane_of es rs) \<lparr> mem_ribosome_table := rib_table_of es' \<rparr> = membrane_of es' rs"
  "(membrane_of es rs) \<lparr> mem_rna_templates := rna_table_of rs' \<rparr> = membrane_of es rs'"
  by (simp_all add: membrane_of_def)

lemma membrane_of_wf [simp]: "membrane_wf (membrane_of es rs) \<longleftrightarrow> mem_ok es rs"
  by (simp add: membrane_wf_def membrane_of_def mem_ok_def)

lemma packed_update: "i < length xs \<Longrightarrow> (packed b n xs)[i := x] = packed b n (xs[i := x])"
  by (simp add: packed_def list_update_append)

lemma find_device_slot_of:
  assumes "rib_list_ok es" and "find_device_slot (rib_table_of es) (Some c) = Some i"
  shows "i < length es"
  using assms find_index_SomeD(1)[of _ es i]
  by (auto simp: find_device_slot_def split: if_splits)

lemma add_device_wf:
  assumes "mem_ok es rs" and "mem_legal (Mem_add_device c)"
  shows "membrane_wf (snd (add_device c (membrane_of es rs)))"
proof -
  have ok: "rib_list_ok es" "rna_templates_ok rs" "re_template_id ` set es \<subseteq> rt_id ` set rs"
    using assms(1) by (simp_all add: mem_ok_def)
  let ?e = "copy_entry_sanitized (rib_config_entry c)"
  have "mem_ok (es @ [?e]) rs"
    if "length es < RIBOSOME_MAX_ENTRIES" "rib_config_full c" "rib_entry_ok (rib_config_entry c)"
      "rib_key (rib_config_entry c) \<notin> rib_key ` set es" "rc_template_id c \<in> rt_id ` set rs"
    using rib_list_ok_snoc[OF ok(1) that(1,3) _ that(4)] that(2,5) ok assms(2)
    by (auto simp: mem_ok_def rib_config_entry_def rib_config_full_def)
  moreover have "rib_key (rib_config_entry c) = cstr (the (rc_mqtt_client_id c))"
    by (simp add: rib_key_def rib_config_entry_def)
  moreover have "length es \<le> RIBOSOME_MAX_ENTRIES" using ok(1) by (simp add: rib_list_ok_def)
  ultimately show ?thesis using ok assms(1)
    by (auto simp: add_device_def rib_add_config_of find_template_None_of membrane_of_wf)
qed

lemma remove_device_wf:
  assumes "mem_ok es rs"
  shows "membrane_wf (snd (remove_device c (membrane_of es rs)))"
proof (cases c)
  case None
  then show ?thesis using assms
    by (auto simp: remove_device_def ribosome_table_remove_entry_def membrane_of_wf)
next
  case (Some x)
  have "mem_ok (remove_nth i es) rs" for i
    using assms rib_list_ok_remove[of es i]
    by (auto simp: mem_ok_def remove_nth_def dest: in_set_takeD in_set_dropD)
  then show ?thesis using assms Some
    by (auto simp: remove_device_def rib_remove_of mem_ok_def membrane_of_wf split: option.splits if_splits)
qed

lemma assign_template_wf:
  assumes "mem_ok es rs"
  shows "membrane_wf (snd (assign_template c i (membrane_of es rs)))"
proof (cases "i \<in> rt_id ` set rs \<and> (\<exists>j. find_device_slot (rib_table_of es) c = Some j)")
  case True
  then obtain j where i: "i \<in> rt_id ` set rs" and j: "find_device_slot (rib_table_of es) c = Some j" by blast
  have ok: "rib_list_ok es" "rna_templates_ok rs" "re_template_id ` set es \<subseteq> rt_id ` set rs"
    using assms(1) by (simp_all add: mem_ok_def)
  obtain x where "c = Some x" using j by (cases c) (auto simp: find_device_slot_def mqtt_client_id_valid_def)
  then have l: "j < length es" using find_device_slot_of[OF ok(1)] j by simp
  let ?e = "(es ! j) \<lparr> re_template_id := i \<rparr>"
  have e: "rib_entry_ok (es ! j)" "rib_entry_fits (es ! j)" "copy_entry_sanitized (es ! j) = es ! j"
    using ok(1) l by (auto simp: rib_list_ok_def)
  have "i \<noteq> 0" using i ok(2) by (auto simp: rna_templates_ok_def rna_template_ok_def)
  with e have "rib_entry_ok ?e \<and> rib_entry_fits ?e" by (auto simp: rib_entry_ok_def rib_entry_fits_def)
  moreover have "copy_entry_sanitized ?e = (copy_entry_sanitized (es ! j)) \<lparr> re_template_id := i \<rparr>"
    by (simp add: copy_entry_sanitized_def ribosome_table_clear_entry_def)
  with e(3) have "copy_entry_sanitized ?e = ?e" by simp
  moreover have "map rib_key (es[j := ?e]) = map rib_key es"
    using l list_update_id[of "map rib_key es" j] by (simp add: map_update rib_key_def)
  ultimately have "rib_list_ok (es[j := ?e])"
    using ok(1) set_update_subset_insert[of es j ?e] by (auto simp: rib_list_ok_def)
  moreover have "re_template_id ` set (es[j := ?e]) \<subseteq> insert i (re_template_id ` set es)"
    using image_mono[OF set_update_subset_insert[of es j ?e], of re_template_id] by simp
  ultimately have "mem_ok (es[j := ?e]) rs" using ok i by (auto simp: mem_ok_def)
  moreover have "(rib_table_of es) \<lparr> rib_entries := (rib_entries (rib_table_of es))
      [j := (rib_entries (rib_table_of es) ! j) \<lparr> re_template_id := i \<rparr>] \<rparr> = rib_table_of (es[j := ?e])"
    using l by (simp add: rib_table_of_def packed_update nth_packed)
  ultimately show ?thesis using i j ok
    by (auto simp: assign_template_def find_template_None_of Let_def membrane_of_wf)
next
  case False
  then show ?thesis using assms
    by (auto simp: assign_template_def find_template_None_of Let_def membrane_of_wf mem_ok_def split: option.splits)
qed

lemma add_template_wf:
  assumes "mem_ok es rs" and "rna_template_fits r"
  shows "membrane_wf (snd (add_template r (membrane_of es rs)))"
proof -
  have ok: "rib_list_ok es" "rna_templates_ok rs" "re_template_id ` set es \<subseteq> rt_id ` set rs"
    using assms(1) by (simp_all add: mem_ok_def)
  have "mem_ok es (rs @ [copy_template_sanitized r])"
    if "length rs \<noteq> RNA_MAX_TEMPLATES" "rna_template_ok r" "rt_id r \<notin> rt_id ` set rs"
    using rna_templates_ok_snoc[OF ok(2) _ that(2) assms(2) that(3)] that(1) ok
    by (auto simp: mem_ok_def rna_templates_ok_def)
  then show ?thesis using ok assms(1) by (auto simp: add_template_def rna_table_add_of membrane_of_wf)
qed

lemma replace_template_wf:
  assumes "mem_ok es rs" and "rna_template_fits r"
  shows "membrane_wf (snd (replace_template r (membrane_of es rs)))"
proof (cases "rna_template_ok r \<and> (\<exists>i. find_index (\<lambda>x. rt_id x = rt_id r) rs = Some i)")
  case True
  then obtain i where i: "find_index (\<lambda>x. rt_id x = rt_id r) rs = Some i" and r: "rna_template_ok r" by blast
  have l: "i < length rs" "rt_id (rs ! i) = rt_id r" using find_index_SomeD[OF i] by simp_all
  have ok: "rib_list_ok es" "rna_templates_ok rs" "re_template_id ` set es \<subseteq> rt_id ` set rs"
    using assms(1) by (simp_all add: mem_ok_def)
  let ?x = "copy_template_sanitized r"
  have x: "rs_copy_template_sanitized r = ?x"
    using assms(2) rs_copy_template_sanitized_eq by (simp add: rna_template_fits_def)
  have "map rt_id (rs[i := ?x]) = map rt_id rs"
    using l list_update_id[of "map rt_id rs" i] by (simp add: map_update)
  moreover from this have "rt_id ` set (rs[i := ?x]) = rt_id ` set rs" by (metis set_map)
  ultimately have "mem_ok es (rs[i := ?x])"
    using ok r assms(2) rna_template_ok_sanitized rna_template_fits_sanitized copy_template_sanitized_idem
      set_update_subset_insert[of rs i ?x]
    by (auto simp: mem_ok_def rna_templates_ok_def)
  moreover have "rna_table_of rs \<lparr> rtt_templates := (rtt_templates (rna_table_of rs))[i := ?x] \<rparr>
      = rna_table_of (rs[i := ?x])" using l by (simp add: rna_table_of_def packed_update)
  moreover have "take (rtt_count (rna_table_of rs)) (rtt_templates (rna_table_of rs)) = rs"
    by (simp add: rna_table_of_def)
  ultimately show ?thesis using i r x
    by (auto simp: replace_template_def rna_template_validate_eq find_template_slot_def Let_def
        rna_template_ok_def rna_template_id_valid_def membrane_of_wf)
next
  case False
  moreover have "take (rtt_count (rna_table_of rs)) (rtt_templates (rna_table_of rs)) = rs"
    by (simp add: rna_table_of_def)
  ultimately show ?thesis using assms
    by (auto simp: replace_template_def rna_template_validate_eq find_template_slot_def Let_def membrane_of_wf
        split: option.splits)
qed

lemma remove_template_wf:
  assumes "mem_ok es rs"
  shows "membrane_wf (snd (remove_template t (membrane_of es rs)))"
proof (cases "t \<notin> re_template_id ` set es \<and> (\<exists>i. find_index (\<lambda>x. rt_id x = t) rs = Some i)")
  case True
  then obtain i where i: "find_index (\<lambda>x. rt_id x = t) rs = Some i" and u: "t \<notin> re_template_id ` set es" by blast
  have l: "i < length rs" "rt_id (rs ! i) = t" using find_index_SomeD[OF i] by simp_all
  have ok: "rib_list_ok es" "rna_templates_ok rs" "re_template_id ` set es \<subseteq> rt_id ` set rs"
    using assms(1) by (simp_all add: mem_ok_def)
  have d: "distinct (map rt_id rs)" "length rs \<le> RNA_MAX_TEMPLATES" using ok(2) by (simp_all add: rna_templates_ok_def)
  have san: "rs_copy_template_sanitized x = x" if "x \<in> set rs" for x
    using ok(2) that rs_copy_template_sanitized_eq[of x] by (auto simp: rna_templates_ok_def rna_template_fits_def)
  have "rna_table_of rs \<lparr> rtt_templates := (shift_down rs_copy_template_sanitized i (rtt_count (rna_table_of rs))
      (rtt_templates (rna_table_of rs)))[rtt_count (rna_table_of rs) - 1 := rna_template_clear],
      rtt_count := rtt_count (rna_table_of rs) - 1 \<rparr> = rna_table_of (remove_nth i rs)"
    using shift_remove[of rs rs_copy_template_sanitized i RNA_MAX_TEMPLATES rna_template_clear, OF san l(1) d(2)]
      length_remove_nth[OF l(1)] by (simp add: rna_table_of_def)
  moreover have "re_template_id ` set es \<subseteq> rt_id ` {x \<in> set rs. rt_id x \<noteq> rt_id (rs ! i)}"
  proof
    fix y assume y: "y \<in> re_template_id ` set es"
    then have "y \<noteq> rt_id (rs ! i)" using u l(2) by metis
    moreover from y ok(3) have "y \<in> rt_id ` set rs" by blast
    ultimately show "y \<in> rt_id ` {x \<in> set rs. rt_id x \<noteq> rt_id (rs ! i)}" by auto
  qed
  then have "mem_ok es (remove_nth i rs)"
    using ok l(1) distinct_remove_nth[OF d(1), of i] set_remove_nth_distinct[OF l(1) d(1)] d(2)
    by (simp add: mem_ok_def rna_templates_ok_def length_remove_nth)
  moreover have "take (rtt_count (rna_table_of rs)) (rtt_templates (rna_table_of rs)) = rs"
    by (simp add: rna_table_of_def)
  ultimately show ?thesis using i u assms
    by (auto simp: remove_template_def Let_def template_in_use_def list_ex_iff)
next
  case False
  have "take (rtt_count (rna_table_of rs)) (rtt_templates (rna_table_of rs)) = rs"
    by (simp add: rna_table_of_def)
  with False assms show ?thesis
    by (auto simp: remove_template_def Let_def membrane_of_wf template_in_use_def list_ex_iff split: option.splits)
qed

lemma mem_step_wf:
  assumes "membrane_wf m" and "mem_legal x"
  shows "membrane_wf (snd (mem_step x m))"
proof -
  obtain es rs where m: "m = membrane_of es rs" "mem_ok es rs" using assms(1) membrane_wf_of by blast
  show ?thesis using m assms(2)
    by (cases x) (auto simp: add_device_wf[simplified] remove_device_wf assign_template_wf add_template_wf
        replace_template_wf remove_template_wf)
qed

interpretation membrane_ops: module_invariant membrane_wf mem_legal mem_step
  by unfold_locales (rule mem_step_wf)

lemma membrane_allows_template:
  assumes "membrane_wf m"
  shows "membrane_allows m device a v \<longleftrightarrow>
    (\<exists>r\<in>set (rna_live (mem_rna_templates m)). rt_id r = re_template_id device \<and>
       a \<in> set (take (unat (rt_amino_count r)) (rt_aminos r))) \<and>
    amino_acid_validate_payload a v = ESP_OK"
proof -
  have w: "rna_table_wf (mem_rna_templates m)" "mem_initialized m" using assms by (simp_all add: membrane_wf_def)
  have "membrane_allows m device a v \<longleftrightarrow> re_template_id device \<noteq> 0 \<and> amino_acid_validate_payload a v = ESP_OK \<and>
      rna_template_table_allows (Some (mem_rna_templates m)) (re_template_id device) a"
    using w(2)
    by (simp add: membrane_allows_def ribosome_template_id_valid_def rna_template_id_valid_def find_template_def
        rna_template_table_allows_def rna_template_table_has_capability_def rna_template_allows_def
        rna_template_has_capability_def split: option.split)
  moreover have "rna_template_table_allows (Some (mem_rna_templates m)) 0 a \<longleftrightarrow> False"
    by (simp add: rna_template_table_allows_def rna_template_table_has_capability_def rna_template_table_find_def
        rna_template_id_valid_def rna_template_has_capability_def)
  ultimately show ?thesis using rna_allows_iff[OF w(1)] by metis
qed

subsection \<open>Properties\<close>

lemma membrane_load_other:
  assumes "nvs_isolated api"
  shows "ribosome_store_load_or_init api (snd (rna_membrane_save api t n)) u = ribosome_store_load_or_init api n u"
proof -
  have "RIB_NVS_NS \<noteq> RNA_NVS_NS" by (simp add: RIB_NVS_NS_def RNA_NVS_NS_def)
  from nvs_load_other_save[OF assms this] show ?thesis
    by (simp add: rna_membrane_save_def ribosome_store_load_or_init_def ribosome_store_load_def case_prod_beta)
qed

text \<open>C9: Devices and templates stay consistent. Starting from consistent tables, after any sequence of
  adding and removing devices, assigning templates, and adding, replacing and removing templates,
  both tables are well formed and every enrolled device still refers to an existing template: a
  template in use cannot be removed and no device can be given a template that does not exist.\<close>

theorem membrane_references_intact:
  assumes "membrane_wf m" and "list_all mem_legal ops"
  shows "membrane_wf (snd (run mem_step ops m))"
  by (rule membrane_ops.run_inv[OF assms])

definition membrane_sample :: membrane where
  "membrane_sample = membrane_of [rib_sample] RNA_DEFAULT_TEMPLATES"

lemma membrane_sample_wf: "membrane_wf membrane_sample"
  using rib_sample_ok rna_defaults_ok
  by (simp add: membrane_sample_def mem_ok_def rib_sample_def RNA_DEFAULT_TEMPLATES_def rna_default_def)

theorem membrane_references_intact_witness:
  "membrane_wf (snd (run mem_step [Mem_remove_template 1, Mem_assign_template (Some (lit ''lamp'')) 5,
     Mem_remove_template 1] membrane_sample))"
  by (rule membrane_references_intact[OF membrane_sample_wf]) simp

text \<open>C10: The membrane decides by the templates alone. For a well-formed membrane, a command is allowed
  for a device exactly when the template of the device exists, lists the command, and the command
  carries a value precisely when its catalogue entry asks for one.\<close>

theorem membrane_allows_iff:
  assumes "membrane_wf m"
  shows "membrane_allows m device a v \<longleftrightarrow>
    (\<exists>r\<in>set (rna_live (mem_rna_templates m)). rt_id r = re_template_id device \<and>
       a \<in> set (take (unat (rt_amino_count r)) (rt_aminos r))) \<and>
    amino_acid_validate_payload a v = ESP_OK"
  by (rule membrane_allows_template[OF assms])

theorem membrane_allows_iff_witness:
  "\<not> membrane_allows membrane_sample rib_sample AMINO_UNLOCK None"
  using membrane_allows_iff[OF membrane_sample_wf, of rib_sample AMINO_UNLOCK None]
  by (simp add: membrane_sample_def membrane_of_def RNA_DEFAULT_TEMPLATES_def rna_default_def rib_sample_def
      packed_def)

text \<open>C11: Saving and starting again restores the membrane. When both tables have been saved, the next
  initialisation succeeds and has the same devices and templates, on a flash whose namespaces are
  separate and whose committed writes can be read back.\<close>

theorem membrane_save_then_init:
  assumes "nvs_durable api" and "nvs_isolated api" and "membrane_wf m"
    and "membrane_save api m n = (ESP_OK, n')"
  shows "membrane_init api n' u = (ESP_OK, m)"
proof -
  have w: "rib_table_wf (mem_ribosome_table m)" "rna_table_wf (mem_rna_templates m)" "mem_initialized m"
    using assms(3) by (simp_all add: membrane_wf_def)
  obtain n1 where n1: "ribosome_store_save api (Some (mem_ribosome_table m)) n = (ESP_OK, n1)"
    "rna_membrane_save api (Some (mem_rna_templates m)) n1 = (ESP_OK, n')"
    using assms(4) w(3) by (auto simp: membrane_save_def split: prod.splits if_splits)
  have "ribosome_store_load_or_init api n' x = ribosome_store_load_or_init api n1 x" for x
    using membrane_load_other[OF assms(2), of "Some (mem_rna_templates m)" n1 x] n1(2) by simp
  then have "ribosome_store_load_or_init api n' (Some t) = (ESP_OK, Some (mem_ribosome_table m))" for t
    using rib_store_save_load[OF assms(1) w(1) n1(1)] by simp
  moreover have "rna_membrane_load_or_init api n' (Some t) = (ESP_OK, Some (mem_rna_templates m))" for t
    using rna_store_save_load[OF assms(1) w(2) n1(2)] by (simp add: rna_membrane_load_or_init_def)
  ultimately show ?thesis using w(3) by (simp add: membrane_init_def)
qed

theorem membrane_save_then_init_witness:
  "membrane_init nvs_mem_api (snd (membrane_save nvs_mem_api membrane_sample [])) membrane_new
     = (ESP_OK, membrane_sample)"
proof -
  have d: "RNA_DEFAULT_TEMPLATES \<noteq> []" by (simp add: RNA_DEFAULT_TEMPLATES_def)
  have "fst (membrane_save nvs_mem_api membrane_sample []) = ESP_OK"
    using rib_sample_blob rna_table_to_blob_of[OF rna_defaults_ok d]
    by (simp add: membrane_save_def membrane_sample_def ribosome_store_save_def rna_membrane_save_def
        nvs_save_blob_def nvs_mem_api_def)
  then have "membrane_save nvs_mem_api membrane_sample []
      = (ESP_OK, snd (membrane_save nvs_mem_api membrane_sample []))" by (metis prod.collapse)
  from membrane_save_then_init[OF nvs_mem_durable nvs_mem_isolated membrane_sample_wf this] show ?thesis .
qed

end
