(* ===== verification/Active_Substance.thy ===== *)
theory Active_Substance
  imports Amino_Acids BN_Hash
begin

text \<open>
  The encrypted command of an action pill (\<open>active_substance.c\<close>): the AEAD envelope, its
  canonical hash, and the parser of the decrypted command.

  SHA-256 is mbedTLS code and a parameter \<open>sha256 :: bytes \<Rightarrow> bytes option\<close>: the digest of the
  bytes fed to the context by all updates together, or \<open>None\<close> when a call whose result the code
  tests (info lookup, setup, starts, finish) fails.

  A decrypted command is the 76-byte C struct: device_id at 0, topic at 32, amino_id at 64,
  payload_type at 68, three reserved bytes, payload_i32 at 72.
\<close>

abbreviation ACTIVE_SUBSTANCE_CIPHERTEXT_MAX_LEN :: nat where
  "ACTIVE_SUBSTANCE_CIPHERTEXT_MAX_LEN \<equiv> 256"
abbreviation ACTIVE_SUBSTANCE_VERSION :: u8 where "ACTIVE_SUBSTANCE_VERSION \<equiv> 2"
abbreviation ACTIVE_SUBSTANCE_HASH_LEN :: nat where "ACTIVE_SUBSTANCE_HASH_LEN \<equiv> 32"
abbreviation ACTIVE_SUBSTANCE_NONCE_LEN :: nat where "ACTIVE_SUBSTANCE_NONCE_LEN \<equiv> 12"
abbreviation ACTIVE_SUBSTANCE_TAG_LEN :: nat where "ACTIVE_SUBSTANCE_TAG_LEN \<equiv> 16"
abbreviation ACTIVE_SUBSTANCE_DEVICE_ID_LEN :: nat where "ACTIVE_SUBSTANCE_DEVICE_ID_LEN \<equiv> 32"
abbreviation ACTIVE_SUBSTANCE_TOPIC_LEN :: nat where "ACTIVE_SUBSTANCE_TOPIC_LEN \<equiv> 32"
abbreviation ACTIVE_SUBSTANCE_COMMAND_BYTES :: nat where "ACTIVE_SUBSTANCE_COMMAND_BYTES \<equiv> 76"

type_synonym active_substance_cipher_t = u32

abbreviation CIPHER_UNKNOWN :: "'a::len word" where "CIPHER_UNKNOWN \<equiv> 0"
abbreviation CIPHER_AES_128_GCM :: "'a::len word" where "CIPHER_AES_128_GCM \<equiv> 1"
abbreviation CIPHER_AES_256_GCM :: "'a::len word" where "CIPHER_AES_256_GCM \<equiv> 2"
abbreviation CIPHER_CHACHA20_POLY1305 :: "'a::len word" where "CIPHER_CHACHA20_POLY1305 \<equiv> 3"

record active_substance_command =
  asc_device_id :: bytes
  asc_topic :: bytes
  asc_amino_id :: amino_acid_id_t
  asc_payload_type :: u8
  asc_reserved :: bytes
  asc_payload_i32 :: i32

record active_substance =
  as_version :: u8
  as_cipher :: u8
  as_ciphertext_len :: u16
  as_nonce :: bytes
  as_tag :: bytes
  as_ciphertext :: bytes

subsection \<open>Commands\<close>

text \<open>The inner loop looks for a non-zero byte after the first terminator.\<close>

fun c_string_tail_zero :: "bytes \<Rightarrow> bool" where
  "c_string_tail_zero [] = True"
| "c_string_tail_zero (b # bs) = (if b \<noteq> 0 then False else c_string_tail_zero bs)"

fun c_string_scan :: "bytes \<Rightarrow> bool" where
  "c_string_scan [] = False"
| "c_string_scan (b # bs) = (if b = 0 then c_string_tail_zero bs else c_string_scan bs)"

definition c_string_field_valid :: "bytes option \<Rightarrow> nat \<Rightarrow> bool" where
  "c_string_field_valid field len =
     (case field of
        None \<Rightarrow> False
      | Some f \<Rightarrow> if len = 0 \<or> rd f 0 = 0 then False else c_string_scan (take len f))"

definition active_substance_command_clear :: active_substance_command where
  "active_substance_command_clear = \<lparr>
     asc_device_id = replicate ACTIVE_SUBSTANCE_DEVICE_ID_LEN 0,
     asc_topic = replicate ACTIVE_SUBSTANCE_TOPIC_LEN 0, asc_amino_id = 0, asc_payload_type = 0,
     asc_reserved = replicate 3 0, asc_payload_i32 = 0 \<rparr>"

definition active_substance_command_validate :: "active_substance_command option \<Rightarrow> esp_err" where
  "active_substance_command_validate command =
     (case command of
        None \<Rightarrow> ESP_ERR_INVALID_ARG
      | Some c \<Rightarrow>
          if \<not> c_string_field_valid (Some (asc_device_id c)) ACTIVE_SUBSTANCE_DEVICE_ID_LEN
          then ESP_ERR_INVALID_ARG
          else if \<not> c_string_field_valid (Some (asc_topic c)) ACTIVE_SUBSTANCE_TOPIC_LEN
          then ESP_ERR_INVALID_ARG
          else if \<not> bytes_all_zero (Some (asc_reserved c)) 3
          then ESP_ERR_INVALID_ARG
          else (case amino_acid_find (asc_amino_id c) of
              None \<Rightarrow> ESP_ERR_NOT_FOUND
            | Some acid \<Rightarrow>
                if ucast (amino_value_type_code (aa_value_type acid)) \<noteq> asc_payload_type c
                then ESP_ERR_INVALID_ARG
                else amino_acid_validate_payload (asc_amino_id c)
                       (if asc_payload_type c = ucast (amino_value_type_code AMINO_VALUE_NONE)
                        then None else Some (asc_payload_i32 c))))"

definition command_bytes :: "active_substance_command \<Rightarrow> bytes" where
  "command_bytes c = asc_device_id c @ asc_topic c @ le32 (asc_amino_id c)
     @ [asc_payload_type c] @ asc_reserved c @ le32 (asc_payload_i32 c)"

definition command_of_bytes :: "bytes \<Rightarrow> active_substance_command" where
  "command_of_bytes bs = \<lparr>
     asc_device_id = take ACTIVE_SUBSTANCE_DEVICE_ID_LEN bs,
     asc_topic = take ACTIVE_SUBSTANCE_TOPIC_LEN (drop 32 bs),
     asc_amino_id = of_le32 (drop 64 bs), asc_payload_type = rd (drop 68 bs) 0,
     asc_reserved = take 3 (drop 69 bs), asc_payload_i32 = of_le32 (drop 72 bs) \<rparr>"

definition active_substance_parse_command ::
  "bytes option \<Rightarrow> nat \<Rightarrow> active_substance_command option
     \<Rightarrow> esp_err \<times> active_substance_command option" where
  "active_substance_parse_command plaintext plaintext_len out_command =
     (case (plaintext, out_command) of
        (Some p, Some out) \<Rightarrow>
          if plaintext_len \<noteq> ACTIVE_SUBSTANCE_COMMAND_BYTES then (ESP_ERR_INVALID_SIZE, out_command)
          else (let command = command_of_bytes p;
                    err = active_substance_command_validate (Some command)
                in (err, Some (if err \<noteq> ESP_OK then active_substance_command_clear else command)))
      | _ \<Rightarrow> (ESP_ERR_INVALID_ARG, out_command))"

subsection \<open>The envelope\<close>

definition active_substance_zero :: active_substance where
  "active_substance_zero = \<lparr> as_version = 0, as_cipher = 0, as_ciphertext_len = 0,
     as_nonce = replicate ACTIVE_SUBSTANCE_NONCE_LEN 0,
     as_tag = replicate ACTIVE_SUBSTANCE_TAG_LEN 0,
     as_ciphertext = replicate ACTIVE_SUBSTANCE_CIPHERTEXT_MAX_LEN 0 \<rparr>"

definition active_substance_init :: active_substance where
  "active_substance_init = active_substance_zero \<lparr>
     as_version := ACTIVE_SUBSTANCE_VERSION, as_cipher := CIPHER_UNKNOWN \<rparr>"

definition active_substance_validate_envelope :: "active_substance option \<Rightarrow> esp_err" where
  "active_substance_validate_envelope substance =
     (case substance of
        None \<Rightarrow> ESP_ERR_INVALID_ARG
      | Some s \<Rightarrow>
          if as_version s \<noteq> ACTIVE_SUBSTANCE_VERSION then ESP_ERR_INVALID_VERSION
          else if as_cipher s \<noteq> CIPHER_AES_128_GCM \<and> as_cipher s \<noteq> CIPHER_AES_256_GCM \<and>
                  as_cipher s \<noteq> CIPHER_CHACHA20_POLY1305
          then ESP_ERR_NOT_SUPPORTED
          else if as_ciphertext_len s = 0 \<or>
                  unat (as_ciphertext_len s) > ACTIVE_SUBSTANCE_CIPHERTEXT_MAX_LEN
          then ESP_ERR_INVALID_SIZE
          else ESP_OK)"

definition active_substance_validate :: "active_substance option \<Rightarrow> esp_err" where
  "active_substance_validate substance = active_substance_validate_envelope substance"

definition active_substance_set_ciphertext ::
  "active_substance option \<Rightarrow> active_substance_cipher_t \<Rightarrow> bytes option \<Rightarrow> bytes option
     \<Rightarrow> bytes option \<Rightarrow> nat \<Rightarrow> esp_err \<times> active_substance option" where
  "active_substance_set_ciphertext substance cipher nonce tag ciphertext len =
     (case (substance, nonce, tag, ciphertext) of
        (Some s, Some n, Some g, Some ct) \<Rightarrow>
          if len = 0 \<or> len > ACTIVE_SUBSTANCE_CIPHERTEXT_MAX_LEN
          then (ESP_ERR_INVALID_SIZE, substance)
          else (let s' = active_substance_init \<lparr>
                      as_cipher := ucast cipher, as_ciphertext_len := of_nat len,
                      as_nonce := take ACTIVE_SUBSTANCE_NONCE_LEN n,
                      as_tag := take ACTIVE_SUBSTANCE_TAG_LEN g,
                      as_ciphertext :=
                        take len ct @ drop len (as_ciphertext active_substance_init) \<rparr>
                in (active_substance_validate_envelope (Some s'), Some s'))
      | _ \<Rightarrow> (ESP_ERR_INVALID_ARG, substance))"

text \<open>Everything the hash context is fed, in order.\<close>

definition active_substance_canonical :: "active_substance \<Rightarrow> bytes" where
  "active_substance_canonical s =
     [as_version s] @ [as_cipher s] @ le16 (as_ciphertext_len s) @ as_nonce s @ as_tag s
       @ take (unat (as_ciphertext_len s)) (as_ciphertext s)"

definition active_substance_hash ::
  "(bytes \<Rightarrow> bytes option) \<Rightarrow> active_substance option \<Rightarrow> bytes option
     \<Rightarrow> esp_err \<times> bytes option" where
  "active_substance_hash sha256 substance out_hash =
     (case (substance, out_hash) of
        (Some s, Some out) \<Rightarrow>
          (let err = active_substance_validate_envelope substance in
           if err \<noteq> ESP_OK then (err, out_hash)
           else (case sha256 (active_substance_canonical s) of
               None \<Rightarrow> (ESP_FAIL, out_hash)
             | Some h \<Rightarrow> (ESP_OK, Some h)))
      | _ \<Rightarrow> (ESP_ERR_INVALID_ARG, out_hash))"

definition active_substance_cipher_to_string :: "active_substance_cipher_t \<Rightarrow> string" where
  "active_substance_cipher_to_string cipher =
     (if cipher = CIPHER_AES_128_GCM then ''AES_128_GCM''
      else if cipher = CIPHER_AES_256_GCM then ''AES_256_GCM''
      else if cipher = CIPHER_CHACHA20_POLY1305 then ''CHACHA20_POLY1305''
      else ''UNKNOWN'')"

subsection \<open>Fixed-size strings\<close>

lemma c_string_tail_zero_iff: "c_string_tail_zero bs \<longleftrightarrow> bs = replicate (length bs) 0"
  by (induction bs) auto

lemma c_string_scan_iff:
  "c_string_scan f \<longleftrightarrow> strlen f < length f \<and> f = packed 0 (length f) (cstr f)"
proof (induction f)
  case Nil
  then show ?case by simp
next
  case (Cons b bs)
  then show ?case
    by (auto simp: c_string_tail_zero_iff packed_def strlen_def)
qed

lemma c_string_field_valid_iff:
  assumes "length f = n"
  shows "c_string_field_valid (Some f) n \<longleftrightarrow>
    0 < strlen f \<and> strlen f < n \<and> f = packed 0 n (cstr f)"
proof -
  have "rd f 0 = 0 \<longleftrightarrow> strlen f = 0" by (cases f) (auto simp: strlen_def)
  then show ?thesis using assms by (auto simp: c_string_field_valid_def c_string_scan_iff)
qed

subsection \<open>Commands and their bytes\<close>

definition command_fits :: "active_substance_command \<Rightarrow> bool" where
  "command_fits c \<longleftrightarrow> length (asc_device_id c) = ACTIVE_SUBSTANCE_DEVICE_ID_LEN \<and>
     length (asc_topic c) = ACTIVE_SUBSTANCE_TOPIC_LEN \<and> length (asc_reserved c) = 3"

lemma command_of_bytes_bytes: "command_fits c \<Longrightarrow> command_of_bytes (command_bytes c) = c"
  by (simp add: command_of_bytes_def command_bytes_def command_fits_def)

lemma length_command_bytes:
  "command_fits c \<Longrightarrow> length (command_bytes c) = ACTIVE_SUBSTANCE_COMMAND_BYTES"
  by (simp add: command_bytes_def command_fits_def)

lemma command_of_bytes_fits:
  "length bs = ACTIVE_SUBSTANCE_COMMAND_BYTES \<Longrightarrow> command_fits (command_of_bytes bs)"
  by (simp add: command_fits_def command_of_bytes_def)

lemma le32_of_le32_take: "4 \<le> length xs \<Longrightarrow> le32 (of_le32 xs) = take 4 xs"
proof -
  assume "4 \<le> length xs"
  then have "le32 (of_le32 (take 4 xs)) = take 4 xs" by (intro le32_of_le32) simp
  moreover have "of_le32 (take 4 xs) = of_le32 xs" by (simp add: of_le32_def rd_def)
  ultimately show ?thesis by simp
qed

lemma command_bytes_of_bytes:
  assumes "length bs = ACTIVE_SUBSTANCE_COMMAND_BYTES"
  shows "command_bytes (command_of_bytes bs) = bs"
proof -
  have "[rd (drop 68 bs) 0] = take 1 (drop 68 bs)"
    using assms by (cases "drop 68 bs") auto
  then have "command_bytes (command_of_bytes bs) =
      take 32 bs @ take 32 (drop 32 bs) @ take 4 (drop 64 bs) @ take 1 (drop 68 bs)
        @ take 3 (drop 69 bs) @ take 4 (drop 72 bs)"
    using assms by (simp add: command_bytes_def command_of_bytes_def le32_of_le32_take)
  also have "\<dots> = take 76 bs"
    using take_add[of 32 44 bs] take_add[of 32 12 "drop 32 bs"] take_add[of 4 8 "drop 64 bs"]
      take_add[of 1 7 "drop 68 bs"] take_add[of 3 4 "drop 69 bs"] by simp
  finally show ?thesis using assms by simp
qed

text \<open>What the validator accepts.\<close>

definition command_ok :: "active_substance_command \<Rightarrow> bool" where
  "command_ok c \<longleftrightarrow>
     (0 < strlen (asc_device_id c) \<and> strlen (asc_device_id c) < ACTIVE_SUBSTANCE_DEVICE_ID_LEN \<and>
      asc_device_id c = packed 0 ACTIVE_SUBSTANCE_DEVICE_ID_LEN (cstr (asc_device_id c))) \<and>
     (0 < strlen (asc_topic c) \<and> strlen (asc_topic c) < ACTIVE_SUBSTANCE_TOPIC_LEN \<and>
      asc_topic c = packed 0 ACTIVE_SUBSTANCE_TOPIC_LEN (cstr (asc_topic c))) \<and>
     asc_reserved c = [0, 0, 0] \<and>
     (asc_amino_id c \<in> set amino_without_value \<and> asc_payload_type c = 0 \<or>
      asc_amino_id c \<in> set amino_with_value \<and> asc_payload_type c = 2)"

lemma command_validate_iff:
  assumes "command_fits c"
  shows "active_substance_command_validate (Some c) = ESP_OK \<longleftrightarrow> command_ok c"
proof -
  have len: "length (asc_device_id c) = 32" "length (asc_topic c) = 32" "length (asc_reserved c) = 3"
    using assms by (simp_all add: command_fits_def)
  have res: "bytes_all_zero (Some (asc_reserved c)) 3 \<longleftrightarrow> asc_reserved c = [0, 0, 0]"
    using len(3) by (auto simp: bytes_all_zero_iff length_Suc_conv numeral_3_eq_3)
  note strs = c_string_field_valid_iff[OF len(1)] c_string_field_valid_iff[OF len(2)]
  show ?thesis
  proof (cases "amino_acid_find (asc_amino_id c)")
    case None
    then have "\<not> amino_acid_id_valid (asc_amino_id c)" by (simp add: amino_acid_id_valid_def)
    with None show ?thesis
      by (auto simp: active_substance_command_validate_def command_ok_def amino_acid_id_valid_iff)
  next
    case (Some a)
    then have a: "a \<in> set AMINO_ACIDS" "aa_id a = asc_amino_id c"
      by (auto simp: amino_acid_find_Some_iff)
    have v: "amino_acid_id_valid (asc_amino_id c)" using Some by (simp add: amino_acid_id_valid_def)
    show ?thesis
      using Some a v amino_value_type_by_id[OF a(1)] amino_lists_disjoint
      by (cases "aa_value_type a")
        (auto simp: active_substance_command_validate_def command_ok_def strs res
          amino_acid_validate_payload_cases amino_acid_id_valid_iff)
  qed
qed

subsection \<open>Canonical bytes\<close>

definition substance_fits :: "active_substance \<Rightarrow> bool" where
  "substance_fits s \<longleftrightarrow> length (as_nonce s) = ACTIVE_SUBSTANCE_NONCE_LEN \<and>
     length (as_tag s) = ACTIVE_SUBSTANCE_TAG_LEN \<and>
     length (as_ciphertext s) = ACTIVE_SUBSTANCE_CIPHERTEXT_MAX_LEN"

definition same_sealed_content :: "active_substance \<Rightarrow> active_substance \<Rightarrow> bool" where
  "same_sealed_content s t \<longleftrightarrow> as_version s = as_version t \<and> as_cipher s = as_cipher t \<and>
     as_ciphertext_len s = as_ciphertext_len t \<and> as_nonce s = as_nonce t \<and> as_tag s = as_tag t \<and>
     take (unat (as_ciphertext_len s)) (as_ciphertext s)
       = take (unat (as_ciphertext_len t)) (as_ciphertext t)"

lemma active_substance_canonical_inj:
  assumes "substance_fits s" and "substance_fits t"
    and "active_substance_canonical s = active_substance_canonical t"
  shows "same_sealed_content s t"
  using assms
  by (auto simp: active_substance_canonical_def substance_fits_def same_sealed_content_def
      dest: le16_inj)

definition command_sample :: active_substance_command where
  "command_sample = \<lparr>
     asc_device_id = packed 0 ACTIVE_SUBSTANCE_DEVICE_ID_LEN (lit ''lamp''),
     asc_topic = packed 0 ACTIVE_SUBSTANCE_TOPIC_LEN (lit ''home''), asc_amino_id = AMINO_SET_LEVEL,
     asc_payload_type = 2, asc_reserved = [0, 0, 0], asc_payload_i32 = 40 \<rparr>"

lemma command_sample_ok: "command_fits command_sample" "command_ok command_sample"
proof -
  have z: "0 \<notin> set (lit ''lamp'')" "0 \<notin> set (lit ''home'')"
    and l: "length (lit ''lamp'') = 4" "length (lit ''home'') = 4" by (simp_all add: lit_def)
  show "command_fits command_sample"
    using l by (simp add: command_fits_def command_sample_def length_packed)
  show "command_ok command_sample"
    using cstr_packed[OF z(1)] cstr_packed[OF z(2)] l
    by (simp add: command_ok_def command_sample_def strlen_def amino_with_value_def)
qed

subsection \<open>Properties\<close>

text \<open>C20: Parsing a decrypted command is exact.  A 76-byte plaintext is accepted with command
  \<open>c\<close> if and only if it is the encoding of \<open>c\<close> and \<open>c\<close> is well formed: zero-padded non-empty
  strings, zero reserved bytes, a catalogued command, and the payload type of that command.
  Hence distinct accepted plaintexts are distinct commands and nothing else is accepted.\<close>

theorem parse_command_accepts:
  assumes "length p = ACTIVE_SUBSTANCE_COMMAND_BYTES"
  shows "active_substance_parse_command (Some p) ACTIVE_SUBSTANCE_COMMAND_BYTES (Some out)
      = (ESP_OK, Some c) \<longleftrightarrow> command_fits c \<and> command_ok c \<and> p = command_bytes c"
proof -
  have "active_substance_parse_command (Some p) ACTIVE_SUBSTANCE_COMMAND_BYTES (Some out)
      = (ESP_OK, Some c) \<longleftrightarrow> c = command_of_bytes p \<and> command_ok (command_of_bytes p)"
    using command_validate_iff[OF command_of_bytes_fits[OF assms]]
    by (auto simp: active_substance_parse_command_def Let_def)
  then show ?thesis
    using command_bytes_of_bytes[OF assms] command_of_bytes_fits[OF assms] command_of_bytes_bytes
    by auto
qed

theorem parse_command_accepts_witness:
  "active_substance_parse_command (Some (command_bytes command_sample))
     ACTIVE_SUBSTANCE_COMMAND_BYTES (Some active_substance_command_clear)
   = (ESP_OK, Some command_sample)"
  using parse_command_accepts[OF length_command_bytes[OF command_sample_ok(1)],
      of active_substance_command_clear command_sample] command_sample_ok by simp

end
