(* ===== verification/Capsule_Pill.thy ===== *)
theory Capsule_Pill
  imports Active_Substance
begin

text \<open>
  The signed capsule of an action pill (\<open>capsule_pill.c\<close>): validity, nonce, hash of the sealed
  command and the issuer's signature.  As in \<open>Active_Substance\<close>, SHA-256 is the parameter
  \<open>sha256\<close>; the public-key functions of mbedTLS are the parameter \<open>pk_api\<close>.
\<close>

abbreviation CAPSULE_PILL_VERSION :: u8 where "CAPSULE_PILL_VERSION \<equiv> 3"
abbreviation CAPSULE_PILL_NONCE_LEN :: nat where "CAPSULE_PILL_NONCE_LEN \<equiv> 16"
abbreviation CAPSULE_PILL_NETWORK_ID_LEN :: nat where "CAPSULE_PILL_NETWORK_ID_LEN \<equiv> 16"
abbreviation CAPSULE_PILL_ISSUER_KEY_ID_LEN :: nat where "CAPSULE_PILL_ISSUER_KEY_ID_LEN \<equiv> 16"
abbreviation CAPSULE_PILL_SIGNATURE_MAX_LEN :: nat where "CAPSULE_PILL_SIGNATURE_MAX_LEN \<equiv> 96"
abbreviation CAPSULE_PILL_DIGEST_LEN :: nat where "CAPSULE_PILL_DIGEST_LEN \<equiv> 32"

abbreviation ACTION_UNKNOWN :: "'a::len word" where "ACTION_UNKNOWN \<equiv> 0"
abbreviation ACTION_MQTT :: "'a::len word" where "ACTION_MQTT \<equiv> 1"
abbreviation ACTION_GPIO :: "'a::len word" where "ACTION_GPIO \<equiv> 2"
abbreviation ACTION_POLICY :: "'a::len word" where "ACTION_POLICY \<equiv> 3"
abbreviation SIGNATURE_NONE :: "'a::len word" where "SIGNATURE_NONE \<equiv> 0"
abbreviation SIGNATURE_ECDSA_SHA256_DER :: "'a::len word" where "SIGNATURE_ECDSA_SHA256_DER \<equiv> 1"

record capsule_pill =
  cpl_version :: u8
  cpl_flags :: u8
  cpl_action_class :: u8
  cpl_reserved0 :: u8
  cpl_issued_ms :: u32
  cpl_expires_ms :: u32
  cpl_network_id :: bytes
  cpl_nonce :: bytes
  cpl_active_hash :: bytes
  cpl_issuer_key_id :: bytes
  cpl_signature_alg :: u8
  cpl_signature_len :: u8
  cpl_reserved1 :: bytes
  cpl_signature :: bytes

record 'k pk_api =
  pk_parse_public_key :: "bytes \<Rightarrow> 'k option"
  pk_can_do_ecdsa :: "'k \<Rightarrow> bool"
  pk_verify :: "'k \<Rightarrow> bytes \<Rightarrow> bytes \<Rightarrow> bool"

text \<open>What \<open>capsule_update_signed_canonical\<close> feeds to the hash context.\<close>

definition capsule_signed_canonical :: "capsule_pill \<Rightarrow> bytes" where
  "capsule_signed_canonical c =
     [cpl_version c] @ [cpl_flags c] @ [cpl_action_class c] @ [cpl_reserved0 c]
       @ le32 (cpl_issued_ms c) @ le32 (cpl_expires_ms c) @ cpl_network_id c @ cpl_nonce c
       @ cpl_active_hash c @ cpl_issuer_key_id c @ [cpl_signature_alg c]"

definition capsule_compute_signed_hash ::
  "(bytes \<Rightarrow> bytes option) \<Rightarrow> capsule_pill option \<Rightarrow> bytes option \<Rightarrow> esp_err \<times> bytes option" where
  "capsule_compute_signed_hash sha256 capsule out_hash =
     (case (capsule, out_hash) of
        (Some c, Some out) \<Rightarrow>
          (case sha256 (capsule_signed_canonical c) of
             None \<Rightarrow> (ESP_FAIL, out_hash)
           | Some h \<Rightarrow> (ESP_OK, Some h))
      | _ \<Rightarrow> (ESP_ERR_INVALID_ARG, out_hash))"

definition capsule_pill_init :: capsule_pill where
  "capsule_pill_init = \<lparr> cpl_version = CAPSULE_PILL_VERSION, cpl_flags = 0,
     cpl_action_class = ACTION_UNKNOWN, cpl_reserved0 = 0, cpl_issued_ms = 0, cpl_expires_ms = 0,
     cpl_network_id = replicate CAPSULE_PILL_NETWORK_ID_LEN 0,
     cpl_nonce = replicate CAPSULE_PILL_NONCE_LEN 0,
     cpl_active_hash = replicate ACTIVE_SUBSTANCE_HASH_LEN 0,
     cpl_issuer_key_id = replicate CAPSULE_PILL_ISSUER_KEY_ID_LEN 0,
     cpl_signature_alg = SIGNATURE_NONE, cpl_signature_len = 0, cpl_reserved1 = replicate 2 0,
     cpl_signature = replicate CAPSULE_PILL_SIGNATURE_MAX_LEN 0 \<rparr>"

definition capsule_pill_configure ::
  "capsule_pill option \<Rightarrow> u32 \<Rightarrow> u32 \<Rightarrow> u32 \<Rightarrow> bytes option \<Rightarrow> bytes option \<Rightarrow> bytes option
     \<Rightarrow> esp_err \<times> capsule_pill option" where
  "capsule_pill_configure capsule action_class issued_ms expires_ms network_id nonce issuer_key_id =
     (case (capsule, network_id, nonce, issuer_key_id) of
        (Some c, Some net, Some n, Some iss) \<Rightarrow>
          if issued_ms = 0 \<or> expires_ms \<le> issued_ms then (ESP_ERR_INVALID_ARG, capsule)
          else if action_class = ACTION_UNKNOWN then (ESP_ERR_INVALID_ARG, capsule)
          else (ESP_OK, Some (c \<lparr>
            cpl_version := CAPSULE_PILL_VERSION, cpl_flags := 0,
            cpl_action_class := ucast action_class, cpl_reserved0 := 0,
            cpl_issued_ms := issued_ms, cpl_expires_ms := expires_ms,
            cpl_network_id := take CAPSULE_PILL_NETWORK_ID_LEN net,
            cpl_nonce := take CAPSULE_PILL_NONCE_LEN n,
            cpl_issuer_key_id := take CAPSULE_PILL_ISSUER_KEY_ID_LEN iss,
            cpl_signature_alg := SIGNATURE_NONE, cpl_signature_len := 0,
            cpl_reserved1 := replicate 2 0,
            cpl_signature := replicate CAPSULE_PILL_SIGNATURE_MAX_LEN 0 \<rparr>))
      | _ \<Rightarrow> (ESP_ERR_INVALID_ARG, capsule))"

definition capsule_pill_set_active_hash ::
  "capsule_pill option \<Rightarrow> bytes option \<Rightarrow> esp_err \<times> capsule_pill option" where
  "capsule_pill_set_active_hash capsule active_hash =
     (case (capsule, active_hash) of
        (Some c, Some h) \<Rightarrow>
          (ESP_OK, Some (c \<lparr> cpl_active_hash := take ACTIVE_SUBSTANCE_HASH_LEN h,
             cpl_signature_len := 0,
             cpl_signature := replicate CAPSULE_PILL_SIGNATURE_MAX_LEN 0 \<rparr>))
      | _ \<Rightarrow> (ESP_ERR_INVALID_ARG, capsule))"

definition capsule_pill_bind_active ::
  "(bytes \<Rightarrow> bytes option) \<Rightarrow> capsule_pill option \<Rightarrow> active_substance option
     \<Rightarrow> esp_err \<times> capsule_pill option" where
  "capsule_pill_bind_active sha256 capsule substance =
     (case (capsule, substance) of
        (Some c, Some s) \<Rightarrow>
          (case active_substance_hash sha256 substance
                  (Some (replicate ACTIVE_SUBSTANCE_HASH_LEN 0)) of
             (err, hash) \<Rightarrow>
               if err \<noteq> ESP_OK then (err, capsule)
               else capsule_pill_set_active_hash capsule hash)
      | _ \<Rightarrow> (ESP_ERR_INVALID_ARG, capsule))"

definition capsule_pill_set_signature ::
  "capsule_pill option \<Rightarrow> u32 \<Rightarrow> bytes option \<Rightarrow> nat \<Rightarrow> esp_err \<times> capsule_pill option" where
  "capsule_pill_set_signature capsule alg signature signature_len =
     (case (capsule, signature) of
        (Some c, Some sig) \<Rightarrow>
          if alg \<noteq> SIGNATURE_ECDSA_SHA256_DER then (ESP_ERR_NOT_SUPPORTED, capsule)
          else if signature_len = 0 \<or> signature_len > CAPSULE_PILL_SIGNATURE_MAX_LEN
          then (ESP_ERR_INVALID_SIZE, capsule)
          else (ESP_OK, Some (c \<lparr>
            cpl_signature_alg := ucast alg, cpl_signature_len := of_nat signature_len,
            cpl_signature := take signature_len sig
              @ replicate (CAPSULE_PILL_SIGNATURE_MAX_LEN - signature_len) 0 \<rparr>))
      | _ \<Rightarrow> (ESP_ERR_INVALID_ARG, capsule))"

definition capsule_pill_set_signature_alg ::
  "capsule_pill option \<Rightarrow> u32 \<Rightarrow> esp_err \<times> capsule_pill option" where
  "capsule_pill_set_signature_alg capsule alg = deref capsule (\<lambda>c.
     if alg \<noteq> SIGNATURE_ECDSA_SHA256_DER then (ESP_ERR_NOT_SUPPORTED, c)
     else (ESP_OK, c \<lparr> cpl_signature_alg := ucast alg, cpl_signature_len := 0,
       cpl_signature := replicate CAPSULE_PILL_SIGNATURE_MAX_LEN 0 \<rparr>))"

definition capsule_pill_validate_basic :: "capsule_pill option \<Rightarrow> u32 \<Rightarrow> esp_err" where
  "capsule_pill_validate_basic capsule now =
     (case capsule of
        None \<Rightarrow> ESP_ERR_INVALID_ARG
      | Some c \<Rightarrow>
          if cpl_version c \<noteq> CAPSULE_PILL_VERSION then ESP_ERR_INVALID_VERSION
          else if cpl_action_class c = ACTION_UNKNOWN then ESP_ERR_INVALID_ARG
          else if cpl_reserved0 c \<noteq> 0 \<or> \<not> bytes_all_zero (Some (cpl_reserved1 c)) 2
          then ESP_ERR_INVALID_ARG
          else if cpl_issued_ms c = 0 \<or> cpl_expires_ms c \<le> cpl_issued_ms c
          then ESP_ERR_INVALID_ARG
          else if now \<noteq> 0 \<and> now > cpl_expires_ms c then ESP_ERR_TIMEOUT
          else if bytes_all_zero (Some (cpl_nonce c)) CAPSULE_PILL_NONCE_LEN
          then ESP_ERR_INVALID_ARG
          else if bytes_all_zero (Some (cpl_issuer_key_id c)) CAPSULE_PILL_ISSUER_KEY_ID_LEN
          then ESP_ERR_INVALID_ARG
          else if bytes_all_zero (Some (cpl_active_hash c)) ACTIVE_SUBSTANCE_HASH_LEN
          then ESP_ERR_INVALID_ARG
          else if cpl_signature_alg c \<noteq> SIGNATURE_ECDSA_SHA256_DER then ESP_ERR_NOT_SUPPORTED
          else if cpl_signature_len c = 0 \<or>
                  unat (cpl_signature_len c) > CAPSULE_PILL_SIGNATURE_MAX_LEN
          then ESP_ERR_INVALID_SIZE
          else if bytes_all_zero (Some (cpl_signature c)) (unat (cpl_signature_len c))
          then ESP_ERR_INVALID_ARG
          else ESP_OK)"

text \<open>The loop \<open>diff |= a[i] ^ b[i]\<close>.\<close>

fun ct_diff :: "u8 \<Rightarrow> bytes \<Rightarrow> bytes \<Rightarrow> nat \<Rightarrow> u8" where
  "ct_diff diff a b 0 = diff"
| "ct_diff diff a b (Suc n) = ct_diff (diff OR (rd a 0 XOR rd b 0)) (tl a) (tl b) n"

definition capsule_pill_constant_time_equal :: "bytes option \<Rightarrow> bytes option \<Rightarrow> nat \<Rightarrow> bool" where
  "capsule_pill_constant_time_equal a b len =
     (case (a, b) of (Some x, Some y) \<Rightarrow> ct_diff 0 x y len = 0 | _ \<Rightarrow> False)"

definition capsule_pill_matches_active ::
  "(bytes \<Rightarrow> bytes option) \<Rightarrow> capsule_pill option \<Rightarrow> active_substance option \<Rightarrow> bool" where
  "capsule_pill_matches_active sha256 capsule substance =
     (case (capsule, substance) of
        (Some c, Some s) \<Rightarrow>
          (case active_substance_hash sha256 substance
                  (Some (replicate ACTIVE_SUBSTANCE_HASH_LEN 0)) of
             (err, hash) \<Rightarrow>
               if err \<noteq> ESP_OK then False
               else capsule_pill_constant_time_equal (Some (cpl_active_hash c)) hash
                      ACTIVE_SUBSTANCE_HASH_LEN)
      | _ \<Rightarrow> False)"

definition capsule_pill_compute_signing_digest ::
  "(bytes \<Rightarrow> bytes option) \<Rightarrow> capsule_pill option \<Rightarrow> bytes option \<Rightarrow> esp_err \<times> bytes option" where
  "capsule_pill_compute_signing_digest sha256 capsule out_digest =
     (case capsule of
        None \<Rightarrow> (ESP_ERR_INVALID_ARG, out_digest)
      | Some c \<Rightarrow>
          if cpl_signature_alg c \<noteq> SIGNATURE_ECDSA_SHA256_DER
          then (ESP_ERR_NOT_SUPPORTED, out_digest)
          else capsule_compute_signed_hash sha256 capsule out_digest)"

text \<open>
  The digest reads \<open>signature_len\<close> bytes starting at the 96-byte array \<open>signature\<close>, without a
  bound.  \<open>beyond i\<close> is the byte that lies \<open>i\<close> positions after the end of the array.
\<close>

definition capsule_signature_read :: "(nat \<Rightarrow> u8) \<Rightarrow> capsule_pill \<Rightarrow> bytes" where
  "capsule_signature_read beyond c =
     map (\<lambda>i. if i < length (cpl_signature c) then cpl_signature c ! i
              else beyond (i - length (cpl_signature c))) [0..<unat (cpl_signature_len c)]"

definition capsule_pill_compute_digest ::
  "(bytes \<Rightarrow> bytes option) \<Rightarrow> (nat \<Rightarrow> u8) \<Rightarrow> capsule_pill option \<Rightarrow> bytes option
     \<Rightarrow> esp_err \<times> bytes option" where
  "capsule_pill_compute_digest sha256 beyond capsule out_digest =
     (case (capsule, out_digest) of
        (Some c, Some out) \<Rightarrow>
          (case sha256 (capsule_signed_canonical c @ [cpl_signature_len c]
                          @ capsule_signature_read beyond c) of
             None \<Rightarrow> (ESP_FAIL, out_digest)
           | Some h \<Rightarrow> (ESP_OK, Some h))
      | _ \<Rightarrow> (ESP_ERR_INVALID_ARG, out_digest))"

definition capsule_pill_verify_asymmetric ::
  "(bytes \<Rightarrow> bytes option) \<Rightarrow> 'k pk_api \<Rightarrow> capsule_pill option \<Rightarrow> bytes option \<Rightarrow> nat \<Rightarrow> bool" where
  "capsule_pill_verify_asymmetric sha256 pk capsule public_key public_key_len =
     (case (capsule, public_key) of
        (Some c, Some key) \<Rightarrow>
          if public_key_len = 0 then False
          else if capsule_pill_validate_basic capsule 0 \<noteq> ESP_OK then False
          else (case capsule_compute_signed_hash sha256 capsule
                       (Some (replicate CAPSULE_PILL_DIGEST_LEN 0)) of
              (err, signed_hash) \<Rightarrow>
                if err \<noteq> ESP_OK then False
                else (case pk_parse_public_key pk (take public_key_len key) of
                    None \<Rightarrow> False
                  | Some k \<Rightarrow>
                      pk_can_do_ecdsa pk k \<and>
                      pk_verify pk k (the signed_hash)
                        (take (unat (cpl_signature_len c)) (cpl_signature c))))
      | _ \<Rightarrow> False)"

definition capsule_pill_action_class_to_string :: "u32 \<Rightarrow> string" where
  "capsule_pill_action_class_to_string action_class =
     (if action_class = ACTION_MQTT then ''MQTT''
      else if action_class = ACTION_GPIO then ''GPIO''
      else if action_class = ACTION_POLICY then ''POLICY''
      else ''UNKNOWN'')"

definition capsule_pill_signature_alg_to_string :: "u32 \<Rightarrow> string" where
  "capsule_pill_signature_alg_to_string alg =
     (if alg = SIGNATURE_ECDSA_SHA256_DER then ''ECDSA_SHA256_DER'' else ''NONE'')"

subsection \<open>Comparison and canonical bytes\<close>

lemma ct_diff_0_iff:
  "n \<le> length a \<Longrightarrow> n \<le> length b \<Longrightarrow> ct_diff d a b n = 0 \<longleftrightarrow> d = 0 \<and> take n a = take n b"
proof (induction n arbitrary: d a b)
  case 0
  then show ?case by simp
next
  case (Suc n)
  then obtain x xs y ys where ab: "a = x # xs" "b = y # ys" by (metis Suc_le_length_iff)
  have "x XOR y = 0 \<longleftrightarrow> x = y" by (metis xor_self_eq xor_right_inj)
  then show ?case using Suc.IH[of xs ys] Suc.prems by (auto simp: ab or_eq_0_iff)
qed

lemma constant_time_equal_iff:
  assumes "length a = n" and "length b = n"
  shows "capsule_pill_constant_time_equal (Some a) (Some b) n \<longleftrightarrow> a = b"
  using ct_diff_0_iff[of n a b 0] assms by (simp add: capsule_pill_constant_time_equal_def)

definition capsule_fits :: "capsule_pill \<Rightarrow> bool" where
  "capsule_fits c \<longleftrightarrow>
     length (cpl_network_id c) = CAPSULE_PILL_NETWORK_ID_LEN \<and>
     length (cpl_nonce c) = CAPSULE_PILL_NONCE_LEN \<and>
     length (cpl_active_hash c) = ACTIVE_SUBSTANCE_HASH_LEN \<and>
     length (cpl_issuer_key_id c) = CAPSULE_PILL_ISSUER_KEY_ID_LEN \<and>
     length (cpl_reserved1 c) = 2 \<and>
     length (cpl_signature c) = CAPSULE_PILL_SIGNATURE_MAX_LEN"

definition same_signed_fields :: "capsule_pill \<Rightarrow> capsule_pill \<Rightarrow> bool" where
  "same_signed_fields c d \<longleftrightarrow> cpl_version c = cpl_version d \<and> cpl_flags c = cpl_flags d \<and>
     cpl_action_class c = cpl_action_class d \<and> cpl_reserved0 c = cpl_reserved0 d \<and>
     cpl_issued_ms c = cpl_issued_ms d \<and> cpl_expires_ms c = cpl_expires_ms d \<and>
     cpl_network_id c = cpl_network_id d \<and> cpl_nonce c = cpl_nonce d \<and>
     cpl_active_hash c = cpl_active_hash d \<and> cpl_issuer_key_id c = cpl_issuer_key_id d \<and>
     cpl_signature_alg c = cpl_signature_alg d"

lemma le32_append_eq: "le32 x @ xs = le32 y @ ys \<longleftrightarrow> x = y \<and> xs = ys"
  by (auto dest: le32_inj)

lemma capsule_signed_canonical_inj:
  assumes "capsule_fits c" and "capsule_fits d"
  shows "capsule_signed_canonical c = capsule_signed_canonical d \<longleftrightarrow> same_signed_fields c d"
  using assms
  by (simp add: capsule_signed_canonical_def capsule_fits_def same_signed_fields_def
      le32_append_eq)

text \<open>SHA-256 works and its digests are 32 bytes.\<close>

definition sha_total :: "(bytes \<Rightarrow> bytes option) \<Rightarrow> bool" where
  "sha_total sha256 \<longleftrightarrow> (\<forall>m. \<exists>h. sha256 m = Some h \<and> length h = 32)"

definition sha_toy :: "bytes \<Rightarrow> bytes option" where
  "sha_toy m = Some (take 32 (rev m @ replicate 32 0))"

lemma sha_toy_total: "sha_total sha_toy"
  by (auto simp: sha_total_def sha_toy_def min_def)

definition sha_collision :: "(bytes \<Rightarrow> bytes option) \<Rightarrow> bytes \<Rightarrow> bytes \<Rightarrow> bool" where
  "sha_collision sha256 x y \<longleftrightarrow> x \<noteq> y \<and> sha256 x = sha256 y \<and> sha256 x \<noteq> None"

lemma active_substance_hash_eq:
  "active_substance_hash sha256 (Some s) (Some out) = (ESP_OK, Some h) \<longleftrightarrow>
     active_substance_validate_envelope (Some s) = ESP_OK \<and>
     sha256 (active_substance_canonical s) = Some h"
  by (auto simp: active_substance_hash_def Let_def split: option.splits)

lemma matches_active_iff:
  assumes "sha_total sha256" and "capsule_fits c"
  shows "capsule_pill_matches_active sha256 (Some c) (Some s) \<longleftrightarrow>
    active_substance_validate_envelope (Some s) = ESP_OK \<and>
    sha256 (active_substance_canonical s) = Some (cpl_active_hash c)"
proof -
  obtain h where h: "sha256 (active_substance_canonical s) = Some h" "length h = 32"
    using assms(1) by (auto simp: sha_total_def)
  have "length (cpl_active_hash c) = 32" using assms(2) by (simp add: capsule_fits_def)
  from constant_time_equal_iff[OF this h(2)] h(1) show ?thesis
    by (auto simp: capsule_pill_matches_active_def active_substance_hash_def Let_def)
qed

lemma signature_read_in_bounds:
  assumes "unat (cpl_signature_len c) \<le> length (cpl_signature c)"
  shows "capsule_signature_read beyond c = take (unat (cpl_signature_len c)) (cpl_signature c)"
  using assms by (intro nth_equalityI) (simp_all add: capsule_signature_read_def)

definition substance_sample :: active_substance where
  "substance_sample = active_substance_init \<lparr> as_cipher := CIPHER_AES_256_GCM,
     as_ciphertext_len := 3, as_ciphertext := [5, 6, 7] @ replicate 253 0 \<rparr>"

definition capsule_sample :: capsule_pill where
  "capsule_sample = capsule_pill_init \<lparr> cpl_action_class := ACTION_MQTT,
     cpl_issued_ms := 10, cpl_expires_ms := 90, cpl_nonce := replicate 16 1,
     cpl_issuer_key_id := replicate 16 2,
     cpl_active_hash := the (sha_toy (active_substance_canonical substance_sample)),
     cpl_signature_alg := SIGNATURE_ECDSA_SHA256_DER, cpl_signature_len := 2,
     cpl_signature := [8, 9] @ replicate 94 0 \<rparr>"

lemma substance_sample_ok:
  "substance_fits substance_sample" "active_substance_validate_envelope (Some substance_sample) = ESP_OK"
  by (simp_all add: substance_fits_def substance_sample_def active_substance_init_def
      active_substance_zero_def active_substance_validate_envelope_def)

lemma capsule_sample_fits: "capsule_fits capsule_sample"
  by (simp add: capsule_fits_def capsule_sample_def capsule_pill_init_def sha_toy_def)

lemma capsule_sample_valid: "capsule_pill_validate_basic (Some capsule_sample) 50 = ESP_OK"
proof -
  have "7 \<in> set (take 32 (the (sha_toy (active_substance_canonical substance_sample))))"
    by (simp add: sha_toy_def active_substance_canonical_def substance_sample_def
        active_substance_init_def active_substance_zero_def)
  then have "\<exists>b\<in>set (take 32 (the (sha_toy (active_substance_canonical substance_sample)))). b \<noteq> 0"
    by (rule bexI[rotated]) simp
  then show ?thesis
    by (simp add: capsule_pill_validate_basic_def capsule_sample_def capsule_pill_init_def
        bytes_all_zero_iff)
qed

subsection \<open>Properties\<close>

text \<open>C17: A capsule authorises one sealed command only.  If a capsule matches two substances, the
  substances agree on version, cipher, length, nonce, tag and ciphertext, or the pair of their
  encodings is a SHA-256 collision.\<close>

theorem capsule_binds_one_substance:
  assumes "sha_total sha256" and "capsule_fits c" and "substance_fits s" and "substance_fits t"
    and "capsule_pill_matches_active sha256 (Some c) (Some s)"
    and "capsule_pill_matches_active sha256 (Some c) (Some t)"
  shows "same_sealed_content s t \<or>
    sha_collision sha256 (active_substance_canonical s) (active_substance_canonical t)"
  using assms active_substance_canonical_inj[OF assms(3,4)]
  by (auto simp: matches_active_iff sha_collision_def)

lemma capsule_sample_matches:
  "capsule_pill_matches_active sha_toy (Some capsule_sample) (Some substance_sample)"
  using substance_sample_ok
  by (simp add: matches_active_iff[OF sha_toy_total capsule_sample_fits])
    (simp add: capsule_sample_def sha_toy_def)

theorem capsule_binds_one_substance_witness:
  "same_sealed_content substance_sample substance_sample \<or>
    sha_collision sha_toy (active_substance_canonical substance_sample)
      (active_substance_canonical substance_sample)"
  by (rule capsule_binds_one_substance[OF sha_toy_total capsule_sample_fits
      substance_sample_ok(1) substance_sample_ok(1) capsule_sample_matches capsule_sample_matches])

text \<open>Binding works and revokes the old signature.  After a capsule has been bound to a
  substance it matches that substance, and it does not pass validation, at any time, until a
  new signature is set.\<close>

theorem capsule_bind_matches_unsigned:
  assumes "sha_total sha256" and "capsule_fits c"
    and "capsule_pill_bind_active sha256 (Some c) (Some s) = (ESP_OK, Some c')"
  shows "capsule_pill_matches_active sha256 (Some c') (Some s) \<and>
    (\<forall>now. capsule_pill_validate_basic (Some c') now \<noteq> ESP_OK)"
proof -
  obtain h where h: "sha256 (active_substance_canonical s) = Some h" "length h = 32"
    using assms(1) by (auto simp: sha_total_def)
  then have ok: "active_substance_validate_envelope (Some s) = ESP_OK"
    and c': "c' = c \<lparr> cpl_active_hash := h, cpl_signature_len := 0,
      cpl_signature := replicate CAPSULE_PILL_SIGNATURE_MAX_LEN 0 \<rparr>"
    using assms(3)
    by (auto simp: capsule_pill_bind_active_def active_substance_hash_def Let_def
        capsule_pill_set_active_hash_def split: if_splits)
  have "capsule_fits c'" using assms(2) h(2) by (simp add: c' capsule_fits_def)
  then have "capsule_pill_matches_active sha256 (Some c') (Some s)"
    using ok h by (simp add: matches_active_iff[OF assms(1)] c')
  moreover have "capsule_pill_validate_basic (Some c') now \<noteq> ESP_OK" for now
    by (simp add: capsule_pill_validate_basic_def c')
  ultimately show ?thesis by blast
qed

theorem capsule_bind_matches_unsigned_witness:
  "capsule_pill_matches_active sha_toy
     (snd (capsule_pill_bind_active sha_toy (Some capsule_pill_init) (Some substance_sample)))
     (Some substance_sample)"
proof -
  have "capsule_fits capsule_pill_init" by (simp add: capsule_fits_def capsule_pill_init_def)
  moreover obtain c' where
    "capsule_pill_bind_active sha_toy (Some capsule_pill_init) (Some substance_sample)
      = (ESP_OK, Some c')"
    using substance_sample_ok
    by (simp add: capsule_pill_bind_active_def active_substance_hash_def sha_toy_def
        capsule_pill_set_active_hash_def)
  ultimately show ?thesis using capsule_bind_matches_unsigned[OF sha_toy_total] by simp
qed

text \<open>C16: What a verified signature covers.  A capsule that verifies under a public key passed
  the basic validation, the key is an ECDSA key, and the signature was accepted for the SHA-256
  hash of the canonical bytes; any other capsule with that hash agrees with it on every field
  from the version to the signature algorithm, or is a SHA-256 collision with it.\<close>

theorem capsule_verified_signature_covers:
  assumes "capsule_fits c" and "capsule_pill_verify_asymmetric sha256 pk (Some c) (Some key) n"
  shows "\<exists>k h. pk_parse_public_key pk (take n key) = Some k \<and> pk_can_do_ecdsa pk k \<and>
    sha256 (capsule_signed_canonical c) = Some h \<and>
    pk_verify pk k h (take (unat (cpl_signature_len c)) (cpl_signature c)) \<and>
    capsule_pill_validate_basic (Some c) 0 = ESP_OK \<and>
    (\<forall>d. capsule_fits d \<longrightarrow> sha256 (capsule_signed_canonical d) = Some h \<longrightarrow>
       same_signed_fields c d \<or>
       sha_collision sha256 (capsule_signed_canonical c) (capsule_signed_canonical d))"
proof -
  from assms(2) obtain k h where
    "pk_parse_public_key pk (take n key) = Some k" "pk_can_do_ecdsa pk k"
    "sha256 (capsule_signed_canonical c) = Some h"
    "pk_verify pk k h (take (unat (cpl_signature_len c)) (cpl_signature c))"
    "capsule_pill_validate_basic (Some c) 0 = ESP_OK"
    by (auto simp: capsule_pill_verify_asymmetric_def capsule_compute_signed_hash_def
        split: if_splits option.splits)
  moreover have "same_signed_fields c d \<or>
      sha_collision sha256 (capsule_signed_canonical c) (capsule_signed_canonical d)"
    if "capsule_fits d" "sha256 (capsule_signed_canonical d) = Some h" for d
    using capsule_signed_canonical_inj[OF assms(1) that(1)] that(2) calculation(3)
    by (auto simp: sha_collision_def)
  ultimately show ?thesis by blast
qed

definition pk_toy :: "bytes pk_api" where
  "pk_toy = \<lparr> pk_parse_public_key = (\<lambda>b. if b = [] then None else Some b),
     pk_can_do_ecdsa = (\<lambda>k. True), pk_verify = (\<lambda>k h sig. sig = [8, 9]) \<rparr>"

theorem capsule_verified_signature_covers_witness:
  "\<exists>k h. pk_parse_public_key pk_toy [4] = Some k \<and>
    sha_toy (capsule_signed_canonical capsule_sample) = Some h \<and> pk_verify pk_toy k h [8, 9]"
proof -
  have "capsule_pill_validate_basic (Some capsule_sample) 0 = ESP_OK"
    using capsule_sample_valid by (auto simp: capsule_pill_validate_basic_def split: if_splits)
  then have "capsule_pill_verify_asymmetric sha_toy pk_toy (Some capsule_sample) (Some [4]) 1"
    by (simp add: capsule_pill_verify_asymmetric_def capsule_compute_signed_hash_def sha_toy_def
        pk_toy_def) (simp add: capsule_sample_def)
  from capsule_verified_signature_covers[OF capsule_sample_fits this] show ?thesis
    by (auto simp: capsule_sample_def)
qed





text \<open>The builder functions produce a capsule that is valid for exactly its lifetime.
  Configuring, binding to a substance and signing, in this order and each with success, yields a
  capsule that validates until \<open>expires_ms\<close> and times out afterwards, provided class, nonce,
  issuer, hash and signature are non-zero.\<close>

theorem capsule_build_then_validate:
  assumes "capsule_pill_configure (Some c0) cls issued expires (Some net) (Some nonce) (Some issuer)
      = (ESP_OK, Some c1)"
    and "capsule_pill_bind_active sha256 (Some c1) (Some s) = (ESP_OK, Some c2)"
    and "capsule_pill_set_signature (Some c2) SIGNATURE_ECDSA_SHA256_DER (Some sig) n
      = (ESP_OK, Some c3)"
    and "(ucast cls :: u8) \<noteq> 0" and "\<not> bytes_all_zero (Some nonce) CAPSULE_PILL_NONCE_LEN"
    and "\<not> bytes_all_zero (Some issuer) CAPSULE_PILL_ISSUER_KEY_ID_LEN"
    and "sha256 (active_substance_canonical s) = Some h"
    and "\<not> bytes_all_zero (Some h) ACTIVE_SUBSTANCE_HASH_LEN"
    and "\<not> bytes_all_zero (Some sig) n" and "n \<le> length sig"
  shows "capsule_pill_validate_basic (Some c3) now =
    (if now \<noteq> 0 \<and> now > expires then ESP_ERR_TIMEOUT else ESP_OK)"
proof -
  have f1: "cpl_version c1 = CAPSULE_PILL_VERSION" "cpl_action_class c1 = ucast cls"
    "cpl_reserved0 c1 = 0" "cpl_reserved1 c1 = replicate 2 0" "cpl_issued_ms c1 = issued"
    "cpl_expires_ms c1 = expires" "cpl_nonce c1 = take CAPSULE_PILL_NONCE_LEN nonce"
    "cpl_issuer_key_id c1 = take CAPSULE_PILL_ISSUER_KEY_ID_LEN issuer"
    "issued \<noteq> 0" "\<not> expires \<le> issued"
    using assms(1) by (auto simp: capsule_pill_configure_def split: if_splits)
  have c2: "c2 = c1 \<lparr> cpl_active_hash := take ACTIVE_SUBSTANCE_HASH_LEN h, cpl_signature_len := 0,
      cpl_signature := replicate CAPSULE_PILL_SIGNATURE_MAX_LEN 0 \<rparr>"
    using assms(2,7)
    by (auto simp: capsule_pill_bind_active_def active_substance_hash_def Let_def
        capsule_pill_set_active_hash_def split: if_splits)
  have n: "n \<noteq> 0" "n \<le> CAPSULE_PILL_SIGNATURE_MAX_LEN" and
    c3: "c3 = c2 \<lparr> cpl_signature_alg := 1, cpl_signature_len := of_nat n,
      cpl_signature := take n sig @ replicate (CAPSULE_PILL_SIGNATURE_MAX_LEN - n) 0 \<rparr>"
    using assms(3) by (auto simp: capsule_pill_set_signature_def split: if_splits)
  have un: "unat (of_nat n :: u8) = n" using n(2) by (simp add: unat_of_nat)
  then have "(of_nat n :: u8) \<noteq> 0" using n(1) by auto
  moreover have z: "bytes_all_zero (Some (take m xs)) m = bytes_all_zero (Some xs) m" for m xs
    by (simp add: bytes_all_zero_iff)
  moreover have "bytes_all_zero (Some (replicate 2 0)) 2" by (simp add: bytes_all_zero_iff)
  moreover have "bytes_all_zero (Some (take n sig @ replicate k 0)) n = bytes_all_zero (Some sig) n"
    for k using assms(10) by (simp add: bytes_all_zero_iff)
  ultimately show ?thesis
    using f1 n assms(4-6,8,9) un by (simp add: capsule_pill_validate_basic_def c3 c2)
qed

theorem capsule_build_then_validate_witness:
  "\<exists>c1 c2 c3.
     capsule_pill_configure (Some capsule_pill_init) ACTION_MQTT 10 90 (Some (replicate 16 4))
       (Some (replicate 16 1)) (Some (replicate 16 2)) = (ESP_OK, Some c1) \<and>
     capsule_pill_bind_active (\<lambda>m. Some (replicate 32 6)) (Some c1) (Some substance_sample)
       = (ESP_OK, Some c2) \<and>
     capsule_pill_set_signature (Some c2) SIGNATURE_ECDSA_SHA256_DER (Some [8, 9]) 2
       = (ESP_OK, Some c3) \<and>
     capsule_pill_validate_basic (Some c3) 91 = ESP_ERR_TIMEOUT"
proof -
  obtain c1 where c1: "capsule_pill_configure (Some capsule_pill_init) ACTION_MQTT 10 90
      (Some (replicate 16 4)) (Some (replicate 16 1)) (Some (replicate 16 2)) = (ESP_OK, Some c1)"
    by (simp add: capsule_pill_configure_def)
  obtain c2 where c2: "capsule_pill_bind_active (\<lambda>m. Some (replicate 32 6)) (Some c1)
      (Some substance_sample) = (ESP_OK, Some c2)"
    using substance_sample_ok by (simp add: capsule_pill_bind_active_def active_substance_hash_def
        capsule_pill_set_active_hash_def)
  obtain c3 where c3: "capsule_pill_set_signature (Some c2) SIGNATURE_ECDSA_SHA256_DER
      (Some [8, 9]) 2 = (ESP_OK, Some c3)"
    by (simp add: capsule_pill_set_signature_def)
  have "capsule_pill_validate_basic (Some c3) 91 = ESP_ERR_TIMEOUT"
    using capsule_build_then_validate[OF c1 c2 c3, of "replicate 32 6" 91]
    by (simp add: bytes_all_zero_iff)
  with c1 c2 c3 show ?thesis by blast
qed

end
