(* ===== verification/Active_Enzyme.thy ===== *)
theory Active_Enzyme
  imports Active_Substance
begin

text \<open>
  Opening an active substance with a candidate device secret (\<open>active_enzyme.c\<close>): HKDF-SHA256
  key derivation and AES-GCM decryption.  The PSA Crypto implementation is not part of the
  repository and is a parameter: what its calls return on the bytes they are given.  A decrypt
  call reports its status, the bytes it wrote to the output buffer (possibly some even when it
  fails) and the plaintext length.
\<close>

abbreviation ACTIVE_ENZYME_DEVICE_SECRET_LEN :: nat where "ACTIVE_ENZYME_DEVICE_SECRET_LEN \<equiv> 32"
abbreviation ACTIVE_ENZYME_AES_128_KEY_LEN :: nat where "ACTIVE_ENZYME_AES_128_KEY_LEN \<equiv> 16"
abbreviation ACTIVE_ENZYME_AES_256_KEY_LEN :: nat where "ACTIVE_ENZYME_AES_256_KEY_LEN \<equiv> 32"
abbreviation ACTIVE_ENZYME_HKDF_DIGEST_LEN :: nat where "ACTIVE_ENZYME_HKDF_DIGEST_LEN \<equiv> 32"

datatype psa_status = PSA_SUCCESS | PSA_ERROR_INVALID_SIGNATURE | PSA_ERROR_OTHER

record psa_api =
  psa_crypto_init :: psa_status
  psa_hmac_sha256 :: "bytes \<Rightarrow> bytes \<Rightarrow> psa_status \<times> bytes"
  psa_import_aes_key :: "bytes \<Rightarrow> psa_status"
  psa_aead_decrypt :: "bytes \<Rightarrow> bytes \<Rightarrow> bytes \<Rightarrow> bytes \<Rightarrow> nat \<Rightarrow> psa_status \<times> bytes \<times> nat"

definition k_hkdf_salt_prefix :: bytes where
  "k_hkdf_salt_prefix = lit ''BlindNet active enzyme salt v1''"

definition k_hkdf_info_prefix :: bytes where
  "k_hkdf_info_prefix = lit ''BlindNet active substance decrypt key v1''"

definition write_u32_le :: "u32 \<Rightarrow> bytes" where
  "write_u32_le v = [ucast (v AND 0xFF), ucast (drop_bit 8 v AND 0xFF),
     ucast (drop_bit 16 v AND 0xFF), ucast (drop_bit 24 v AND 0xFF)]"

definition select_key_len :: "active_substance \<Rightarrow> esp_err \<times> nat" where
  "select_key_len s =
     (if as_cipher s = CIPHER_AES_128_GCM then (ESP_OK, ACTIVE_ENZYME_AES_128_KEY_LEN)
      else if as_cipher s = CIPHER_AES_256_GCM then (ESP_OK, ACTIVE_ENZYME_AES_256_KEY_LEN)
      else (ESP_ERR_NOT_SUPPORTED, 0))"

text \<open>
  \<open>psa_hmac_sha256\<close> stands for importing the key, setting the operation up, updating it with
  both parts and finishing: the first failing status, or success and the MAC.
\<close>

definition hmac_sha256 :: "psa_api \<Rightarrow> bytes \<Rightarrow> bytes \<Rightarrow> bytes \<Rightarrow> esp_err \<times> bytes" where
  "hmac_sha256 api key part1 part2 =
     (if key = [] then (ESP_ERR_INVALID_ARG, [])
      else if psa_crypto_init api \<noteq> PSA_SUCCESS then (ESP_FAIL, [])
      else (case psa_hmac_sha256 api key (part1 @ part2) of
          (status, mac) \<Rightarrow>
            if status = PSA_SUCCESS \<and> length mac = ACTIVE_ENZYME_HKDF_DIGEST_LEN
            then (ESP_OK, mac) else (ESP_FAIL, [])))"

definition hkdf_sha256_one_block ::
  "psa_api \<Rightarrow> bytes \<Rightarrow> bytes \<Rightarrow> bytes \<Rightarrow> nat \<Rightarrow> esp_err \<times> bytes" where
  "hkdf_sha256_one_block api ikm salt info out_key_len =
     (if ikm = [] \<or> salt = [] \<or> info = [] \<or> out_key_len = 0 \<or>
         out_key_len > ACTIVE_ENZYME_HKDF_DIGEST_LEN
      then (ESP_ERR_INVALID_ARG, [])
      else (case hmac_sha256 api salt ikm [] of
          (err, prk) \<Rightarrow>
            if err \<noteq> ESP_OK then (err, [])
            else (case hmac_sha256 api prk info [1] of
                (err, t1) \<Rightarrow> if err = ESP_OK then (ESP_OK, take out_key_len t1) else (err, []))))"

definition enzyme_salt :: "u32 \<Rightarrow> bytes \<Rightarrow> bytes" where
  "enzyme_salt epoch nonce = k_hkdf_salt_prefix @ write_u32_le epoch @ nonce"

definition enzyme_info :: "u8 \<Rightarrow> u8 \<Rightarrow> bytes" where
  "enzyme_info version cipher = k_hkdf_info_prefix @ [version] @ [cipher]"

definition derive_aead_key ::
  "psa_api \<Rightarrow> active_substance \<Rightarrow> bytes \<Rightarrow> u32 \<Rightarrow> esp_err \<times> bytes" where
  "derive_aead_key api s device_secret epoch =
     (case select_key_len s of
        (err, key_len) \<Rightarrow>
          if err \<noteq> ESP_OK then (err, [])
          else hkdf_sha256_one_block api (take ACTIVE_ENZYME_DEVICE_SECRET_LEN device_secret)
                 (enzyme_salt epoch (as_nonce s)) (enzyme_info (as_version s) (as_cipher s))
                 key_len)"

definition decrypt_aes_gcm ::
  "psa_api \<Rightarrow> active_substance \<Rightarrow> bytes \<Rightarrow> bytes \<Rightarrow> bytes \<Rightarrow> esp_err \<times> bytes" where
  "decrypt_aes_gcm api s key aad out_plaintext =
     (let n = unat (as_ciphertext_len s);
          sealed = take n (as_ciphertext s) @ as_tag s
      in if psa_crypto_init api \<noteq> PSA_SUCCESS then (ESP_FAIL, out_plaintext)
         else if psa_import_aes_key api key \<noteq> PSA_SUCCESS
         then (if psa_import_aes_key api key = PSA_ERROR_INVALID_SIGNATURE
               then ESP_ERR_INVALID_STATE else ESP_FAIL, out_plaintext)
         else (case psa_aead_decrypt api key (as_nonce s) aad sealed n of
             (status, written, plaintext_len) \<Rightarrow>
               (if status = PSA_SUCCESS \<and> plaintext_len = n then ESP_OK
                else if status = PSA_ERROR_INVALID_SIGNATURE then ESP_ERR_INVALID_STATE
                else ESP_FAIL,
                take n written @ drop (length (take n written)) out_plaintext)))"

definition zeroize_prefix :: "nat \<Rightarrow> bytes \<Rightarrow> bytes" where
  "zeroize_prefix n buf = replicate n 0 @ drop n buf"

text \<open>
  Result: the error code, the output buffer and the reported plaintext length.  \<open>aad\<close> is the
  pointer, \<open>aad_len\<close> the length passed with it.
\<close>

definition active_enzyme_decrypt_with_secret ::
  "psa_api \<Rightarrow> active_substance option \<Rightarrow> bytes option \<Rightarrow> u32 \<Rightarrow> bytes option \<Rightarrow> nat
     \<Rightarrow> bytes option \<Rightarrow> nat \<Rightarrow> nat option \<Rightarrow> esp_err \<times> bytes option \<times> nat option" where
  "active_enzyme_decrypt_with_secret api substance device_secret epoch aad aad_len
     out_plaintext out_size out_len =
     (let out_len = map_option (\<lambda>_. 0) out_len in
      case (substance, device_secret, out_plaintext, out_len) of
        (Some s, Some secret, Some out, Some _) \<Rightarrow>
          if aad = None \<and> aad_len \<noteq> 0 then (ESP_ERR_INVALID_ARG, out_plaintext, out_len)
          else if bytes_all_zero device_secret ACTIVE_ENZYME_DEVICE_SECRET_LEN
          then (ESP_ERR_INVALID_ARG, out_plaintext, out_len)
          else (let err = active_substance_validate_envelope substance in
            if err \<noteq> ESP_OK then (err, out_plaintext, out_len)
            else if out_size < unat (as_ciphertext_len s)
            then (ESP_ERR_INVALID_SIZE, out_plaintext, out_len)
            else (let (err, key) = derive_aead_key api s secret epoch;
                      (err, out') =
                        (if err = ESP_OK
                         then decrypt_aes_gcm api s key
                                (case aad of None \<Rightarrow> [] | Some a \<Rightarrow> take aad_len a) out
                         else (err, out))
                  in if err \<noteq> ESP_OK
                     then (err, Some (zeroize_prefix out_size out'), out_len)
                     else (ESP_OK, Some out', Some (unat (as_ciphertext_len s)))))
      | _ \<Rightarrow> (ESP_ERR_INVALID_ARG, out_plaintext, out_len))"

subsection \<open>Key derivation\<close>

lemma write_u32_le_eq: "write_u32_le v = le32 v"
  by (simp add: write_u32_le_def le32_def)

lemma enzyme_salt_inj: "enzyme_salt e n = enzyme_salt e' n' \<longleftrightarrow> e = e' \<and> n = n'"
  by (auto simp: enzyme_salt_def write_u32_le_eq dest: le32_inj)

lemma enzyme_info_inj: "enzyme_info v c = enzyme_info v' c' \<longleftrightarrow> v = v' \<and> c = c'"
  by (simp add: enzyme_info_def)

text \<open>
  HKDF as RFC 5869 defines it, over an arbitrary HMAC: extract, then expand in blocks of the
  digest length and truncate.
\<close>

fun hkdf_block :: "(bytes \<Rightarrow> bytes \<Rightarrow> bytes) \<Rightarrow> bytes \<Rightarrow> bytes \<Rightarrow> nat \<Rightarrow> bytes" where
  "hkdf_block hm prk info 0 = []"
| "hkdf_block hm prk info (Suc i) = hm prk (hkdf_block hm prk info i @ info @ [of_nat (Suc i)])"

definition hkdf_rfc5869 ::
  "(bytes \<Rightarrow> bytes \<Rightarrow> bytes) \<Rightarrow> bytes \<Rightarrow> bytes \<Rightarrow> bytes \<Rightarrow> nat \<Rightarrow> bytes" where
  "hkdf_rfc5869 hm salt ikm info len =
     (let prk = hm salt ikm;
          n = (len + ACTIVE_ENZYME_HKDF_DIGEST_LEN - 1) div ACTIVE_ENZYME_HKDF_DIGEST_LEN
      in take len (concat (map (\<lambda>i. hkdf_block hm prk info (Suc i)) [0..<n])))"

text \<open>The PSA calls succeed and compute the MAC function \<open>hm\<close>, whose values are 32 bytes.\<close>

definition psa_computes_hmac :: "psa_api \<Rightarrow> (bytes \<Rightarrow> bytes \<Rightarrow> bytes) \<Rightarrow> bool" where
  "psa_computes_hmac api hm \<longleftrightarrow> psa_crypto_init api = PSA_SUCCESS \<and>
     (\<forall>k m. psa_hmac_sha256 api k m = (PSA_SUCCESS, hm k m) \<and>
        length (hm k m) = ACTIVE_ENZYME_HKDF_DIGEST_LEN)"

lemma hmac_sha256_computes:
  assumes "psa_computes_hmac api hm" and "key \<noteq> []"
  shows "hmac_sha256 api key a b = (ESP_OK, hm key (a @ b))"
  using assms by (simp add: hmac_sha256_def psa_computes_hmac_def)

lemma hkdf_one_block_rfc:
  assumes "psa_computes_hmac api hm" and "ikm \<noteq> []" and "salt \<noteq> []" and "info \<noteq> []"
    and "0 < len" and "len \<le> ACTIVE_ENZYME_HKDF_DIGEST_LEN"
  shows "hkdf_sha256_one_block api ikm salt info len = (ESP_OK, hkdf_rfc5869 hm salt ikm info len)"
proof -
  have l: "length (hm k m) = ACTIVE_ENZYME_HKDF_DIGEST_LEN" for k m
    using assms(1) by (simp add: psa_computes_hmac_def)
  have prk: "hm salt ikm \<noteq> []" using l[of salt ikm] by auto
  have n: "(len + ACTIVE_ENZYME_HKDF_DIGEST_LEN - 1) div ACTIVE_ENZYME_HKDF_DIGEST_LEN = 1"
    using assms(5,6) by simp
  have "hkdf_rfc5869 hm salt ikm info len = take len (hm (hm salt ikm) (info @ [1]))"
    unfolding hkdf_rfc5869_def n Let_def by simp
  then show ?thesis
    using assms prk hmac_sha256_computes[OF assms(1)] by (simp add: hkdf_sha256_one_block_def)
qed

subsection \<open>Decryption\<close>

definition enzyme_sealed :: "active_substance \<Rightarrow> bytes" where
  "enzyme_sealed s = take (unat (as_ciphertext_len s)) (as_ciphertext s) @ as_tag s"

definition enzyme_aad :: "bytes option \<Rightarrow> nat \<Rightarrow> bytes" where
  "enzyme_aad aad aad_len = (case aad of None \<Rightarrow> [] | Some a \<Rightarrow> take aad_len a)"

lemma decrypt_aes_gcm_OK:
  assumes "decrypt_aes_gcm api s key aad out = (ESP_OK, out')"
  shows "\<exists>w. psa_aead_decrypt api key (as_nonce s) aad (enzyme_sealed s)
        (unat (as_ciphertext_len s)) = (PSA_SUCCESS, w, unat (as_ciphertext_len s)) \<and>
      out' = take (unat (as_ciphertext_len s)) w
        @ drop (length (take (unat (as_ciphertext_len s)) w)) out"
  using assms
  by (auto simp: decrypt_aes_gcm_def Let_def enzyme_sealed_def split: if_splits prod.splits)

lemma derive_aead_key_cipher:
  "derive_aead_key api s secret epoch = (ESP_OK, key) \<Longrightarrow>
     as_cipher s = CIPHER_AES_128_GCM \<or> as_cipher s = CIPHER_AES_256_GCM"
  by (auto simp: derive_aead_key_def select_key_len_def split: if_splits)

text \<open>The three ways the function ends once the pointers are there.\<close>

lemma enzyme_decrypt_cases:
  assumes "active_enzyme_decrypt_with_secret api (Some s) (Some secret) epoch aad aad_len
      (Some out) out_size (Some old_len) = (e, out', n)"
  obtains (refused) "e \<noteq> ESP_OK" "out' = Some out" "n = Some 0"
  | (wiped) "e \<noteq> ESP_OK" "n = Some 0" "\<exists>buf. out' = Some (zeroize_prefix out_size buf)"
  | (opened) key buf where "e = ESP_OK" "derive_aead_key api s secret epoch = (ESP_OK, key)"
      "decrypt_aes_gcm api s key (enzyme_aad aad aad_len) out = (ESP_OK, buf)" "out' = Some buf"
      "n = Some (unat (as_ciphertext_len s))" "unat (as_ciphertext_len s) \<le> out_size"
      "active_substance_validate_envelope (Some s) = ESP_OK"
  using assms
  by (auto simp: active_enzyme_decrypt_with_secret_def Let_def enzyme_aad_def
      split: if_splits prod.splits)

text \<open>
  The AEAD contract: \<open>enc\<close> is the encryption of the sender; opening what it sealed under the
  same key, nonce and associated data succeeds and gives the plaintext back.
\<close>

definition psa_opens :: "psa_api \<Rightarrow> (bytes \<Rightarrow> bytes \<Rightarrow> bytes \<Rightarrow> bytes \<Rightarrow> bytes) \<Rightarrow> bool" where
  "psa_opens api enc \<longleftrightarrow>
     (\<forall>k. psa_import_aes_key api k = PSA_SUCCESS) \<and>
     (\<forall>k n a p. length (enc k n a p) = length p + ACTIVE_SUBSTANCE_TAG_LEN \<and>
        psa_aead_decrypt api k n a (enc k n a p) (length p) = (PSA_SUCCESS, p, length p))"

text \<open>A PSA instance that satisfies both contracts, for concrete evaluations.\<close>

definition psa_toy_api :: psa_api where
  "psa_toy_api = \<lparr> psa_crypto_init = PSA_SUCCESS,
     psa_hmac_sha256 = (\<lambda>k m. (PSA_SUCCESS, replicate ACTIVE_ENZYME_HKDF_DIGEST_LEN 7)),
     psa_import_aes_key = (\<lambda>k. PSA_SUCCESS),
     psa_aead_decrypt = (\<lambda>k n a sealed cap.
       if drop cap sealed = replicate ACTIVE_SUBSTANCE_TAG_LEN 9
       then (PSA_SUCCESS, take cap sealed, cap)
       else (PSA_ERROR_INVALID_SIGNATURE, take cap sealed, 0)) \<rparr>"

definition enc_toy :: "bytes \<Rightarrow> bytes \<Rightarrow> bytes \<Rightarrow> bytes \<Rightarrow> bytes" where
  "enc_toy k n a p = p @ replicate ACTIVE_SUBSTANCE_TAG_LEN 9"

lemma psa_toy_contracts:
  "psa_computes_hmac psa_toy_api (\<lambda>k m. replicate ACTIVE_ENZYME_HKDF_DIGEST_LEN 7)"
  "psa_opens psa_toy_api enc_toy"
  by (simp_all add: psa_computes_hmac_def psa_opens_def psa_toy_api_def enc_toy_def)

definition substance_toy :: active_substance where
  "substance_toy = active_substance_init \<lparr> as_cipher := CIPHER_AES_128_GCM, as_ciphertext_len := 3,
     as_tag := replicate ACTIVE_SUBSTANCE_TAG_LEN 9,
     as_ciphertext := [5, 6, 7] @ replicate 253 0 \<rparr>"

subsection \<open>Properties\<close>

text \<open>C13: Plaintext is released only after authentication.  When opening a substance succeeds,
  the AEAD call accepted ciphertext and tag under the key derived from this secret, epoch,
  nonce, version and cipher, with the given associated data; the reported length is the
  ciphertext length, it fits the buffer, and the buffer holds exactly what the call wrote.\<close>

theorem enzyme_opens_only_authentic:
  assumes "active_enzyme_decrypt_with_secret api (Some s) (Some secret) epoch aad aad_len
      (Some out) out_size (Some old_len) = (ESP_OK, Some out', Some n)"
  shows "\<exists>key w. derive_aead_key api s secret epoch = (ESP_OK, key) \<and>
    psa_aead_decrypt api key (as_nonce s) (enzyme_aad aad aad_len) (enzyme_sealed s) n
      = (PSA_SUCCESS, w, n) \<and>
    out' = take n w @ drop (length (take n w)) out \<and>
    n = unat (as_ciphertext_len s) \<and> 0 < n \<and> n \<le> out_size \<and>
    (as_cipher s = CIPHER_AES_128_GCM \<or> as_cipher s = CIPHER_AES_256_GCM)"
  using assms
proof (cases rule: enzyme_decrypt_cases)
  case (opened key buf)
  have "as_ciphertext_len s \<noteq> 0"
    using opened(7) by (auto simp: active_substance_validate_envelope_def split: if_splits)
  then have "0 < unat (as_ciphertext_len s)" by (simp add: unat_gt_0)
  with opened decrypt_aes_gcm_OK[OF opened(3)] derive_aead_key_cipher[OF opened(2)]
  show ?thesis by auto
qed auto

theorem enzyme_opens_only_authentic_witness:
  "\<exists>key w. derive_aead_key psa_toy_api substance_toy (replicate 32 1) 4 = (ESP_OK, key) \<and>
    psa_aead_decrypt psa_toy_api key (as_nonce substance_toy) [] (enzyme_sealed substance_toy) 3
      = (PSA_SUCCESS, w, 3)"
proof -
  have "active_enzyme_decrypt_with_secret psa_toy_api (Some substance_toy) (Some (replicate 32 1)) 4
      None 0 (Some [0, 0, 0, 0]) 4 (Some 0) = (ESP_OK, Some [5, 6, 7, 0], Some 3)"
    by (simp add: active_enzyme_decrypt_with_secret_def substance_toy_def bytes_all_zero_iff
        active_substance_validate_envelope_def active_substance_init_def active_substance_zero_def
        derive_aead_key_def select_key_len_def hkdf_sha256_one_block_def hmac_sha256_def
        enzyme_salt_def enzyme_info_def k_hkdf_salt_prefix_def lit_def psa_toy_api_def
        decrypt_aes_gcm_def)
  from enzyme_opens_only_authentic[OF this] show ?thesis by (auto simp: enzyme_aad_def)
qed

text \<open>C6: A failed opening releases nothing.  On every error the reported length is zero and the
  output buffer is either untouched or zeroed over its whole size, so bytes the AEAD
  implementation may have written before failing are never handed out.\<close>

theorem enzyme_failure_releases_nothing:
  assumes "active_enzyme_decrypt_with_secret api (Some s) (Some secret) epoch aad aad_len
      (Some out) out_size (Some old_len) = (e, Some out', n)"
    and "e \<noteq> ESP_OK"
  shows "n = Some 0 \<and> (out' = out \<or> take out_size out' = replicate out_size 0)"
  using assms(1)
proof (cases rule: enzyme_decrypt_cases)
  case wiped
  then show ?thesis by (auto simp: zeroize_prefix_def)
qed (use assms(2) in auto)

theorem enzyme_failure_releases_nothing_witness:
  "take 4 (the (fst (snd (active_enzyme_decrypt_with_secret psa_toy_api
      (Some (substance_toy \<lparr> as_tag := replicate ACTIVE_SUBSTANCE_TAG_LEN 8 \<rparr>))
      (Some (replicate 32 1)) 4 None 0 (Some [1, 2, 3, 4]) 4 (Some 0))))) = [0, 0, 0, 0]"
proof -
  have z4: "replicate 4 (0 :: u8) = [0, 0, 0, 0]" by (simp add: numeral_eq_Suc)
  have r: "active_enzyme_decrypt_with_secret psa_toy_api
      (Some (substance_toy \<lparr> as_tag := replicate ACTIVE_SUBSTANCE_TAG_LEN 8 \<rparr>))
      (Some (replicate 32 1)) 4 None 0 (Some [1, 2, 3, 4]) 4 (Some 0)
      = (ESP_ERR_INVALID_STATE, Some [0, 0, 0, 0], Some 0)"
    by (simp add: active_enzyme_decrypt_with_secret_def substance_toy_def bytes_all_zero_iff
        active_substance_validate_envelope_def active_substance_init_def active_substance_zero_def
        derive_aead_key_def select_key_len_def hkdf_sha256_one_block_def hmac_sha256_def
        enzyme_salt_def enzyme_info_def k_hkdf_salt_prefix_def lit_def psa_toy_api_def
        decrypt_aes_gcm_def zeroize_prefix_def z4)
  from enzyme_failure_releases_nothing[OF r] show ?thesis by (simp add: r)
qed

text \<open>C15: The decryption key is the documented one: HKDF-SHA256 in the sense of RFC 5869 with the
  device secret as input key, the salt prefix followed by the little-endian epoch and the
  nonce, and the info prefix followed by version and cipher, truncated to the key length of the
  cipher; and different epochs or nonces give different salts.\<close>

theorem enzyme_key_is_rfc5869_hkdf:
  assumes "psa_computes_hmac api hm" and "length secret = ACTIVE_ENZYME_DEVICE_SECRET_LEN"
    and "as_cipher s = CIPHER_AES_128_GCM \<or> as_cipher s = CIPHER_AES_256_GCM"
  shows "derive_aead_key api s secret epoch =
      (ESP_OK, hkdf_rfc5869 hm (k_hkdf_salt_prefix @ le32 epoch @ as_nonce s) secret
        (k_hkdf_info_prefix @ [as_version s, as_cipher s])
        (if as_cipher s = CIPHER_AES_128_GCM then 16 else 32))
    \<and> (\<forall>epoch' n'. k_hkdf_salt_prefix @ le32 epoch' @ n' = k_hkdf_salt_prefix @ le32 epoch @ as_nonce s
        \<longrightarrow> epoch' = epoch \<and> n' = as_nonce s)"
proof -
  have ne: "secret \<noteq> []" "k_hkdf_salt_prefix @ le32 epoch @ as_nonce s \<noteq> []"
    using assms(2) by (auto simp: le32_def)
  have "derive_aead_key api s secret epoch =
      hkdf_sha256_one_block api secret (k_hkdf_salt_prefix @ le32 epoch @ as_nonce s)
        (k_hkdf_info_prefix @ [as_version s, as_cipher s])
        (if as_cipher s = CIPHER_AES_128_GCM then 16 else 32)"
    using assms(2,3) by (auto simp: derive_aead_key_def select_key_len_def enzyme_salt_def
        enzyme_info_def write_u32_le_eq)
  with hkdf_one_block_rfc[OF assms(1) ne, of "k_hkdf_info_prefix @ [as_version s, as_cipher s]"]
  show ?thesis by (auto dest: le32_inj)
qed

theorem enzyme_key_is_rfc5869_hkdf_witness:
  "derive_aead_key psa_toy_api substance_toy (replicate 32 1) 4 =
     (ESP_OK, hkdf_rfc5869 (\<lambda>k m. replicate ACTIVE_ENZYME_HKDF_DIGEST_LEN 7)
        (k_hkdf_salt_prefix @ le32 4 @ as_nonce substance_toy) (replicate 32 1)
        (k_hkdf_info_prefix @ [2, 1]) 16)"
  using enzyme_key_is_rfc5869_hkdf[OF psa_toy_contracts(1), of "replicate 32 1" substance_toy 4]
  by (simp add: substance_toy_def active_substance_init_def)



end
