(* ===== verification/Stomach_Cache.thy ===== *)
theory Stomach_Cache
  imports BN_Refine
begin

text \<open>
  The replay cache of digested capsules (\<open>stomach_cp_cache.c\<close>): a ring of the sixteen digests
  accepted last.  The specification is the list of remembered digests, newest first.
\<close>

abbreviation STOMACH_CP_CACHE_SIZE :: nat where "STOMACH_CP_CACHE_SIZE \<equiv> 16"
abbreviation STOMACH_CP_DIGEST_LEN :: nat where "STOMACH_CP_DIGEST_LEN \<equiv> 32"

record stomach_cp_cache =
  cp_entries :: "bytes list"
  cp_next :: nat
  cp_count :: nat

definition digest_equals :: "bytes \<Rightarrow> bytes \<Rightarrow> bool" where
  "digest_equals left right \<longleftrightarrow>
     take STOMACH_CP_DIGEST_LEN left = take STOMACH_CP_DIGEST_LEN right"

definition cp_cache_zero :: stomach_cp_cache where
  "cp_cache_zero = \<lparr> cp_entries = replicate STOMACH_CP_CACHE_SIZE (replicate STOMACH_CP_DIGEST_LEN 0),
     cp_next = 0, cp_count = 0 \<rparr>"

definition stomach_cp_cache_clear :: "stomach_cp_cache option \<Rightarrow> stomach_cp_cache option" where
  "stomach_cp_cache_clear cache = map_option (\<lambda>_. cp_cache_zero) cache"

definition stomach_cp_cache_init :: "stomach_cp_cache option \<Rightarrow> stomach_cp_cache option" where
  "stomach_cp_cache_init cache = stomach_cp_cache_clear cache"

definition stomach_cp_cache_contains :: "stomach_cp_cache option \<Rightarrow> bytes option \<Rightarrow> bool" where
  "stomach_cp_cache_contains cache digest =
     (case (cache, digest) of
        (Some c, Some d) \<Rightarrow> list_ex (\<lambda>e. digest_equals e d) (take (cp_count c) (cp_entries c))
      | _ \<Rightarrow> False)"

definition stomach_cp_cache_seen_or_add ::
  "stomach_cp_cache option \<Rightarrow> bytes option \<Rightarrow> bool \<times> stomach_cp_cache option" where
  "stomach_cp_cache_seen_or_add cache digest =
     (case (cache, digest) of
        (Some c, Some d) \<Rightarrow>
          if stomach_cp_cache_contains cache digest then (True, cache)
          else (False, Some (c \<lparr>
            cp_entries := (cp_entries c)[cp_next c := take STOMACH_CP_DIGEST_LEN d],
            cp_next := (cp_next c + 1) mod STOMACH_CP_CACHE_SIZE,
            cp_count := (if cp_count c < STOMACH_CP_CACHE_SIZE then cp_count c + 1
                         else cp_count c) \<rparr>))
      | _ \<Rightarrow> (True, cache))"

definition stomach_cp_cache_count :: "stomach_cp_cache option \<Rightarrow> nat" where
  "stomach_cp_cache_count cache = (case cache of None \<Rightarrow> 0 | Some c \<Rightarrow> cp_count c)"

subsection \<open>The specification\<close>

datatype cp_op = Cp_seen_or_add bytes | Cp_contains bytes | Cp_clear

fun cp_step :: "cp_op \<Rightarrow> stomach_cp_cache \<Rightarrow> bool \<times> stomach_cp_cache" where
  "cp_step (Cp_seen_or_add d) c =
     (case stomach_cp_cache_seen_or_add (Some c) (Some d) of (seen, c') \<Rightarrow> (seen, the c'))"
| "cp_step (Cp_contains d) c = (stomach_cp_cache_contains (Some c) (Some d), c)"
| "cp_step Cp_clear c = (True, the (stomach_cp_cache_clear (Some c)))"

fun cp_spec_step :: "cp_op \<Rightarrow> bytes list \<Rightarrow> bool \<times> bytes list" where
  "cp_spec_step (Cp_seen_or_add d) recent =
     (if d \<in> set recent then (True, recent)
      else (False, take STOMACH_CP_CACHE_SIZE (d # recent)))"
| "cp_spec_step (Cp_contains d) recent = (d \<in> set recent, recent)"
| "cp_spec_step Cp_clear recent = (True, [])"

fun cp_legal :: "cp_op \<Rightarrow> bool" where
  "cp_legal (Cp_seen_or_add d) = (length d = STOMACH_CP_DIGEST_LEN)"
| "cp_legal (Cp_contains d) = (length d = STOMACH_CP_DIGEST_LEN)"
| "cp_legal Cp_clear = True"

definition cp_wf :: "stomach_cp_cache \<Rightarrow> bool" where
  "cp_wf c \<longleftrightarrow> length (cp_entries c) = STOMACH_CP_CACHE_SIZE \<and>
     cp_next c < STOMACH_CP_CACHE_SIZE \<and> cp_count c \<le> STOMACH_CP_CACHE_SIZE \<and>
     (cp_count c < STOMACH_CP_CACHE_SIZE \<longrightarrow> cp_next c = cp_count c) \<and>
     (\<forall>d\<in>set (cp_entries c). length d = STOMACH_CP_DIGEST_LEN)"

text \<open>Index of the \<open>k\<close>-th newest digest in the ring.\<close>

definition cp_slot :: "stomach_cp_cache \<Rightarrow> nat \<Rightarrow> nat" where
  "cp_slot c k = (cp_next c + (STOMACH_CP_CACHE_SIZE - 1) - k) mod STOMACH_CP_CACHE_SIZE"

definition cp_abs :: "stomach_cp_cache \<Rightarrow> bytes list" where
  "cp_abs c = map (\<lambda>k. cp_entries c ! cp_slot c k) [0..<cp_count c]"

lemma ring_slot_inj:
  fixes i j m n :: nat
  assumes "(m + (n - 1) - i) mod n = (m + (n - 1) - j) mod n" and "i \<le> j" and "j < n"
  shows "i = j"
proof -
  have "n dvd (m + (n - 1) - i) - (m + (n - 1) - j)"
    using assms by (subst mod_eq_dvd_iff_nat[symmetric]) auto
  moreover have "(m + (n - 1) - i) - (m + (n - 1) - j) = j - i" using assms(2,3) by simp
  ultimately have "n dvd j - i" by simp
  moreover have "j - i < n" using assms(3) by simp
  ultimately show ?thesis using assms(2) by (metis diff_is_0_eq dvd_imp_le le_antisym not_gr0 not_le)
qed

lemma cp_slots_cover:
  assumes "cp_wf c"
  shows "cp_slot c ` {0..<cp_count c} = {0..<cp_count c}"
proof -
  let ?n = "cp_count c"
  have sub: "cp_slot c ` {0..<?n} \<subseteq> {0..<?n}"
  proof (cases "?n < STOMACH_CP_CACHE_SIZE")
    case True
    then have "cp_next c = ?n" using assms by (simp add: cp_wf_def)
    then show ?thesis using True by (auto simp: cp_slot_def mod_if)
  next
    case False
    then have "?n = STOMACH_CP_CACHE_SIZE" using assms by (simp add: cp_wf_def)
    then show ?thesis by (auto simp: cp_slot_def)
  qed
  have "inj_on (cp_slot c) {0..<?n}"
  proof (rule inj_onI)
    fix i j assume "i \<in> {0..<?n}" "j \<in> {0..<?n}" "cp_slot c i = cp_slot c j"
    moreover have "?n \<le> STOMACH_CP_CACHE_SIZE" using assms by (simp add: cp_wf_def)
    ultimately show "i = j"
      using ring_slot_inj[of "cp_next c" STOMACH_CP_CACHE_SIZE i j]
        ring_slot_inj[of "cp_next c" STOMACH_CP_CACHE_SIZE j i]
      unfolding cp_slot_def by (cases "i \<le> j") auto
  qed
  then have "card (cp_slot c ` {0..<?n}) = card {0..<?n}" by (rule card_image)
  with sub show ?thesis by (intro card_subset_eq) auto
qed

lemma set_cp_abs:
  assumes "cp_wf c"
  shows "set (cp_abs c) = set (take (cp_count c) (cp_entries c))"
proof -
  have le: "cp_count c \<le> length (cp_entries c)" using assms by (simp add: cp_wf_def)
  have "set (cp_abs c) = (!) (cp_entries c) ` (cp_slot c ` {0..<cp_count c})"
    by (auto simp: cp_abs_def)
  also have "\<dots> = set (take (cp_count c) (cp_entries c))"
    unfolding cp_slots_cover[OF assms] using nth_image[OF le] by (simp add: atLeast0LessThan)
  finally show ?thesis .
qed

lemma cp_contains_abs:
  assumes "cp_wf c" and "length d = STOMACH_CP_DIGEST_LEN"
  shows "stomach_cp_cache_contains (Some c) (Some d) \<longleftrightarrow> d \<in> set (cp_abs c)"
proof -
  have "digest_equals e d \<longleftrightarrow> e = d" if "e \<in> set (take (cp_count c) (cp_entries c))" for e
    using that assms by (auto simp: digest_equals_def cp_wf_def dest!: in_set_takeD)
  then show ?thesis
    by (auto simp: stomach_cp_cache_contains_def list_ex_iff set_cp_abs[OF assms(1)])
qed

definition cp_insert :: "bytes \<Rightarrow> stomach_cp_cache \<Rightarrow> stomach_cp_cache" where
  "cp_insert d c = c \<lparr> cp_entries := (cp_entries c)[cp_next c := d],
     cp_next := (cp_next c + 1) mod STOMACH_CP_CACHE_SIZE,
     cp_count := (if cp_count c < STOMACH_CP_CACHE_SIZE then cp_count c + 1 else cp_count c) \<rparr>"

lemma cp_wf_insert:
  assumes "cp_wf c" and "length d = STOMACH_CP_DIGEST_LEN"
  shows "cp_wf (cp_insert d c)"
  using assms by (auto simp: cp_wf_def cp_insert_def dest: set_update_subset_insert[THEN subsetD])

lemma cp_slot_insert:
  "cp_next c < STOMACH_CP_CACHE_SIZE \<Longrightarrow> cp_slot (cp_insert d c) 0 = cp_next c"
  "j < STOMACH_CP_CACHE_SIZE - 1 \<Longrightarrow> cp_slot (cp_insert d c) (Suc j) = cp_slot c j"
proof -
  show "cp_slot (cp_insert d c) 0 = cp_next c" if "cp_next c < STOMACH_CP_CACHE_SIZE"
    using that by (simp add: cp_slot_def cp_insert_def mod_add_left_eq)
  assume "j < STOMACH_CP_CACHE_SIZE - 1"
  then have e: "(cp_next c + 1) mod 16 + 15 - Suc j = (cp_next c + 1) mod 16 + (14 - j)"
    "cp_next c + 1 + (14 - j) = cp_next c + 15 - j" by auto
  have "cp_slot (cp_insert d c) (Suc j) = ((cp_next c + 1) mod 16 + 15 - Suc j) mod 16"
    by (simp add: cp_slot_def cp_insert_def)
  also have "\<dots> = (cp_next c + 1 + (14 - j)) mod 16" unfolding e(1) by (rule mod_add_left_eq)
  finally show "cp_slot (cp_insert d c) (Suc j) = cp_slot c j" unfolding e(2) by (simp add: cp_slot_def)
qed

lemma cp_slot_not_next:
  "cp_next c < STOMACH_CP_CACHE_SIZE \<Longrightarrow> j < STOMACH_CP_CACHE_SIZE - 1 \<Longrightarrow> cp_slot c j \<noteq> cp_next c"
  by (auto simp: cp_slot_def mod_if)

lemma cp_abs_insert:
  assumes "cp_wf c"
  shows "cp_abs (cp_insert d c) = take STOMACH_CP_CACHE_SIZE (d # cp_abs c)"
proof (rule nth_equalityI)
  have n: "cp_next c < STOMACH_CP_CACHE_SIZE" "cp_count c \<le> STOMACH_CP_CACHE_SIZE"
    "length (cp_entries c) = STOMACH_CP_CACHE_SIZE" using assms by (simp_all add: cp_wf_def)
  show "length (cp_abs (cp_insert d c)) = length (take STOMACH_CP_CACHE_SIZE (d # cp_abs c))"
    using n by (simp add: cp_abs_def cp_insert_def)
  fix k assume "k < length (cp_abs (cp_insert d c))"
  then have k: "k < cp_count (cp_insert d c)" by (simp add: cp_abs_def)
  then have k16: "k < STOMACH_CP_CACHE_SIZE" using n by (auto simp: cp_insert_def split: if_splits)
  show "cp_abs (cp_insert d c) ! k = take STOMACH_CP_CACHE_SIZE (d # cp_abs c) ! k"
  proof (cases k)
    case 0
    have "cp_abs (cp_insert d c) ! 0 = cp_entries (cp_insert d c) ! cp_next c"
      using k 0 cp_slot_insert(1)[OF n(1), of d] by (simp add: cp_abs_def)
    then show ?thesis using 0 n by (simp add: cp_insert_def)
  next
    case (Suc j)
    then have j: "j < cp_count c" "j < STOMACH_CP_CACHE_SIZE - 1"
      using k k16 by (auto simp: cp_insert_def split: if_splits)
    have "cp_abs (cp_insert d c) ! k = (cp_entries c)[cp_next c := d] ! cp_slot c j"
      using k Suc cp_slot_insert(2)[OF j(2)] by (simp add: cp_abs_def) (simp add: cp_insert_def)
    then show ?thesis
      using cp_slot_not_next[OF n(1) j(2)] j k16 Suc by (simp add: cp_abs_def)
  qed
qed

interpretation stomach: refinement cp_wf cp_legal cp_step cp_abs cp_spec_step
proof (unfold_locales, goal_cases)
  case (1 c x)
  have "cp_wf cp_cache_zero" by (simp add: cp_wf_def cp_cache_zero_def)
  with 1 show ?case
    using cp_wf_insert[OF 1(1)]
    by (cases x) (simp_all add: stomach_cp_cache_seen_or_add_def cp_insert_def
        stomach_cp_cache_clear_def)
next
  case (2 c x)
  show ?case
  proof (cases x)
    case (Cp_seen_or_add d)
    then have d: "length d = STOMACH_CP_DIGEST_LEN" using 2(2) by simp
    show ?thesis
      using cp_contains_abs[OF 2(1) d] cp_abs_insert[OF 2(1), of d] d Cp_seen_or_add
      by (simp add: stomach_cp_cache_seen_or_add_def cp_insert_def)
  next
    case (Cp_contains d)
    then show ?thesis using cp_contains_abs[OF 2(1)] 2(2) by simp
  next
    case Cp_clear
    then show ?thesis by (simp add: stomach_cp_cache_clear_def cp_cache_zero_def cp_abs_def)
  qed
qed

subsection \<open>How long a digest is remembered\<close>

lemma cp_spec_forgotten:
  "d \<notin> set recent \<Longrightarrow> d \<notin> set ds \<Longrightarrow> d \<notin> set (snd (run cp_spec_step (map Cp_seen_or_add ds) recent))"
proof (induction ds arbitrary: recent)
  case Nil
  then show ?case by simp
next
  case (Cons x ds)
  then have "d \<notin> set (snd (cp_spec_step (Cp_seen_or_add x) recent))"
    by (auto dest: in_set_takeD)
  with Cons show ?case by (simp add: run_Cons_simp del: run.simps(2) cp_spec_step.simps)
qed

lemma cp_spec_window:
  assumes "distinct recent" and "k < length recent" and "recent ! k = d"
    and "length recent \<le> STOMACH_CP_CACHE_SIZE" and "d \<notin> set ds"
  shows "d \<in> set (snd (run cp_spec_step (map Cp_seen_or_add ds) recent)) \<longleftrightarrow>
    k + length (filter Not (fst (run cp_spec_step (map Cp_seen_or_add ds) recent)))
      < STOMACH_CP_CACHE_SIZE"
  using assms
proof (induction ds arbitrary: recent k)
  case Nil
  then show ?case by auto
next
  case (Cons x ds)
  show ?case
  proof (cases "x \<in> set recent")
    case True
    with Cons.IH[OF Cons.prems(1-4)] Cons.prems(5) show ?thesis
      by (simp add: run_Cons_simp del: run.simps(2))
  next
    case False
    let ?r = "take STOMACH_CP_CACHE_SIZE (x # recent)"
    have dist: "distinct ?r" using False Cons.prems(1) by (intro distinct_take) simp
    show ?thesis
    proof (cases "Suc k < STOMACH_CP_CACHE_SIZE")
      case True
      then have "Suc k < length ?r" "?r ! Suc k = d" using Cons.prems(2,3) by simp_all
      from Cons.IH[OF dist this] Cons.prems(5) False show ?thesis
        by (simp add: run_Cons_simp del: run.simps(2))
    next
      case full: False
      then have k: "k = length recent - 1" "length recent = STOMACH_CP_CACHE_SIZE"
        using Cons.prems(2,4) by auto
      have "d \<notin> set (butlast recent)"
        using Cons.prems(1-3) k
        by (metis append_butlast_last_id distinct_append disjoint_insert(1) last_conv_nth
            list.set(2) list.size(3) not_less_zero)
      moreover have "?r = x # butlast recent" using k(2) by (simp add: butlast_conv_take)
      ultimately have "d \<notin> set ?r" using Cons.prems(5) by simp
      from cp_spec_forgotten[OF this, of ds] Cons.prems(5) False full show ?thesis
        by (simp add: run_Cons_simp del: run.simps(2))
    qed
  qed
qed

lemma distinct_cp_spec:
  "distinct recent \<Longrightarrow> distinct (snd (run cp_spec_step ops recent))"
proof (induction ops arbitrary: recent)
  case Nil
  then show ?case by simp
next
  case (Cons x ops)
  have "distinct (snd (cp_spec_step x recent))"
    using Cons.prems by (cases x) (auto intro: distinct_take dest: in_set_takeD)
  with Cons.IH show ?case by (simp add: run_Cons_simp del: run.simps(2))
qed

text \<open>A cache in a reachable state: well formed, and no digest is stored twice.\<close>

definition replay_ok :: "stomach_cp_cache \<Rightarrow> bool" where
  "replay_ok c \<longleftrightarrow> cp_wf c \<and> distinct (cp_abs c)"

lemma replay_ok_zero: "replay_ok cp_cache_zero"
  by (simp add: replay_ok_def cp_wf_def cp_cache_zero_def cp_abs_def)

lemma replay_ok_run:
  assumes "replay_ok c" and "list_all cp_legal ops"
  shows "replay_ok (snd (run cp_step ops c))"
  using assms stomach.run_sim[of c ops] stomach.run_inv[of c ops] distinct_cp_spec[of "cp_abs c" ops]
  by (simp add: replay_ok_def)

lemma cp_spec_all_new:
  assumes "distinct ds" and "set ds \<inter> set recent = {}"
  shows "fst (run cp_spec_step (map Cp_seen_or_add ds) recent) = replicate (length ds) False"
  using assms
proof (induction ds arbitrary: recent)
  case Nil
  then show ?case by simp
next
  case (Cons x ds)
  have "set ds \<inter> set (take STOMACH_CP_CACHE_SIZE (x # recent)) = {}"
    using Cons.prems by (auto dest: in_set_takeD)
  with Cons.IH[OF _ this] Cons.prems show ?case by (simp add: run_Cons_simp del: run.simps(2))
qed

lemma replay_window:
  assumes "replay_ok c" and "length d = STOMACH_CP_DIGEST_LEN"
    and "\<forall>x\<in>set ds. length x = STOMACH_CP_DIGEST_LEN \<and> x \<noteq> d"
    and "stomach_cp_cache_seen_or_add (Some c) (Some d) = (False, Some c1)"
    and "run cp_step (map Cp_seen_or_add ds) c1 = (res, c2)"
  shows "fst (stomach_cp_cache_seen_or_add (Some c2) (Some d)) \<longleftrightarrow>
    length (filter Not res) < STOMACH_CP_CACHE_SIZE"
    and "cp_abs c1 = take STOMACH_CP_CACHE_SIZE (d # cp_abs c)"
    and "res = fst (run cp_spec_step (map Cp_seen_or_add ds) (cp_abs c1))"
proof -
  have wf: "cp_wf c" and dist: "distinct (cp_abs c)" using assms(1) by (simp_all add: replay_ok_def)
  have s: "cp_step (Cp_seen_or_add d) c = (False, c1)" and l: "cp_legal (Cp_seen_or_add d)"
    using assms(2,4) by simp_all
  have wf1: "cp_wf c1" using stomach.step_inv[OF wf l] s by simp
  have sim: "cp_spec_step (Cp_seen_or_add d) (cp_abs c) = (False, cp_abs c1)"
    using stomach.step_sim[OF wf l] s by simp
  then have new: "d \<notin> set (cp_abs c)" and abs1: "cp_abs c1 = take STOMACH_CP_CACHE_SIZE (d # cp_abs c)"
    by (auto split: if_splits)
  have "distinct (cp_abs c1)" unfolding abs1 using new dist by (intro distinct_take) simp
  moreover have "0 < length (cp_abs c1)" "cp_abs c1 ! 0 = d"
    "length (cp_abs c1) \<le> STOMACH_CP_CACHE_SIZE" by (simp_all add: abs1)
  moreover have "d \<notin> set ds" using assms(3) by auto
  ultimately have "d \<in> set (snd (run cp_spec_step (map Cp_seen_or_add ds) (cp_abs c1))) \<longleftrightarrow>
      0 + length (filter Not (fst (run cp_spec_step (map Cp_seen_or_add ds) (cp_abs c1))))
        < STOMACH_CP_CACHE_SIZE" by (rule cp_spec_window)
  moreover have lds: "list_all cp_legal (map Cp_seen_or_add ds)" using assms(3) by (simp add: list_all_iff)
  note r = stomach.run_sim[OF wf1 lds] stomach.run_inv[OF wf1 lds]
  ultimately have "d \<in> set (cp_abs c2) \<longleftrightarrow> length (filter Not res) < STOMACH_CP_CACHE_SIZE"
    using r(1) assms(5) by simp
  moreover have "cp_wf c2" using r(2) assms(5) by simp
  ultimately show "fst (stomach_cp_cache_seen_or_add (Some c2) (Some d)) \<longleftrightarrow>
      length (filter Not res) < STOMACH_CP_CACHE_SIZE"
    using cp_contains_abs[of c2 d] assms(2) by (simp add: stomach_cp_cache_seen_or_add_def)
  show "cp_abs c1 = take STOMACH_CP_CACHE_SIZE (d # cp_abs c)" by (rule abs1)
  show "res = fst (run cp_spec_step (map Cp_seen_or_add ds) (cp_abs c1))" using r(1) assms(5) by simp
qed

text \<open>When the digests in between are all new, their number decides.\<close>

lemma replay_window_fresh:
  assumes "replay_ok c" and "length d = STOMACH_CP_DIGEST_LEN" and "\<forall>x\<in>set ds. length x = STOMACH_CP_DIGEST_LEN"
    and "distinct (d # ds)" and "set (d # ds) \<inter> set (cp_abs c) = {}"
    and "stomach_cp_cache_seen_or_add (Some c) (Some d) = (False, Some c1)"
  shows "fst (stomach_cp_cache_seen_or_add (Some (snd (run cp_step (map Cp_seen_or_add ds) c1))) (Some d)) \<longleftrightarrow>
    length ds < STOMACH_CP_CACHE_SIZE"
proof -
  obtain res c2 where r: "run cp_step (map Cp_seen_or_add ds) c1 = (res, c2)" by (rule prod.exhaust)
  have "\<forall>x\<in>set ds. length x = STOMACH_CP_DIGEST_LEN \<and> x \<noteq> d" using assms(3,4) by auto
  note win = replay_window[OF assms(1,2) this assms(6) r]
  have "set ds \<inter> set (cp_abs c1) = {}" unfolding win(2) using assms(4,5) by (auto dest: in_set_takeD)
  then have "res = replicate (length ds) False"
    using win(3) cp_spec_all_new[of ds "cp_abs c1"] assms(4) by simp
  then show ?thesis using win(1) r by simp
qed

subsection \<open>Properties\<close>

text \<open>C25: The replay cache behaves, call by call, like the list of the sixteen most recently
  accepted distinct digests: every sequence of seen-or-add, contains and clear calls on a fresh
  cache returns what the same calls return on that list.\<close>

theorem stomach_cache_refines_recent_list:
  assumes "list_all cp_legal ops"
  shows "fst (run cp_step ops cp_cache_zero) = fst (run cp_spec_step ops [])
    \<and> cp_wf (snd (run cp_step ops cp_cache_zero))"
proof -
  have wf: "cp_wf cp_cache_zero" by (simp add: cp_wf_def cp_cache_zero_def)
  have "cp_abs cp_cache_zero = []" by (simp add: cp_abs_def cp_cache_zero_def)
  with stomach.run_sim[OF wf assms] stomach.run_inv[OF wf assms] show ?thesis by simp
qed

theorem stomach_cache_refines_recent_list_witness:
  "fst (run cp_step [Cp_seen_or_add (replicate 32 1), Cp_seen_or_add (replicate 32 2),
      Cp_seen_or_add (replicate 32 1), Cp_clear, Cp_contains (replicate 32 1)] cp_cache_zero)
   = [False, False, True, True, False]"
  using stomach_cache_refines_recent_list[of "[Cp_seen_or_add (replicate 32 1),
      Cp_seen_or_add (replicate 32 2), Cp_seen_or_add (replicate 32 1), Cp_clear,
      Cp_contains (replicate 32 1)]"]
  by simp

text \<open>The replay window is exactly sixteen.  After a new digest has been accepted by a cache
  in any reachable state, presenting it again (with other digests in between) is refused if and
  only if fewer than sixteen other digests were accepted in the meantime.\<close>

theorem stomach_replay_window:
  assumes "list_all cp_legal ops" and "c = snd (run cp_step ops cp_cache_zero)"
    and "length d = STOMACH_CP_DIGEST_LEN" and "\<forall>x\<in>set ds. length x = STOMACH_CP_DIGEST_LEN \<and> x \<noteq> d"
    and "stomach_cp_cache_seen_or_add (Some c) (Some d) = (False, Some c1)"
    and "run cp_step (map Cp_seen_or_add ds) c1 = (res, c2)"
  shows "fst (stomach_cp_cache_seen_or_add (Some c2) (Some d)) \<longleftrightarrow>
    length (filter Not res) < STOMACH_CP_CACHE_SIZE"
  using replay_window(1)[OF replay_ok_run[OF replay_ok_zero assms(1)] assms(3,4) _ assms(6)] assms(2,5)
  by simp

theorem stomach_replay_window_witness:
  "fst (stomach_cp_cache_seen_or_add
     (Some (snd (run cp_step [Cp_seen_or_add (replicate 32 2)]
        (the (snd (stomach_cp_cache_seen_or_add (Some cp_cache_zero) (Some (replicate 32 1))))))))
     (Some (replicate 32 1)))"
proof -
  let ?d = "replicate 32 1 :: bytes" and ?x = "replicate 32 2 :: bytes"
  have c1: "stomach_cp_cache_seen_or_add (Some cp_cache_zero) (Some ?d)
      = (False, Some (cp_insert ?d cp_cache_zero))"
    by (simp add: stomach_cp_cache_seen_or_add_def stomach_cp_cache_contains_def cp_cache_zero_def
        cp_insert_def)
  have r: "replicate STOMACH_CP_CACHE_SIZE z = z # replicate 15 z" for z :: bytes
    by (simp add: eval_nat_numeral)
  have c2: "run cp_step (map Cp_seen_or_add [?x]) (cp_insert ?d cp_cache_zero)
      = ([False], cp_insert ?x (cp_insert ?d cp_cache_zero))"
    by (simp add: stomach_cp_cache_seen_or_add_def stomach_cp_cache_contains_def cp_cache_zero_def
        cp_insert_def digest_equals_def r)
  show ?thesis
    using stomach_replay_window[OF _ refl _ _ _ c2, of "[]"] c1 c2 by simp
qed

end
