(* ===== verification/Cortex_Stomach.thy ===== *)
theory Cortex_Stomach
  imports Capsule_Pill Active_Enzyme Stomach_Cache Ribosome_Table
begin

text \<open>
  The digestion of an action pill (\<open>logic/action_pill.rs\<close> and \<open>logic/stomach.rs\<close> of the cortex):
  the structural check, the authorisation of the capsule, the replay cache and the search for the
  device whose secret opens the active substance.  \<open>Result<()>\<close> is the error code it carries,
  \<open>ESP_OK\<close> for \<open>Ok\<close>; logging is left out.  A pill is received in one block of memory, in which
  the bytes after the signature array belong to the active substance and what follows it:
  \<open>beyond\<close> is that memory, as in the model of \<open>capsule_pill_compute_digest\<close>.
\<close>

record action_pill =
  ap_capsule :: capsule_pill
  ap_active :: active_substance

definition zeroed_action_pill :: action_pill where
  "zeroed_action_pill = \<lparr> ap_capsule = capsule_pill_init \<lparr> cpl_version := 0 \<rparr>, ap_active = active_substance_zero \<rparr>"

definition action_pill_init :: "action_pill \<Rightarrow> action_pill" where
  "action_pill_init pill = zeroed_action_pill"

definition set_ready ::
  "(bytes \<Rightarrow> bytes option) \<Rightarrow> action_pill \<Rightarrow> capsule_pill \<Rightarrow> active_substance \<Rightarrow> esp_err \<times> action_pill" where
  "set_ready sha256 pill capsule active =
     (let err = active_substance_validate_envelope (Some active) in
      if err \<noteq> ESP_OK then (err, pill)
      else if \<not> capsule_pill_matches_active sha256 (Some capsule) (Some active) then (ESP_ERR_INVALID_CRC, pill)
      else (ESP_OK, (action_pill_init pill) \<lparr> ap_capsule := capsule, ap_active := active \<rparr>))"

definition precheck_for_relay :: "action_pill \<Rightarrow> u32 \<Rightarrow> esp_err" where
  "precheck_for_relay pill now =
     (let err = active_substance_validate_envelope (Some (ap_active pill)) in
      if err \<noteq> ESP_OK then err else capsule_pill_validate_basic (Some (ap_capsule pill)) now)"

definition capsule_matches_active :: "(bytes \<Rightarrow> bytes option) \<Rightarrow> action_pill \<Rightarrow> bool" where
  "capsule_matches_active sha256 pill =
     capsule_pill_matches_active sha256 (Some (ap_capsule pill)) (Some (ap_active pill))"

definition rs_constant_time_equal :: "bytes \<Rightarrow> bytes \<Rightarrow> bool" where
  "rs_constant_time_equal a b \<longleftrightarrow> length a = length b \<and>
     capsule_pill_constant_time_equal (Some a) (Some b) (length a)"

definition issuer_key_matches :: "action_pill \<Rightarrow> bytes \<Rightarrow> bool" where
  "issuer_key_matches pill expected = rs_constant_time_equal (cpl_issuer_key_id (ap_capsule pill)) expected"

definition verify_capsule_signature ::
  "(bytes \<Rightarrow> bytes option) \<Rightarrow> 'k pk_api \<Rightarrow> action_pill \<Rightarrow> bytes \<Rightarrow> bool" where
  "verify_capsule_signature sha256 pk pill key =
     capsule_pill_verify_asymmetric sha256 pk (Some (ap_capsule pill)) (Some key) (length key)"

definition compute_capsule_digest ::
  "(bytes \<Rightarrow> bytes option) \<Rightarrow> (nat \<Rightarrow> u8) \<Rightarrow> action_pill \<Rightarrow> esp_err \<times> bytes" where
  "compute_capsule_digest sha256 beyond pill =
     (let (err, out) = capsule_pill_compute_digest sha256 beyond (Some (ap_capsule pill))
                         (Some (replicate CAPSULE_PILL_DIGEST_LEN 0))
      in (err, the out))"

definition compute_inner_id ::
  "(bytes \<Rightarrow> bytes option) \<Rightarrow> (nat \<Rightarrow> u8) \<Rightarrow> action_pill \<Rightarrow> esp_err \<times> bytes" where
  "compute_inner_id sha256 beyond pill = compute_capsule_digest sha256 beyond pill"

subsection \<open>Authorisation\<close>

definition ap_validate :: "action_pill \<Rightarrow> u32 \<Rightarrow> esp_err" where
  "ap_validate pill now = precheck_for_relay pill now"

definition capsule_verify ::
  "(bytes \<Rightarrow> bytes option) \<Rightarrow> 'k pk_api \<Rightarrow> action_pill \<Rightarrow> bytes \<Rightarrow> bytes \<Rightarrow> bool" where
  "capsule_verify sha256 pk pill expected key =
     (if \<not> issuer_key_matches pill expected then False
      else if \<not> capsule_matches_active sha256 pill then False
      else verify_capsule_signature sha256 pk pill key)"

definition validate_authorized ::
  "(bytes \<Rightarrow> bytes option) \<Rightarrow> 'k pk_api \<Rightarrow> action_pill \<Rightarrow> u32 \<Rightarrow> bytes \<Rightarrow> bytes \<Rightarrow> esp_err" where
  "validate_authorized sha256 pk pill now expected key =
     (let err = precheck_for_relay pill now in
      if err \<noteq> ESP_OK then err
      else if \<not> issuer_key_matches pill expected then ESP_ERR_INVALID_STATE
      else if \<not> capsule_matches_active sha256 pill then ESP_ERR_INVALID_CRC
      else if \<not> verify_capsule_signature sha256 pk pill key then ESP_ERR_INVALID_STATE
      else ESP_OK)"

subsection \<open>The replay cache\<close>

record stomach_seen_result =
  ss_status :: esp_err
  ss_seen :: bool
  ss_digest :: bytes

definition seen_or_add_cp ::
  "(bytes \<Rightarrow> bytes option) \<Rightarrow> (nat \<Rightarrow> u8) \<Rightarrow> action_pill \<Rightarrow> stomach_cp_cache
     \<Rightarrow> stomach_seen_result \<times> stomach_cp_cache" where
  "seen_or_add_cp sha256 beyond pill cache =
     (case compute_capsule_digest sha256 beyond pill of
        (err, digest) \<Rightarrow>
          if err = ESP_OK
          then (case stomach_cp_cache_seen_or_add (Some cache) (Some digest) of
                  (seen, c') \<Rightarrow> (\<lparr> ss_status = ESP_OK, ss_seen = seen, ss_digest = digest \<rparr>, the c'))
          else (\<lparr> ss_status = err, ss_seen = False, ss_digest = replicate CAPSULE_PILL_DIGEST_LEN 0 \<rparr>, cache))"

definition clear_seen_cache :: "stomach_cp_cache \<Rightarrow> stomach_cp_cache" where
  "clear_seen_cache cache = the (stomach_cp_cache_clear (Some cache))"

subsection \<open>Opening the active substance\<close>

abbreviation ACTIVE_ENZYME_PLAINTEXT_MAX_LEN :: nat where "ACTIVE_ENZYME_PLAINTEXT_MAX_LEN \<equiv> 256"

record digested_active_substance =
  dg_command :: active_substance_command
  dg_device :: ribosome_table_entry

definition empty_ribosome_entry :: ribosome_table_entry where
  "empty_ribosome_entry = \<lparr> re_mqtt_client_id = replicate RIBOSOME_MQTT_CLIENT_ID_LEN 0, re_template_id = 0,
     re_epoch = 0, re_device_secret = replicate RIBOSOME_DEVICE_SECRET_LEN 0 \<rparr>"

definition digested_clear :: digested_active_substance where
  "digested_clear = \<lparr> dg_command = active_substance_command_clear, dg_device = empty_ribosome_entry \<rparr>"

definition device_secret_valid :: "bytes \<Rightarrow> bool" where
  "device_secret_valid secret \<longleftrightarrow> foldl (\<lambda>any b. any OR b) 0 secret \<noteq> 0"

text \<open>One call of \<open>decrypt_with_secret\<close> into a fresh buffer: the code and the filled prefix.\<close>

definition open_candidate ::
  "psa_api \<Rightarrow> active_substance \<Rightarrow> bytes option \<Rightarrow> ribosome_table_entry \<Rightarrow> esp_err \<times> bytes" where
  "open_candidate psa s aad candidate =
     (case active_enzyme_decrypt_with_secret psa (Some s) (Some (re_device_secret candidate))
             (re_epoch candidate) aad (case aad of None \<Rightarrow> 0 | Some a \<Rightarrow> length a)
             (Some (replicate ACTIVE_ENZYME_PLAINTEXT_MAX_LEN 0)) ACTIVE_ENZYME_PLAINTEXT_MAX_LEN (Some 0) of
        (err, out, n) \<Rightarrow> (err, take (the n) (the out)))"

fun digest_candidates ::
  "psa_api \<Rightarrow> active_substance \<Rightarrow> bytes option \<Rightarrow> ribosome_table_entry list \<Rightarrow> digested_active_substance
     \<Rightarrow> esp_err \<times> digested_active_substance" where
  "digest_candidates psa s aad [] out = (ESP_ERR_NOT_FOUND, digested_clear)"
| "digest_candidates psa s aad (candidate # rest) out =
     (if \<not> device_secret_valid (re_device_secret candidate) then digest_candidates psa s aad rest out
      else (case open_candidate psa s aad candidate of
          (err, plaintext) \<Rightarrow>
            if err = ESP_OK
            then (case active_substance_parse_command (Some plaintext) (length plaintext) (Some (dg_command out)) of
                    (perr, command) \<Rightarrow>
                      if perr \<noteq> ESP_OK then (perr, out \<lparr> dg_command := the command \<rparr>)
                      else (ESP_OK, out \<lparr> dg_command := the command, dg_device := candidate \<rparr>))
            else if err = ESP_ERR_NOT_SUPPORTED \<or> err = ESP_ERR_INVALID_SIZE \<or> err = ESP_ERR_INVALID_ARG
            then (err, out)
            else digest_candidates psa s aad rest out))"

definition digest_active_substance ::
  "psa_api \<Rightarrow> action_pill \<Rightarrow> ribosome_table \<Rightarrow> bytes option \<Rightarrow> esp_err \<times> digested_active_substance" where
  "digest_active_substance psa pill devices aad =
     (let out = digested_clear in
      if rib_count devices > RIBOSOME_MAX_ENTRIES then (ESP_ERR_INVALID_ARG, out)
      else (let err = active_substance_validate_envelope (Some (ap_active pill)) in
        if err \<noteq> ESP_OK then (err, out)
        else if rib_count devices = 0 then (ESP_ERR_NOT_FOUND, out)
        else digest_candidates psa (ap_active pill) aad (take (rib_count devices) (rib_entries devices)) out))"

subsection \<open>What authorisation means\<close>

lemma issuer_key_matches_iff: "issuer_key_matches pill expected \<longleftrightarrow> cpl_issuer_key_id (ap_capsule pill) = expected"
  by (auto simp: issuer_key_matches_def rs_constant_time_equal_def constant_time_equal_iff)

text \<open>The signature of the issuer over the hash of the signed bytes of a capsule.\<close>

definition issuer_signed ::
  "(bytes \<Rightarrow> bytes option) \<Rightarrow> 'k pk_api \<Rightarrow> bytes \<Rightarrow> capsule_pill \<Rightarrow> bool" where
  "issuer_signed sha256 pk key c \<longleftrightarrow>
     (\<exists>k h. pk_parse_public_key pk key = Some k \<and> pk_can_do_ecdsa pk k \<and>
        sha256 (capsule_signed_canonical c) = Some h \<and>
        pk_verify pk k h (take (unat (cpl_signature_len c)) (cpl_signature c)))"

definition pill_authorized ::
  "(bytes \<Rightarrow> bytes option) \<Rightarrow> 'k pk_api \<Rightarrow> bytes \<Rightarrow> bytes \<Rightarrow> u32 \<Rightarrow> action_pill \<Rightarrow> bool" where
  "pill_authorized sha256 pk expected key now pill \<longleftrightarrow>
     capsule_pill_validate_basic (Some (ap_capsule pill)) now = ESP_OK \<and>
     active_substance_validate_envelope (Some (ap_active pill)) = ESP_OK \<and>
     cpl_issuer_key_id (ap_capsule pill) = expected \<and>
     sha256 (active_substance_canonical (ap_active pill)) = Some (cpl_active_hash (ap_capsule pill)) \<and>
     key \<noteq> [] \<and> issuer_signed sha256 pk key (ap_capsule pill)"

text \<open>The basic validation at time 0 is the validation at any time without the expiry test.\<close>

lemma validate_basic_untimed:
  "capsule_pill_validate_basic (Some c) now = ESP_OK \<Longrightarrow> capsule_pill_validate_basic (Some c) 0 = ESP_OK"
  by (auto simp: capsule_pill_validate_basic_def split: if_splits)

lemma verify_signature_iff:
  assumes "capsule_pill_validate_basic (Some (ap_capsule pill)) now = ESP_OK"
  shows "verify_capsule_signature sha256 pk pill key \<longleftrightarrow> key \<noteq> [] \<and> issuer_signed sha256 pk key (ap_capsule pill)"
  using validate_basic_untimed[OF assms]
  by (auto simp: verify_capsule_signature_def capsule_pill_verify_asymmetric_def issuer_signed_def
      capsule_compute_signed_hash_def split: option.splits)

lemma validate_authorized_iff:
  assumes "sha_total sha256" and "capsule_fits (ap_capsule pill)"
  shows "validate_authorized sha256 pk pill now expected key = ESP_OK \<longleftrightarrow>
    pill_authorized sha256 pk expected key now pill"
  using matches_active_iff[OF assms, of "ap_active pill"] verify_signature_iff[of pill now sha256 pk key]
  by (auto simp: validate_authorized_def precheck_for_relay_def pill_authorized_def Let_def
      issuer_key_matches_iff capsule_matches_active_def)

subsection \<open>What digestion means\<close>

lemma device_secret_valid_iff: "device_secret_valid secret \<longleftrightarrow> (\<exists>b\<in>set secret. b \<noteq> 0)"
  by (auto simp: device_secret_valid_def foldl_or_zero_iff)

text \<open>A successful AEAD call has written exactly the plaintext it reports.\<close>

definition psa_reports_written :: "psa_api \<Rightarrow> bool" where
  "psa_reports_written api \<longleftrightarrow>
     (\<forall>k n a c cap w m. psa_aead_decrypt api k n a c cap = (PSA_SUCCESS, w, m) \<longrightarrow> length w = m)"

text \<open>The secret and epoch of a device open the substance to the plaintext \<open>p\<close>.\<close>

definition device_opens ::
  "psa_api \<Rightarrow> active_substance \<Rightarrow> bytes option \<Rightarrow> ribosome_table_entry \<Rightarrow> bytes \<Rightarrow> bool" where
  "device_opens psa s aad e p \<longleftrightarrow>
     (\<exists>key. derive_aead_key psa s (re_device_secret e) (re_epoch e) = (ESP_OK, key) \<and>
        psa_aead_decrypt psa key (as_nonce s) (case aad of None \<Rightarrow> [] | Some a \<Rightarrow> a)
          (enzyme_sealed s) (length p) = (PSA_SUCCESS, p, length p))"

lemma open_candidate_OK:
  assumes "psa_reports_written psa" and "open_candidate psa s aad e = (ESP_OK, p)"
  shows "device_opens psa s aad e p" "length p = unat (as_ciphertext_len s)"
proof -
  let ?n = "unat (as_ciphertext_len s)" and ?al = "case aad of None \<Rightarrow> 0 | Some a \<Rightarrow> length a"
  obtain err out' n where d: "active_enzyme_decrypt_with_secret psa (Some s) (Some (re_device_secret e))
      (re_epoch e) aad ?al (Some (replicate ACTIVE_ENZYME_PLAINTEXT_MAX_LEN 0))
      ACTIVE_ENZYME_PLAINTEXT_MAX_LEN (Some 0) = (err, out', n)" by (metis prod.collapse)
  have e: "err = ESP_OK" "p = take (the n) (the out')" using assms(2) d by (simp_all add: open_candidate_def)
  have "device_opens psa s aad e p \<and> length p = ?n"
    using d
  proof (cases rule: enzyme_decrypt_cases)
    case (opened key buf)
    obtain w where w: "psa_aead_decrypt psa key (as_nonce s) (enzyme_aad aad ?al) (enzyme_sealed s) ?n
        = (PSA_SUCCESS, w, ?n)" "buf = take ?n w @ drop (length (take ?n w)) (replicate 256 0)"
      using decrypt_aes_gcm_OK[OF opened(3)] by blast
    have "length w = ?n" using assms(1) w(1) unfolding psa_reports_written_def by blast
    then have "p = w" using w(2) opened(4,5) e(2) by simp
    moreover have "enzyme_aad aad ?al = (case aad of None \<Rightarrow> [] | Some a \<Rightarrow> a)"
      by (simp add: enzyme_aad_def split: option.split)
    ultimately show ?thesis using w(1) opened(2) \<open>length w = ?n\<close> by (auto simp: device_opens_def)
  qed (use e in auto)
  then show "device_opens psa s aad e p" "length p = ?n" by simp_all
qed

lemma parse_command_OK:
  assumes "active_substance_parse_command (Some p) (length p) (Some out) = (ESP_OK, Some c)"
  shows "command_fits c" "command_ok c" "p = command_bytes c"
proof -
  have l: "length p = ACTIVE_SUBSTANCE_COMMAND_BYTES"
    using assms by (auto simp: active_substance_parse_command_def split: if_splits)
  have "c = command_of_bytes p" "active_substance_command_validate (Some c) = ESP_OK"
    using assms l by (auto simp: active_substance_parse_command_def Let_def split: if_splits)
  then show "command_fits c" "command_ok c" "p = command_bytes c"
    using command_of_bytes_fits[OF l] command_validate_iff[of c] command_bytes_of_bytes[OF l] by simp_all
qed

lemma parse_command_bytes:
  assumes "command_fits c" and "command_ok c"
  shows "active_substance_parse_command (Some (command_bytes c)) (length (command_bytes c)) (Some out)
    = (ESP_OK, Some c)"
  using assms command_validate_iff[of c] length_command_bytes[of c] command_of_bytes_bytes[of c]
  by (simp add: active_substance_parse_command_def Let_def)

lemma digest_candidates_OK:
  assumes "psa_reports_written psa" and "digest_candidates psa s aad es out = (ESP_OK, d)"
  shows "dg_device d \<in> set es \<and> device_secret_valid (re_device_secret (dg_device d)) \<and>
    command_fits (dg_command d) \<and> command_ok (dg_command d) \<and>
    device_opens psa s aad (dg_device d) (command_bytes (dg_command d))"
  using assms(2)
proof (induction es)
  case Nil
  then show ?case by simp
next
  case (Cons e es)
  obtain err p where o: "open_candidate psa s aad e = (err, p)" by (metis prod.collapse)
  obtain perr cmd where q: "active_substance_parse_command (Some p) (length p) (Some (dg_command out)) = (perr, cmd)"
    by (metis prod.collapse)
  have step: "digest_candidates psa s aad (e # es) out =
      (if \<not> device_secret_valid (re_device_secret e) then digest_candidates psa s aad es out
       else if err = ESP_OK
       then (if perr \<noteq> ESP_OK then (perr, out \<lparr> dg_command := the cmd \<rparr>)
             else (ESP_OK, out \<lparr> dg_command := the cmd, dg_device := e \<rparr>))
       else if err = ESP_ERR_NOT_SUPPORTED \<or> err = ESP_ERR_INVALID_SIZE \<or> err = ESP_ERR_INVALID_ARG
       then (err, out) else digest_candidates psa s aad es out)"
    by (simp only: digest_candidates.simps o q prod.case)
  consider "digest_candidates psa s aad es out = (ESP_OK, d)"
    | "device_secret_valid (re_device_secret e)" "err = ESP_OK" "perr = ESP_OK"
      "d = out \<lparr> dg_command := the cmd, dg_device := e \<rparr>"
    using Cons.prems unfolding step by (metis prod.inject)
  then show ?case
  proof cases
    case 1
    then show ?thesis using Cons.IH by simp
  next
    case 2
    have "cmd = Some (the cmd)" using q 2(3)
      by (auto simp: active_substance_parse_command_def Let_def split: if_splits)
    then have "active_substance_parse_command (Some p) (length p) (Some (dg_command out)) = (ESP_OK, Some (the cmd))"
      using q 2(3) by simp
    from parse_command_OK[OF this] show ?thesis
      using 2 open_candidate_OK(1)[OF assms(1), of s aad e p] o by simp
  qed
qed

lemma digest_candidates_skip:
  assumes "\<And>e. e \<in> set es \<Longrightarrow> \<not> device_secret_valid (re_device_secret e) \<or>
      fst (open_candidate psa s aad e) \<in> {ESP_ERR_INVALID_STATE, ESP_FAIL}"
  shows "digest_candidates psa s aad (es @ fs) out = digest_candidates psa s aad fs out"
  using assms
proof (induction es)
  case Nil
  then show ?case by simp
next
  case (Cons e es)
  have "\<not> device_secret_valid (re_device_secret e) \<or>
      (\<exists>p err. open_candidate psa s aad e = (err, p) \<and> (err = ESP_ERR_INVALID_STATE \<or> err = ESP_FAIL))"
    using Cons.prems[of e] by (cases "open_candidate psa s aad e") auto
  then show ?case using Cons by auto
qed

lemma digest_candidates_hit:
  assumes "device_secret_valid (re_device_secret e)" and "open_candidate psa s aad e = (ESP_OK, command_bytes c)"
    and "command_fits c" and "command_ok c"
  shows "digest_candidates psa s aad (e # fs) out = (ESP_OK, out \<lparr> dg_command := c, dg_device := e \<rparr>)"
  using assms parse_command_bytes[OF assms(3,4)] by simp

lemma open_candidate_of_device:
  assumes "device_opens psa s None e p" and "psa_crypto_init psa = PSA_SUCCESS"
    and "\<And>k. psa_import_aes_key psa k = PSA_SUCCESS"
    and "active_substance_validate_envelope (Some s) = ESP_OK" and "length p = unat (as_ciphertext_len s)"
    and "device_secret_valid (re_device_secret e)" and "length (re_device_secret e) = RIBOSOME_DEVICE_SECRET_LEN"
  shows "open_candidate psa s None e = (ESP_OK, p)"
proof -
  let ?n = "unat (as_ciphertext_len s)"
  obtain key where key: "derive_aead_key psa s (re_device_secret e) (re_epoch e) = (ESP_OK, key)"
    "psa_aead_decrypt psa key (as_nonce s) [] (enzyme_sealed s) ?n = (PSA_SUCCESS, p, ?n)"
    using assms(1,5) by (auto simp: device_opens_def)
  have "\<not> bytes_all_zero (Some (re_device_secret e)) ACTIVE_ENZYME_DEVICE_SECRET_LEN"
    using assms(6,7) by (simp add: bytes_all_zero_iff device_secret_valid_iff)
  moreover have "?n \<le> 256" using assms(4) by (auto simp: active_substance_validate_envelope_def split: if_splits)
  moreover have "decrypt_aes_gcm psa s key [] out = (ESP_OK, p @ drop ?n out)" for out
    using key(2) assms(2,3,5) by (simp add: decrypt_aes_gcm_def enzyme_sealed_def)
  ultimately show ?thesis
    using assms(4,5) key(1) by (simp add: open_candidate_def active_enzyme_decrypt_with_secret_def)
qed

end
