(* ===== verification/BN_Net.thy ===== *)
theory BN_Net
  imports BN_Hash
begin

text \<open>
  What the networked components share: decimal printing, network byte order, \<open>snprintf\<close> into an
  array, and BSD sockets.  The socket layer (lwIP) is not part of the repository and is the
  parameter \<open>sock_api\<close>, whose calls return a value or an error number and the next state of the
  network; \<open>sock_stream\<close> states what its documentation promises of a stream socket.
\<close>

subsection \<open>Decimal numbers\<close>

function dec :: "nat \<Rightarrow> bytes" where
  "dec n = (if n < 10 then [48 + of_nat n] else dec (n div 10) @ [48 + of_nat (n mod 10)])"
  by auto
termination by (relation "measure id") auto

declare dec.simps [simp del]

fun of_dec :: "nat \<Rightarrow> bytes \<Rightarrow> nat" where
  "of_dec acc [] = acc"
| "of_dec acc (c # cs) = of_dec (acc * 10 + unat (c - 48)) cs"

lemma of_dec_append: "of_dec acc (xs @ ys) = of_dec (of_dec acc xs) ys"
  by (induction xs arbitrary: acc) simp_all

lemma unat_digit: "n < 10 \<Longrightarrow> unat (of_nat n :: u8) = n"
  by (simp add: unat_of_nat)

lemma of_dec_dec: "of_dec 0 (dec n) = n"
proof (induction n rule: dec.induct)
  case (1 n)
  then show ?case
    by (subst dec.simps) (auto simp: of_dec_append unat_digit)
qed

lemma digit_range: "n < 10 \<Longrightarrow> 48 \<le> (48 + of_nat n :: u8) \<and> (48 + of_nat n :: u8) \<le> 57"
proof -
  assume "n < 10"
  then have "unat (48 + of_nat n :: u8) = 48 + n" by (simp add: unat_word_ariths unat_of_nat)
  with \<open>n < 10\<close> show ?thesis by (simp add: word_le_nat_alt)
qed

lemma dec_digits: "c \<in> set (dec n) \<Longrightarrow> 48 \<le> c \<and> c \<le> 57"
proof (induction n arbitrary: c rule: dec.induct)
  case (1 n)
  have e: "dec n = (if n < 10 then [48 + of_nat n] else dec (n div 10) @ [48 + of_nat (n mod 10)])"
    by (rule dec.simps)
  show ?case
  proof (cases "n < 10")
    case True
    then show ?thesis using 1(2) e digit_range[of n] by simp
  next
    case False
    then show ?thesis using 1(1)[OF False] 1(2) e digit_range[of "n mod 10"] by auto
  qed
qed

lemma dec_not_Nil [simp]: "dec n \<noteq> []"
  by (subst dec.simps) simp

lemma length_dec_le: "n < 10 ^ Suc k \<Longrightarrow> length (dec n) \<le> Suc k"
proof (induction k arbitrary: n)
  case 0
  then show ?case by (simp add: dec.simps)
next
  case (Suc k)
  then have "n div 10 < 10 ^ Suc k" by (simp add: less_mult_imp_div_less mult.commute)
  with Suc.IH[OF this] show ?case by (subst dec.simps) simp
qed

subsection \<open>Byte order\<close>

definition be16 :: "u16 \<Rightarrow> bytes" where
  "be16 v = [ucast (drop_bit 8 v AND 0xFF), ucast (v AND 0xFF)]"

definition of_be16 :: "bytes \<Rightarrow> u16" where
  "of_be16 bs = push_bit 8 (ucast (rd bs 0)) OR ucast (rd bs 1)"

lemma length_be16 [simp, bn_len]: "length (be16 v) = 2"
  by (simp add: be16_def)

lemma of_be16_be16 [simp]: "of_be16 (be16 v @ rest) = v"
proof -
  have "of_be16 (be16 v @ rest) = of_le16 (le16 v @ rest)"
    by (simp add: of_be16_def be16_def of_le16_def le16_def or.commute)
  then show ?thesis by simp
qed

text \<open>\<open>ntohl\<close> and \<open>htonl\<close> on the little-endian target.\<close>

definition ntohl :: "u32 \<Rightarrow> u32" where
  "ntohl v = of_le32 (rev (le32 v))"

lemma ntohl_ntohl [simp]: "ntohl (ntohl v) = v"
proof -
  have "le32 (of_le32 (rev (le32 v))) = rev (le32 v)" by (rule le32_of_le32) simp
  then show ?thesis using of_le32_le32_end[of v] by (simp add: ntohl_def)
qed

subsection \<open>Printing into an array\<close>

text \<open>\<open>snprintf(dst, size, ...)\<close> where the formatted text is \<open>t\<close>.\<close>

definition snprintf :: "bytes \<Rightarrow> nat \<Rightarrow> bytes \<Rightarrow> bytes" where
  "snprintf dst sz t =
     (if sz = 0 then dst
      else take (sz - 1) t @ 0 # drop (Suc (length (take (sz - 1) t))) dst)"

lemma length_snprintf [bn_len]: "sz \<le> length dst \<Longrightarrow> length (snprintf dst sz t) = length dst"
  by (auto simp: snprintf_def)

lemma cstr_snprintf: "0 < sz \<Longrightarrow> 0 \<notin> set t \<Longrightarrow> cstr (snprintf dst sz t) = take (sz - 1) t"
proof -
  assume "0 < sz" and "0 \<notin> set t"
  then have "0 \<notin> set (take (sz - 1) t)" by (auto dest: in_set_takeD)
  then show ?thesis using \<open>0 < sz\<close> by (simp add: snprintf_def cstr_append_clean)
qed

subsection \<open>Sockets\<close>

datatype errno = ENOMEM | EINVAL | ETIMEDOUT | EAGAIN | EOTHER

record 'w sock_api =
  sk_socket :: "'w \<Rightarrow> (errno + nat) \<times> 'w"
  sk_connect :: "nat \<Rightarrow> u32 \<Rightarrow> u16 \<Rightarrow> 'w \<Rightarrow> errno option \<times> 'w"
  sk_send :: "nat \<Rightarrow> bytes \<Rightarrow> 'w \<Rightarrow> (errno + nat) \<times> 'w"
  sk_recv :: "nat \<Rightarrow> nat \<Rightarrow> 'w \<Rightarrow> (errno + bytes) \<times> 'w"
  sk_close :: "nat \<Rightarrow> 'w \<Rightarrow> 'w"

text \<open>
  \<open>out w s\<close> is what the socket \<open>s\<close> has accepted for sending since it was opened.  A new socket
  has sent nothing; a send accepts a prefix of the data and returns its length; nothing else
  sends.
\<close>

definition sock_stream :: "'w sock_api \<Rightarrow> ('w \<Rightarrow> nat \<Rightarrow> bytes) \<Rightarrow> bool" where
  "sock_stream api out \<longleftrightarrow>
     (\<forall>w s w'. sk_socket api w = (Inr s, w') \<longrightarrow> out w' s = []) \<and>
     (\<forall>s ip port w. out (snd (sk_connect api s ip port w)) s = out w s) \<and>
     (\<forall>s data w. case sk_send api s data w of
        (Inl e, w') \<Rightarrow> out w' s = out w s
      | (Inr n, w') \<Rightarrow> n \<le> length data \<and> out w' s = out w s @ take n data) \<and>
     (\<forall>s n w. out (snd (sk_recv api s n w)) s = out w s) \<and>
     (\<forall>s w. out (sk_close api s w) s = out w s)"

lemma sock_streamD:
  assumes "sock_stream api out"
  shows "sk_socket api w = (Inr s, w') \<Longrightarrow> out w' s = []"
    "sk_connect api s ip port w = (r, w') \<Longrightarrow> out w' s = out w s"
    "sk_send api s data w = (Inl e, w') \<Longrightarrow> out w' s = out w s"
    "sk_send api s data w = (Inr n, w') \<Longrightarrow> n \<le> length data \<and> out w' s = out w s @ take n data"
    "sk_recv api s n w = (q, w') \<Longrightarrow> out w' s = out w s"
    "out (sk_close api s w) s = out w s"
proof -
  note d = assms[unfolded sock_stream_def]
  show "sk_socket api w = (Inr s, w') \<Longrightarrow> out w' s = []" "out (sk_close api s w) s = out w s"
    using d by blast+
  have snd: "case sk_send api s data w of (Inl e, w') \<Rightarrow> out w' s = out w s
      | (Inr n, w') \<Rightarrow> n \<le> length data \<and> out w' s = out w s @ take n data" for s data w
    using d by simp
  show "sk_send api s data w = (Inl e, w') \<Longrightarrow> out w' s = out w s"
    "sk_send api s data w = (Inr n, w') \<Longrightarrow> n \<le> length data \<and> out w' s = out w s @ take n data"
    using snd[where s = s and data = data and w = w] by simp_all
  show "sk_connect api s ip port w = (r, w') \<Longrightarrow> out w' s = out w s"
    "sk_recv api s n w = (q, w') \<Longrightarrow> out w' s = out w s"
    using d by (metis snd_conv)+
qed

text \<open>A network that accepts everything at once and answers every read with a fixed text.\<close>

type_synonym net_mem = "bytes list"

definition net_mem_api :: "bytes \<Rightarrow> net_mem sock_api" where
  "net_mem_api answer = \<lparr>
     sk_socket = (\<lambda>w. (Inr (length w), w @ [[]])),
     sk_connect = (\<lambda>s ip port w. (None, w)),
     sk_send = (\<lambda>s data w. if s < length w then (Inr (length data), w[s := w ! s @ data]) else (Inl EINVAL, w)),
     sk_recv = (\<lambda>s n w. (Inr (take n answer), w)),
     sk_close = (\<lambda>s w. w) \<rparr>"

definition net_mem_out :: "net_mem \<Rightarrow> nat \<Rightarrow> bytes" where
  "net_mem_out w s = (if s < length w then w ! s else [])"

lemma net_mem_stream: "sock_stream (net_mem_api answer) net_mem_out"
  by (simp add: sock_stream_def net_mem_api_def net_mem_out_def)

end
