(* ===== verification/Mqtt_Broker.thy ===== *)
theory Mqtt_Broker
  imports BN_Net
begin

text \<open>
  The MQTT broker front end (\<open>MQTT_broker.c\<close>): configuration, the callbacks Mosquitto calls, and
  publishing, which the build does through a client of its own on the loopback interface.  The
  broker Mosquitto, FreeRTOS and the sockets are not part of the repository: the sockets are the
  parameter of \<open>BN_Net\<close>, the results of the FreeRTOS calls are arguments.  A callback is a function
  of the event and of the application state \<open>'x\<close>, with its context pointer applied.
\<close>

abbreviation MQTT_BROKER_DEFAULT_PORT :: u16 where "MQTT_BROKER_DEFAULT_PORT \<equiv> 1883"
abbreviation MQTT_BROKER_TOPIC_LEN :: nat where "MQTT_BROKER_TOPIC_LEN \<equiv> 96"
abbreviation MQTT_BROKER_PAYLOAD_MAX_LEN :: nat where "MQTT_BROKER_PAYLOAD_MAX_LEN \<equiv> 256"

record mqtt_broker_connect =
  mcn_client_id :: "bytes option"
  mcn_username :: "bytes option"
  mcn_password :: "bytes option"
  mcn_password_len :: nat

record mqtt_broker_message =
  mms_client_id :: "bytes option"
  mms_topic :: "bytes option"
  mms_payload :: "bytes option"
  mms_payload_len :: nat
  mms_qos :: u8
  mms_retained :: bool
  mms_remote_ip :: u32

record 'x mqtt_broker_config =
  mbc_listen_port :: u16
  mbc_bind_ip :: u32
  mbc_max_payload_len :: u16
  mbc_allow_anonymous :: bool
  mbc_zone_id :: u32
  mbc_connect_cb :: "(mqtt_broker_connect \<Rightarrow> 'x \<Rightarrow> bool \<times> 'x) option"
  mbc_message_cb :: "(mqtt_broker_message \<Rightarrow> 'x \<Rightarrow> 'x) option"

record mqtt_broker_stats =
  mbs_listen_port :: u32
  mbs_bind_ip :: u32
  mbs_accepted_clients :: u64
  mbs_rejected_clients :: u64
  mbs_connected_clients :: u64
  mbs_rx_packets :: u64
  mbs_rx_publishes :: u64
  mbs_last_exit_code :: int

record mosq_broker_config =
  mq_host :: bytes
  mq_port :: u16

record 'x mqtt_broker =
  mb_config :: "'x mqtt_broker_config"
  mb_stats :: mqtt_broker_stats
  mb_mosq_config :: mosq_broker_config
  mb_lock :: bool
  mb_task :: bool
  mb_running :: bool
  mb_host :: bytes

definition mqtt_stats_zero :: mqtt_broker_stats where
  "mqtt_stats_zero = \<lparr> mbs_listen_port = 0, mbs_bind_ip = 0, mbs_accepted_clients = 0,
     mbs_rejected_clients = 0, mbs_connected_clients = 0, mbs_rx_packets = 0, mbs_rx_publishes = 0,
     mbs_last_exit_code = 0 \<rparr>"

subsection \<open>Configuration and life cycle\<close>

definition dotted :: "u32 \<Rightarrow> bytes" where
  "dotted ip = dec (unat (drop_bit 24 ip AND 0xFF)) @ lit ''.'' @ dec (unat (drop_bit 16 ip AND 0xFF))
     @ lit ''.'' @ dec (unat (drop_bit 8 ip AND 0xFF)) @ lit ''.'' @ dec (unat (ip AND 0xFF))"

definition bind_ip_to_host :: "u32 \<Rightarrow> bytes \<Rightarrow> bytes" where
  "bind_ip_to_host bind_ip out =
     (if bind_ip = 0 then snprintf out 16 (lit ''0.0.0.0'')
      else snprintf out 16 (dotted (ntohl bind_ip)))"

definition mqtt_broker_config_defaults :: "'x mqtt_broker_config" where
  "mqtt_broker_config_defaults = \<lparr> mbc_listen_port = MQTT_BROKER_DEFAULT_PORT, mbc_bind_ip = 0,
     mbc_max_payload_len = of_nat MQTT_BROKER_PAYLOAD_MAX_LEN, mbc_allow_anonymous = True,
     mbc_zone_id = 1, mbc_connect_cb = None, mbc_message_cb = None \<rparr>"

text \<open>\<open>mutex_ok\<close> and \<open>task_ok\<close>: \<open>xSemaphoreCreateMutex\<close> and \<open>xTaskCreate\<close> succeed.\<close>

definition mqtt_broker_start ::
  "bool \<Rightarrow> bool \<Rightarrow> 'x mqtt_broker_config option \<Rightarrow> 'x mqtt_broker \<Rightarrow> esp_err \<times> 'x mqtt_broker" where
  "mqtt_broker_start mutex_ok task_ok config b =
     (if mb_running b then (ESP_OK, b)
      else if \<not> mb_lock b \<and> \<not> mutex_ok then (ESP_ERR_NO_MEM, b)
      else
       (let c = (case config of
              None \<Rightarrow> mqtt_broker_config_defaults
            | Some c \<Rightarrow> c \<lparr>
                mbc_listen_port := (if mbc_listen_port c = 0 then MQTT_BROKER_DEFAULT_PORT
                                    else mbc_listen_port c),
                mbc_max_payload_len :=
                  (if mbc_max_payload_len c = 0 \<or>
                      mbc_max_payload_len c > of_nat MQTT_BROKER_PAYLOAD_MAX_LEN
                   then of_nat MQTT_BROKER_PAYLOAD_MAX_LEN else mbc_max_payload_len c),
                mbc_zone_id := (if mbc_zone_id c = 0 then 1 else mbc_zone_id c) \<rparr>);
            host = bind_ip_to_host (mbc_bind_ip c) (mb_host b);
            b = b \<lparr> mb_lock := True, mb_config := c,
                    mb_stats := mqtt_stats_zero \<lparr> mbs_listen_port := ucast (mbc_listen_port c),
                      mbs_bind_ip := mbc_bind_ip c \<rparr>,
                    mb_host := host,
                    mb_mosq_config := \<lparr> mq_host = cstr host, mq_port = mbc_listen_port c \<rparr> \<rparr>
        in if task_ok then (ESP_OK, b \<lparr> mb_running := True, mb_task := True \<rparr>)
           else (ESP_ERR_NO_MEM, b \<lparr> mb_running := False, mb_task := False \<rparr>)))"

text \<open>What \<open>broker_task\<close> does once \<open>mosq_broker_run\<close> has returned \<open>rc\<close>.\<close>

definition broker_task :: "int \<Rightarrow> 'x mqtt_broker \<Rightarrow> 'x mqtt_broker" where
  "broker_task rc b = b \<lparr> mb_running := False, mb_task := False,
     mb_stats := (mb_stats b) \<lparr> mbs_last_exit_code := rc \<rparr> \<rparr>"

text \<open>The result tells whether \<open>mosq_broker_stop\<close> is called.\<close>

definition mqtt_broker_stop :: "'x mqtt_broker \<Rightarrow> esp_err \<times> bool" where
  "mqtt_broker_stop b = (ESP_OK, mb_running b)"

definition mqtt_broker_is_running :: "'x mqtt_broker \<Rightarrow> bool" where
  "mqtt_broker_is_running b = mb_running b"

definition mqtt_broker_get_stats :: "'x mqtt_broker \<Rightarrow> mqtt_broker_stats" where
  "mqtt_broker_get_stats b = mb_stats b"

subsection \<open>Callbacks from Mosquitto\<close>

definition handle_mosq_connect ::
  "bytes option \<Rightarrow> bytes option \<Rightarrow> bytes option \<Rightarrow> int \<Rightarrow> 'x \<Rightarrow> 'x mqtt_broker
     \<Rightarrow> int \<times> 'x \<times> 'x mqtt_broker" where
  "handle_mosq_connect client_id username password password_len x b =
     (let c = mb_config b;
          accepted = (mbc_allow_anonymous c \<or>
            (case username of None \<Rightarrow> False | Some u \<Rightarrow> rd u 0 \<noteq> 0));
          (accepted, x) =
            (if accepted then
               (case mbc_connect_cb c of
                  None \<Rightarrow> (True, x)
                | Some cb \<Rightarrow> cb \<lparr> mcn_client_id = client_id, mcn_username = username,
                    mcn_password = password,
                    mcn_password_len = (if password_len > 0 then nat password_len else 0) \<rparr> x)
             else (False, x));
          st = mb_stats b
      in if accepted
         then (0, x, b \<lparr> mb_stats := st \<lparr> mbs_accepted_clients := mbs_accepted_clients st + 1,
                 mbs_connected_clients := mbs_connected_clients st + 1 \<rparr> \<rparr>)
         else (1, x, b \<lparr> mb_stats := st \<lparr> mbs_rejected_clients := mbs_rejected_clients st + 1 \<rparr> \<rparr>))"

definition handle_mosq_message ::
  "bytes option \<Rightarrow> bytes option \<Rightarrow> bytes option \<Rightarrow> int \<Rightarrow> int \<Rightarrow> int \<Rightarrow> 'x \<Rightarrow> 'x mqtt_broker
     \<Rightarrow> 'x \<times> 'x mqtt_broker" where
  "handle_mosq_message client topic data len qos retain x b =
     (let st = mb_stats b;
          b = b \<lparr> mb_stats := st \<lparr> mbs_rx_packets := mbs_rx_packets st + 1,
                mbs_rx_publishes := mbs_rx_publishes st + 1 \<rparr> \<rparr>
      in case mbc_message_cb (mb_config b) of
           None \<Rightarrow> (x, b)
         | Some cb \<Rightarrow>
             (cb \<lparr> mms_client_id = client, mms_topic = topic, mms_payload = data,
                   mms_payload_len = (if len > 0 then nat len else 0),
                   mms_qos = (if qos \<ge> 0 then of_int qos else 0), mms_retained = (retain \<noteq> 0),
                   mms_remote_ip = 0 \<rparr> x, b))"

subsection \<open>Publishing\<close>

definition socket_errno_to_esp :: "errno \<Rightarrow> esp_err" where
  "socket_errno_to_esp err =
     (case err of ENOMEM \<Rightarrow> ESP_ERR_NO_MEM | EINVAL \<Rightarrow> ESP_ERR_INVALID_ARG
      | ETIMEDOUT \<Rightarrow> ESP_ERR_TIMEOUT | _ \<Rightarrow> ESP_FAIL)"

text \<open>\<open>data\<close> is what is still to be sent.\<close>

function send_all :: "'w sock_api \<Rightarrow> nat \<Rightarrow> bytes \<Rightarrow> 'w \<Rightarrow> esp_err \<times> 'w" where
  "send_all api sock data w =
     (if data = [] then (ESP_OK, w)
      else (case sk_send api sock data w of
          (Inl e, w') \<Rightarrow> (socket_errno_to_esp e, w')
        | (Inr rc, w') \<Rightarrow>
            if rc = 0 then (ESP_ERR_INVALID_STATE, w')
            else send_all api sock (drop rc data) w'))"
  by pat_completeness auto
termination by (relation "measure (\<lambda>(api, sock, data, w). length data)") auto

declare send_all.simps [simp del]

text \<open>At most four digits of base 128; \<open>k\<close> counts the ones left.\<close>

fun mqtt_remaining_loop :: "nat \<Rightarrow> nat \<Rightarrow> bytes" where
  "mqtt_remaining_loop 0 v = []"
| "mqtt_remaining_loop (Suc k) v =
     (let b = of_nat (v mod 128) :: u8;
          v' = v div 128;
          b = (if v' > 0 then b OR 0x80 else b)
      in b # (if v' > 0 then mqtt_remaining_loop k v' else []))"

definition mqtt_encode_remaining_len :: "nat \<Rightarrow> bytes" where
  "mqtt_encode_remaining_len v = mqtt_remaining_loop 4 v"

text \<open>A packet under construction: the bytes written so far; \<open>psize\<close> is the size of its array.\<close>

definition mqtt_append_u16 :: "nat \<Rightarrow> u16 \<Rightarrow> bytes \<Rightarrow> esp_err \<times> bytes" where
  "mqtt_append_u16 psize v packet =
     (if length packet + 2 > psize then (ESP_ERR_INVALID_SIZE, packet)
      else (ESP_OK, packet @ [ucast (drop_bit 8 v AND 0xFF), ucast (v AND 0xFF)]))"

definition mqtt_append_bytes :: "nat \<Rightarrow> bytes option \<Rightarrow> nat \<Rightarrow> bytes \<Rightarrow> esp_err \<times> bytes" where
  "mqtt_append_bytes psize data len packet =
     (if (len > 0 \<and> data = None) \<or> length packet + len > psize then (ESP_ERR_INVALID_SIZE, packet)
      else (ESP_OK, if len > 0 then packet @ take len (the data) else packet))"

definition mqtt_append_string :: "nat \<Rightarrow> bytes option \<Rightarrow> bytes \<Rightarrow> esp_err \<times> bytes" where
  "mqtt_append_string psize t packet =
     (let len = (case t of None \<Rightarrow> 0 | Some s \<Rightarrow> strlen s) in
      if len > 65535 then (ESP_ERR_INVALID_SIZE, packet)
      else (case mqtt_append_u16 psize (of_nat len) packet of
          (err, packet) \<Rightarrow>
            if err \<noteq> ESP_OK then (err, packet) else mqtt_append_bytes psize t len packet))"

text \<open>\<open>if (err == ESP_OK) err = ...\<close>\<close>

definition and_then :: "esp_err \<times> bytes \<Rightarrow> (bytes \<Rightarrow> esp_err \<times> bytes) \<Rightarrow> esp_err \<times> bytes" where
  "and_then r f = (case r of (err, packet) \<Rightarrow> if err = ESP_OK then f packet else (err, packet))"

definition MQTT_LOCAL_PUBLISH_CLIENT_ID :: bytes where
  "MQTT_LOCAL_PUBLISH_CLIENT_ID = lit ''zoneguard-local''"

definition mqtt_connect_packet :: "esp_err \<times> bytes" where
  "mqtt_connect_packet =
     (let remaining = mqtt_encode_remaining_len (10 + 2 + strlen MQTT_LOCAL_PUBLISH_CLIENT_ID);
          p = mqtt_append_bytes 128 (Some remaining) (length remaining) [0x10];
          p = and_then p (mqtt_append_string 128 (Some (lit ''MQTT'')));
          p = and_then p (mqtt_append_bytes 128 (Some [4, 2]) 2);
          p = and_then p (mqtt_append_u16 128 15)
      in and_then p (mqtt_append_string 128 (Some MQTT_LOCAL_PUBLISH_CLIENT_ID)))"

definition local_mqtt_send_connect :: "'w sock_api \<Rightarrow> nat \<Rightarrow> 'w \<Rightarrow> esp_err \<times> 'w" where
  "local_mqtt_send_connect api sock w =
     (case mqtt_connect_packet of
        (err, packet) \<Rightarrow>
          if err \<noteq> ESP_OK then (err, w)
          else (case send_all api sock packet w of
              (err, w) \<Rightarrow>
                if err \<noteq> ESP_OK then (err, w)
                else (case sk_recv api sock 4 w of
                    (Inl e, w) \<Rightarrow> (socket_errno_to_esp e, w)
                  | (Inr connack, w) \<Rightarrow>
                      if length connack \<noteq> 4 \<or> rd connack 0 \<noteq> 0x20 \<or> rd connack 1 \<noteq> 0x02 \<or> rd connack 3 \<noteq> 0
                      then (ESP_ERR_INVALID_RESPONSE, w) else (ESP_OK, w))))"

definition mqtt_publish_packet :: "bytes \<Rightarrow> bytes option \<Rightarrow> nat \<Rightarrow> bool \<Rightarrow> esp_err \<times> bytes" where
  "mqtt_publish_packet topic payload payload_len retain =
     (let psize = MQTT_BROKER_TOPIC_LEN + MQTT_BROKER_PAYLOAD_MAX_LEN + 8;
          topic_len = strlen topic;
          remaining = mqtt_encode_remaining_len (2 + topic_len + payload_len);
          p = mqtt_append_bytes psize (Some remaining) (length remaining)
                [0x30 OR (if retain then 1 else 0)];
          p = and_then p (mqtt_append_u16 psize (of_nat topic_len));
          p = and_then p (mqtt_append_bytes psize (Some topic) topic_len)
      in and_then p (mqtt_append_bytes psize payload payload_len))"

definition local_mqtt_publish ::
  "'w sock_api \<Rightarrow> 'x mqtt_broker \<Rightarrow> bytes \<Rightarrow> bytes option \<Rightarrow> nat \<Rightarrow> u8 \<Rightarrow> bool \<Rightarrow> 'w \<Rightarrow> esp_err \<times> 'w" where
  "local_mqtt_publish api b topic payload payload_len qos retain w =
     (if qos \<noteq> 0 then (ESP_ERR_NOT_SUPPORTED, w)
      else if strlen topic > 65535 then (ESP_ERR_INVALID_SIZE, w)
      else (case sk_socket api w of
          (Inl e, w) \<Rightarrow> (socket_errno_to_esp e, w)
        | (Inr sock, w) \<Rightarrow>
            (let addr = (if mbc_bind_ip (mb_config b) \<noteq> 0 then mbc_bind_ip (mb_config b)
                         else ntohl 0x7F000001);
                 (err, w) =
                   (case sk_connect api sock addr (mbc_listen_port (mb_config b)) w of
                      (Some e, w) \<Rightarrow> (socket_errno_to_esp e, w)
                    | (None, w) \<Rightarrow>
                        (case local_mqtt_send_connect api sock w of
                           (err, w) \<Rightarrow>
                             if err \<noteq> ESP_OK then (err, w)
                             else (case mqtt_publish_packet topic payload payload_len retain of
                                 (err, packet) \<Rightarrow>
                                   if err \<noteq> ESP_OK then (err, w)
                                   else (case send_all api sock packet w of
                                       (err, w) \<Rightarrow>
                                         if err = ESP_OK then (ESP_OK, snd (send_all api sock [0xE0, 0] w))
                                         else (err, w)))))
             in (err, sk_close api sock w))))"

definition broker_publish_internal ::
  "'w sock_api \<Rightarrow> 'x mqtt_broker \<Rightarrow> bytes option \<Rightarrow> bytes option \<Rightarrow> bytes option \<Rightarrow> nat \<Rightarrow> u8 \<Rightarrow> bool
     \<Rightarrow> 'w \<Rightarrow> esp_err \<times> 'w" where
  "broker_publish_internal api b client_id topic payload payload_len qos retain w =
     (if (case client_id of None \<Rightarrow> False | Some c \<Rightarrow> rd c 0 = 0) then (ESP_ERR_INVALID_ARG, w)
      else if (case topic of None \<Rightarrow> True | Some t \<Rightarrow> rd t 0 = 0) then (ESP_ERR_INVALID_ARG, w)
      else if payload_len > 0 \<and> payload = None then (ESP_ERR_INVALID_ARG, w)
      else if payload_len > unat (mbc_max_payload_len (mb_config b)) \<or> payload_len > 2147483647
      then (ESP_ERR_INVALID_SIZE, w)
      else if qos > 2 then (ESP_ERR_INVALID_ARG, w)
      else if \<not> mb_running b then (ESP_ERR_INVALID_STATE, w)
      else local_mqtt_publish api b (the topic) payload payload_len qos retain w)"

definition mqtt_broker_publish ::
  "'w sock_api \<Rightarrow> 'x mqtt_broker \<Rightarrow> bytes option \<Rightarrow> bytes option \<Rightarrow> nat \<Rightarrow> u8 \<Rightarrow> bool \<Rightarrow> 'w \<Rightarrow> esp_err \<times> 'w" where
  "mqtt_broker_publish api b topic payload payload_len qos retain w =
     broker_publish_internal api b None topic payload payload_len qos retain w"

definition mqtt_broker_publish_to_client ::
  "'w sock_api \<Rightarrow> 'x mqtt_broker \<Rightarrow> bytes option \<Rightarrow> bytes option \<Rightarrow> bytes option \<Rightarrow> nat \<Rightarrow> u8 \<Rightarrow> bool
     \<Rightarrow> 'w \<Rightarrow> esp_err \<times> 'w" where
  "mqtt_broker_publish_to_client api b client_id topic payload payload_len qos retain w =
     (if client_id = None then (ESP_ERR_INVALID_ARG, w)
      else broker_publish_internal api b client_id topic payload payload_len qos retain w)"

subsection \<open>Packets as MQTT 3.1.1 reads them\<close>

text \<open>The remaining-length field (section 2.2.3 of the standard) and the split of a control packet
  into type, flags, body and the bytes that follow.\<close>

fun mqtt_read_len :: "nat \<Rightarrow> nat \<Rightarrow> bytes \<Rightarrow> (nat \<times> bytes) option" where
  "mqtt_read_len 0 m bs = None"
| "mqtt_read_len (Suc k) m [] = None"
| "mqtt_read_len (Suc k) m (b # bs) =
     (let x = unat (b AND 127) * m in
      if b AND 128 = 0 then Some (x, bs)
      else map_option (\<lambda>(v, rest). (x + v, rest)) (mqtt_read_len k (m * 128) bs))"

fun mqtt_read_packet :: "bytes \<Rightarrow> (u8 \<times> u8 \<times> bytes \<times> bytes) option" where
  "mqtt_read_packet [] = None"
| "mqtt_read_packet (h # bs) =
     (case mqtt_read_len 4 1 bs of
        None \<Rightarrow> None
      | Some (n, body) \<Rightarrow>
          if n \<le> length body then Some (drop_bit 4 h, h AND 15, take n body, drop n body) else None)"

fun mqtt_read_publish :: "bytes \<Rightarrow> (bytes \<times> bytes) option" where
  "mqtt_read_publish body =
     (let n = unat (of_be16 body) in
      if 2 + n \<le> length body then Some (take n (drop 2 body), drop (2 + n) body) else None)"

lemma and_127: "(x :: u8) AND 127 = take_bit 7 x"
  using take_bit_eq_mask[of 7 x] by (simp add: mask_eq_exp_minus_1)

lemma and_128: "(x :: u8) AND 128 = 0 \<longleftrightarrow> \<not> bit x 7"
  using and_exp_eq_0_iff_not_bit[of x 7] by simp

lemma take_bit_digit: "d < 128 \<Longrightarrow> take_bit 7 (of_nat d :: u8) = of_nat d"
  using take_bit_of_nat[of 7 d, where ?'a = u8] by (simp add: take_bit_nat_eq_self)

lemma mqtt_digit:
  assumes "d < 128"
  shows "unat ((of_nat d :: u8) AND 127) = d" "(of_nat d :: u8) AND 128 = 0"
    "unat ((of_nat d OR 0x80 :: u8) AND 127) = d" "(of_nat d OR 0x80 :: u8) AND 128 \<noteq> 0"
proof -
  have u: "unat (of_nat d :: u8) = d" using assms by (simp add: unat_of_nat)
  show "unat ((of_nat d :: u8) AND 127) = d" using assms u by (simp add: and_127 take_bit_digit)
  have "\<not> bit (take_bit 7 (of_nat d :: u8)) 7" by (simp add: bit_take_bit_iff)
  then show "(of_nat d :: u8) AND 128 = 0" using assms by (simp add: and_128 take_bit_digit)
  have "take_bit 7 (of_nat d OR 0x80 :: u8) = of_nat d" using assms by (simp add: take_bit_digit)
  then show "unat ((of_nat d OR 0x80 :: u8) AND 127) = d" using u by (simp add: and_127)
  have "bit (0x80 :: u8) 7" by simp
  then show "(of_nat d OR 0x80 :: u8) AND 128 \<noteq> 0" by (simp add: and_128 bit_or_iff)
qed

lemma mqtt_read_len_loop:
  "v < 128 ^ k \<Longrightarrow> 0 < k \<Longrightarrow> mqtt_read_len k m (mqtt_remaining_loop k v @ rest) = Some (v * m, rest)"
proof (induction k arbitrary: v m)
  case 0
  then show ?case by simp
next
  case (Suc k)
  have d: "v mod 128 < 128" by simp
  note digit = mqtt_digit[OF d]
  show ?case
  proof (cases "v div 128 = 0")
    case True
    then have "v mod 128 = v" by (simp add: div_eq_0_iff)
    with True digit show ?thesis by simp
  next
    case False
    then have "0 < k" using Suc.prems(1) by (cases k) (simp_all add: div_eq_0_iff)
    moreover have "v div 128 < 128 ^ k" using Suc.prems(1)
      by (simp add: less_mult_imp_div_less mult.commute)
    ultimately have "mqtt_read_len k (m * 128) (mqtt_remaining_loop k (v div 128) @ rest)
        = Some (v div 128 * (m * 128), rest)" by (rule Suc.IH[rotated])
    moreover have "v mod 128 * m + v div 128 * (m * 128) = v * m"
    proof -
      have "v * m = (v mod 128 + v div 128 * 128) * m" by simp
      then show ?thesis by (simp only: algebra_simps)
    qed
    ultimately show ?thesis using False digit by simp
  qed
qed

lemma mqtt_read_encoded_len:
  "v < 128 ^ 4 \<Longrightarrow> mqtt_read_len 4 1 (mqtt_encode_remaining_len v @ rest) = Some (v, rest)"
  using mqtt_read_len_loop[of v 4 1 rest] by (simp add: mqtt_encode_remaining_len_def)

lemma length_mqtt_remaining_loop: "length (mqtt_remaining_loop k v) \<le> k"
  by (induction k arbitrary: v) (simp_all add: Let_def)

lemma take_strlen: "take (strlen s) s = cstr s"
  by (simp add: strlen_def cstr_def takeWhile_eq_take[symmetric])

subsection \<open>What is sent\<close>

lemma socket_errno_not_ok [simp]: "socket_errno_to_esp e \<noteq> ESP_OK"
  by (cases e) (simp_all add: socket_errno_to_esp_def)

lemma send_all_stream:
  "sock_stream api out \<Longrightarrow> send_all api s data w = (err, w') \<Longrightarrow>
    \<exists>n\<le>length data. out w' s = out w s @ take n data \<and> (err = ESP_OK \<longrightarrow> n = length data)"
proof (induction api s data w rule: send_all.induct)
  case (1 api s data w)
  note e = send_all.simps[of api s data w]
  show ?case
  proof (cases "data = []")
    case True
    then show ?thesis using 1(3) e by simp
  next
    case False
    obtain r w1 where r: "sk_send api s data w = (r, w1)" by fastforce
    show ?thesis
    proof (cases r)
      case (Inl x)
      then show ?thesis using 1(3) False r e sock_streamD(3)[OF 1(2), of s data w x w1] by auto
    next
      case (Inr n)
      then have n: "n \<le> length data" "out w1 s = out w s @ take n data"
        using r sock_streamD(4)[OF 1(2), of s data w n w1] by simp_all
      show ?thesis
      proof (cases "n = 0")
        case True
        then show ?thesis using 1(3) False r e Inr n by auto
      next
        case n0: False
        then have "send_all api s (drop n data) w1 = (err, w')" using 1(3) False r e Inr by simp
        from 1(1)[OF False r[symmetric] Inr n0 1(2) this]
        obtain m where m: "m \<le> length data - n" "out w' s = out w1 s @ take m (drop n data)"
          "err = ESP_OK \<longrightarrow> m = length data - n" by (metis length_drop)
        have "out w' s = out w s @ take (n + m) data" using m(2) n(2) by (simp add: take_add)
        then show ?thesis using m(1,3) n(1) by (intro exI[of _ "n + m"]) linarith
      qed
    qed
  qed
qed

text \<open>Appending succeeds exactly when the bytes fit.\<close>

lemma mqtt_append_u16_iff:
  "mqtt_append_u16 psize v p = (if length p + 2 \<le> psize then (ESP_OK, p @ be16 v) else (ESP_ERR_INVALID_SIZE, p))"
  by (simp add: mqtt_append_u16_def be16_def not_le)

lemma mqtt_append_bytes_iff:
  "mqtt_append_bytes psize (Some d) len p =
     (if length p + len \<le> psize then (ESP_OK, p @ take len d) else (ESP_ERR_INVALID_SIZE, p))"
  by (simp add: mqtt_append_bytes_def not_le)

lemma mqtt_append_string_ok:
  assumes "length p + 2 + strlen t \<le> psize" and "strlen t \<le> 65535"
  shows "mqtt_append_string psize (Some t) p = (ESP_OK, p @ be16 (of_nat (strlen t)) @ cstr t)"
  using assms by (simp add: mqtt_append_string_def mqtt_append_u16_iff mqtt_append_bytes_iff take_strlen)

lemma and_then_ok [simp]: "and_then (ESP_OK, p) f = f p"
  by (simp add: and_then_def)

definition mqtt_connect_bytes :: bytes where
  "mqtt_connect_bytes = [0x10] @ mqtt_encode_remaining_len 27 @ be16 4 @ lit ''MQTT'' @ [4, 2] @ be16 15
     @ be16 15 @ MQTT_LOCAL_PUBLISH_CLIENT_ID"

lemma mqtt_encode_small: "v < 128 \<Longrightarrow> mqtt_encode_remaining_len v = [of_nat v]"
  using mqtt_remaining_loop.simps(2)[of 3 v] by (simp add: mqtt_encode_remaining_len_def div_eq_0_iff)

lemma mqtt_connect_packet_eq: "mqtt_connect_packet = (ESP_OK, mqtt_connect_bytes)"
proof -
  have l: "cstr (lit ''MQTT'') = lit ''MQTT''" "cstr MQTT_LOCAL_PUBLISH_CLIENT_ID = MQTT_LOCAL_PUBLISH_CLIENT_ID"
    by (simp_all add: lit_def MQTT_LOCAL_PUBLISH_CLIENT_ID_def)
  moreover have n: "strlen (lit ''MQTT'') = 4" "strlen MQTT_LOCAL_PUBLISH_CLIENT_ID = 15"
    by (simp_all add: strlen_def lit_def MQTT_LOCAL_PUBLISH_CLIENT_ID_def)
  moreover have "length (lit ''MQTT'') = 4" by (simp add: lit_def)
  ultimately show ?thesis
    by (simp add: mqtt_connect_packet_def mqtt_connect_bytes_def Let_def mqtt_encode_small
        mqtt_append_bytes_iff mqtt_append_string_ok mqtt_append_u16_iff)
qed

definition mqtt_publish_bytes :: "bytes \<Rightarrow> bytes \<Rightarrow> bool \<Rightarrow> bytes" where
  "mqtt_publish_bytes t d retain = [0x30 OR (if retain then 1 else 0)]
     @ mqtt_encode_remaining_len (2 + length t + length d) @ be16 (of_nat (length t)) @ t @ d"

lemma mqtt_publish_packet_ok:
  assumes "mqtt_publish_packet topic (Some d) (length d) retain = (ESP_OK, packet)"
  shows "packet = mqtt_publish_bytes (cstr topic) d retain" "strlen topic + length d \<le> 360"
  using assms take_strlen[of topic] length_cstr_le[of topic]
  by (auto simp: mqtt_publish_packet_def mqtt_publish_bytes_def Let_def mqtt_append_bytes_iff
      mqtt_append_u16_iff and_then_def strlen_def split: if_splits)

lemma mqtt_read_packet_eq:
  assumes "length body < 128 ^ 4"
  shows "mqtt_read_packet (h # mqtt_encode_remaining_len (length body) @ body @ rest)
    = Some (drop_bit 4 h, h AND 15, body, rest)"
  using mqtt_read_encoded_len[OF assms, of "body @ rest"] by simp

lemma mqtt_read_publish_bytes:
  assumes "length t \<le> 65535" and "length t + length d \<le> 65535"
  shows "mqtt_read_packet (mqtt_publish_bytes t d retain @ rest)
      = Some (3, if retain then 1 else 0, be16 (of_nat (length t)) @ t @ d, rest)"
    "mqtt_read_publish (be16 (of_nat (length t)) @ t @ d) = Some (t, d)"
proof -
  have "unat (of_nat (length t) :: u16) = length t" using assms(1) by (simp add: unat_of_nat)
  then show "mqtt_read_publish (be16 (of_nat (length t)) @ t @ d) = Some (t, d)" by simp
  have "drop_bit 4 (0x30 OR (if retain then 1 else 0) :: u8) = 3"
    "(0x30 OR (if retain then 1 else 0) :: u8) AND 15 = (if retain then 1 else 0)" by simp_all
  with assms(2) mqtt_read_packet_eq[of "be16 (of_nat (length t)) @ t @ d"]
  show "mqtt_read_packet (mqtt_publish_bytes t d retain @ rest)
      = Some (3, if retain then 1 else 0, be16 (of_nat (length t)) @ t @ d, rest)"
    by (simp add: mqtt_publish_bytes_def del: mqtt_read_packet.simps)
qed

lemma mqtt_read_connect_bytes:
  "\<exists>body. mqtt_read_packet (mqtt_connect_bytes @ rest) = Some (1, 0, body, rest)"
proof -
  let ?body = "be16 4 @ lit ''MQTT'' @ [4, 2] @ be16 15 @ be16 15 @ MQTT_LOCAL_PUBLISH_CLIENT_ID"
  have "length ?body = 27" by (simp add: lit_def MQTT_LOCAL_PUBLISH_CLIENT_ID_def)
  with mqtt_read_packet_eq[of ?body "0x10" rest]
  have "mqtt_read_packet (mqtt_connect_bytes @ rest) = Some (1, 0, ?body, rest)"
    by (simp add: mqtt_connect_bytes_def del: mqtt_read_packet.simps)
  then show ?thesis by blast
qed

lemma local_mqtt_send_connect_stream:
  assumes "sock_stream api out" and "local_mqtt_send_connect api s w = (ESP_OK, w')"
  shows "out w' s = out w s @ mqtt_connect_bytes"
proof -
  obtain e w1 where c: "send_all api s mqtt_connect_bytes w = (e, w1)" by fastforce
  obtain r w2 where r: "sk_recv api s 4 w1 = (r, w2)" by fastforce
  have "e = ESP_OK" "w' = w2" using assms(2) c r
    by (auto simp: local_mqtt_send_connect_def mqtt_connect_packet_eq split: if_splits sum.splits)
  then show ?thesis using send_all_stream[OF assms(1) c] sock_streamD(5)[OF assms(1) r] by simp
qed

lemma local_mqtt_publish_stream:
  assumes st: "sock_stream api out"
    and "local_mqtt_publish api b topic (Some d) (length d) qos retain w = (ESP_OK, w')"
  shows "\<exists>s n. out w' s = mqtt_connect_bytes @ mqtt_publish_bytes (cstr topic) d retain @ take n [0xE0, 0]"
    "strlen topic + length d \<le> 360"
proof -
  let ?ip = "if mbc_bind_ip (mb_config b) \<noteq> 0 then mbc_bind_ip (mb_config b) else ntohl 0x7F000001"
  have q: "qos = 0" "strlen topic \<le> 65535"
    using assms(2) by (auto simp: local_mqtt_publish_def split: if_splits)
  obtain x w1 where o: "sk_socket api w = (x, w1)" by fastforce
  then obtain s where s: "x = Inr s" using assms(2) q by (cases x) (auto simp: local_mqtt_publish_def)
  obtain y w2 where c: "sk_connect api s ?ip (mbc_listen_port (mb_config b)) w1 = (y, w2)" by fastforce
  obtain e3 w3 where h: "local_mqtt_send_connect api s w2 = (e3, w3)" by fastforce
  obtain e4 packet where p: "mqtt_publish_packet topic (Some d) (length d) retain = (e4, packet)" by fastforce
  obtain e5 w5 where t: "send_all api s packet w3 = (e5, w5)" by fastforce
  obtain e6 w6 where f: "send_all api s [0xE0, 0] w5 = (e6, w6)" by fastforce
  have ok: "y = None \<and> e3 = ESP_OK \<and> e4 = ESP_OK \<and> e5 = ESP_OK \<and> w' = sk_close api s w6"
    using assms(2) q o s c h p t f
    by (cases y) (auto simp: local_mqtt_publish_def Let_def split: if_splits)
  have "out w5 s = mqtt_connect_bytes @ packet"
    using sock_streamD(1)[OF st o[unfolded s]] sock_streamD(2)[OF st c]
      local_mqtt_send_connect_stream[OF st] h ok send_all_stream[OF st t] by auto
  moreover obtain n where "out w6 s = out w5 s @ take n [0xE0, 0]" using send_all_stream[OF st f] by auto
  ultimately show "\<exists>s n. out w' s = mqtt_connect_bytes @ mqtt_publish_bytes (cstr topic) d retain @ take n [0xE0, 0]"
    using ok mqtt_publish_packet_ok(1)[of topic d retain packet] p sock_streamD(6)[OF st, of s w6] by auto
  show "strlen topic + length d \<le> 360" using mqtt_publish_packet_ok(2)[of topic d retain packet] p ok by simp
qed

lemma publish_to_client_local:
  assumes "mqtt_broker_publish_to_client api b (Some c) (Some topic) (Some d) (length d) qos retain w = (ESP_OK, w')"
  shows "local_mqtt_publish api b topic (Some d) (length d) qos retain w = (ESP_OK, w')"
  using assms by (auto simp: mqtt_broker_publish_to_client_def broker_publish_internal_def split: if_splits)

text \<open>A running broker over the network that accepts everything.\<close>

definition broker_up :: "unit mqtt_broker" where
  "broker_up = snd (mqtt_broker_start True True None \<lparr> mb_config = mqtt_broker_config_defaults,
     mb_stats = mqtt_stats_zero, mb_mosq_config = \<lparr> mq_host = [], mq_port = 0 \<rparr>, mb_lock = False,
     mb_task = False, mb_running = False, mb_host = replicate 16 0 \<rparr>)"

abbreviation net_up :: "net_mem sock_api" where "net_up \<equiv> net_mem_api [0x20, 2, 0, 0]"

lemma send_all_Nil [simp]: "send_all api s [] w = (ESP_OK, w)"
  by (subst send_all.simps) simp

lemma net_mem_send_all:
  "s < length w \<Longrightarrow> send_all (net_mem_api a) s data w = (ESP_OK, w[s := w ! s @ data])"
proof (cases "data = []")
  case True
  then show "s < length w \<Longrightarrow> ?thesis" by simp
next
  case False
  assume "s < length w"
  with False have "send_all (net_mem_api a) s data w = send_all (net_mem_api a) s [] (w[s := w ! s @ data])"
    by (subst send_all.simps) (simp add: net_mem_api_def)
  then show ?thesis by simp
qed

lemma net_up_publish:
  assumes "rd c 0 \<noteq> 0" and "rd t 0 \<noteq> 0" and "strlen t \<le> 90" and "length d \<le> 256"
  shows "fst (mqtt_broker_publish_to_client net_up broker_up (Some c) (Some t) (Some d) (length d) 0 False w) = ESP_OK"
proof -
  have b: "mb_running broker_up" "unat (mbc_max_payload_len (mb_config broker_up)) = 256"
    by (simp_all add: broker_up_def mqtt_broker_start_def mqtt_broker_config_defaults_def Let_def)
  have k: "fst (mqtt_publish_packet t (Some d) (length d) False) = ESP_OK"
    using assms(3,4) length_mqtt_remaining_loop[of 4 "2 + strlen t + length d"] take_strlen[of t]
    by (simp add: mqtt_publish_packet_def Let_def mqtt_append_bytes_iff mqtt_append_u16_iff
        mqtt_encode_remaining_len_def strlen_def)
  have c: "local_mqtt_send_connect net_up s w = (ESP_OK, w[s := w ! s @ mqtt_connect_bytes])" if "s < length w" for s w
    using that by (simp add: local_mqtt_send_connect_def mqtt_connect_packet_eq net_mem_send_all)
      (simp add: net_mem_api_def rd_def)
  have "fst (local_mqtt_publish net_up broker_up t (Some d) (length d) 0 False w) = ESP_OK"
    using k assms(3) c[of "length w" "w @ [[]]"] net_mem_send_all[of "length w"]
    by (simp add: local_mqtt_publish_def net_mem_api_def[of "[0x20, 2, 0, 0]", THEN arg_cong[of _ _ sk_socket]]
        net_mem_api_def[of "[0x20, 2, 0, 0]", THEN arg_cong[of _ _ sk_connect]] Let_def case_prod_beta)
  then show ?thesis using assms b
    by (simp add: mqtt_broker_publish_to_client_def broker_publish_internal_def)
qed

lemma publish_wire:
  assumes "sock_stream api out"
    and "mqtt_broker_publish_to_client api b (Some c) (Some topic) (Some d) (length d) qos retain w = (ESP_OK, w')"
  shows "\<exists>s body r1 pbody n. mqtt_read_packet (out w' s) = Some (1, 0, body, r1) \<and>
    mqtt_read_packet r1 = Some (3, if retain then 1 else 0, pbody, take n [0xE0, 0]) \<and>
    mqtt_read_publish pbody = Some (cstr topic, d)"
proof -
  note p = local_mqtt_publish_stream[OF assms(1) publish_to_client_local[OF assms(2)]]
  then obtain s n where o: "out w' s = mqtt_connect_bytes @ mqtt_publish_bytes (cstr topic) d retain @ take n [0xE0, 0]"
    by blast
  have "length (cstr topic) + length d \<le> 65535" using p(2) by (simp add: strlen_def)
  then show ?thesis
    using mqtt_read_connect_bytes[of "mqtt_publish_bytes (cstr topic) d retain @ take n [0xE0, 0]"]
      mqtt_read_publish_bytes(1)[of "cstr topic" d retain "take n [0xE0, 0]"]
      mqtt_read_publish_bytes(2)[of "cstr topic" d] o by (metis add_leD1)
qed

subsection \<open>Properties\<close>

text \<open>C12: What a successful publication puts on the wire. Reading the bytes accepted by the socket as
  MQTT 3.1.1 control packets gives a CONNECT, then one PUBLISH packet with quality of service 0 and
  the retain flag asked for, whose topic and payload are exactly the ones passed, then at most the
  DISCONNECT packet; whatever the sizes of the individual sends.\<close>

theorem mqtt_publish_on_the_wire:
  assumes "sock_stream api out"
    and "mqtt_broker_publish_to_client api b (Some c) (Some topic) (Some d) (length d) qos retain w = (ESP_OK, w')"
  shows "\<exists>s body r1 pbody n. mqtt_read_packet (out w' s) = Some (1, 0, body, r1) \<and>
    mqtt_read_packet r1 = Some (3, if retain then 1 else 0, pbody, take n [0xE0, 0]) \<and>
    mqtt_read_publish pbody = Some (cstr topic, d)"
  by (rule publish_wire[OF assms])

theorem mqtt_publish_on_the_wire_witness:
  "\<exists>s body r1 pbody n. mqtt_read_packet (net_mem_out (snd (mqtt_broker_publish_to_client net_up broker_up
       (Some (lit ''lamp'')) (Some (lit ''home/lamp'')) (Some [49]) (length [49 :: u8]) 0 False [])) s)
     = Some (1, 0, body, r1) \<and> mqtt_read_packet r1 = Some (3, 0, pbody, take n [0xE0, 0]) \<and>
     mqtt_read_publish pbody = Some (lit ''home/lamp'', [49])"
proof -
  let ?p = "mqtt_broker_publish_to_client net_up broker_up (Some (lit ''lamp'')) (Some (lit ''home/lamp''))
    (Some [49]) (length [49 :: u8]) 0 False []"
  have "fst ?p = ESP_OK" by (rule net_up_publish) (simp_all add: lit_def strlen_def)
  then have "?p = (ESP_OK, snd ?p)" by (metis prod.collapse)
  from mqtt_publish_on_the_wire[OF net_mem_stream this] show ?thesis by (simp add: lit_def)
qed



end
