(* ===== verification/Cortex_Broker.thy ===== *)
theory Cortex_Broker
  imports Cortex_Membrane Cortex_Stomach Mqtt_Broker
begin

text \<open>
  From a digested command to a publication (\<open>logic/broker.rs\<close> of the cortex): the device named in
  the command is compared with the device whose secret opened it, the membrane is asked, and the
  value is printed as text and published.  A value of type \<open>i32\<close> is a 32-bit word read signed.
\<close>

definition DEVICE_COMMAND_QOS :: u8 where "DEVICE_COMMAND_QOS = 0"
definition DEVICE_COMMAND_RETAIN :: bool where "DEVICE_COMMAND_RETAIN = False"

definition command_payload_value :: "active_substance_command \<Rightarrow> esp_err \<times> i32 option" where
  "command_payload_value c =
     (if asc_payload_type c = 0 then (ESP_OK, None)
      else if asc_payload_type c = 1 \<or> asc_payload_type c = 2 then (ESP_OK, Some (asc_payload_i32 c))
      else (ESP_ERR_INVALID_ARG, None))"

text \<open>The loop that fills \<open>digits\<close>, least significant digit first.\<close>

function digit_loop :: "nat \<Rightarrow> bytes" where
  "digit_loop n = (48 + of_nat (n mod 10)) # (if n div 10 = 0 then [] else digit_loop (n div 10))"
  by auto
termination by (relation "measure id") auto

declare digit_loop.simps [simp del]

text \<open>The code and the bytes written to the front of an output slice of length \<open>out_len\<close>.\<close>

definition encode_i32_ascii :: "i32 \<Rightarrow> nat \<Rightarrow> esp_err \<times> bytes" where
  "encode_i32_ascii v out_len =
     (let magnitude = sint v in
      if magnitude < 0 \<and> out_len = 0 then (ESP_ERR_INVALID_SIZE, [])
      else (let sign = (if magnitude < 0 then [45] else []);
                digits = digit_loop (nat \<bar>magnitude\<bar>)
            in if length sign + length digits > out_len then (ESP_ERR_INVALID_SIZE, sign)
               else (ESP_OK, sign @ rev digits)))"

definition encode_command_payload :: "active_substance_command \<Rightarrow> nat \<Rightarrow> esp_err \<times> bytes" where
  "encode_command_payload c out_len =
     (if asc_payload_type c = 0 then (ESP_OK, [])
      else if asc_payload_type c = 1
      then (if out_len = 0 then (ESP_ERR_INVALID_SIZE, [])
            else if asc_payload_i32 c = 0 then (ESP_OK, [48])
            else if asc_payload_i32 c = 1 then (ESP_OK, [49])
            else (ESP_ERR_INVALID_ARG, []))
      else if asc_payload_type c = 2 then encode_i32_ascii (asc_payload_i32 c) out_len
      else (ESP_ERR_INVALID_ARG, []))"

text \<open>The comparison loop from position \<open>i\<close> with \<open>n\<close> rounds left.\<close>

fun cstr_equal_from :: "bytes \<Rightarrow> nat \<Rightarrow> bytes \<Rightarrow> nat \<Rightarrow> nat \<Rightarrow> nat \<Rightarrow> bool" where
  "cstr_equal_from a a_max b b_max i 0 = False"
| "cstr_equal_from a a_max b b_max i (Suc n) =
     (let a_ch = (if i < a_max then rd a i else 0);
          b_ch = (if i < b_max then rd b i else 0)
      in if a_ch \<noteq> b_ch then False
         else if a_ch = 0 then True
         else cstr_equal_from a a_max b b_max (Suc i) n)"

definition cstr_equal :: "bytes \<Rightarrow> nat \<Rightarrow> bytes \<Rightarrow> nat \<Rightarrow> bool" where
  "cstr_equal a a_max b b_max = cstr_equal_from a a_max b b_max 0 (if a_max > b_max then a_max else b_max)"

definition publish_to_client_cstr ::
  "'w sock_api \<Rightarrow> 'x mqtt_broker \<Rightarrow> bytes \<Rightarrow> bytes \<Rightarrow> bytes \<Rightarrow> u8 \<Rightarrow> bool \<Rightarrow> 'w \<Rightarrow> esp_err \<times> 'w" where
  "publish_to_client_cstr api b client_id topic payload qos retain w =
     (if length payload > MQTT_BROKER_PAYLOAD_MAX_LEN then (ESP_ERR_INVALID_SIZE, w)
      else mqtt_broker_publish_to_client api b (Some client_id) (Some topic) (Some payload) (length payload)
             qos retain w)"

definition publish_command_to_device ::
  "'w sock_api \<Rightarrow> 'x mqtt_broker \<Rightarrow> active_substance_command \<Rightarrow> bytes \<Rightarrow> 'w \<Rightarrow> esp_err \<times> 'w" where
  "publish_command_to_device api b command client_id w =
     (let err = active_substance_command_validate (Some command) in
      if err \<noteq> ESP_OK then (err, w)
      else (case encode_command_payload command MQTT_BROKER_PAYLOAD_MAX_LEN of
          (err, payload) \<Rightarrow>
            if err \<noteq> ESP_OK then (err, w)
            else publish_to_client_cstr api b client_id (asc_topic command) payload
                   DEVICE_COMMAND_QOS DEVICE_COMMAND_RETAIN w))"

definition publish_digested_command ::
  "'w sock_api \<Rightarrow> 'x mqtt_broker \<Rightarrow> membrane \<Rightarrow> digested_active_substance \<Rightarrow> 'w \<Rightarrow> esp_err \<times> 'w" where
  "publish_digested_command api b m digested w =
     (let command = dg_command digested;
          err = active_substance_command_validate (Some command)
      in if err \<noteq> ESP_OK then (err, w)
         else if \<not> cstr_equal (asc_device_id command) ACTIVE_SUBSTANCE_DEVICE_ID_LEN
                    (re_mqtt_client_id (dg_device digested)) RIBOSOME_MQTT_CLIENT_ID_LEN
         then (ESP_ERR_INVALID_STATE, w)
         else (case command_payload_value command of
             (err, payload_value) \<Rightarrow>
               if err \<noteq> ESP_OK then (err, w)
               else if \<not> membrane_allows m (dg_device digested) (asc_amino_id command) payload_value
               then (ESP_ERR_INVALID_STATE, w)
               else publish_command_to_device api b command (re_mqtt_client_id (dg_device digested)) w))"

subsection \<open>Comparison and printing\<close>

lemma cstr_equal_from_iff:
  assumes "length a = a_max" and "length b = b_max"
  shows "cstr_equal_from a a_max b b_max i n \<longleftrightarrow>
    cstr (drop i a) = cstr (drop i b) \<and> strlen (drop i a) < n"
proof (induction n arbitrary: i)
  case 0
  then show ?case by simp
next
  case (Suc n)
  have r: "(if i < length x then rd x i else 0) = rd (drop i x) 0" for x
    by (auto simp: rd_def)
  have t: "drop (Suc i) x = tl (drop i x)" for x :: bytes by (simp add: drop_Suc tl_drop)
  show ?case
    using Suc.IH[of "Suc i"] assms r[of a] r[of b]
    by (cases "drop i a"; cases "drop i b") (auto simp: t strlen_def Let_def)
qed

lemma cstr_equal_iff:
  assumes "length a = a_max" and "length b = b_max"
  shows "cstr_equal a a_max b b_max \<longleftrightarrow> cstr a = cstr b \<and> strlen a < max a_max b_max"
  using cstr_equal_from_iff[OF assms, of 0] by (simp add: cstr_equal_def max_def)

lemma rev_digit_loop: "rev (digit_loop n) = dec n"
proof (induction n rule: digit_loop.induct)
  case (1 n)
  show ?case
  proof (cases "n div 10 = 0")
    case True
    then have "n < 10" by (simp add: div_eq_0_iff)
    with True show ?thesis by (simp add: digit_loop.simps[of n] dec.simps[of n])
  next
    case False
    then have "\<not> n < 10" by (simp add: div_eq_0_iff)
    with False 1 show ?thesis by (simp add: digit_loop.simps[of n] dec.simps[of n])
  qed
qed

text \<open>Reading a decimal integer with an optional minus sign.\<close>

fun read_int :: "bytes \<Rightarrow> int" where
  "read_int [] = 0"
| "read_int (c # cs) = (if c = 45 then - int (of_dec 0 cs) else int (of_dec 0 (c # cs)))"

lemma read_int_dec: "read_int (dec n) = int n"
proof -
  obtain c cs where d: "dec n = c # cs" by (metis dec_not_Nil neq_Nil_conv)
  have "c \<noteq> 45" using dec_digits[of c n] d by auto
  then show ?thesis using of_dec_dec[of n] d by simp
qed

lemma i32_magnitude: "nat \<bar>sint (v :: i32)\<bar> < 10 ^ Suc 9"
proof -
  have "- (2 ^ 31) \<le> sint v" "sint v < 2 ^ 31" using sint_ge[of v] sint_lt[of v] by simp_all
  then show ?thesis by auto
qed

lemma encode_i32_ascii_ok:
  assumes "11 \<le> out_len"
  shows "encode_i32_ascii v out_len = (ESP_OK, (if sint v < 0 then [45] else []) @ dec (nat \<bar>sint v\<bar>))"
proof -
  have "length (digit_loop (nat \<bar>sint v\<bar>)) \<le> Suc 9"
    using length_dec_le[OF i32_magnitude[of v]] by (metis rev_digit_loop length_rev)
  then show ?thesis using assms by (cases "sint v < 0") (simp_all add: encode_i32_ascii_def Let_def rev_digit_loop)
qed

text \<open>The text a command is published with.\<close>

definition command_text :: "active_substance_command \<Rightarrow> bytes" where
  "command_text c = (if asc_payload_type c = 0 then []
     else (if sint (asc_payload_i32 c) < 0 then [45] else []) @ dec (nat \<bar>sint (asc_payload_i32 c)\<bar>))"

lemma command_ok_payload:
  assumes "command_ok c"
  shows "encode_command_payload c MQTT_BROKER_PAYLOAD_MAX_LEN = (ESP_OK, command_text c)"
    "command_payload_value c = (ESP_OK, if asc_payload_type c = 0 then None else Some (asc_payload_i32 c))"
  using assms
  by (auto simp: command_ok_def encode_command_payload_def command_text_def encode_i32_ascii_ok
      command_payload_value_def)

lemma length_command_text: "length (command_text c) \<le> 11"
  using length_dec_le[OF i32_magnitude[of "asc_payload_i32 c"]]
  by (cases "sint (asc_payload_i32 c) < 0") (simp_all add: command_text_def)

subsection \<open>The decision\<close>

definition command_allowed :: "membrane \<Rightarrow> digested_active_substance \<Rightarrow> bool" where
  "command_allowed m d \<longleftrightarrow>
     cstr (asc_device_id (dg_command d)) = cstr (re_mqtt_client_id (dg_device d)) \<and>
     membrane_allows m (dg_device d) (asc_amino_id (dg_command d))
       (if asc_payload_type (dg_command d) = 0 then None else Some (asc_payload_i32 (dg_command d)))"

lemma publish_digested_eq:
  assumes "command_fits (dg_command d)" and "command_ok (dg_command d)"
    and "length (re_mqtt_client_id (dg_device d)) = RIBOSOME_MQTT_CLIENT_ID_LEN"
  shows "publish_digested_command api b m d w =
    (if command_allowed m d
     then mqtt_broker_publish_to_client api b (Some (re_mqtt_client_id (dg_device d)))
       (Some (asc_topic (dg_command d))) (Some (command_text (dg_command d)))
       (length (command_text (dg_command d))) 0 False w
     else (ESP_ERR_INVALID_STATE, w))"
proof -
  let ?c = "dg_command d"
  have v: "active_substance_command_validate (Some ?c) = ESP_OK" using assms command_validate_iff by simp
  have l: "length (asc_device_id ?c) = ACTIVE_SUBSTANCE_DEVICE_ID_LEN" "strlen (asc_device_id ?c) < 32"
    using assms by (simp_all add: command_fits_def command_ok_def)
  have p: "publish_command_to_device api b ?c k w
      = mqtt_broker_publish_to_client api b (Some k) (Some (asc_topic ?c)) (Some (command_text ?c))
          (length (command_text ?c)) 0 False w" for k
    using v command_ok_payload(1)[OF assms(2)] length_command_text[of ?c]
    by (simp add: publish_command_to_device_def publish_to_client_cstr_def DEVICE_COMMAND_QOS_def
        DEVICE_COMMAND_RETAIN_def)
  show ?thesis
    using v cstr_equal_iff[OF l(1) assms(3)] l(2) command_ok_payload(2)[OF assms(2)]
    by (auto simp: publish_digested_command_def Let_def command_allowed_def p)
qed

subsection \<open>Properties\<close>

text \<open>C37: A value reaches the device as it was sent: every command value is printed as decimal text of
  at most eleven characters that reads back as the signed value, the most negative one included.\<close>

theorem command_value_round_trip:
  "\<exists>t. encode_i32_ascii v MQTT_BROKER_PAYLOAD_MAX_LEN = (ESP_OK, t) \<and> read_int t = sint v \<and> length t \<le> 11"
  using length_dec_le[OF i32_magnitude[of v]] read_int_dec of_dec_dec
  by (cases "sint v < 0") (simp_all add: encode_i32_ascii_ok)

end
