(* ===== verification/Config_Store.thy ===== *)
theory Config_Store
  imports Nvs_Port BN_Hash Event_Bus
begin

text \<open>
  The configuration of the Guardian in flash (\<open>config_store.c\<close>).  The C struct is stored as it
  lies in memory: \<open>config_bytes\<close> is its image, 908 bytes, with the padding byte the compiler puts
  before \<open>policy_version\<close> as a component of its own.  NVS is the parameter of \<open>Nvs_Port\<close>; the
  two \<open>nvs_flash\<close> calls and the random number generator are parameters too.
\<close>

abbreviation CONFIG_STORE_SSID_LEN :: nat where "CONFIG_STORE_SSID_LEN \<equiv> 32"
abbreviation CONFIG_STORE_PASS_LEN :: nat where "CONFIG_STORE_PASS_LEN \<equiv> 64"
abbreviation CONFIG_STORE_HOST_LEN :: nat where "CONFIG_STORE_HOST_LEN \<equiv> 64"
abbreviation CONFIG_STORE_PUBLIC_KEY_MAX_LEN :: nat where "CONFIG_STORE_PUBLIC_KEY_MAX_LEN \<equiv> 512"
abbreviation CONFIG_STORE_KEY_ID_LEN :: nat where "CONFIG_STORE_KEY_ID_LEN \<equiv> 16"
abbreviation ZG_CONFIG_BYTES :: nat where "ZG_CONFIG_BYTES \<equiv> 908"

definition CONFIG_NVS_NS :: string where "CONFIG_NVS_NS = ''zoneguard''"
definition CONFIG_NVS_KEY :: string where "CONFIG_NVS_KEY = ''config_blob''"
definition ZG_CONFIG_MAGIC :: u32 where "ZG_CONFIG_MAGIC = 0x5A474346"
definition ZG_CONFIG_VERSION :: u32 where "ZG_CONFIG_VERSION = 2"

abbreviation ESP_ERR_NVS_NO_FREE_PAGES :: esp_err where "ESP_ERR_NVS_NO_FREE_PAGES \<equiv> ESP_ERR_OTHER 0x110d"
abbreviation ESP_ERR_NVS_NEW_VERSION_FOUND :: esp_err where
  "ESP_ERR_NVS_NEW_VERSION_FOUND \<equiv> ESP_ERR_OTHER 0x1110"

record zoneguard_config =
  zc_magic :: u32
  zc_version :: u32
  zc_zone_id :: u32
  zc_guardian_id :: u32
  zc_issuer_public_key_pem :: bytes
  zc_issuer_key_id :: bytes
  zc_sta_ssid :: bytes
  zc_sta_password :: bytes
  zc_ap_ssid :: bytes
  zc_ap_password :: bytes
  zc_ap_channel :: u8
  zc_ap_max_connections :: u8
  zc_swarm_port :: u16
  zc_swarm_broadcast :: bytes
  zc_telemetry_host :: bytes
  zc_telemetry_port :: u16
  zc_swarm_key :: bytes
  zc_swarm_key_len :: u8
  zc_padding :: u8
  zc_policy_version :: u32

definition config_bytes :: "zoneguard_config \<Rightarrow> bytes" where
  "config_bytes c = le32 (zc_magic c) @ le32 (zc_version c) @ le32 (zc_zone_id c) @ le32 (zc_guardian_id c)
     @ zc_issuer_public_key_pem c @ zc_issuer_key_id c @ zc_sta_ssid c @ zc_sta_password c
     @ zc_ap_ssid c @ zc_ap_password c @ [zc_ap_channel c] @ [zc_ap_max_connections c]
     @ le16 (zc_swarm_port c) @ zc_swarm_broadcast c @ zc_telemetry_host c @ le16 (zc_telemetry_port c)
     @ zc_swarm_key c @ [zc_swarm_key_len c] @ [zc_padding c] @ le32 (zc_policy_version c)"

definition config_of_bytes :: "bytes \<Rightarrow> zoneguard_config" where
  "config_of_bytes b = \<lparr> zc_magic = of_le32 b, zc_version = of_le32 (drop 4 b),
     zc_zone_id = of_le32 (drop 8 b), zc_guardian_id = of_le32 (drop 12 b),
     zc_issuer_public_key_pem = take CONFIG_STORE_PUBLIC_KEY_MAX_LEN (drop 16 b),
     zc_issuer_key_id = take CONFIG_STORE_KEY_ID_LEN (drop 528 b),
     zc_sta_ssid = take CONFIG_STORE_SSID_LEN (drop 544 b),
     zc_sta_password = take CONFIG_STORE_PASS_LEN (drop 576 b),
     zc_ap_ssid = take CONFIG_STORE_SSID_LEN (drop 640 b),
     zc_ap_password = take CONFIG_STORE_PASS_LEN (drop 672 b),
     zc_ap_channel = rd (drop 736 b) 0, zc_ap_max_connections = rd (drop 737 b) 0,
     zc_swarm_port = of_le16 (drop 738 b),
     zc_swarm_broadcast = take CONFIG_STORE_HOST_LEN (drop 740 b),
     zc_telemetry_host = take CONFIG_STORE_HOST_LEN (drop 804 b),
     zc_telemetry_port = of_le16 (drop 868 b), zc_swarm_key = take 32 (drop 870 b),
     zc_swarm_key_len = rd (drop 902 b) 0, zc_padding = rd (drop 903 b) 0,
     zc_policy_version = of_le32 (drop 904 b) \<rparr>"

text \<open>The local helper is the bounded copy shared by the modules.\<close>

definition cfg_copy :: "bytes \<Rightarrow> nat \<Rightarrow> bytes option \<Rightarrow> bytes" where
  "cfg_copy dst sz src = safe_copy dst sz src"

definition config_zero :: zoneguard_config where
  "config_zero = \<lparr> zc_magic = 0, zc_version = 0, zc_zone_id = 0, zc_guardian_id = 0,
     zc_issuer_public_key_pem = replicate CONFIG_STORE_PUBLIC_KEY_MAX_LEN 0,
     zc_issuer_key_id = replicate CONFIG_STORE_KEY_ID_LEN 0,
     zc_sta_ssid = replicate CONFIG_STORE_SSID_LEN 0, zc_sta_password = replicate CONFIG_STORE_PASS_LEN 0,
     zc_ap_ssid = replicate CONFIG_STORE_SSID_LEN 0, zc_ap_password = replicate CONFIG_STORE_PASS_LEN 0,
     zc_ap_channel = 0, zc_ap_max_connections = 0, zc_swarm_port = 0,
     zc_swarm_broadcast = replicate CONFIG_STORE_HOST_LEN 0,
     zc_telemetry_host = replicate CONFIG_STORE_HOST_LEN 0, zc_telemetry_port = 0,
     zc_swarm_key = replicate 32 0, zc_swarm_key_len = 0, zc_padding = 0, zc_policy_version = 0 \<rparr>"

definition config_store_set_defaults :: "u32 \<Rightarrow> zoneguard_config option \<Rightarrow> zoneguard_config option" where
  "config_store_set_defaults rnd config = map_option (\<lambda>_.
     (let c = config_zero in c \<lparr>
        zc_magic := ZG_CONFIG_MAGIC, zc_version := ZG_CONFIG_VERSION, zc_zone_id := 1, zc_guardian_id := rnd,
        zc_sta_ssid := cfg_copy (zc_sta_ssid c) CONFIG_STORE_SSID_LEN (Some (lit ''TATIANE'')),
        zc_sta_password := cfg_copy (zc_sta_password c) CONFIG_STORE_PASS_LEN (Some (lit ''88090133'')),
        zc_ap_ssid := cfg_copy (zc_ap_ssid c) CONFIG_STORE_SSID_LEN (Some (lit ''ZG_SALA'')),
        zc_ap_password := cfg_copy (zc_ap_password c) CONFIG_STORE_PASS_LEN (Some (lit ''zoneguard123'')),
        zc_ap_channel := 6, zc_ap_max_connections := 4, zc_swarm_port := 4747,
        zc_swarm_broadcast := cfg_copy (zc_swarm_broadcast c) CONFIG_STORE_HOST_LEN
          (Some (lit ''255.255.255.255'')),
        zc_telemetry_host := cfg_copy (zc_telemetry_host c) CONFIG_STORE_HOST_LEN (Some []),
        zc_telemetry_port := 5757, zc_swarm_key_len := 0, zc_swarm_key := replicate 32 0,
        zc_policy_version := 1 \<rparr>)) config"

subsection \<open>Operations\<close>

text \<open>
  \<open>config_store_init\<close> returns the code, the flag \<open>s_initialized\<close> and the storage; \<open>None\<close> is the
  abort of \<open>ESP_ERROR_CHECK\<close> when erasing the flash fails.
\<close>

definition config_store_init ::
  "('n \<Rightarrow> esp_err \<times> 'n) \<Rightarrow> ('n \<Rightarrow> esp_err \<times> 'n) \<Rightarrow> bool \<Rightarrow> 'n \<Rightarrow> (esp_err \<times> bool \<times> 'n) option" where
  "config_store_init flash_init flash_erase initialized n =
     (let (ret, n1) = flash_init n in
      if ret = ESP_ERR_NVS_NO_FREE_PAGES \<or> ret = ESP_ERR_NVS_NEW_VERSION_FOUND
      then (let (ret, n2) = flash_erase n1 in
        if ret \<noteq> ESP_OK then None
        else (let (ret, n3) = flash_init n2 in Some (ret, ret = ESP_OK \<or> initialized, n3)))
      else Some (ret, ret = ESP_OK \<or> initialized, n1))"

definition config_store_load ::
  "'n nvs_api \<Rightarrow> u32 \<Rightarrow> bool \<Rightarrow> 'n \<Rightarrow> zoneguard_config option \<Rightarrow> esp_err \<times> zoneguard_config option" where
  "config_store_load api rnd initialized n out_config =
     (if \<not> initialized \<or> out_config = None then (ESP_ERR_INVALID_ARG, out_config)
      else if nvs_open_ro api CONFIG_NVS_NS n \<noteq> ESP_OK
      then (ESP_ERR_NOT_FOUND, config_store_set_defaults rnd out_config)
      else (let (ret, blob) = nvs_get_blob api CONFIG_NVS_NS CONFIG_NVS_KEY ZG_CONFIG_BYTES n;
                c = config_of_bytes blob
            in if ret \<noteq> ESP_OK \<or> length blob \<noteq> ZG_CONFIG_BYTES \<or>
                  zc_magic c \<noteq> ZG_CONFIG_MAGIC \<or> zc_version c \<noteq> ZG_CONFIG_VERSION
               then (ESP_ERR_NOT_FOUND, config_store_set_defaults rnd out_config)
               else (ESP_OK, Some c)))"

definition config_store_save ::
  "'n nvs_api \<Rightarrow> bool \<Rightarrow> zoneguard_config option \<Rightarrow> 'n \<Rightarrow> esp_err \<times> 'n \<times> zg_event list" where
  "config_store_save api initialized config n =
     (case config of
        None \<Rightarrow> (ESP_ERR_INVALID_ARG, n, [])
      | Some c \<Rightarrow>
          if \<not> initialized then (ESP_ERR_INVALID_ARG, n, [])
          else (let (ret, n1) = nvs_open_rw api CONFIG_NVS_NS n in
            if ret \<noteq> ESP_OK then (ret, n1, [])
            else (let (ret, n2) = nvs_set_blob api CONFIG_NVS_NS CONFIG_NVS_KEY (config_bytes c) n1;
                      (ret, n3) = (if ret = ESP_OK then nvs_commit api CONFIG_NVS_NS n2 else (ret, n2))
                  in (ret, n3,
                      if ret = ESP_OK
                      then [zg_event_zero \<lparr> ev_type := ZG_EVENT_CONFIG_UPDATED,
                              ev_zone_id := zc_zone_id c, ev_code := zc_policy_version c,
                              ev_reason := event_reason (lit ''config_saved'') \<rparr>]
                      else []))))"

definition config_store_erase :: "'n nvs_api \<Rightarrow> bool \<Rightarrow> 'n \<Rightarrow> esp_err \<times> 'n" where
  "config_store_erase api initialized n =
     (if \<not> initialized then (ESP_ERR_INVALID_STATE, n)
      else (let (ret, n1) = nvs_open_rw api CONFIG_NVS_NS n in
        if ret \<noteq> ESP_OK then (ret, n1)
        else (let (ret, n2) = nvs_erase_key api CONFIG_NVS_NS CONFIG_NVS_KEY n1 in
          if ret = ESP_OK \<or> ret = ESP_ERR_NVS_NOT_FOUND then nvs_commit api CONFIG_NVS_NS n2
          else (ret, n2))))"

subsection \<open>The image of a configuration\<close>

definition config_fits :: "zoneguard_config \<Rightarrow> bool" where
  "config_fits c \<longleftrightarrow>
     length (zc_issuer_public_key_pem c) = CONFIG_STORE_PUBLIC_KEY_MAX_LEN \<and>
     length (zc_issuer_key_id c) = CONFIG_STORE_KEY_ID_LEN \<and>
     length (zc_sta_ssid c) = CONFIG_STORE_SSID_LEN \<and> length (zc_sta_password c) = CONFIG_STORE_PASS_LEN \<and>
     length (zc_ap_ssid c) = CONFIG_STORE_SSID_LEN \<and> length (zc_ap_password c) = CONFIG_STORE_PASS_LEN \<and>
     length (zc_swarm_broadcast c) = CONFIG_STORE_HOST_LEN \<and>
     length (zc_telemetry_host c) = CONFIG_STORE_HOST_LEN \<and> length (zc_swarm_key c) = 32"

definition config_current :: "zoneguard_config \<Rightarrow> bool" where
  "config_current c \<longleftrightarrow> zc_magic c = ZG_CONFIG_MAGIC \<and> zc_version c = ZG_CONFIG_VERSION"

lemma length_config_bytes: "config_fits c \<Longrightarrow> length (config_bytes c) = ZG_CONFIG_BYTES"
  by (simp add: config_bytes_def config_fits_def)

lemma config_of_bytes_bytes: "config_fits c \<Longrightarrow> config_of_bytes (config_bytes c) = c"
  by (simp add: config_of_bytes_def config_bytes_def config_fits_def)

lemma config_of_bytes_fits: "length b = ZG_CONFIG_BYTES \<Longrightarrow> config_fits (config_of_bytes b)"
  by (simp add: config_of_bytes_def config_fits_def)

lemma config_defaults_ok:
  "\<exists>d. config_store_set_defaults rnd (Some c) = Some d \<and> config_fits d \<and> config_current d"
  by (simp add: config_store_set_defaults_def config_fits_def config_current_def config_zero_def
      cfg_copy_def length_safe_copy Let_def)

subsection \<open>Properties\<close>

text \<open>C36: A configuration that was saved is the one that is loaded: after a successful save of a
  configuration with the current magic number and version, the next load succeeds and returns it
  with every field, the issuer key included, unchanged, and exactly one update event was
  published.\<close>

theorem config_save_then_load:
  assumes "nvs_durable api" and "config_fits c" and "config_current c"
    and "config_store_save api True (Some c) n = (ESP_OK, n', evs)"
  shows "config_store_load api rnd True n' (Some u) = (ESP_OK, Some c) \<and>
    map ev_type evs = [ZG_EVENT_CONFIG_UPDATED]"
proof -
  obtain n1 n2 where "nvs_open_rw api CONFIG_NVS_NS n = (ESP_OK, n1)"
    "nvs_set_blob api CONFIG_NVS_NS CONFIG_NVS_KEY (config_bytes c) n1 = (ESP_OK, n2)"
    "nvs_commit api CONFIG_NVS_NS n2 = (ESP_OK, n')" and ev: "map ev_type evs = [ZG_EVENT_CONFIG_UPDATED]"
    using assms(4) by (auto simp: config_store_save_def Let_def split: prod.splits if_splits)
  with assms(1) have "nvs_open_ro api CONFIG_NVS_NS n' = ESP_OK"
    "nvs_get_blob api CONFIG_NVS_NS CONFIG_NVS_KEY (length (config_bytes c)) n' = (ESP_OK, config_bytes c)"
    unfolding nvs_durable_def by blast+
  then show ?thesis
    using assms(2,3) ev by (simp add: config_store_load_def length_config_bytes config_of_bytes_bytes
        config_current_def)
qed

theorem config_save_then_load_witness:
  "config_store_load nvs_mem_api 7 True
     (fst (snd (config_store_save nvs_mem_api True (config_store_set_defaults 42 (Some config_zero)) [])))
     (Some config_zero) = (ESP_OK, config_store_set_defaults 42 (Some config_zero))"
proof -
  obtain d where d: "config_store_set_defaults 42 (Some config_zero) = Some d" "config_fits d" "config_current d"
    using config_defaults_ok by blast
  have "\<exists>n evs. config_store_save nvs_mem_api True (Some d) [] = (ESP_OK, n, evs)"
    by (simp add: config_store_save_def nvs_mem_api_def)
  then obtain n evs where s: "config_store_save nvs_mem_api True (Some d) [] = (ESP_OK, n, evs)" by blast
  from config_save_then_load[OF nvs_mem_durable d(2,3) s, of 7 config_zero] show ?thesis by (simp add: d s)
qed

text \<open>C35: Loading always leaves a usable configuration: whatever the flash holds, every array of the
  result has its declared size and magic number and version are the current ones; without success
  the code is "not found" and the result is exactly the built-in defaults.\<close>

theorem config_load_typed:
  "\<exists>e c. config_store_load api rnd True n (Some u) = (e, Some c) \<and> config_fits c \<and> config_current c \<and>
     (e = ESP_OK \<or> e = ESP_ERR_NOT_FOUND \<and> config_store_set_defaults rnd (Some u) = Some c)"
proof -
  obtain d where d: "config_store_set_defaults rnd (Some u) = Some d" "config_fits d" "config_current d"
    using config_defaults_ok by blast
  obtain ret blob where g: "nvs_get_blob api CONFIG_NVS_NS CONFIG_NVS_KEY ZG_CONFIG_BYTES n = (ret, blob)"
    by fastforce
  show ?thesis
    using d g config_of_bytes_fits[of blob]
    by (cases "nvs_open_ro api CONFIG_NVS_NS n = ESP_OK")
      (auto simp: config_store_load_def Let_def config_current_def)
qed

end
