(* ===== verification/Cortex_Pipeline.thy ===== *)
theory Cortex_Pipeline
  imports Cortex_Broker Config_Store
begin

text \<open>
  The action pipeline of the cortex (\<open>conscience/main.rs\<close>): the path of a received action pill
  from the replay cache over authorisation and decryption to the publication of the command.  The
  libraries it runs on are gathered in \<open>cortex_env\<close>: SHA-256, public-key verification, PSA
  Crypto, the sockets, and the state of the MQTT broker while the pill is processed.
\<close>

record ('k, 'w, 'x) cortex_env =
  ce_sha256 :: "bytes \<Rightarrow> bytes option"
  ce_pk :: "'k pk_api"
  ce_psa :: psa_api
  ce_sock :: "'w sock_api"
  ce_broker :: "'x mqtt_broker"

record action_pipeline =
  pl_stomach :: stomach_cp_cache
  pl_membrane :: membrane
  pl_issuer_key_id :: bytes
  pl_issuer_public_key_pem :: bytes
  pl_issuer_public_key_len :: nat

definition c_char_nul_len :: "bytes \<Rightarrow> nat" where
  "c_char_nul_len src =
     (if src = [] \<or> src ! 0 = 0 then 0
      else (case find (\<lambda>i. src ! i = 0) [0..<length src] of Some i \<Rightarrow> i + 1 | None \<Rightarrow> length src))"

text \<open>The loop is that of \<open>copy_c_char_buffer\<close> in \<open>membrane.rs\<close>.\<close>

definition copy_c_char_to_u8 :: "bytes \<Rightarrow> bytes \<Rightarrow> bytes" where
  "copy_c_char_to_u8 dst src =
     (if dst = [] then dst else copy_c_chars 0 (min (length dst - 1) (length src)) dst src)"

definition rs_now_ms :: "64 word \<Rightarrow> u32" where
  "rs_now_ms us = (if sint us \<le> 0 then 0 else ucast (us div 1000))"

definition action_pipeline_new ::
  "'n nvs_api \<Rightarrow> zoneguard_config \<Rightarrow> 'n \<Rightarrow> esp_err \<times> action_pipeline option" where
  "action_pipeline_new api cfg n =
     (case membrane_init api n membrane_new of
        (err, m) \<Rightarrow>
          if err \<noteq> ESP_OK then (err, None)
          else if c_char_nul_len (zc_issuer_public_key_pem cfg) = 0 then (ESP_ERR_INVALID_ARG, None)
          else (ESP_OK, Some \<lparr> pl_stomach = cp_cache_zero, pl_membrane = m,
            pl_issuer_key_id = zc_issuer_key_id cfg,
            pl_issuer_public_key_pem = copy_c_char_to_u8 (replicate CONFIG_STORE_PUBLIC_KEY_MAX_LEN 0)
              (zc_issuer_public_key_pem cfg),
            pl_issuer_public_key_len = c_char_nul_len (zc_issuer_public_key_pem cfg) \<rparr>))"

definition issuer_public_key :: "action_pipeline \<Rightarrow> bytes" where
  "issuer_public_key p = take (pl_issuer_public_key_len p) (pl_issuer_public_key_pem p)"

text \<open>What follows the replay check: authorise, digest, publish.\<close>

definition deliver_action_pill ::
  "('k, 'w, 'x) cortex_env \<Rightarrow> action_pill \<Rightarrow> u32 \<Rightarrow> action_pipeline \<Rightarrow> 'w \<Rightarrow> esp_err \<times> 'w" where
  "deliver_action_pill env pill now p w =
     (let err = validate_authorized (ce_sha256 env) (ce_pk env) pill now (pl_issuer_key_id p) (issuer_public_key p)
      in if err \<noteq> ESP_OK then (err, w)
         else (case digest_active_substance (ce_psa env) pill (mem_ribosome_table (pl_membrane p)) None of
             (err, digested) \<Rightarrow>
               if err \<noteq> ESP_OK then (err, w)
               else publish_digested_command (ce_sock env) (ce_broker env) (pl_membrane p) digested w))"

definition process_action_pill ::
  "('k, 'w, 'x) cortex_env \<Rightarrow> (nat \<Rightarrow> u8) \<Rightarrow> action_pill \<Rightarrow> u32 \<Rightarrow> action_pipeline \<Rightarrow> 'w
     \<Rightarrow> esp_err \<times> action_pipeline \<times> 'w" where
  "process_action_pill env beyond pill now p w =
     (case seen_or_add_cp (ce_sha256 env) beyond pill (pl_stomach p) of
        (seen, cache) \<Rightarrow>
          (let p = p \<lparr> pl_stomach := cache \<rparr> in
           if ss_status seen \<noteq> ESP_OK then (ss_status seen, p, w)
           else if ss_seen seen then (ESP_OK, p, w)
           else (case deliver_action_pill env pill now p w of (err, w') \<Rightarrow> (err, p, w'))))"

subsection \<open>The digest and the cache\<close>

text \<open>The digest of a pill, as \<open>seen_or_add_cp\<close> computes it.\<close>

definition pill_digest :: "('k, 'w, 'x) cortex_env \<Rightarrow> (nat \<Rightarrow> u8) \<Rightarrow> action_pill \<Rightarrow> bytes" where
  "pill_digest env beyond pill = snd (compute_capsule_digest (ce_sha256 env) beyond pill)"

lemma pill_digest_ok:
  assumes "sha_total (ce_sha256 env)"
  shows "compute_capsule_digest (ce_sha256 env) beyond pill = (ESP_OK, pill_digest env beyond pill)"
    "length (pill_digest env beyond pill) = STOMACH_CP_DIGEST_LEN"
proof -
  obtain h where h: "ce_sha256 env (capsule_signed_canonical (ap_capsule pill) @ [cpl_signature_len (ap_capsule pill)]
      @ capsule_signature_read beyond (ap_capsule pill)) = Some h" "length h = 32"
    using assms by (auto simp: sha_total_def)
  then show "compute_capsule_digest (ce_sha256 env) beyond pill = (ESP_OK, pill_digest env beyond pill)"
    "length (pill_digest env beyond pill) = STOMACH_CP_DIGEST_LEN"
    by (simp_all add: compute_capsule_digest_def pill_digest_def capsule_pill_compute_digest_def)
qed

lemma deliver_cache: "deliver_action_pill env pill now (p \<lparr> pl_stomach := c \<rparr>) w = deliver_action_pill env pill now p w"
  by (simp add: deliver_action_pill_def issuer_public_key_def Let_def case_prod_beta)

lemma process_eq:
  assumes "sha_total (ce_sha256 env)"
  shows "process_action_pill env beyond pill now p w =
    (let (seen, cache) = cp_step (Cp_seen_or_add (pill_digest env beyond pill)) (pl_stomach p);
         (err, w') = (if seen then (ESP_OK, w) else deliver_action_pill env pill now p w)
     in (err, p \<lparr> pl_stomach := cache \<rparr>, w'))"
  using pill_digest_ok(1)[OF assms, of beyond pill]
  by (simp add: process_action_pill_def seen_or_add_cp_def deliver_cache Let_def case_prod_beta)

text \<open>A sequence of pills, each with the memory it was received in and the time it is processed.\<close>

fun pill_step ::
  "('k, 'w, 'x) cortex_env \<Rightarrow> ((nat \<Rightarrow> u8) \<times> action_pill \<times> u32) \<Rightarrow> action_pipeline \<times> 'w
     \<Rightarrow> esp_err \<times> (action_pipeline \<times> 'w)" where
  "pill_step env (beyond, pill, now) (p, w) = process_action_pill env beyond pill now p w"

abbreviation step_digest :: "('k, 'w, 'x) cortex_env \<Rightarrow> (nat \<Rightarrow> u8) \<times> action_pill \<times> u32 \<Rightarrow> bytes" where
  "step_digest env x \<equiv> pill_digest env (fst x) (fst (snd x))"

lemma pill_step_cache:
  assumes "sha_total (ce_sha256 env)"
  shows "fst (snd (pill_step env x (p, w))) =
    p \<lparr> pl_stomach := snd (cp_step (Cp_seen_or_add (step_digest env x)) (pl_stomach p)) \<rparr>"
  by (cases x) (simp add: process_eq[OF assms] Let_def case_prod_beta)

lemma pill_run_cache:
  assumes "sha_total (ce_sha256 env)"
  shows "fst (snd (run (pill_step env) xs (p, w))) =
    p \<lparr> pl_stomach := snd (run cp_step (map Cp_seen_or_add (map (step_digest env) xs)) (pl_stomach p)) \<rparr>"
proof (induction xs arbitrary: p w)
  case Nil
  then show ?case by simp
next
  case (Cons x xs)
  obtain e p1 w1 where s: "pill_step env x (p, w) = (e, p1, w1)" by (metis prod.collapse)
  then have "p1 = p \<lparr> pl_stomach := snd (cp_step (Cp_seen_or_add (step_digest env x)) (pl_stomach p)) \<rparr>"
    using pill_step_cache[OF assms, of x p w] by simp
  then show ?case using Cons.IH[of p1 w1] s
    by (simp only: run_Cons_simp list.map fst_conv snd_conv) simp
qed

subsection \<open>What delivery means\<close>

text \<open>
  The command \<open>c\<close> that reaches device \<open>e\<close>: sealed under the secret of an enrolled device, well
  formed, addressed to that device, and permitted by its template.
\<close>

definition pill_commands ::
  "('k, 'w, 'x) cortex_env \<Rightarrow> action_pipeline \<Rightarrow> action_pill \<Rightarrow> ribosome_table_entry \<Rightarrow> active_substance_command \<Rightarrow> bool" where
  "pill_commands env p pill e c \<longleftrightarrow>
     e \<in> set (rib_live (mem_ribosome_table (pl_membrane p))) \<and>
     device_opens (ce_psa env) (ap_active pill) None e (command_bytes c) \<and> command_fits c \<and> command_ok c \<and>
     command_allowed (pl_membrane p) \<lparr> dg_command = c, dg_device = e \<rparr>"

abbreviation publish_command ::
  "('k, 'w, 'x) cortex_env \<Rightarrow> ribosome_table_entry \<Rightarrow> active_substance_command \<Rightarrow> 'w \<Rightarrow> esp_err \<times> 'w" where
  "publish_command env e c w \<equiv> mqtt_broker_publish_to_client (ce_sock env) (ce_broker env)
     (Some (re_mqtt_client_id e)) (Some (asc_topic c)) (Some (command_text c)) (length (command_text c)) 0 False w"

lemma live_entry_fits:
  assumes "membrane_wf m" and "e \<in> set (rib_live (mem_ribosome_table m))"
  shows "length (re_mqtt_client_id e) = RIBOSOME_MQTT_CLIENT_ID_LEN"
    "length (re_device_secret e) = RIBOSOME_DEVICE_SECRET_LEN" "device_secret_valid (re_device_secret e)"
proof -
  have "rib_entry_ok e \<and> rib_entry_fits e"
    using assms by (simp add: membrane_wf_def rib_table_wf_def rib_list_ok_def)
  then show "length (re_mqtt_client_id e) = RIBOSOME_MQTT_CLIENT_ID_LEN"
    "length (re_device_secret e) = RIBOSOME_DEVICE_SECRET_LEN" "device_secret_valid (re_device_secret e)"
    by (auto simp: rib_entry_ok_def rib_entry_fits_def bytes_all_zero_iff device_secret_valid_iff)
qed

lemma digest_table_eq:
  assumes "membrane_wf m" and "active_substance_validate_envelope (Some (ap_active pill)) = ESP_OK"
  shows "digest_active_substance psa pill (mem_ribosome_table m) aad =
    digest_candidates psa (ap_active pill) aad (rib_live (mem_ribosome_table m)) digested_clear"
proof -
  obtain es where t: "mem_ribosome_table m = rib_table_of es" "rib_list_ok es"
    using assms(1) by (auto simp: membrane_wf_def elim: rib_table_wfE)
  then have "length es \<le> RIBOSOME_MAX_ENTRIES" by (simp add: rib_list_ok_def)
  moreover have "rib_count (rib_table_of es) = length es" by (simp add: rib_table_of_def)
  moreover have "take (length es) (rib_entries (rib_table_of es)) = es" by (simp add: rib_table_of_def)
  ultimately show ?thesis using assms(2) t(1)
    by (cases "es = []") (simp_all add: digest_active_substance_def Let_def)
qed

lemma deliver_touches:
  assumes "sha_total (ce_sha256 env)" and "capsule_fits (ap_capsule pill)" and "psa_reports_written (ce_psa env)"
    and "membrane_wf (pl_membrane p)" and "deliver_action_pill env pill now p w = (err, w')"
    and "err = ESP_OK \<or> w' \<noteq> w"
  shows "pill_authorized (ce_sha256 env) (ce_pk env) (pl_issuer_key_id p) (issuer_public_key p) now pill"
    and "\<exists>e c. pill_commands env p pill e c \<and> publish_command env e c w = (err, w')"
proof -
  let ?d = "digest_active_substance (ce_psa env) pill (mem_ribosome_table (pl_membrane p)) None"
  have a: "validate_authorized (ce_sha256 env) (ce_pk env) pill now (pl_issuer_key_id p) (issuer_public_key p) = ESP_OK"
    and d: "fst ?d = ESP_OK"
    and pub: "publish_digested_command (ce_sock env) (ce_broker env) (pl_membrane p) (snd ?d) w = (err, w')"
    using assms(5,6) by (auto simp: deliver_action_pill_def Let_def case_prod_beta split: if_splits)
  show auth: "pill_authorized (ce_sha256 env) (ce_pk env) (pl_issuer_key_id p) (issuer_public_key p) now pill"
    using a by (rule validate_authorized_iff[OF assms(1,2), THEN iffD1])
  then have env: "active_substance_validate_envelope (Some (ap_active pill)) = ESP_OK" by (simp add: pill_authorized_def)
  obtain g where g: "?d = (ESP_OK, g)" using d by (metis prod.collapse)
  note c = digest_candidates_OK[OF assms(3) g[unfolded digest_table_eq[OF assms(4) env]]]
  have l: "length (re_mqtt_client_id (dg_device g)) = RIBOSOME_MQTT_CLIENT_ID_LEN"
    using live_entry_fits(1)[OF assms(4)] c by blast
  have g': "\<lparr> dg_command = dg_command g, dg_device = dg_device g \<rparr> = g" by simp
  note eq = publish_digested_eq[OF _ _ l, of "ce_sock env" "ce_broker env" "pl_membrane p" w]
  have al: "command_allowed (pl_membrane p) g" and pb: "publish_command env (dg_device g) (dg_command g) w = (err, w')"
    using pub g eq c assms(6) by (auto split: if_splits)
  have "command_allowed (pl_membrane p) \<lparr> dg_command = dg_command g, dg_device = dg_device g \<rparr>"
    unfolding g' by (rule al)
  with c have "pill_commands env p pill (dg_device g) (dg_command g)" by (simp add: pill_commands_def)
  with pb show "\<exists>e c. pill_commands env p pill e c \<and> publish_command env e c w = (err, w')" by blast
qed

lemma deliver_reaches:
  assumes "sha_total (ce_sha256 env)" and "capsule_fits (ap_capsule pill)"
    and "membrane_wf (pl_membrane p)"
    and "pill_authorized (ce_sha256 env) (ce_pk env) (pl_issuer_key_id p) (issuer_public_key p) now pill"
    and "rib_live (mem_ribosome_table (pl_membrane p)) = pre @ e # post"
    and "\<And>x. x \<in> set pre \<Longrightarrow> fst (open_candidate (ce_psa env) (ap_active pill) None x) \<in> {ESP_ERR_INVALID_STATE, ESP_FAIL}"
    and "psa_crypto_init (ce_psa env) = PSA_SUCCESS" and "\<And>k. psa_import_aes_key (ce_psa env) k = PSA_SUCCESS"
    and "pill_commands env p pill e c" and "as_ciphertext_len (ap_active pill) = of_nat ACTIVE_SUBSTANCE_COMMAND_BYTES"
  shows "deliver_action_pill env pill now p w = publish_command env e c w"
proof -
  let ?s = "ap_active pill"
  have env: "active_substance_validate_envelope (Some ?s) = ESP_OK" using assms(4) by (simp add: pill_authorized_def)
  note live = live_entry_fits[OF assms(3), of e]
  have c: "command_fits c" "command_ok c" "command_allowed (pl_membrane p) \<lparr> dg_command = c, dg_device = e \<rparr>"
    "device_opens (ce_psa env) ?s None e (command_bytes c)" "e \<in> set (rib_live (mem_ribosome_table (pl_membrane p)))"
    using assms(9) by (simp_all add: pill_commands_def)
  have "length (command_bytes c) = unat (as_ciphertext_len ?s)"
    using length_command_bytes[OF c(1)] assms(10) by simp
  then have "open_candidate (ce_psa env) ?s None e = (ESP_OK, command_bytes c)"
    using open_candidate_of_device[OF c(4) assms(7,8) env] live[OF c(5)] by simp
  from digest_candidates_hit[OF live(3)[OF c(5)] this c(1,2)]
  have "digest_active_substance (ce_psa env) pill (mem_ribosome_table (pl_membrane p)) None
      = (ESP_OK, \<lparr> dg_command = c, dg_device = e \<rparr>)"
    using digest_candidates_skip[of pre "ce_psa env" ?s None "e # post" digested_clear] assms(6)
    by (simp add: digest_table_eq[OF assms(3) env] assms(5) digested_clear_def del: digest_candidates.simps)
  then show ?thesis
    using validate_authorized_iff[OF assms(1,2), THEN iffD2, OF assms(4)] c(3)
      publish_digested_eq[of "\<lparr> dg_command = c, dg_device = e \<rparr>" "ce_sock env" "ce_broker env" "pl_membrane p" w]
      c(1,2) live(1)[OF c(5)]
    by (simp add: deliver_action_pill_def)
qed

subsection \<open>A concrete pill\<close>

definition env_sample :: "(bytes, net_mem, unit) cortex_env" where
  "env_sample = \<lparr> ce_sha256 = sha_toy, ce_pk = pk_toy, ce_psa = psa_toy_api, ce_sock = net_up,
     ce_broker = broker_up \<rparr>"

definition command_lamp_on :: active_substance_command where
  "command_lamp_on = \<lparr> asc_device_id = packed 0 ACTIVE_SUBSTANCE_DEVICE_ID_LEN (lit ''lamp''),
     asc_topic = packed 0 ACTIVE_SUBSTANCE_TOPIC_LEN (lit ''home''), asc_amino_id = AMINO_ON,
     asc_payload_type = 0, asc_reserved = [0, 0, 0], asc_payload_i32 = 0 \<rparr>"

definition substance_lamp :: active_substance where
  "substance_lamp = active_substance_init \<lparr> as_cipher := CIPHER_AES_256_GCM, as_ciphertext_len := 76,
     as_tag := replicate ACTIVE_SUBSTANCE_TAG_LEN 9,
     as_ciphertext := command_bytes command_lamp_on @ replicate 180 0 \<rparr>"

definition pill_lamp :: action_pill where
  "pill_lamp = \<lparr> ap_capsule = capsule_sample \<lparr>
       cpl_active_hash := the (sha_toy (active_substance_canonical substance_lamp)) \<rparr>,
     ap_active = substance_lamp \<rparr>"

definition pipeline_sample :: action_pipeline where
  "pipeline_sample = \<lparr> pl_stomach = cp_cache_zero, pl_membrane = membrane_sample,
     pl_issuer_key_id = replicate 16 2, pl_issuer_public_key_pem = [4, 0], pl_issuer_public_key_len = 2 \<rparr>"

lemma command_lamp_ok: "command_fits command_lamp_on" "command_ok command_lamp_on"
proof -
  have z: "0 \<notin> set (lit ''lamp'')" "0 \<notin> set (lit ''home'')"
    and l: "length (lit ''lamp'') = 4" "length (lit ''home'') = 4" by (simp_all add: lit_def)
  show "command_fits command_lamp_on"
    using l by (simp add: command_fits_def command_lamp_on_def length_packed)
  show "command_ok command_lamp_on"
    using cstr_packed[OF z(1)] cstr_packed[OF z(2)] l
    by (simp add: command_ok_def command_lamp_on_def strlen_def amino_without_value_def)
qed

lemma substance_lamp_facts:
  "active_substance_validate_envelope (Some substance_lamp) = ESP_OK" "as_ciphertext_len substance_lamp = 76"
  "enzyme_sealed substance_lamp = command_bytes command_lamp_on @ replicate 16 9"
  using length_command_bytes[OF command_lamp_ok(1)]
  by (simp_all add: substance_lamp_def active_substance_init_def active_substance_validate_envelope_def
      enzyme_sealed_def)

lemma sha_toy_length: "length (the (sha_toy m)) = 32"
  by (simp add: sha_toy_def)

lemma pill_lamp_hash_nonzero:
  "\<exists>b\<in>set (take 32 (the (sha_toy (active_substance_canonical substance_lamp)))). b \<noteq> 0"
proof -
  have "active_substance_canonical substance_lamp
      = ([2, 2] @ le16 76 @ replicate 12 0 @ replicate 16 9 @ asc_device_id command_lamp_on
          @ asc_topic command_lamp_on) @ [1, 0, 0, 0, 0, 0, 0, 0, 0, 0, 0, 0]"
    using length_command_bytes[OF command_lamp_ok(1)]
    by (simp add: active_substance_canonical_def substance_lamp_def active_substance_init_def
        active_substance_zero_def command_bytes_def command_lamp_on_def le32_def)
  then have "1 \<in> set (take 32 (the (sha_toy (active_substance_canonical substance_lamp))))"
    by (simp add: sha_toy_def)
  then show ?thesis by (rule bexI[rotated]) simp
qed

lemma pill_lamp_fits: "capsule_fits (ap_capsule pill_lamp)"
  using capsule_sample_fits sha_toy_length by (simp add: pill_lamp_def capsule_fits_def)

lemma pill_lamp_valid: "capsule_pill_validate_basic (Some (ap_capsule pill_lamp)) 50 = ESP_OK"
  using pill_lamp_hash_nonzero
  by (simp add: capsule_pill_validate_basic_def pill_lamp_def capsule_sample_def capsule_pill_init_def
      bytes_all_zero_iff)

lemma pill_lamp_authorized:
  "pill_authorized sha_toy pk_toy (pl_issuer_key_id pipeline_sample) (issuer_public_key pipeline_sample) 50 pill_lamp"
  using pill_lamp_valid substance_lamp_facts(1)
  by (simp add: pill_authorized_def issuer_signed_def pill_lamp_def pipeline_sample_def issuer_public_key_def
      capsule_sample_def pk_toy_def sha_toy_def)

lemma psa_toy_written: "psa_reports_written psa_toy_api"
proof -
  have "length (take cap c) = cap" if "drop cap c = replicate 16 9" for cap and c :: bytes
    using arg_cong[OF that, of length] by simp
  then show ?thesis by (auto simp: psa_reports_written_def psa_toy_api_def)
qed

lemma membrane_sample_live: "rib_live (mem_ribosome_table membrane_sample) = [rib_sample]"
  by (simp add: membrane_sample_def membrane_of_def)

lemma pill_lamp_commands: "pill_commands env_sample pipeline_sample pill_lamp rib_sample command_lamp_on"
proof -
  have "derive_aead_key psa_toy_api substance_lamp (re_device_secret rib_sample) (re_epoch rib_sample)
      = (ESP_OK, replicate 32 7)"
    by (simp add: derive_aead_key_def select_key_len_def hkdf_sha256_one_block_def hmac_sha256_def
        substance_lamp_def active_substance_init_def rib_sample_def enzyme_salt_def enzyme_info_def
        k_hkdf_salt_prefix_def lit_def psa_toy_api_def)
  moreover have "psa_aead_decrypt psa_toy_api k n a (enzyme_sealed substance_lamp) 76
      = (PSA_SUCCESS, command_bytes command_lamp_on, 76)" for k n a
    using substance_lamp_facts(3) length_command_bytes[OF command_lamp_ok(1)] by (simp add: psa_toy_api_def)
  ultimately have o: "device_opens psa_toy_api substance_lamp None rib_sample (command_bytes command_lamp_on)"
    using length_command_bytes[OF command_lamp_ok(1)] by (simp add: device_opens_def)
  have z: "0 \<notin> set (lit ''lamp'')" by (simp add: lit_def)
  have w: "membrane_wf membrane_sample" by (rule membrane_sample_wf)
  have "membrane_allows membrane_sample rib_sample AMINO_ON None"
    using membrane_allows_template[OF w, of rib_sample AMINO_ON None]
    by (simp add: membrane_sample_def membrane_of_def RNA_DEFAULT_TEMPLATES_def rna_default_def rib_sample_def
        packed_def amino_acid_validate_payload_cases amino_acid_id_valid_iff amino_without_value_def
        amino_with_value_def)
  then have "command_allowed membrane_sample \<lparr> dg_command = command_lamp_on, dg_device = rib_sample \<rparr>"
    using cstr_packed[OF z] by (simp add: command_allowed_def command_lamp_on_def rib_sample_def)
  with o command_lamp_ok membrane_sample_live show ?thesis
    by (simp add: pill_commands_def env_sample_def pipeline_sample_def pill_lamp_def)
qed

lemma deliver_lamp: "deliver_action_pill env_sample pill_lamp 50 pipeline_sample w
    = publish_command env_sample rib_sample command_lamp_on w"
proof (rule deliver_reaches[where pre = "[]" and post = "[]"])
  show "sha_total (ce_sha256 env_sample)" using sha_toy_total by (simp add: env_sample_def)
  show "membrane_wf (pl_membrane pipeline_sample)" using membrane_sample_wf by (simp add: pipeline_sample_def)
  show "pill_authorized (ce_sha256 env_sample) (ce_pk env_sample) (pl_issuer_key_id pipeline_sample)
      (issuer_public_key pipeline_sample) 50 pill_lamp" using pill_lamp_authorized by (simp add: env_sample_def)
qed (use pill_lamp_fits pill_lamp_commands membrane_sample_live substance_lamp_facts(2) in
    \<open>simp_all add: pipeline_sample_def env_sample_def psa_toy_api_def pill_lamp_def\<close>)

lemma publish_lamp: "fst (publish_command env_sample rib_sample command_lamp_on w) = ESP_OK"
proof -
  have z: "0 \<notin> set (lit ''home'')" by (simp add: lit_def)
  have "fst (mqtt_broker_publish_to_client net_up broker_up (Some (re_mqtt_client_id rib_sample))
      (Some (asc_topic command_lamp_on)) (Some (command_text command_lamp_on))
      (length (command_text command_lamp_on)) 0 False w) = ESP_OK"
    using cstr_packed[OF z, of 32]
    by (intro net_up_publish) (simp_all add: rib_sample_def command_lamp_on_def command_text_def packed_def lit_def
        strlen_def)
  then show ?thesis by (simp add: env_sample_def)
qed

lemma env_sample_total: "sha_total (ce_sha256 env_sample)"
  using sha_toy_total by (simp add: env_sample_def)

lemma fresh_seen:
  assumes "replay_ok c" and "length d = STOMACH_CP_DIGEST_LEN" and "d \<notin> set (cp_abs c)"
  shows "\<exists>c1. stomach_cp_cache_seen_or_add (Some c) (Some d) = (False, Some c1)"
  using assms cp_contains_abs[of c d] by (simp add: stomach_cp_cache_seen_or_add_def replay_ok_def)

lemma process_fresh:
  assumes "sha_total (ce_sha256 env)" and "replay_ok (pl_stomach p)"
    and "pill_digest env beyond pill \<notin> set (cp_abs (pl_stomach p))"
  shows "\<exists>c1. process_action_pill env beyond pill now p w =
    (fst (deliver_action_pill env pill now p w), p \<lparr> pl_stomach := c1 \<rparr>, snd (deliver_action_pill env pill now p w))"
  using fresh_seen[OF assms(2) pill_digest_ok(2)[OF assms(1)] assms(3)]
  by (auto simp: process_eq[OF assms(1)] case_prod_beta)

lemma process_outcome:
  assumes "sha_total (ce_sha256 env)"
  shows "(fst (process_action_pill env beyond pill now (p \<lparr> pl_stomach := c \<rparr>) w),
      snd (snd (process_action_pill env beyond pill now (p \<lparr> pl_stomach := c \<rparr>) w))) =
    (if fst (stomach_cp_cache_seen_or_add (Some c) (Some (pill_digest env beyond pill))) then (ESP_OK, w)
     else deliver_action_pill env pill now p w)"
  by (simp add: process_eq[OF assms] case_prod_beta Let_def deliver_cache)

subsection \<open>Properties\<close>

text \<open>C1: Only an authorised command reaches the network.  If processing an action pill sends anything,
  then the digest of the pill was not in the replay cache; the capsule is valid now, carries the
  configured issuer id, binds exactly this active substance and has a signature of the issuer key;
  the substance was sealed under the secret of an enrolled device; the decrypted command is well
  formed and names that very device; and the template of the device allows the command.  What was
  sent is the publication of that command's value on that command's topic, and nothing else.\<close>

theorem pipeline_sends_only_authorized:
  assumes "sha_total (ce_sha256 env)" and "psa_reports_written (ce_psa env)"
    and "capsule_fits (ap_capsule pill)" and "membrane_wf (pl_membrane p)" and "replay_ok (pl_stomach p)"
    and "process_action_pill env beyond pill now p w = (err, p', w')" and "w' \<noteq> w"
  shows "pill_digest env beyond pill \<notin> set (cp_abs (pl_stomach p)) \<and>
    pill_authorized (ce_sha256 env) (ce_pk env) (pl_issuer_key_id p) (issuer_public_key p) now pill \<and>
    (\<exists>e c. pill_commands env p pill e c \<and> publish_command env e c w = (err, w'))"
proof -
  let ?d = "pill_digest env beyond pill"
  have d: "deliver_action_pill env pill now p w = (err, w')"
    and n: "\<not> fst (cp_step (Cp_seen_or_add ?d) (pl_stomach p))"
    using assms(6,7) by (auto simp: process_eq[OF assms(1)] case_prod_beta Let_def split: if_splits)
  have "?d \<notin> set (cp_abs (pl_stomach p))"
    using n cp_contains_abs[OF _ pill_digest_ok(2)[OF assms(1), of beyond pill], of "pl_stomach p"] assms(5)
    by (auto simp: stomach_cp_cache_seen_or_add_def replay_ok_def)
  then show ?thesis using deliver_touches[OF assms(1,3,2,4) d] assms(7) by simp
qed

theorem pipeline_sends_only_authorized_witness:
  "pill_authorized sha_toy pk_toy (replicate 16 2) [4, 0] 50 pill_lamp"
proof -
  let ?w = "snd (publish_command env_sample rib_sample command_lamp_on [])"
  have f: "fst (deliver_action_pill env_sample pill_lamp 50 pipeline_sample []) = ESP_OK"
    "snd (deliver_action_pill env_sample pill_lamp 50 pipeline_sample []) = ?w"
    using deliver_lamp publish_lamp by simp_all
  have s: "replay_ok (pl_stomach pipeline_sample)" using replay_ok_zero by (simp add: pipeline_sample_def)
  have "cp_abs (pl_stomach pipeline_sample) = []" by (simp add: pipeline_sample_def cp_abs_def cp_cache_zero_def)
  then obtain p' where p': "process_action_pill env_sample (\<lambda>_. 0) pill_lamp 50 pipeline_sample [] = (ESP_OK, p', ?w)"
    using process_fresh[OF env_sample_total s, of "\<lambda>_. 0" pill_lamp 50 "[]"] f by auto
  have r: "\<exists>sk body r1. mqtt_read_packet (net_mem_out ?w sk) = Some (1, 0, body, r1)"
    using publish_wire[of net_up net_mem_out broker_up] net_mem_stream publish_lamp[of "[]"]
    by (metis env_sample_def cortex_env.select_convs(4,5) prod.collapse)
  then have ne: "?w \<noteq> []" by (auto simp: net_mem_out_def)
  have m: "membrane_wf (pl_membrane pipeline_sample)" using membrane_sample_wf by (simp add: pipeline_sample_def)
  from pipeline_sends_only_authorized[OF env_sample_total _ pill_lamp_fits m s p' ne] psa_toy_written
  show ?thesis by (simp add: env_sample_def pipeline_sample_def issuer_public_key_def)
qed



text \<open>C3: How long a pill cannot be replayed.  After a fresh pill, any pills whose digests are new and
  pairwise different may follow, whether or not they are authorised.  The pill is then ignored, with
  success reported and nothing sent, if fewer than sixteen pills came in between; from sixteen on it
  is processed again in full, as if it had never been seen.\<close>

theorem pipeline_replay_window:
  assumes "sha_total (ce_sha256 env)" and "replay_ok (pl_stomach p)"
    and "distinct (pill_digest env beyond pill # map (step_digest env) xs)"
    and "set (pill_digest env beyond pill # map (step_digest env) xs) \<inter> set (cp_abs (pl_stomach p)) = {}"
    and "process_action_pill env beyond pill now p w = (err1, p1, w1)"
    and "run (pill_step env) xs (p1, w1) = (errs, p2, w2)"
    and "process_action_pill env beyond pill now' p2 w2 = (err3, p3, w3)"
  shows "(err3, w3) = (if length xs < STOMACH_CP_CACHE_SIZE then (ESP_OK, w2)
    else deliver_action_pill env pill now' p w2)"
proof -
  let ?d = "pill_digest env beyond pill" and ?ds = "map (step_digest env) xs"
  have d_len: "length ?d = STOMACH_CP_DIGEST_LEN" by (rule pill_digest_ok(2)[OF assms(1)])
  have ds_len: "\<forall>x\<in>set ?ds. length x = STOMACH_CP_DIGEST_LEN"
    unfolding set_map by (intro ballI, elim imageE) (simp only: pill_digest_ok(2)[OF assms(1)])
  have "?d \<notin> set (cp_abs (pl_stomach p))" using assms(4) unfolding list.set by blast
  from fresh_seen[OF assms(2) d_len this]
  obtain c1 where c1: "stomach_cp_cache_seen_or_add (Some (pl_stomach p)) (Some ?d) = (False, Some c1)" ..
  have p1: "p1 = p \<lparr> pl_stomach := c1 \<rparr>"
    using pill_step_cache[OF assms(1), of "(beyond, pill, now)" p w] assms(5) c1 by simp
  obtain c2 where c2: "snd (run cp_step (map Cp_seen_or_add ?ds) c1) = c2" by blast
  have "pl_stomach p1 = c1" by (simp add: p1)
  then have "p2 = p1 \<lparr> pl_stomach := c2 \<rparr>"
    using pill_run_cache[OF assms(1), of xs p1 w1] unfolding assms(6) by (simp only: c2 fst_conv snd_conv)
  then have p2: "p2 = p \<lparr> pl_stomach := c2 \<rparr>" by (simp add: p1)
  have seen: "fst (stomach_cp_cache_seen_or_add (Some c2) (Some ?d)) \<longleftrightarrow> length xs < STOMACH_CP_CACHE_SIZE"
    using replay_window_fresh[OF assms(2) d_len ds_len assms(3,4) c1] unfolding c2 length_map .
  have "(err3, w3) = (if fst (stomach_cp_cache_seen_or_add (Some c2) (Some ?d)) then (ESP_OK, w2)
      else deliver_action_pill env pill now' p w2)"
    using process_outcome[OF assms(1), where beyond = beyond and pill = pill and now = now' and p = p and c = c2 and w = w2] assms(7) by (simp add: p2)
  then show ?thesis unfolding seen .
qed

text \<open>Sixteen pills with made-up signatures, none of them authorised.\<close>

definition forged :: "nat \<Rightarrow> (nat \<Rightarrow> u8) \<times> action_pill \<times> u32" where
  "forged i = (\<lambda>_. 0, pill_lamp \<lparr> ap_capsule := (ap_capsule pill_lamp) \<lparr>
     cpl_signature := [8, of_nat (i + 10)] @ replicate 94 0 \<rparr> \<rparr>, 50)"

lemma digest_hd: "hd (pill_digest env_sample (\<lambda>_. 0) (pill_lamp \<lparr> ap_capsule := (ap_capsule pill_lamp) \<lparr>
     cpl_signature := [8, b] @ replicate 94 0 \<rparr> \<rparr>)) = b"
proof -
  have "[0..<unat (2 :: u8)] = [0, 1]" by (simp add: upt_rec)
  then show ?thesis
    by (simp add: pill_digest_def compute_capsule_digest_def capsule_pill_compute_digest_def env_sample_def
        sha_toy_def capsule_signature_read_def pill_lamp_def capsule_sample_def)
qed

lemma forged_hd: "hd (step_digest env_sample (forged i)) = of_nat (i + 10)"
  using digest_hd[of "of_nat (i + 10)"] by (simp add: forged_def)

lemma lamp_digest_hd: "hd (pill_digest env_sample (\<lambda>_. 0) pill_lamp) = 9"
proof -
  have "pill_lamp \<lparr> ap_capsule := (ap_capsule pill_lamp) \<lparr> cpl_signature := [8, 9] @ replicate 94 0 \<rparr> \<rparr> = pill_lamp"
    by (simp add: pill_lamp_def capsule_sample_def)
  then show ?thesis using digest_hd[of 9] by simp
qed

lemma forged_distinct:
  "distinct (pill_digest env_sample (\<lambda>_. 0) pill_lamp # map (step_digest env_sample) (map forged [0..<16]))"
proof -
  have "map hd (pill_digest env_sample (\<lambda>_. 0) pill_lamp # map (step_digest env_sample) (map forged [0..<16]))
      = [9, 10, 11, 12, 13, 14, 15, 16, 17, 18, 19, 20, 21, 22, 23, 24, 25]"
    by (simp add: lamp_digest_hd forged_hd upt_rec)
  then have "distinct (map hd (pill_digest env_sample (\<lambda>_. 0) pill_lamp
      # map (step_digest env_sample) (map forged [0..<16])))" by (simp only:) simp
  then show ?thesis unfolding distinct_map by (rule conjunct1)
qed

theorem pipeline_replay_window_witness:
  "\<exists>p1 w1 errs p2 w2. process_action_pill env_sample (\<lambda>_. 0) pill_lamp 50 pipeline_sample [] = (ESP_OK, p1, w1) \<and>
     run (pill_step env_sample) (map forged [0..<16]) (p1, w1) = (errs, p2, w2) \<and>
     fst (process_action_pill env_sample (\<lambda>_. 0) pill_lamp 50 p2 w2) = ESP_OK \<and>
     snd (snd (process_action_pill env_sample (\<lambda>_. 0) pill_lamp 50 p2 w2))
       = snd (publish_command env_sample rib_sample command_lamp_on w2)"
proof -
  have s: "replay_ok (pl_stomach pipeline_sample)" "cp_abs (pl_stomach pipeline_sample) = []"
    using replay_ok_zero by (simp_all add: pipeline_sample_def cp_abs_def cp_cache_zero_def)
  obtain p1 w1 where 1: "process_action_pill env_sample (\<lambda>_. 0) pill_lamp 50 pipeline_sample [] = (ESP_OK, p1, w1)"
    using process_fresh[OF env_sample_total s(1), of "\<lambda>_. 0" pill_lamp 50 "[]"] s(2) deliver_lamp publish_lamp by auto
  obtain errs p2 w2 where 2: "run (pill_step env_sample) (map forged [0..<16]) (p1, w1) = (errs, p2, w2)"
    by (metis prod.collapse)
  obtain e3 p3 w3 where 3: "process_action_pill env_sample (\<lambda>_. 0) pill_lamp 50 p2 w2 = (e3, p3, w3)"
    by (metis prod.collapse)
  have "(e3, w3) = publish_command env_sample rib_sample command_lamp_on w2"
    using pipeline_replay_window[OF env_sample_total s(1) forged_distinct _ 1 2 3] s(2) deliver_lamp by simp
  then have "e3 = ESP_OK" "w3 = snd (publish_command env_sample rib_sample command_lamp_on w2)"
    using publish_lamp[of w2] by (metis fst_conv, metis snd_conv)
  then show ?thesis using 1 2 3 by (intro exI conjI) auto
qed

end
