(* ===== verification/Cortex_G2g.thy ===== *)
theory Cortex_G2g
  imports Cortex_Stomach BN_Net
begin

text \<open>
  Guardian-to-guardian messages (\<open>logic/g2g.rs\<close> of the cortex): an action pill is cut into
  fragments that fit a BLE attribute, sent, and put together again on the other side.  The radio is
  the parameter \<open>send_fragment\<close> over the state \<open>'w\<close> of the rest of the system; the handler a
  complete pill is given to may send messages itself, so it works on the whole state.
\<close>

abbreviation G2G_MESSAGE_ID_LEN :: nat where "G2G_MESSAGE_ID_LEN \<equiv> 32"
abbreviation G2G_ACTION_PILL_MAX_LEN :: nat where "G2G_ACTION_PILL_MAX_LEN \<equiv> 768"
abbreviation G2G_RX_SLOTS :: nat where "G2G_RX_SLOTS \<equiv> 4"
abbreviation G2G_SEEN_CACHE_SIZE :: nat where "G2G_SEEN_CACHE_SIZE \<equiv> 32"
abbreviation WIRE_HEADER_LEN :: nat where "WIRE_HEADER_LEN \<equiv> 46"
abbreviation WIRE_FRAGMENT_PAYLOAD_MAX :: nat where "WIRE_FRAGMENT_PAYLOAD_MAX \<equiv> 174"
abbreviation WIRE_FRAGMENT_MAX_COUNT :: nat where "WIRE_FRAGMENT_MAX_COUNT \<equiv> 32"
abbreviation ACTION_PILL_BYTES :: nat where "ACTION_PILL_BYTES \<equiv> 480"

record seen_cache =
  sc_entries :: "bytes list"
  sc_next :: nat
  sc_count :: nat

record rx_slot =
  rx_in_use :: bool
  rx_message_id :: bytes
  rx_total_len :: nat
  rx_frag_count :: nat
  rx_received_mask :: u32
  rx_bytes :: bytes

record 'w g2g =
  g2_seen :: seen_cache
  g2_slots :: "rx_slot list"
  g2_world :: 'w

definition rx_slot_empty :: rx_slot where
  "rx_slot_empty = \<lparr> rx_in_use = False, rx_message_id = replicate G2G_MESSAGE_ID_LEN 0, rx_total_len = 0,
     rx_frag_count = 0, rx_received_mask = 0, rx_bytes = replicate G2G_ACTION_PILL_MAX_LEN 0 \<rparr>"

definition seen_cache_empty :: seen_cache where
  "seen_cache_empty = \<lparr> sc_entries = replicate G2G_SEEN_CACHE_SIZE (replicate G2G_MESSAGE_ID_LEN 0),
     sc_next = 0, sc_count = 0 \<rparr>"

definition g2g_clear_seen_cache :: "'w g2g \<Rightarrow> 'w g2g" where
  "g2g_clear_seen_cache g = g \<lparr> g2_seen := seen_cache_empty \<rparr>"

subsection \<open>The cache of message ids\<close>

definition g2g_seen :: "bytes \<Rightarrow> seen_cache \<Rightarrow> bool" where
  "g2g_seen message_id c = list_ex (\<lambda>e. e = message_id) (take (sc_count c) (sc_entries c))"

definition add_seen :: "bytes \<Rightarrow> seen_cache \<Rightarrow> seen_cache" where
  "add_seen message_id c = c \<lparr>
     sc_entries := (sc_entries c)[sc_next c := message_id],
     sc_next := (sc_next c + 1) mod G2G_SEEN_CACHE_SIZE,
     sc_count := (if sc_count c < G2G_SEEN_CACHE_SIZE then sc_count c + 1 else sc_count c) \<rparr>"

definition g2g_seen_or_add :: "bytes \<Rightarrow> seen_cache \<Rightarrow> bool \<times> seen_cache" where
  "g2g_seen_or_add message_id c =
     (if g2g_seen message_id c then (True, c) else (False, add_seen message_id c))"

subsection \<open>Pills as bytes\<close>

text \<open>The \<open>repr(C)\<close> image of an action pill: 192 bytes of capsule and 288 bytes of substance.\<close>

definition capsule_bytes :: "capsule_pill \<Rightarrow> bytes" where
  "capsule_bytes c = capsule_signed_canonical c @ [cpl_signature_len c] @ cpl_reserved1 c @ cpl_signature c"

definition substance_bytes :: "active_substance \<Rightarrow> bytes" where
  "substance_bytes s = [as_version s] @ [as_cipher s] @ le16 (as_ciphertext_len s) @ as_nonce s @ as_tag s
     @ as_ciphertext s"

definition action_pill_bytes :: "action_pill \<Rightarrow> bytes" where
  "action_pill_bytes pill = capsule_bytes (ap_capsule pill) @ substance_bytes (ap_active pill)"

definition action_pill_of_bytes :: "bytes \<Rightarrow> action_pill" where
  "action_pill_of_bytes b = \<lparr>
     ap_capsule = \<lparr> cpl_version = rd b 0, cpl_flags = rd b 1, cpl_action_class = rd b 2, cpl_reserved0 = rd b 3,
       cpl_issued_ms = of_le32 (drop 4 b), cpl_expires_ms = of_le32 (drop 8 b),
       cpl_network_id = take 16 (drop 12 b), cpl_nonce = take 16 (drop 28 b),
       cpl_active_hash = take 32 (drop 44 b), cpl_issuer_key_id = take 16 (drop 76 b),
       cpl_signature_alg = rd b 92, cpl_signature_len = rd b 93, cpl_reserved1 = take 2 (drop 94 b),
       cpl_signature = take 96 (drop 96 b) \<rparr>,
     ap_active = \<lparr> as_version = rd b 192, as_cipher = rd b 193, as_ciphertext_len = of_le16 (drop 194 b),
       as_nonce = take 12 (drop 196 b), as_tag = take 16 (drop 208 b), as_ciphertext = take 256 (drop 224 b) \<rparr> \<rparr>"

subsection \<open>Sending\<close>

definition g2g_write_u16_le :: "nat \<Rightarrow> esp_err \<times> bytes" where
  "g2g_write_u16_le v = (if v > 65535 then (ESP_ERR_INVALID_SIZE, []) else (ESP_OK, le16 (of_nat v)))"

text \<open>
  The frame of one fragment.  \<open>Inl\<close> is the error of the first \<open>write_u16_le\<close> that fails.
\<close>

definition g2g_frame :: "bytes \<Rightarrow> bytes \<Rightarrow> nat \<Rightarrow> nat \<Rightarrow> esp_err + bytes" where
  "g2g_frame bytes message_id frag_count frag_index =
     (let offset = frag_index * WIRE_FRAGMENT_PAYLOAD_MAX;
          e = min (offset + WIRE_FRAGMENT_PAYLOAD_MAX) (length bytes);
          payload = take (e - offset) (drop offset bytes);
          fields = map g2g_write_u16_le [length bytes, offset, frag_index, frag_count, length payload]
      in case find (\<lambda>f. fst f \<noteq> ESP_OK) fields of
           Some f \<Rightarrow> Inl (fst f)
         | None \<Rightarrow> Inr ([1, 1, 0, 0] @ concat (map snd fields) @ message_id @ payload))"

fun g2g_send_loop ::
  "(bytes \<Rightarrow> 'w \<Rightarrow> esp_err \<times> 'w) \<Rightarrow> bytes \<Rightarrow> bytes \<Rightarrow> nat \<Rightarrow> nat list \<Rightarrow> 'w \<Rightarrow> esp_err \<times> 'w" where
  "g2g_send_loop send_fragment bytes message_id frag_count [] w = (ESP_OK, w)"
| "g2g_send_loop send_fragment bytes message_id frag_count (i # is) w =
     (case g2g_frame bytes message_id frag_count i of
        Inl err \<Rightarrow> (err, w)
      | Inr frame \<Rightarrow>
          (case send_fragment frame w of
             (err, w) \<Rightarrow>
               if err \<noteq> ESP_OK then (err, w)
               else g2g_send_loop send_fragment bytes message_id frag_count is w))"

definition div_ceil :: "nat \<Rightarrow> nat \<Rightarrow> nat" where
  "div_ceil n k = (n + k - 1) div k"

definition send_action_pill_bytes ::
  "(bytes \<Rightarrow> 'w \<Rightarrow> esp_err \<times> 'w) \<Rightarrow> bytes \<Rightarrow> bytes \<Rightarrow> 'w g2g \<Rightarrow> esp_err \<times> 'w g2g" where
  "send_action_pill_bytes send_fragment bytes message_id g =
     (if bytes = [] \<or> length bytes > G2G_ACTION_PILL_MAX_LEN then (ESP_ERR_INVALID_SIZE, g)
      else (let frag_count = div_ceil (length bytes) WIRE_FRAGMENT_PAYLOAD_MAX in
        if frag_count = 0 \<or> frag_count > WIRE_FRAGMENT_MAX_COUNT then (ESP_ERR_INVALID_SIZE, g)
        else (case g2g_send_loop send_fragment bytes message_id frag_count [0..<frag_count] (g2_world g) of
            (err, w) \<Rightarrow>
              (let g = g \<lparr> g2_world := w \<rparr> in
               if err \<noteq> ESP_OK then (err, g)
               else (ESP_OK, g \<lparr> g2_seen := add_seen message_id (g2_seen g) \<rparr>)))))"

definition send_action_pill ::
  "(bytes \<Rightarrow> bytes option) \<Rightarrow> (nat \<Rightarrow> u8) \<Rightarrow> (bytes \<Rightarrow> 'w \<Rightarrow> esp_err \<times> 'w) \<Rightarrow> action_pill \<Rightarrow> 'w g2g
     \<Rightarrow> esp_err \<times> 'w g2g" where
  "send_action_pill sha256 beyond send_fragment pill g =
     (case compute_inner_id sha256 beyond pill of
        (err, message_id) \<Rightarrow>
          if err \<noteq> ESP_OK then (err, g)
          else send_action_pill_bytes send_fragment (action_pill_bytes pill) message_id g)"

subsection \<open>Receiving\<close>

text \<open>The index of the slot the code returns a reference to, and the slots after the call.\<close>

definition rx_slot_for :: "bytes \<Rightarrow> rx_slot list \<Rightarrow> nat \<times> rx_slot list" where
  "rx_slot_for message_id slots =
     (case find (\<lambda>i. rx_in_use (slots ! i) \<and> rx_message_id (slots ! i) = message_id) [0..<G2G_RX_SLOTS] of
        Some i \<Rightarrow> (i, slots)
      | None \<Rightarrow>
          (let index = (case find (\<lambda>i. \<not> rx_in_use (slots ! i)) [0..<G2G_RX_SLOTS] of Some i \<Rightarrow> i | None \<Rightarrow> 0)
           in (index, slots[index := rx_slot_empty \<lparr> rx_in_use := True, rx_message_id := message_id \<rparr>])))"

type_synonym 'w pill_handler = "action_pill \<Rightarrow> 'w g2g \<Rightarrow> esp_err \<times> 'w g2g"

definition handle_received_action_pill_bytes ::
  "(bytes \<Rightarrow> bytes option) \<Rightarrow> (nat \<Rightarrow> u8) \<Rightarrow> 'w pill_handler option \<Rightarrow> bytes \<Rightarrow> bytes \<Rightarrow> 'w g2g
     \<Rightarrow> esp_err \<times> 'w g2g" where
  "handle_received_action_pill_bytes sha256 beyond handler bytes message_id g =
     (if length bytes \<noteq> ACTION_PILL_BYTES then (ESP_ERR_INVALID_SIZE, g)
      else (let pill = action_pill_of_bytes bytes in
        case compute_inner_id sha256 beyond pill of
          (err, computed_id) \<Rightarrow>
            if err \<noteq> ESP_OK then (err, g)
            else if computed_id \<noteq> message_id then (ESP_ERR_INVALID_CRC, g)
            else (case g2g_seen_or_add message_id (g2_seen g) of
                (already, c) \<Rightarrow>
                  if already then (ESP_ERR_INVALID_STATE, g)
                  else (let g = g \<lparr> g2_seen := c \<rparr> in
                    case handler of None \<Rightarrow> (ESP_OK, g) | Some h \<Rightarrow> h pill g))))"

definition complete_mask :: "nat \<Rightarrow> u32" where
  "complete_mask frag_count = (if frag_count = 32 then - 1 else push_bit frag_count 1 - 1)"

text \<open>The header fields, read at their offsets.\<close>

record g2g_header =
  gh_total_len :: nat
  gh_frag_offset :: nat
  gh_frag_index :: nat
  gh_frag_count :: nat
  gh_payload_len :: nat
  gh_message_id :: bytes

definition g2g_header_of :: "bytes \<Rightarrow> g2g_header" where
  "g2g_header_of bytes = \<lparr> gh_total_len = unat (of_le16 (drop 4 bytes)),
     gh_frag_offset = unat (of_le16 (drop 6 bytes)), gh_frag_index = unat (of_le16 (drop 8 bytes)),
     gh_frag_count = unat (of_le16 (drop 10 bytes)), gh_payload_len = unat (of_le16 (drop 12 bytes)),
     gh_message_id = take G2G_MESSAGE_ID_LEN (drop 14 bytes) \<rparr>"

definition g2g_bounds_ok :: "g2g_header \<Rightarrow> nat \<Rightarrow> bool" where
  "g2g_bounds_ok h len \<longleftrightarrow>
     \<not> (gh_total_len h = 0 \<or> gh_total_len h > G2G_ACTION_PILL_MAX_LEN \<or> gh_frag_count h = 0 \<or>
        gh_frag_count h > WIRE_FRAGMENT_MAX_COUNT \<or> gh_frag_index h \<ge> gh_frag_count h \<or>
        gh_payload_len h > WIRE_FRAGMENT_PAYLOAD_MAX \<or> WIRE_HEADER_LEN + gh_payload_len h \<noteq> len \<or>
        gh_frag_offset h + gh_payload_len h > gh_total_len h)"

text \<open>Storing the payload in the slot found for the message (from line 216 on).\<close>

definition g2g_store ::
  "(bytes \<Rightarrow> bytes option) \<Rightarrow> (nat \<Rightarrow> u8) \<Rightarrow> 'w pill_handler option \<Rightarrow> g2g_header \<Rightarrow> bytes \<Rightarrow> 'w g2g
     \<Rightarrow> esp_err \<times> 'w g2g" where
  "g2g_store sha256 beyond handler h payload g =
     (case rx_slot_for (gh_message_id h) (g2_slots g) of
        (i, slots) \<Rightarrow>
          (let slot = slots ! i;
               slot = (if rx_total_len slot = 0
                       then slot \<lparr> rx_total_len := gh_total_len h, rx_frag_count := gh_frag_count h \<rparr> else slot)
           in if rx_total_len slot \<noteq> gh_total_len h \<or> rx_frag_count slot \<noteq> gh_frag_count h
              then (ESP_ERR_INVALID_STATE, g \<lparr> g2_slots := slots[i := rx_slot_empty] \<rparr>)
              else (let b = push_bit (gh_frag_index h) (1 :: u32) in
                if rx_received_mask slot AND b \<noteq> 0
                then (ESP_ERR_INVALID_STATE, g \<lparr> g2_slots := slots[i := slot] \<rparr>)
                else (let slot = slot \<lparr>
                        rx_bytes := take (gh_frag_offset h) (rx_bytes slot) @ payload
                          @ drop (gh_frag_offset h + gh_payload_len h) (rx_bytes slot),
                        rx_received_mask := rx_received_mask slot OR b \<rparr>
                  in if rx_received_mask slot = complete_mask (gh_frag_count h)
                     then handle_received_action_pill_bytes sha256 beyond handler
                            (take (rx_total_len slot) (rx_bytes slot)) (gh_message_id h)
                            (g \<lparr> g2_slots := slots[i := rx_slot_empty] \<rparr>)
                     else (ESP_OK, g \<lparr> g2_slots := slots[i := slot] \<rparr>)))))"

definition handle_received_fragment ::
  "(bytes \<Rightarrow> bytes option) \<Rightarrow> (nat \<Rightarrow> u8) \<Rightarrow> 'w pill_handler option \<Rightarrow> bytes \<Rightarrow> 'w g2g
     \<Rightarrow> esp_err \<times> 'w g2g" where
  "handle_received_fragment sha256 beyond handler bytes g =
     (if length bytes < WIRE_HEADER_LEN then (ESP_ERR_INVALID_SIZE, g)
      else if rd bytes 0 \<noteq> 1 \<or> rd bytes 1 \<noteq> 1 \<or> rd bytes 2 \<noteq> 0 \<or> rd bytes 3 \<noteq> 0
      then (ESP_ERR_INVALID_VERSION, g)
      else (let h = g2g_header_of bytes in
        if \<not> g2g_bounds_ok h (length bytes) then (ESP_ERR_INVALID_SIZE, g)
        else if g2g_seen (gh_message_id h) (g2_seen g) then (ESP_ERR_INVALID_STATE, g)
        else g2g_store sha256 beyond handler h (drop WIRE_HEADER_LEN bytes) g))"

definition on_fragment_received ::
  "(bytes \<Rightarrow> bytes option) \<Rightarrow> (nat \<Rightarrow> u8) \<Rightarrow> 'w pill_handler option \<Rightarrow> bytes option \<Rightarrow> 'w g2g \<Rightarrow> 'w g2g" where
  "on_fragment_received sha256 beyond handler bytes g =
     (case bytes of None \<Rightarrow> g | Some b \<Rightarrow> snd (handle_received_fragment sha256 beyond handler b g))"

subsection \<open>Bytes and frames\<close>

lemma action_pill_round_trip:
  assumes "capsule_fits (ap_capsule pill)" and "substance_fits (ap_active pill)"
  shows "action_pill_of_bytes (action_pill_bytes pill) = pill"
    and "length (action_pill_bytes pill) = ACTION_PILL_BYTES"
proof -
  obtain c s where p: "pill = \<lparr> ap_capsule = c, ap_active = s \<rparr>" by (cases pill)
  have c: "length (cpl_network_id c) = 16" "length (cpl_nonce c) = 16" "length (cpl_active_hash c) = 32"
    "length (cpl_issuer_key_id c) = 16" "length (cpl_reserved1 c) = 2" "length (cpl_signature c) = 96"
    using assms(1) by (simp_all add: p capsule_fits_def)
  have s: "length (as_nonce s) = 12" "length (as_tag s) = 16" "length (as_ciphertext s) = 256"
    using assms(2) by (simp_all add: p substance_fits_def)
  have rdn: "rd (xs @ ys) n = rd ys (n - length xs)" if "length xs \<le> n" for xs ys :: bytes and n
    using that by (auto simp: rd_def nth_append)
  show "length (action_pill_bytes pill) = ACTION_PILL_BYTES"
    using c s by (simp add: p action_pill_bytes_def capsule_bytes_def substance_bytes_def capsule_signed_canonical_def)
  have hi: "rd (x # y # xs) n = rd xs (n - 2)" if "2 \<le> n" for x y and xs :: bytes and n
    using rdn[of "[x, y]" n xs] that by (simp add: eval_nat_numeral)
  have r1: "rd (x # y # ys) 1 = y" for x y and ys :: bytes by (simp add: rd_def)
  show "action_pill_of_bytes (action_pill_bytes pill) = pill"
    using c s
    by (simp add: p action_pill_of_bytes_def action_pill_bytes_def capsule_bytes_def substance_bytes_def
        capsule_signed_canonical_def r1 hi rdn)
qed

definition g2g_chunk :: "bytes \<Rightarrow> nat \<Rightarrow> bytes" where
  "g2g_chunk b i = take WIRE_FRAGMENT_PAYLOAD_MAX (drop (i * WIRE_FRAGMENT_PAYLOAD_MAX) b)"

abbreviation g2g_count :: "bytes \<Rightarrow> nat" where
  "g2g_count b \<equiv> div_ceil (length b) WIRE_FRAGMENT_PAYLOAD_MAX"

definition g2g_frame_bytes :: "bytes \<Rightarrow> bytes \<Rightarrow> nat \<Rightarrow> bytes" where
  "g2g_frame_bytes b message_id i = [1, 1, 0, 0] @ le16 (of_nat (length b))
     @ le16 (of_nat (i * WIRE_FRAGMENT_PAYLOAD_MAX)) @ le16 (of_nat i) @ le16 (of_nat (g2g_count b))
     @ le16 (of_nat (length (g2g_chunk b i))) @ message_id @ g2g_chunk b i"

lemma g2g_count_bounds:
  assumes "b \<noteq> []" and "length b \<le> G2G_ACTION_PILL_MAX_LEN"
  shows "0 < g2g_count b" "g2g_count b \<le> 5"
    and "i < g2g_count b \<longleftrightarrow> i * WIRE_FRAGMENT_PAYLOAD_MAX < length b"
proof -
  have l: "0 < length b" using assms(1) by simp
  show "0 < g2g_count b" "g2g_count b \<le> 5" using l assms(2) unfolding div_ceil_def by linarith+
  show "i < g2g_count b \<longleftrightarrow> i * WIRE_FRAGMENT_PAYLOAD_MAX < length b" unfolding div_ceil_def by linarith
qed

lemma g2g_frame_eq:
  assumes "b \<noteq> []" and "length b \<le> G2G_ACTION_PILL_MAX_LEN" and "i < g2g_count b"
  shows "g2g_frame b message_id (g2g_count b) i = Inr (g2g_frame_bytes b message_id i)"
proof -
  have k: "i * 174 < length b" "g2g_count b \<le> 5" using g2g_count_bounds[OF assms(1,2)] assms(3) by blast+
  have c: "take (min (i * 174 + 174) (length b) - i * 174) (drop (i * 174) b) = g2g_chunk b i"
    by (auto simp: g2g_chunk_def min_def)
  have "length (g2g_chunk b i) \<le> 174" by (simp add: g2g_chunk_def)
  then show ?thesis
    using k assms(2,3)
    by (simp add: g2g_frame_def Let_def c g2g_write_u16_le_def g2g_frame_bytes_def)
qed

lemma length_g2g_chunk:
  "length (g2g_chunk b i) = min WIRE_FRAGMENT_PAYLOAD_MAX (length b - i * WIRE_FRAGMENT_PAYLOAD_MAX)"
  by (simp add: g2g_chunk_def min.commute)

lemma g2g_frame_header:
  assumes "b \<noteq> []" and "length b \<le> G2G_ACTION_PILL_MAX_LEN" and "i < g2g_count b"
    and "length message_id = G2G_MESSAGE_ID_LEN"
  shows "g2g_header_of (g2g_frame_bytes b message_id i) =
      \<lparr> gh_total_len = length b, gh_frag_offset = i * WIRE_FRAGMENT_PAYLOAD_MAX, gh_frag_index = i,
        gh_frag_count = g2g_count b, gh_payload_len = length (g2g_chunk b i), gh_message_id = message_id \<rparr>"
    and "drop WIRE_HEADER_LEN (g2g_frame_bytes b message_id i) = g2g_chunk b i"
    and "length (g2g_frame_bytes b message_id i) = WIRE_HEADER_LEN + length (g2g_chunk b i)"
    and "rd (g2g_frame_bytes b message_id i) 0 = 1" "rd (g2g_frame_bytes b message_id i) 1 = 1"
      "rd (g2g_frame_bytes b message_id i) 2 = 0" "rd (g2g_frame_bytes b message_id i) 3 = 0"
proof -
  have k: "i * 174 < length b" "g2g_count b \<le> 5" using g2g_count_bounds[OF assms(1,2)] assms(3) by blast+
  have u: "unat (of_nat n :: u16) = n" if "n \<le> 768" for n using that by (simp add: unat_of_nat)
  have "length (g2g_chunk b i) \<le> 174" by (simp add: length_g2g_chunk)
  then show "g2g_header_of (g2g_frame_bytes b message_id i) =
      \<lparr> gh_total_len = length b, gh_frag_offset = i * WIRE_FRAGMENT_PAYLOAD_MAX, gh_frag_index = i,
        gh_frag_count = g2g_count b, gh_payload_len = length (g2g_chunk b i), gh_message_id = message_id \<rparr>"
    using k assms(2,3,4) u[of "i * 174"] by (simp add: g2g_header_of_def g2g_frame_bytes_def u)
  show "drop WIRE_HEADER_LEN (g2g_frame_bytes b message_id i) = g2g_chunk b i"
    "length (g2g_frame_bytes b message_id i) = WIRE_HEADER_LEN + length (g2g_chunk b i)"
    using assms(4) by (simp_all add: g2g_frame_bytes_def)
  show "rd (g2g_frame_bytes b message_id i) 0 = 1" "rd (g2g_frame_bytes b message_id i) 1 = 1"
      "rd (g2g_frame_bytes b message_id i) 2 = 0" "rd (g2g_frame_bytes b message_id i) 3 = 0"
    by (simp_all add: g2g_frame_bytes_def rd_def)
qed

lemma g2g_frame_bounds:
  assumes "b \<noteq> []" and "length b \<le> G2G_ACTION_PILL_MAX_LEN" and "i < g2g_count b"
    and "length message_id = G2G_MESSAGE_ID_LEN"
  shows "g2g_bounds_ok (g2g_header_of (g2g_frame_bytes b message_id i)) (length (g2g_frame_bytes b message_id i))"
proof -
  have "i * 174 < length b" "g2g_count b \<le> 5" "0 < g2g_count b"
    using g2g_count_bounds[OF assms(1,2)] assms(3) by blast+
  then show ?thesis using assms g2g_frame_header(1,3)[OF assms]
    by (simp add: g2g_bounds_ok_def length_g2g_chunk)
qed

lemma handle_own_frame:
  assumes "b \<noteq> []" and "length b \<le> G2G_ACTION_PILL_MAX_LEN" and "i < g2g_count b"
    and "length message_id = G2G_MESSAGE_ID_LEN"
  shows "handle_received_fragment sha256 beyond handler (g2g_frame_bytes b message_id i) g =
    (if g2g_seen message_id (g2_seen g) then (ESP_ERR_INVALID_STATE, g)
     else g2g_store sha256 beyond handler (g2g_header_of (g2g_frame_bytes b message_id i)) (g2g_chunk b i) g)"
  using g2g_frame_bounds[OF assms] g2g_frame_header[OF assms]
  by (simp add: handle_received_fragment_def)

subsection \<open>Reassembly\<close>

text \<open>The buffer once the fragments \<open>D\<close> of \<open>b\<close> have arrived.\<close>

definition partial_bytes :: "bytes \<Rightarrow> nat set \<Rightarrow> bytes" where
  "partial_bytes b D = map (\<lambda>j. if j < length b \<and> j div WIRE_FRAGMENT_PAYLOAD_MAX \<in> D then b ! j else 0)
     [0..<G2G_ACTION_PILL_MAX_LEN]"

lemma length_partial_bytes [simp]: "length (partial_bytes b D) = G2G_ACTION_PILL_MAX_LEN"
  by (simp add: partial_bytes_def)

lemma partial_bytes_empty: "partial_bytes b {} = replicate G2G_ACTION_PILL_MAX_LEN 0"
  by (simp add: partial_bytes_def map_replicate_const)

lemma partial_bytes_all:
  assumes "b \<noteq> []" and "length b \<le> G2G_ACTION_PILL_MAX_LEN"
  shows "take (length b) (partial_bytes b {0..<g2g_count b}) = b"
proof (rule nth_equalityI)
  show "length (take (length b) (partial_bytes b {0..<g2g_count b})) = length b" using assms(2) by simp
  fix j assume "j < length (take (length b) (partial_bytes b {0..<g2g_count b}))"
  then have j: "j < length b" by simp
  then have "j div 174 * 174 < length b" by (metis div_times_less_eq_dividend le_less_trans)
  then have "j div 174 < g2g_count b" using g2g_count_bounds(3)[OF assms] by blast
  then show "take (length b) (partial_bytes b {0..<g2g_count b}) ! j = b ! j"
    using j assms(2) by (simp add: partial_bytes_def)
qed

lemma nth_splice:
  assumes "k + length c \<le> length p" and "j < length p"
  shows "(take k p @ c @ drop (k + length c) p) ! j = (if k \<le> j \<and> j < k + length c then c ! (j - k) else p ! j)"
  using assms by (auto simp: nth_append)

lemma partial_bytes_insert:
  assumes "length b \<le> G2G_ACTION_PILL_MAX_LEN" and "i * WIRE_FRAGMENT_PAYLOAD_MAX < length b"
  shows "take (i * WIRE_FRAGMENT_PAYLOAD_MAX) (partial_bytes b D) @ g2g_chunk b i
      @ drop (i * WIRE_FRAGMENT_PAYLOAD_MAX + length (g2g_chunk b i)) (partial_bytes b D)
    = partial_bytes b (insert i D)" (is "?l = ?r")
proof (rule nth_equalityI)
  have lc: "length (g2g_chunk b i) = min 174 (length b - i * 174)" by (rule length_g2g_chunk)
  show len: "length ?l = length ?r" using assms lc by simp
  fix j assume "j < length ?l"
  then have j: "j < 768" using len by simp
  have fit: "i * 174 + length (g2g_chunk b i) \<le> length (partial_bytes b D)" using assms lc by simp
  have l: "?l ! j = (if i * 174 \<le> j \<and> j < i * 174 + length (g2g_chunk b i)
      then g2g_chunk b i ! (j - i * 174) else partial_bytes b D ! j)"
    using nth_splice[OF fit] j by simp
  show "?l ! j = ?r ! j"
  proof (cases "i * 174 \<le> j \<and> j < i * 174 + length (g2g_chunk b i)")
    case True
    then have jb: "j < length b" "j < i * 174 + 174" using lc by linarith+
    then have "j div 174 = i" using True by (intro div_nat_eqI) simp_all
    moreover have "g2g_chunk b i ! (j - i * 174) = b ! j"
      using True jb assms(2) by (simp add: g2g_chunk_def)
    ultimately show ?thesis using l True j jb(1) by (simp add: partial_bytes_def)
  next
    case False
    have "\<not> (j < length b \<and> j div 174 = i)"
    proof
      assume a: "j < length b \<and> j div 174 = i"
      then have "j < i * 174 + 174" "i * 174 \<le> j" by auto
      with a False lc assms(2) show False by linarith
    qed
    with l False j show ?thesis by (auto simp: partial_bytes_def)
  qed
qed

definition rx_partial :: "bytes \<Rightarrow> bytes \<Rightarrow> u32 \<Rightarrow> nat set \<Rightarrow> rx_slot" where
  "rx_partial message_id b m D = \<lparr> rx_in_use = True, rx_message_id = message_id, rx_total_len = length b,
     rx_frag_count = g2g_count b, rx_received_mask = m, rx_bytes = partial_bytes b D \<rparr>"

definition mask_of :: "u32 \<Rightarrow> nat set \<Rightarrow> bool" where
  "mask_of m D \<longleftrightarrow> (\<forall>k. bit m k \<longleftrightarrow> k \<in> D)"

lemma mask_of_insert: "mask_of m D \<Longrightarrow> i < 32 \<Longrightarrow> mask_of (m OR push_bit i 1) (insert i D)"
  by (auto simp: mask_of_def bit_simps)

lemma mask_of_test:
  assumes "mask_of m D" and "i < 32"
  shows "m AND push_bit i 1 \<noteq> 0 \<longleftrightarrow> i \<in> D"
proof -
  have "m AND push_bit i 1 = 0 \<longleftrightarrow> \<not> bit m i"
  proof
    assume "m AND push_bit i 1 = 0"
    then have "\<not> bit (m AND push_bit i 1) i" by simp
    then show "\<not> bit m i" using assms(2) by (simp add: bit_simps)
  next
    assume "\<not> bit m i"
    then show "m AND push_bit i 1 = 0" by (intro bit_word_eqI) (auto simp: bit_simps)
  qed
  then show ?thesis using assms(1) by (simp add: mask_of_def)
qed

lemma complete_mask_bits: "n \<le> 32 \<Longrightarrow> mask_of (complete_mask n) {0..<n}"
proof -
  assume n: "n \<le> 32"
  have "complete_mask n = mask n"
  proof (cases "n = 32")
    case True
    then show ?thesis by (simp add: complete_mask_def mask_full[where 'a = 32, simplified, symmetric])
  next
    case False
    then show ?thesis by (simp add: complete_mask_def mask_eq_exp_minus_1 push_bit_eq_mult)
  qed
  then show ?thesis using n by (auto simp: mask_of_def bit_simps)
qed

lemma mask_of_unique: "mask_of m D \<Longrightarrow> mask_of m' D' \<Longrightarrow> m = m' \<longleftrightarrow> D = D'"
  by (auto simp: mask_of_def intro: bit_word_eqI)

text \<open>
  A receiver that can take a new message: four slots, none of them for this message, and slot
  \<open>i\<close> the first free one.
\<close>

definition rx_ready :: "bytes \<Rightarrow> rx_slot list \<Rightarrow> nat \<Rightarrow> bool" where
  "rx_ready message_id slots i \<longleftrightarrow> length slots = G2G_RX_SLOTS \<and>
     (\<forall>j<G2G_RX_SLOTS. \<not> (rx_in_use (slots ! j) \<and> rx_message_id (slots ! j) = message_id)) \<and>
     find (\<lambda>j. \<not> rx_in_use (slots ! j)) [0..<G2G_RX_SLOTS] = Some i \<and> slots ! i = rx_slot_empty"

lemma find_upt_unique:
  assumes "i < n" and "P i" and "\<And>j. j < n \<Longrightarrow> P j \<Longrightarrow> j = i"
  shows "find P [0..<n] = Some i"
proof -
  have "\<not> P j" if "j < i" for j using assms(1) assms(3)[of j] that by auto
  with assms(1,2) show ?thesis unfolding find_Some_iff by (intro exI[of _ i]) simp
qed

lemma rx_ready_index: "rx_ready message_id slots i \<Longrightarrow> i < G2G_RX_SLOTS \<and> i < length slots"
  by (auto simp: rx_ready_def find_Some_iff)

lemma rx_slot_for_new:
  assumes "rx_ready message_id slots i"
  shows "rx_slot_for message_id slots =
    (i, slots[i := rx_slot_empty \<lparr> rx_in_use := True, rx_message_id := message_id \<rparr>])"
proof -
  have "find (\<lambda>j. rx_in_use (slots ! j) \<and> rx_message_id (slots ! j) = message_id) [0..<G2G_RX_SLOTS] = None"
    using assms by (auto simp: find_None_iff rx_ready_def)
  then show ?thesis using assms by (simp add: rx_slot_for_def rx_ready_def)
qed

lemma rx_slot_for_known:
  assumes "rx_ready message_id slots i"
  shows "rx_slot_for message_id (slots[i := rx_partial message_id b m D])
    = (i, slots[i := rx_partial message_id b m D])"
proof -
  let ?s = "slots[i := rx_partial message_id b m D]"
  have "find (\<lambda>j. rx_in_use (?s ! j) \<and> rx_message_id (?s ! j) = message_id) [0..<G2G_RX_SLOTS] = Some i"
  proof (rule find_upt_unique)
    fix j assume "j < G2G_RX_SLOTS" and "rx_in_use (?s ! j) \<and> rx_message_id (?s ! j) = message_id"
    then show "j = i" using assms by (cases "j = i") (auto simp: rx_ready_def)
  qed (use rx_ready_index[OF assms] in \<open>simp_all add: rx_partial_def\<close>)
  then show ?thesis by (simp add: rx_slot_for_def)
qed

definition rx_state :: "rx_slot list \<Rightarrow> nat \<Rightarrow> bytes \<Rightarrow> bytes \<Rightarrow> u32 \<Rightarrow> nat set \<Rightarrow> rx_slot list" where
  "rx_state slots i message_id b m D = (if D = {} then slots else slots[i := rx_partial message_id b m D])"

definition rx_fix :: "nat \<Rightarrow> nat \<Rightarrow> rx_slot \<Rightarrow> rx_slot" where
  "rx_fix len n slot =
     (if rx_total_len slot = 0 then slot \<lparr> rx_total_len := len, rx_frag_count := n \<rparr> else slot)"

lemma rx_slot_for_state:
  assumes "rx_ready message_id slots i" and "mask_of m D" and "b \<noteq> []"
  shows "\<exists>x. rx_slot_for message_id (rx_state slots i message_id b m D) = (i, slots[i := x]) \<and>
    rx_fix (length b) (g2g_count b) x = rx_partial message_id b m D"
proof (cases "D = {}")
  case True
  have "m = 0" using assms(2) mask_of_unique[of m "{}" 0 "{}"] True by (simp add: mask_of_def)
  then have "rx_fix (length b) (g2g_count b) (rx_slot_empty \<lparr> rx_in_use := True, rx_message_id := message_id \<rparr>)
      = rx_partial message_id b m D"
    using True by (simp add: rx_fix_def rx_slot_empty_def rx_partial_def partial_bytes_empty)
  then show ?thesis using rx_slot_for_new[OF assms(1)] True by (auto simp: rx_state_def)
next
  case False
  have "rx_fix (length b) (g2g_count b) (rx_partial message_id b m D) = rx_partial message_id b m D"
    using assms(3) by (simp add: rx_fix_def rx_partial_def)
  then show ?thesis using rx_slot_for_known[OF assms(1)] False by (auto simp: rx_state_def)
qed

lemma g2g_store_step:
  assumes "b \<noteq> []" and "length b \<le> G2G_ACTION_PILL_MAX_LEN" and "length message_id = G2G_MESSAGE_ID_LEN"
    and "rx_ready message_id slots i" and "mask_of m D" and "k < g2g_count b" and "k \<notin> D"
    and "g2_slots g = rx_state slots i message_id b m D"
  shows "g2g_store sha256 beyond handler (g2g_header_of (g2g_frame_bytes b message_id k)) (g2g_chunk b k) g =
    (if insert k D = {0..<g2g_count b}
     then handle_received_action_pill_bytes sha256 beyond handler b message_id (g \<lparr> g2_slots := slots \<rparr>)
     else (ESP_OK, g \<lparr> g2_slots := slots[i := rx_partial message_id b (m OR push_bit k 1) (insert k D)] \<rparr>))"
proof -
  obtain x where x: "rx_slot_for message_id (g2_slots g) = (i, slots[i := x])"
    "rx_fix (length b) (g2g_count b) x = rx_partial message_id b m D"
    using rx_slot_for_state[OF assms(4,5,1)] assms(8) by metis
  have i: "i < length slots" "slots[i := rx_slot_empty] = slots"
    using rx_ready_index[OF assms(4)] assms(4) by (auto simp: rx_ready_def list_update_same_conv)
  have n: "g2g_count b \<le> 32" "k * 174 < length b" "k < 32"
    using g2g_count_bounds(2)[OF assms(1,2)] g2g_count_bounds(3)[OF assms(1,2), of k] assms(6) by linarith+
  have mask: "m AND push_bit k 1 = 0" using mask_of_test[OF assms(5) n(3)] assms(7) by simp
  have fin: "m OR push_bit k 1 = complete_mask (g2g_count b) \<longleftrightarrow> insert k D = {0..<g2g_count b}"
    by (rule mask_of_unique[OF mask_of_insert[OF assms(5) n(3)] complete_mask_bits[OF n(1)]])
  have upd: "take (k * 174) (partial_bytes b D) @ g2g_chunk b k
      @ drop (k * 174 + length (g2g_chunk b k)) (partial_bytes b D) = partial_bytes b (insert k D)"
    by (rule partial_bytes_insert[OF assms(2) n(2)])
  have all: "take (length b) (partial_bytes b {0..<g2g_count b}) = b"
    by (rule partial_bytes_all[OF assms(1,2)])
  show ?thesis
    unfolding g2g_store_def g2g_frame_header(1)[OF assms(1,2,6,3)]
    using x i mask fin upd all
    by (auto simp: rx_fix_def[symmetric] rx_partial_def Let_def)
qed

abbreviation rx_step ::
  "(bytes \<Rightarrow> bytes option) \<Rightarrow> (nat \<Rightarrow> u8) \<Rightarrow> 'w pill_handler option \<Rightarrow> bytes \<Rightarrow> 'w g2g \<Rightarrow> esp_err \<times> 'w g2g" where
  "rx_step sha256 beyond handler \<equiv> handle_received_fragment sha256 beyond handler"

lemma g2g_run_fragments:
  assumes "b \<noteq> []" and "length b \<le> G2G_ACTION_PILL_MAX_LEN" and "length message_id = G2G_MESSAGE_ID_LEN"
    and "rx_ready message_id slots i" and "\<not> g2g_seen message_id (g2_seen g)"
    and "handle_received_action_pill_bytes sha256 beyond handler b message_id (g \<lparr> g2_slots := slots \<rparr>) = (r, g')"
  shows "mask_of m D \<Longrightarrow> distinct ks \<Longrightarrow> set ks \<inter> D = {} \<Longrightarrow> D \<union> set ks = {0..<g2g_count b} \<Longrightarrow> ks \<noteq> [] \<Longrightarrow>
    run (rx_step sha256 beyond handler) (map (g2g_frame_bytes b message_id) ks)
      (g \<lparr> g2_slots := rx_state slots i message_id b m D \<rparr>) = (replicate (length ks - 1) ESP_OK @ [r], g')"
proof (induction ks arbitrary: D m)
  case Nil
  then show ?case by simp
next
  case (Cons k ks)
  let ?g = "g \<lparr> g2_slots := rx_state slots i message_id b m D \<rparr>"
  have k: "k < g2g_count b" "k \<notin> D" "k \<notin> set ks" using Cons.prems by auto
  have step: "rx_step sha256 beyond handler (g2g_frame_bytes b message_id k) ?g =
    (if insert k D = {0..<g2g_count b} then (r, g')
     else (ESP_OK, g \<lparr> g2_slots := slots[i := rx_partial message_id b (m OR push_bit k 1) (insert k D)] \<rparr>))"
    using handle_own_frame[OF assms(1,2) k(1) assms(3), of sha256 beyond handler ?g]
      g2g_store_step[OF assms(1-4) Cons.prems(1) k(1,2), of ?g sha256 beyond handler] assms(5,6) by simp
  show ?case
  proof (cases ks)
    case Nil
    then have "insert k D = {0..<g2g_count b}" using Cons.prems by auto
    then show ?thesis using step Nil by (simp add: run_Cons_simp del: run.simps(2))
  next
    case (Cons k' ks')
    have ne: "insert k D \<noteq> {0..<g2g_count b}" using Cons.prems k(3) local.Cons by auto
    have "k < 32" using k(1) g2g_count_bounds(2)[OF assms(1,2)] by linarith
    then have "mask_of (m OR push_bit k 1) (insert k D)" using Cons.prems(1) by (rule mask_of_insert[rotated])
    moreover have "distinct ks" "set ks \<inter> insert k D = {}" "insert k D \<union> set ks = {0..<g2g_count b}" "ks \<noteq> []"
      using Cons.prems k(3) local.Cons by auto
    ultimately have "run (rx_step sha256 beyond handler) (map (g2g_frame_bytes b message_id) ks)
        (g \<lparr> g2_slots := slots[i := rx_partial message_id b (m OR push_bit k 1) (insert k D)] \<rparr>)
        = (replicate (length ks - 1) ESP_OK @ [r], g')"
      using Cons.IH[of "m OR push_bit k 1" "insert k D"] unfolding rx_state_def
      by (simp only: insert_not_empty if_False simp_thms)
    with ne show ?thesis using step local.Cons
      by (simp add: run_Cons_simp del: run.simps(2) handle_received_fragment_def)
  qed
qed

text \<open>What a sender hands to the radio when every fragment is accepted.\<close>

definition g2g_frames :: "bytes \<Rightarrow> bytes \<Rightarrow> bytes list" where
  "g2g_frames b message_id = map (g2g_frame_bytes b message_id) [0..<g2g_count b]"

abbreviation radio_log :: "bytes \<Rightarrow> bytes list \<Rightarrow> esp_err \<times> bytes list" where
  "radio_log f w \<equiv> (ESP_OK, w @ [f])"

lemma g2g_send_loop_log:
  assumes "b \<noteq> []" and "length b \<le> G2G_ACTION_PILL_MAX_LEN" and "set is \<subseteq> {0..<g2g_count b}"
  shows "g2g_send_loop radio_log b message_id (g2g_count b) is w
    = (ESP_OK, w @ map (g2g_frame_bytes b message_id) is)"
  using assms(3) by (induction "is" arbitrary: w) (simp_all add: g2g_frame_eq[OF assms(1,2)])

lemma send_bytes_log:
  assumes "b \<noteq> []" and "length b \<le> G2G_ACTION_PILL_MAX_LEN"
  shows "send_action_pill_bytes radio_log b message_id g =
    (ESP_OK, g \<lparr> g2_world := g2_world g @ g2g_frames b message_id, g2_seen := add_seen message_id (g2_seen g) \<rparr>)"
  using assms g2g_count_bounds(1,2)[OF assms] g2g_send_loop_log[OF assms, of "[0..<g2g_count b]" message_id "g2_world g"]
  by (simp add: send_action_pill_bytes_def g2g_frames_def Let_def)

lemma add_seen_seen:
  assumes "sc_next c < G2G_SEEN_CACHE_SIZE" and "length (sc_entries c) = G2G_SEEN_CACHE_SIZE"
    and "sc_count c \<le> G2G_SEEN_CACHE_SIZE" and "sc_count c < G2G_SEEN_CACHE_SIZE \<longrightarrow> sc_next c = sc_count c"
  shows "g2g_seen message_id (add_seen message_id c)"
proof -
  let ?l = "take (sc_count (add_seen message_id c)) (sc_entries (add_seen message_id c))"
  have "sc_next c < length ?l" "?l ! sc_next c = message_id" using assms by (auto simp: add_seen_def)
  then have "message_id \<in> set ?l" by (metis nth_mem)
  then show ?thesis by (simp only: g2g_seen_def list_ex_iff) blast
qed

subsection \<open>The invariant of the receiver\<close>

definition seen_wf :: "seen_cache \<Rightarrow> bool" where
  "seen_wf c \<longleftrightarrow> length (sc_entries c) = G2G_SEEN_CACHE_SIZE \<and> sc_next c < G2G_SEEN_CACHE_SIZE \<and>
     sc_count c \<le> G2G_SEEN_CACHE_SIZE \<and> (sc_count c < G2G_SEEN_CACHE_SIZE \<longrightarrow> sc_next c = sc_count c)"

definition rx_slot_wf :: "rx_slot \<Rightarrow> bool" where
  "rx_slot_wf s \<longleftrightarrow> length (rx_bytes s) = G2G_ACTION_PILL_MAX_LEN \<and>
     length (rx_message_id s) = G2G_MESSAGE_ID_LEN \<and> rx_total_len s \<le> G2G_ACTION_PILL_MAX_LEN \<and>
     rx_frag_count s \<le> WIRE_FRAGMENT_MAX_COUNT \<and> (\<not> rx_in_use s \<longrightarrow> s = rx_slot_empty)"

definition g2g_wf :: "'w g2g \<Rightarrow> bool" where
  "g2g_wf g \<longleftrightarrow> seen_wf (g2_seen g) \<and> length (g2_slots g) = G2G_RX_SLOTS \<and> (\<forall>s\<in>set (g2_slots g). rx_slot_wf s)"

lemma seen_wf_add: "seen_wf c \<Longrightarrow> seen_wf (add_seen message_id c)"
  by (auto simp: seen_wf_def add_seen_def)

lemma rx_slot_wf_empty: "rx_slot_wf rx_slot_empty"
  by (simp add: rx_slot_wf_def rx_slot_empty_def)

lemma g2g_wf_update: "g2g_wf g \<Longrightarrow> slots = (g2_slots g)[i := s] \<Longrightarrow> rx_slot_wf s \<Longrightarrow> g2g_wf (g \<lparr> g2_slots := slots \<rparr>)"
  by (auto simp: g2g_wf_def dest!: set_update_subset_insert[THEN subsetD])

lemma rx_slot_for_wf:
  assumes "g2g_wf g" and "length message_id = G2G_MESSAGE_ID_LEN"
    and "rx_slot_for message_id (g2_slots g) = (i, slots)"
  shows "g2g_wf (g \<lparr> g2_slots := slots \<rparr>)" "i < length slots" "rx_slot_wf (slots ! i)" "rx_in_use (slots ! i)"
proof -
  let ?n = "rx_slot_empty \<lparr> rx_in_use := True, rx_message_id := message_id \<rparr>"
  have l: "length (g2_slots g) = 4" using assms(1) by (simp add: g2g_wf_def)
  have n: "rx_slot_wf ?n" using assms(2) by (simp add: rx_slot_wf_def rx_slot_empty_def)
  have "i < 4 \<and> (slots = g2_slots g \<and> rx_in_use (slots ! i) \<or> slots = (g2_slots g)[i := ?n])"
    using assms(3) by (auto simp: rx_slot_for_def find_Some_iff Let_def split: option.splits)
  then have i: "i < 4" and sl: "slots = g2_slots g \<and> rx_in_use (slots ! i) \<or> slots = (g2_slots g)[i := ?n]" by blast+
  then show w: "g2g_wf (g \<lparr> g2_slots := slots \<rparr>)" using assms(1) g2g_wf_update[OF assms(1) _ n, of slots i] by auto
  show il: "i < length slots" using i sl l by auto
  show "rx_slot_wf (slots ! i)" using w il by (simp add: g2g_wf_def)
  show "rx_in_use (slots ! i)" using sl il by auto
qed

definition handler_ok :: "'w pill_handler option \<Rightarrow> bool" where
  "handler_ok handler \<longleftrightarrow> (\<forall>h pill g. handler = Some h \<longrightarrow> g2g_wf g \<longrightarrow> g2g_wf (snd (h pill g)))"

lemma handle_pill_wf:
  assumes "handler_ok handler" and "g2g_wf g"
  shows "g2g_wf (snd (handle_received_action_pill_bytes sha256 beyond handler b message_id g))"
proof -
  have "g2g_wf (g \<lparr> g2_seen := add_seen message_id (g2_seen g) \<rparr>)"
    using assms(2) seen_wf_add by (simp add: g2g_wf_def)
  then show ?thesis using assms
    by (auto simp: handle_received_action_pill_bytes_def Let_def g2g_seen_or_add_def handler_ok_def
        split: prod.splits option.splits)
qed

lemma g2g_store_wf:
  assumes "handler_ok handler" and "g2g_wf g" and "length (gh_message_id h) = G2G_MESSAGE_ID_LEN"
    and "g2g_bounds_ok h (WIRE_HEADER_LEN + length payload)"
  shows "g2g_wf (snd (g2g_store sha256 beyond handler h payload g))"
proof -
  obtain i slots where r: "rx_slot_for (gh_message_id h) (g2_slots g) = (i, slots)" by (metis prod.collapse)
  note w = rx_slot_for_wf[OF assms(2,3) r]
  have upd: "g2g_wf (g \<lparr> g2_slots := slots[i := s] \<rparr>)" if "rx_slot_wf s" for s
    using g2g_wf_update[OF w(1) _ that, of "slots[i := s]" i] by simp
  have b: "gh_total_len h \<le> 768" "gh_frag_count h \<le> 32" "gh_payload_len h = length payload"
    "gh_frag_offset h + length payload \<le> gh_total_len h"
    using assms(4) by (auto simp: g2g_bounds_ok_def)
  define s where "s = rx_fix (gh_total_len h) (gh_frag_count h) (slots ! i)"
  have s: "rx_slot_wf s" using w(3,4) b(1,2) by (simp add: s_def rx_fix_def rx_slot_wf_def)
  have s': "rx_slot_wf (s \<lparr> rx_bytes := take (gh_frag_offset h) (rx_bytes s) @ payload
      @ drop (gh_frag_offset h + gh_payload_len h) (rx_bytes s), rx_received_mask := m \<rparr>)" for m
    using s b w(4) by (simp add: rx_slot_wf_def s_def rx_fix_def)
  show ?thesis
    using upd[OF rx_slot_wf_empty] upd[OF s] upd[OF s'] handle_pill_wf[OF assms(1) upd[OF rx_slot_wf_empty]]
    by (simp add: g2g_store_def r rx_fix_def[symmetric] s_def[symmetric] Let_def)
qed

lemma handle_fragment_wf:
  assumes "handler_ok handler" and "g2g_wf g"
  shows "g2g_wf (snd (handle_received_fragment sha256 beyond handler bytes g))"
proof -
  have "g2g_wf (snd (g2g_store sha256 beyond handler (g2g_header_of bytes) (drop WIRE_HEADER_LEN bytes) g))"
    if "WIRE_HEADER_LEN \<le> length bytes" "g2g_bounds_ok (g2g_header_of bytes) (length bytes)"
    using that by (intro g2g_store_wf[OF assms]) (simp_all add: g2g_header_of_def)
  then show ?thesis using assms(2) by (auto simp: handle_received_fragment_def Let_def)
qed

lemma inner_id_length:
  assumes "sha_total sha256" and "compute_inner_id sha256 beyond pill = (ESP_OK, message_id)"
  shows "length message_id = G2G_MESSAGE_ID_LEN"
proof -
  obtain d where "sha256 (capsule_signed_canonical (ap_capsule pill) @ [cpl_signature_len (ap_capsule pill)]
      @ capsule_signature_read beyond (ap_capsule pill)) = Some d" "length d = 32"
    using assms(1) unfolding sha_total_def by blast
  then show ?thesis using assms(2)
    by (simp add: compute_inner_id_def compute_capsule_digest_def capsule_pill_compute_digest_def)
qed

lemma g2g_pill_received:
  assumes "sha_total sha256" and "capsule_fits (ap_capsule pill)" and "substance_fits (ap_active pill)"
    and "unat (cpl_signature_len (ap_capsule pill)) \<le> CAPSULE_PILL_SIGNATURE_MAX_LEN"
    and "compute_inner_id sha256 beyond pill = (ESP_OK, message_id)"
    and "rx_ready message_id (g2_slots g) i" and "\<not> g2g_seen message_id (g2_seen g)"
    and "distinct ks" and "set ks = {0..<g2g_count (action_pill_bytes pill)}"
    and "h pill (g \<lparr> g2_seen := add_seen message_id (g2_seen g) \<rparr>) = (r, g')"
  shows "run (rx_step sha256 beyond' (Some h)) (map (g2g_frame_bytes (action_pill_bytes pill) message_id) ks) g
    = (replicate (length ks - 1) ESP_OK @ [r], g')"
proof -
  let ?b = "action_pill_bytes pill"
  note rt = action_pill_round_trip[OF assms(2,3)]
  have b: "?b \<noteq> []" "length ?b \<le> G2G_ACTION_PILL_MAX_LEN" using rt(2) by auto
  have sig: "unat (cpl_signature_len (ap_capsule pill)) \<le> length (cpl_signature (ap_capsule pill))"
    using assms(2,4) by (simp add: capsule_fits_def)
  have same: "compute_inner_id sha256 beyond' pill = (ESP_OK, message_id)"
    using assms(5) by (simp add: compute_inner_id_def compute_capsule_digest_def capsule_pill_compute_digest_def
        signature_read_in_bounds[OF sig])
  note len = inner_id_length[OF assms(1,5)]
  have "handle_received_action_pill_bytes sha256 beyond' (Some h) ?b message_id (g \<lparr> g2_slots := g2_slots g \<rparr>) = (r, g')"
    using rt same assms(7,10) by (simp add: handle_received_action_pill_bytes_def g2g_seen_or_add_def)
  note run = g2g_run_fragments[OF b len assms(6,7) this, of 0 "{}" ks]
  have "ks \<noteq> []" using g2g_count_bounds(1)[OF b] assms(9) by auto
  then show ?thesis using run assms(8,9) by (auto simp: mask_of_def rx_state_def)
qed

subsection \<open>Properties\<close>

text \<open>C4: A pill crosses the radio.  The frames a guardian hands to the radio for a pill, received by
  another guardian in any order, with a free slot there and the message not seen before, give no
  error; nothing reaches the handler before the last frame, and with it the handler is called once,
  with exactly the pill that was sent, after its id was recorded.\<close>

theorem g2g_fragments_round_trip:
  assumes "sha_total sha256" and "capsule_fits (ap_capsule pill)" and "substance_fits (ap_active pill)"
    and "unat (cpl_signature_len (ap_capsule pill)) \<le> CAPSULE_PILL_SIGNATURE_MAX_LEN"
    and "g2_world s = []" and "send_action_pill sha256 beyond radio_log pill s = (ESP_OK, s')"
    and "compute_inner_id sha256 beyond pill = (ESP_OK, message_id)"
    and "rx_ready message_id (g2_slots g) i" and "\<not> g2g_seen message_id (g2_seen g)"
    and "distinct ks" and "set ks = {0..<length (g2_world s')}"
    and "h pill (g \<lparr> g2_seen := add_seen message_id (g2_seen g) \<rparr>) = (r, g')"
  shows "run (rx_step sha256 beyond' (Some h)) (map (\<lambda>k. g2_world s' ! k) ks) g
    = (replicate (length ks - 1) ESP_OK @ [r], g')"
proof -
  let ?b = "action_pill_bytes pill"
  have b: "?b \<noteq> []" "length ?b \<le> G2G_ACTION_PILL_MAX_LEN" using action_pill_round_trip(2)[OF assms(2,3)] by auto
  have w: "g2_world s' = g2g_frames ?b message_id"
    using assms(5,6,7) send_bytes_log[OF b] by (auto simp: send_action_pill_def)
  have ks: "map (\<lambda>k. g2_world s' ! k) ks = map (g2g_frame_bytes ?b message_id) ks"
    using assms(11) by (auto simp: w g2g_frames_def)
  have "set ks = {0..<g2g_count ?b}" using assms(11) by (simp add: w g2g_frames_def)
  from g2g_pill_received[OF assms(1-4,7-10) this, where h = h] assms(12) show ?thesis unfolding ks by simp
qed

text \<open>C5: Fragments cannot break the receiver.  Whatever bytes arrive, of any length and content and in
  any order, the receiver keeps four slots with buffers of 768 bytes, lengths and fragment counts
  within their limits and cleared unused slots, and the cache of message ids keeps its shape, so no
  slice taken from a buffer is out of range; provided the handler keeps this too.\<close>

theorem g2g_receiver_invariant:
  assumes "handler_ok handler" and "g2g_wf g"
  shows "g2g_wf (snd (run (rx_step sha256 beyond handler) fragments g))"
proof -
  have "module_invariant g2g_wf (\<lambda>_. True) (rx_step sha256 beyond handler)"
    by unfold_locales (rule handle_fragment_wf[OF assms(1)])
  from module_invariant.run_inv[OF this assms(2), of fragments] show ?thesis by (simp add: list_all_iff)
qed

text \<open>A relayed pill does not come back in.  Once a guardian has sent a pill, every frame of that
  pill that it hears again is refused and changes nothing.\<close>

theorem g2g_own_message_refused:
  assumes "seen_wf (g2_seen g)" and "b \<noteq> []" and "length b \<le> G2G_ACTION_PILL_MAX_LEN"
    and "length message_id = G2G_MESSAGE_ID_LEN" and "f \<in> set (g2g_frames b message_id)"
    and "send_action_pill_bytes send_fragment b message_id g = (ESP_OK, g')"
  shows "handle_received_fragment sha256 beyond handler f g' = (ESP_ERR_INVALID_STATE, g')"
proof -
  obtain k where k: "f = g2g_frame_bytes b message_id k" "k < g2g_count b"
    using assms(5) by (auto simp: g2g_frames_def)
  have "\<exists>w. g' = g \<lparr> g2_world := w, g2_seen := add_seen message_id (g2_seen g) \<rparr>"
    using assms(6) by (auto simp: send_action_pill_bytes_def Let_def split: if_splits prod.splits)
  moreover have "g2g_seen message_id (add_seen message_id (g2_seen g))"
    using assms(1) by (intro add_seen_seen) (simp_all add: seen_wf_def)
  ultimately show ?thesis using handle_own_frame[OF assms(2,3) k(2) assms(4), of sha256 beyond handler g'] k(1) by auto
qed

text \<open>A receiver with everything empty, and a handler that only notes the pill.\<close>

definition g2g_fresh :: "action_pill list g2g" where
  "g2g_fresh = \<lparr> g2_seen = seen_cache_empty, g2_slots = replicate G2G_RX_SLOTS rx_slot_empty, g2_world = [] \<rparr>"

definition note_pill :: "action_pill list pill_handler" where
  "note_pill pill g = (ESP_OK, g \<lparr> g2_world := g2_world g @ [pill] \<rparr>)"

definition pill_sample :: action_pill where
  "pill_sample = \<lparr> ap_capsule = capsule_sample, ap_active = substance_sample \<rparr>"

lemma g2g_fresh_facts:
  "rx_ready message_id (g2_slots g2g_fresh) 0" "\<not> g2g_seen message_id (g2_seen g2g_fresh)" "g2g_wf g2g_fresh"
  "handler_ok (Some note_pill)"
  by (auto simp: rx_ready_def g2g_fresh_def rx_slot_empty_def upt_rec g2g_seen_def seen_cache_empty_def g2g_wf_def
      seen_wf_def rx_slot_wf_def handler_ok_def note_pill_def)

theorem g2g_receiver_invariant_witness:
  "g2g_wf (snd (run (rx_step sha_toy (\<lambda>_. 0) (Some note_pill)) [[1, 2, 3], replicate 300 255] g2g_fresh))"
  by (rule g2g_receiver_invariant[OF g2g_fresh_facts(4,3)])

theorem g2g_own_message_refused_witness:
  "handle_received_fragment sha_toy (\<lambda>_. 0) None (g2g_frame_bytes [7, 8] (replicate 32 5) 0)
     (snd (send_action_pill_bytes radio_log [7, 8] (replicate 32 5)
       \<lparr> g2_seen = seen_cache_empty, g2_slots = replicate 4 rx_slot_empty, g2_world = [] \<rparr>))
   = (ESP_ERR_INVALID_STATE, snd (send_action_pill_bytes radio_log [7, 8] (replicate 32 5)
       \<lparr> g2_seen = seen_cache_empty, g2_slots = replicate 4 rx_slot_empty, g2_world = [] \<rparr>))"
proof -
  let ?g = "\<lparr> g2_seen = seen_cache_empty, g2_slots = replicate 4 rx_slot_empty, g2_world = [] \<rparr>"
  have b: "[7, 8 :: u8] \<noteq> []" "length [7, 8 :: u8] \<le> G2G_ACTION_PILL_MAX_LEN" by simp_all
  have "g2g_frame_bytes [7, 8] (replicate 32 5) 0 \<in> set (g2g_frames [7, 8] (replicate 32 5))"
    by (simp add: g2g_frames_def div_ceil_def)
  moreover have "seen_wf (g2_seen ?g)" by (simp add: seen_wf_def seen_cache_empty_def)
  moreover have "send_action_pill_bytes radio_log [7, 8] (replicate 32 5) ?g =
      (ESP_OK, snd (send_action_pill_bytes radio_log [7, 8] (replicate 32 5) ?g))"
    by (simp add: send_bytes_log[OF b])
  ultimately show ?thesis by (intro g2g_own_message_refused[OF _ b]) simp_all
qed

theorem g2g_fragments_round_trip_witness:
  "\<exists>id s'. send_action_pill sha_toy (\<lambda>_. 0) radio_log pill_sample
       \<lparr> g2_seen = seen_cache_empty, g2_slots = replicate 4 rx_slot_empty, g2_world = [] \<rparr> = (ESP_OK, s') \<and>
     run (rx_step sha_toy (\<lambda>_. 1) (Some note_pill)) (map (\<lambda>k. g2_world s' ! k) [2, 0, 1]) g2g_fresh
       = ([ESP_OK, ESP_OK, ESP_OK], g2g_fresh \<lparr> g2_seen := add_seen id seen_cache_empty, g2_world := [pill_sample] \<rparr>)"
proof -
  let ?s = "\<lparr> g2_seen = seen_cache_empty, g2_slots = replicate 4 rx_slot_empty, g2_world = [] \<rparr>"
  have fits: "capsule_fits (ap_capsule pill_sample)" "substance_fits (ap_active pill_sample)"
    using capsule_sample_fits substance_sample_ok(1) by (simp_all add: pill_sample_def)
  note len = action_pill_round_trip(2)[OF fits]
  have b: "action_pill_bytes pill_sample \<noteq> []" "length (action_pill_bytes pill_sample) \<le> G2G_ACTION_PILL_MAX_LEN"
    using len by auto
  obtain id where id: "compute_inner_id sha_toy (\<lambda>_. 0) pill_sample = (ESP_OK, id)"
    by (simp add: compute_inner_id_def compute_capsule_digest_def capsule_pill_compute_digest_def sha_toy_def)
  obtain s' where s': "send_action_pill sha_toy (\<lambda>_. 0) radio_log pill_sample ?s = (ESP_OK, s')"
    "g2_world s' = g2g_frames (action_pill_bytes pill_sample) id"
    using send_bytes_log[OF b, of id ?s] id by (auto simp: send_action_pill_def)
  have n: "length (g2_world s') = 3" using len by (simp add: s'(2) g2g_frames_def div_ceil_def)
  have ks: "set [2, 0, 1] = {0..<length (g2_world s')}" "distinct [2 :: nat, 0, 1]"
    unfolding n by auto
  have sg: "unat (cpl_signature_len (ap_capsule pill_sample)) \<le> CAPSULE_PILL_SIGNATURE_MAX_LEN"
    by (simp add: pill_sample_def capsule_sample_def)
  have "run (rx_step sha_toy (\<lambda>_. 1) (Some note_pill)) (map (\<lambda>k. g2_world s' ! k) [2, 0, 1]) g2g_fresh
      = (replicate (length [2 :: nat, 0, 1] - 1) ESP_OK @ [ESP_OK],
         g2g_fresh \<lparr> g2_seen := add_seen id seen_cache_empty, g2_world := [pill_sample] \<rparr>)"
    by (rule g2g_fragments_round_trip[OF sha_toy_total fits sg _ s'(1) id g2g_fresh_facts(1,2) ks(2,1)])
      (simp_all add: note_pill_def g2g_fresh_def)
  then show ?thesis using s'(1) by (intro exI conjI) (auto simp: numeral_eq_Suc)
qed

end
