(* ===== verification/G2g_Ble.thy ===== *)
theory G2g_Ble
  imports Cortex_G2g
begin

text \<open>
  The radio link between guardians (\<open>g2g_ble.c\<close>): discovery of peers, the transmit task with its
  retries, the receive path, the callbacks of the Bluetooth host and the start and stop of the module.

  NimBLE and FreeRTOS are parameters: a record of the calls the module makes, over an abstract world
  \<open>'w\<close>.  A queue or a semaphore is a handle.  The transmit task blocks in delays and in the wait for
  the connection, and meanwhile the callbacks of the host task change the state of the module;
  \<open>env\<close> stands for everything the rest of the system does during one such wait.  The handler of
  received fragments may call back into the module; \<open>on_fragment\<close> stands for it.  Log output is left out.
\<close>

abbreviation G2G_BLE_FRAGMENT_MAX_LEN :: nat where "G2G_BLE_FRAGMENT_MAX_LEN \<equiv> 220"
abbreviation G2G_BLE_MAX_PEERS :: nat where "G2G_BLE_MAX_PEERS \<equiv> 8"
abbreviation G2G_BLE_TX_QUEUE_LEN :: nat where "G2G_BLE_TX_QUEUE_LEN \<equiv> 4"
abbreviation G2G_TX_BATCH_MAX :: nat where "G2G_TX_BATCH_MAX \<equiv> 4"
abbreviation G2G_RX_QUEUE_LEN :: nat where "G2G_RX_QUEUE_LEN \<equiv> 4"
abbreviation G2G_TX_RETRY_MAX :: nat where "G2G_TX_RETRY_MAX \<equiv> 5"
abbreviation G2G_CONN_TIMEOUT_MS :: u32 where "G2G_CONN_TIMEOUT_MS \<equiv> 3000"
abbreviation G2G_RESUME_DELAY_MS :: u32 where "G2G_RESUME_DELAY_MS \<equiv> 350"
abbreviation G2G_RESUME_RETRY_MS :: u32 where "G2G_RESUME_RETRY_MS \<equiv> 250"
abbreviation G2G_TX_IDLE_WAIT_MS :: u32 where "G2G_TX_IDLE_WAIT_MS \<equiv> 1500"

text \<open>Constants of NimBLE.\<close>

abbreviation BLE_HS_EALREADY :: int where "BLE_HS_EALREADY \<equiv> 2"
abbreviation BLE_HS_EDONE :: int where "BLE_HS_EDONE \<equiv> 14"
abbreviation BLE_HS_EBUSY :: int where "BLE_HS_EBUSY \<equiv> 15"
abbreviation BLE_HS_CONN_HANDLE_NONE :: u16 where "BLE_HS_CONN_HANDLE_NONE \<equiv> 0xFFFF"
abbreviation BLE_ATT_ERR_INVALID_ATTR_VALUE_LEN :: int where "BLE_ATT_ERR_INVALID_ATTR_VALUE_LEN \<equiv> 0x0d"
abbreviation BLE_ATT_ERR_UNLIKELY :: int where "BLE_ATT_ERR_UNLIKELY \<equiv> 0x0e"

definition G2G_SERVICE_UUID :: bytes where
  "G2G_SERVICE_UUID = [0x42, 0x4e, 0x47, 0x32, 0x47, 0x2d, 0x41, 0x50, 0x2d, 0x54, 0x52, 0x41, 0x4e, 0x53, 0x50, 0x01]"

definition G2G_RX_UUID :: bytes where
  "G2G_RX_UUID = [0x42, 0x4e, 0x47, 0x32, 0x47, 0x2d, 0x52, 0x58, 0x2d, 0x46, 0x52, 0x41, 0x47, 0x4d, 0x45, 0x01]"

subsection \<open>Data\<close>

record ble_addr =
  ba_type :: u8
  ba_val :: bytes

text \<open>The pair \<open>has_exclude_addr\<close>, \<open>exclude_addr\<close> is an option, and so are the other addresses that
  come with a flag.\<close>

record g2g_fragment =
  gf_len :: u16
  gf_exclude_addr :: "ble_addr option"
  gf_bytes :: bytes

record g2g_peer =
  gp_in_use :: bool
  gp_addr :: ble_addr

record g2g_tx_ctx =
  tx_active :: bool
  tx_ok :: bool
  tx_conn_handle :: u16
  tx_chr_handle :: u16

record g2g_ble_config =
  gbc_guardian_id :: u32
  gbc_zone_id :: u32
  gbc_on_fragment :: bool

record g2g_ble_stats =
  gbs_discovered_peers :: u64
  gbs_queued_fragments :: u64
  gbs_tx_fragments :: u64
  gbs_tx_errors :: u64
  gbs_rx_fragments :: u64
  gbs_rx_errors :: u64

record g2g_ble =
  gb_config :: g2g_ble_config
  gb_stats :: g2g_ble_stats
  gb_running :: bool
  gb_synced :: bool
  gb_advertising :: bool
  gb_scanning :: bool
  gb_rx_active :: bool
  gb_resume_pending :: bool
  gb_resume_at :: u32
  gb_rx_conn_handle :: u16
  gb_rx_peer_addr :: "ble_addr option"
  gb_callback_exclude_addr :: "ble_addr option"
  gb_own_addr_type :: u8
  gb_peers :: "g2g_peer list"
  gb_tx_queue :: "nat option"
  gb_rx_queue :: "nat option"
  gb_tx_done :: "nat option"
  gb_tx :: g2g_tx_ctx

type_synonym 'w ble = "g2g_ble \<times> 'w"

definition ble_addr_zero :: ble_addr where
  "ble_addr_zero = \<lparr> ba_type = 0, ba_val = replicate 6 0 \<rparr>"

definition g2g_peer_zero :: g2g_peer where
  "g2g_peer_zero = \<lparr> gp_in_use = False, gp_addr = ble_addr_zero \<rparr>"

definition g2g_tx_zero :: g2g_tx_ctx where
  "g2g_tx_zero = \<lparr> tx_active = False, tx_ok = False, tx_conn_handle = 0, tx_chr_handle = 0 \<rparr>"

definition g2g_ble_stats_zero :: g2g_ble_stats where
  "g2g_ble_stats_zero = \<lparr> gbs_discovered_peers = 0, gbs_queued_fragments = 0, gbs_tx_fragments = 0,
     gbs_tx_errors = 0, gbs_rx_fragments = 0, gbs_rx_errors = 0 \<rparr>"

record 'w ble_api =
  bl_queue_create :: "nat \<Rightarrow> 'w \<Rightarrow> nat option \<times> 'w"
  bl_queue_delete :: "nat \<Rightarrow> 'w \<Rightarrow> 'w"
  bl_queue_send :: "nat \<Rightarrow> g2g_fragment \<Rightarrow> 'w \<Rightarrow> bool \<times> 'w"
  bl_queue_receive :: "nat \<Rightarrow> 'w \<Rightarrow> g2g_fragment option \<times> 'w"
  bl_sem_create :: "'w \<Rightarrow> nat option \<times> 'w"
  bl_sem_delete :: "nat \<Rightarrow> 'w \<Rightarrow> 'w"
  bl_sem_give :: "nat \<Rightarrow> 'w \<Rightarrow> 'w"
  bl_sem_take :: "nat \<Rightarrow> 'w \<Rightarrow> bool \<times> 'w"
  bl_ticks :: "'w \<Rightarrow> u32"
  bl_ms_to_ticks :: "u32 \<Rightarrow> u32"
  bl_task_create :: "string \<Rightarrow> 'w \<Rightarrow> bool \<times> 'w"
  bl_adv_parse_uuids :: "bytes \<Rightarrow> bytes list option"
  bl_adv_set_fields :: "bytes \<Rightarrow> 'w \<Rightarrow> int \<times> 'w"
  bl_adv_start :: "u8 \<Rightarrow> 'w \<Rightarrow> int \<times> 'w"
  bl_adv_stop :: "'w \<Rightarrow> int \<times> 'w"
  bl_disc :: "u8 \<Rightarrow> 'w \<Rightarrow> int \<times> 'w"
  bl_disc_cancel :: "'w \<Rightarrow> int \<times> 'w"
  bl_connect :: "u8 \<Rightarrow> ble_addr \<Rightarrow> 'w \<Rightarrow> int \<times> 'w"
  bl_conn_cancel :: "'w \<Rightarrow> int \<times> 'w"
  bl_conn_find :: "u16 \<Rightarrow> 'w \<Rightarrow> ble_addr option"
  bl_terminate :: "u16 \<Rightarrow> 'w \<Rightarrow> int \<times> 'w"
  bl_exchange_mtu :: "u16 \<Rightarrow> 'w \<Rightarrow> int \<times> 'w"
  bl_disc_svc :: "u16 \<Rightarrow> bytes \<Rightarrow> 'w \<Rightarrow> int \<times> 'w"
  bl_disc_chrs :: "u16 \<Rightarrow> u16 \<Rightarrow> u16 \<Rightarrow> bytes \<Rightarrow> 'w \<Rightarrow> int \<times> 'w"
  bl_write :: "u16 \<Rightarrow> u16 \<Rightarrow> bytes \<Rightarrow> 'w \<Rightarrow> int \<times> 'w"
  bl_ensure_addr :: "'w \<Rightarrow> int \<times> 'w"
  bl_infer_auto :: "'w \<Rightarrow> (int \<times> u8) \<times> 'w"
  bl_port_init :: "'w \<Rightarrow> esp_err \<times> 'w"
  bl_port_deinit :: "'w \<Rightarrow> 'w"
  bl_port_stop :: "'w \<Rightarrow> 'w"
  bl_register_services :: "'w \<Rightarrow> int \<times> 'w"

subsection \<open>Peers\<close>

definition gap_busy :: "int \<Rightarrow> bool" where
  "gap_busy rc \<longleftrightarrow> rc = BLE_HS_EALREADY \<or> rc = BLE_HS_EBUSY"

definition gap_already :: "int \<Rightarrow> bool" where
  "gap_already rc \<longleftrightarrow> rc = BLE_HS_EALREADY"

definition addr_equal :: "ble_addr \<Rightarrow> ble_addr \<Rightarrow> bool" where
  "addr_equal a b \<longleftrightarrow> ba_type a = ba_type b \<and> ba_val a = ba_val b"

definition batch_excludes_peer :: "g2g_fragment list \<Rightarrow> ble_addr \<Rightarrow> bool" where
  "batch_excludes_peer fragments addr =
     (if fragments = [] then False
      else list_all (\<lambda>f. case gf_exclude_addr f of None \<Rightarrow> False | Some a \<Rightarrow> addr_equal a addr) fragments)"

definition adv_has_service :: "'w ble_api \<Rightarrow> bytes \<Rightarrow> bool" where
  "adv_has_service api data =
     (if data = [] then False
      else (case bl_adv_parse_uuids api data of
          None \<Rightarrow> False
        | Some uuids \<Rightarrow> list_ex (\<lambda>u. u = G2G_SERVICE_UUID) uuids))"

definition remember_peer :: "ble_addr \<Rightarrow> g2g_ble \<Rightarrow> g2g_ble" where
  "remember_peer addr g =
     (if list_ex (\<lambda>p. gp_in_use p \<and> addr_equal (gp_addr p) addr) (gb_peers g) then g
      else (case find_index (\<lambda>p. \<not> gp_in_use p) (gb_peers g) of
          None \<Rightarrow> g
        | Some i \<Rightarrow> g \<lparr> gb_peers := (gb_peers g)[i := \<lparr> gp_in_use = True, gp_addr = addr \<rparr>],
            gb_stats := (gb_stats g) \<lparr> gbs_discovered_peers := gbs_discovered_peers (gb_stats g) + 1 \<rparr> \<rparr>))"

subsection \<open>Presence\<close>

definition start_advertising :: "'w ble_api \<Rightarrow> 'w ble \<Rightarrow> esp_err \<times> 'w ble" where
  "start_advertising api s =
     (case s of (g, w) \<Rightarrow>
        if \<not> gb_synced g \<or> gb_advertising g then (ESP_OK, g, w)
        else (case bl_adv_set_fields api G2G_SERVICE_UUID w of
            (rc, w) \<Rightarrow>
              if rc \<noteq> 0
              then if gap_busy rc then (ESP_OK, g \<lparr> gb_advertising := True \<rparr>, w) else (ESP_FAIL, g, w)
              else (case bl_adv_start api (gb_own_addr_type g) w of
                  (rc, w) \<Rightarrow>
                    if rc \<noteq> 0 \<and> \<not> gap_already rc
                    then (if rc = BLE_HS_EBUSY then ESP_ERR_INVALID_STATE else ESP_FAIL, g, w)
                    else (ESP_OK, g \<lparr> gb_advertising := True \<rparr>, w))))"

definition start_scanning :: "'w ble_api \<Rightarrow> 'w ble \<Rightarrow> esp_err \<times> 'w ble" where
  "start_scanning api s =
     (case s of (g, w) \<Rightarrow>
        if \<not> gb_synced g \<or> gb_scanning g then (ESP_OK, g, w)
        else (case bl_disc api (gb_own_addr_type g) w of
            (rc, w) \<Rightarrow>
              if rc \<noteq> 0 \<and> \<not> gap_already rc
              then (if rc = BLE_HS_EBUSY then ESP_ERR_INVALID_STATE else ESP_FAIL, g, w)
              else (ESP_OK, g \<lparr> gb_scanning := True \<rparr>, w)))"

definition stop_scanning :: "'w ble_api \<Rightarrow> 'w ble \<Rightarrow> 'w ble" where
  "stop_scanning api s =
     (case s of (g, w) \<Rightarrow>
        if gb_scanning g then (g \<lparr> gb_scanning := False \<rparr>, snd (bl_disc_cancel api w)) else (g, w))"

definition stop_advertising :: "'w ble_api \<Rightarrow> 'w ble \<Rightarrow> 'w ble" where
  "stop_advertising api s =
     (case s of (g, w) \<Rightarrow>
        if gb_advertising g then (g \<lparr> gb_advertising := False \<rparr>, snd (bl_adv_stop api w)) else (g, w))"

definition schedule_presence_resume :: "'w ble_api \<Rightarrow> u32 \<Rightarrow> 'w ble \<Rightarrow> 'w ble" where
  "schedule_presence_resume api delay_ms s =
     (case s of (g, w) \<Rightarrow>
        if \<not> gb_running g then (g, w)
        else (g \<lparr> gb_resume_pending := True, gb_resume_at := bl_ticks api w + bl_ms_to_ticks api delay_ms \<rparr>, w))"

definition resume_presence_now :: "'w ble_api \<Rightarrow> 'w ble \<Rightarrow> esp_err \<times> 'w ble" where
  "resume_presence_now api s =
     (let g = fst s in
      if \<not> gb_running g \<or> \<not> gb_synced g \<or> tx_active (gb_tx g) \<or> gb_rx_active g
      then (ESP_ERR_INVALID_STATE, schedule_presence_resume api G2G_RESUME_RETRY_MS s)
      else (case start_advertising api s of
          (adv_err, s) \<Rightarrow>
            (case start_scanning api s of
               (scan_err, s) \<Rightarrow>
                 if adv_err \<noteq> ESP_OK \<or> scan_err \<noteq> ESP_OK
                 then (ESP_ERR_INVALID_STATE, schedule_presence_resume api G2G_RESUME_RETRY_MS s)
                 else (ESP_OK, s))))"

definition maybe_resume_presence :: "'w ble_api \<Rightarrow> 'w ble \<Rightarrow> 'w ble" where
  "maybe_resume_presence api s =
     (case s of (g, w) \<Rightarrow>
        if \<not> gb_resume_pending g then (g, w)
        else if sint (bl_ticks api w - gb_resume_at g) < 0 then (g, w)
        else snd (resume_presence_now api (g \<lparr> gb_resume_pending := False \<rparr>, w)))"

subsection \<open>Callbacks of a transmission\<close>

definition tx_complete :: "'w ble_api \<Rightarrow> bool \<Rightarrow> 'w ble \<Rightarrow> 'w ble" where
  "tx_complete api ok s =
     (case s of (g, w) \<Rightarrow>
        (g \<lparr> gb_tx := (gb_tx g) \<lparr> tx_ok := ok \<rparr> \<rparr>,
         case gb_tx_done g of None \<Rightarrow> w | Some h \<Rightarrow> bl_sem_give api h w))"

text \<open>The status of the \<open>ble_gatt_error\<close> argument, \<open>None\<close> when it is \<open>NULL\<close>; the value handle of the
  characteristic, \<open>None\<close> when there is none.\<close>

definition chr_disc_cb :: "'w ble_api \<Rightarrow> int option \<Rightarrow> u16 option \<Rightarrow> 'w ble \<Rightarrow> 'w ble" where
  "chr_disc_cb api error chr s =
     (case error of
        None \<Rightarrow> tx_complete api False s
      | Some status \<Rightarrow>
          if status = 0 \<and> chr \<noteq> None
          then tx_complete api True (case s of (g, w) \<Rightarrow> (g \<lparr> gb_tx := (gb_tx g) \<lparr> tx_chr_handle := the chr \<rparr> \<rparr>, w))
          else if status = BLE_HS_EDONE \<and> tx_chr_handle (gb_tx (fst s)) = 0 then tx_complete api False s
          else s)"

text \<open>The service is its pair of handles.\<close>

definition svc_disc_cb :: "'w ble_api \<Rightarrow> u16 \<Rightarrow> int option \<Rightarrow> (u16 \<times> u16) option \<Rightarrow> 'w ble \<Rightarrow> 'w ble" where
  "svc_disc_cb api conn_handle error service s =
     (case error of
        None \<Rightarrow> tx_complete api False s
      | Some status \<Rightarrow>
          if status = 0 \<and> service \<noteq> None
          then (case bl_disc_chrs api conn_handle (fst (the service)) (snd (the service)) G2G_RX_UUID (snd s) of
                  (rc, w) \<Rightarrow> if rc \<noteq> 0 then tx_complete api False (fst s, w) else (fst s, w))
          else if status = BLE_HS_EDONE then tx_complete api False s
          else s)"

definition mtu_cb :: "'w ble_api \<Rightarrow> u16 \<Rightarrow> 'w ble \<Rightarrow> 'w ble" where
  "mtu_cb api conn_handle s =
     (case bl_disc_svc api conn_handle G2G_SERVICE_UUID (snd s) of
        (rc, w) \<Rightarrow> if rc \<noteq> 0 then tx_complete api False (fst s, w) else (fst s, w))"

subsection \<open>Transmission\<close>

text \<open>The wait for a reception to end; the result is \<open>None\<close> when the loop does not end.\<close>

partial_function (option) rx_idle_wait ::
  "('w \<Rightarrow> u32) \<Rightarrow> u32 \<Rightarrow> ('w ble \<Rightarrow> 'w ble) \<Rightarrow> u32 \<Rightarrow> 'w ble \<Rightarrow> ('w ble) option" where
  "rx_idle_wait ticks idle_wait env wait_start s =
     (if gb_running (fst s) \<and> gb_rx_active (fst s)
      then if ticks (snd s) - wait_start > idle_wait then Some s
           else rx_idle_wait ticks idle_wait env wait_start (env s)
      else Some s)"

partial_function (option) sem_drain :: "('w \<Rightarrow> bool \<times> 'w) \<Rightarrow> 'w \<Rightarrow> 'w option" where
  "sem_drain sem_take w = (case sem_take w of (taken, w) \<Rightarrow> if taken then sem_drain sem_take w else Some w)"

definition write_batch_step ::
  "'w ble_api \<Rightarrow> ('w ble \<Rightarrow> 'w ble) \<Rightarrow> g2g_fragment \<Rightarrow> 'w ble \<Rightarrow> bool \<times> 'w ble" where
  "write_batch_step api env f s =
     (case s of (g, w) \<Rightarrow>
        (case bl_write api (tx_conn_handle (gb_tx g)) (tx_chr_handle (gb_tx g)) (take (unat (gf_len f)) (gf_bytes f)) w of
           (rc, w) \<Rightarrow> (rc = 0, env (g, w))))"

fun write_batch ::
  "'w ble_api \<Rightarrow> ('w ble \<Rightarrow> 'w ble) \<Rightarrow> g2g_fragment list \<Rightarrow> bool \<Rightarrow> 'w ble \<Rightarrow> bool \<times> 'w ble" where
  "write_batch api env [] ok s = (ok, s)"
| "write_batch api env (f # fs) ok s =
     (if \<not> ok then (ok, s)
      else (case write_batch_step api env f s of (ok, s) \<Rightarrow> write_batch api env fs ok s))"

text \<open>One attempt from the start of the connection on; \<open>h\<close> is the semaphore.\<close>

definition try_connect ::
  "'w ble_api \<Rightarrow> ('w ble \<Rightarrow> 'w ble) \<Rightarrow> nat \<Rightarrow> ble_addr \<Rightarrow> g2g_fragment list \<Rightarrow> 'w ble \<Rightarrow> bool \<times> 'w ble" where
  "try_connect api env h addr fragments s =
     (case s of (g, w) \<Rightarrow>
        (case bl_connect api (gb_own_addr_type g) addr w of
           (rc, w) \<Rightarrow>
             if rc \<noteq> 0
             then (False, env (schedule_presence_resume api G2G_RESUME_RETRY_MS
                    (g \<lparr> gb_tx := (gb_tx g) \<lparr> tx_active := False \<rparr> \<rparr>, w)))
             else (case env (g, w) of
               (g, w) \<Rightarrow>
                 (case bl_sem_take api h w of
                    (is_done, w) \<Rightarrow>
                      (let ok = (is_done \<and> tx_ok (gb_tx g) \<and> tx_conn_handle (gb_tx g) \<noteq> BLE_HS_CONN_HANDLE_NONE
                                 \<and> tx_chr_handle (gb_tx g) \<noteq> 0);
                           w = (if \<not> is_done then snd (bl_conn_cancel api w) else w);
                           s = (if ok then env (g, w) else (g, w));
                           (ok, g, w) = write_batch api env fragments ok s;
                           w = (if tx_conn_handle (gb_tx g) \<noteq> BLE_HS_CONN_HANDLE_NONE
                                then snd (bl_terminate api (tx_conn_handle (gb_tx g)) w) else w);
                           s = schedule_presence_resume api G2G_RESUME_DELAY_MS
                                 (g \<lparr> gb_tx := (gb_tx g) \<lparr> tx_active := False \<rparr> \<rparr>, w)
                       in if ok then (True, s) else (False, env s))))))"

text \<open>\<open>tries\<close> attempts are left.\<close>

fun send_attempts ::
  "'w ble_api \<Rightarrow> ('w ble \<Rightarrow> 'w ble) \<Rightarrow> nat \<Rightarrow> ble_addr \<Rightarrow> g2g_fragment list \<Rightarrow> nat \<Rightarrow> 'w ble \<Rightarrow> (bool \<times> 'w ble) option" where
  "send_attempts api env h addr fragments 0 s = Some (False, s)"
| "send_attempts api env h addr fragments (Suc tries) s =
     (if \<not> gb_running (fst s) then Some (False, s)
      else (let waited_for_rx = (gb_running (fst s) \<and> gb_rx_active (fst s)) in
        case rx_idle_wait (bl_ticks api) (bl_ms_to_ticks api G2G_TX_IDLE_WAIT_MS) env (bl_ticks api (snd s)) s of
          None \<Rightarrow> None
        | Some s \<Rightarrow>
            if gb_rx_active (fst s) then send_attempts api env h addr fragments tries (env s)
            else (let s = (if waited_for_rx then env s else s);
                      (g, w) = stop_scanning api (stop_advertising api s);
                      g = g \<lparr> gb_tx := g2g_tx_zero \<lparr> tx_active := True, tx_conn_handle := BLE_HS_CONN_HANDLE_NONE \<rparr> \<rparr>
                  in case sem_drain (bl_sem_take api h) w of
                       None \<Rightarrow> None
                     | Some w \<Rightarrow>
                         (case try_connect api env h addr fragments (g, w) of
                            (ok, s) \<Rightarrow> if ok then Some (True, s)
                                        else send_attempts api env h addr fragments tries s))))"

definition send_batch_to_peer ::
  "'w ble_api \<Rightarrow> ('w ble \<Rightarrow> 'w ble) \<Rightarrow> ble_addr \<Rightarrow> g2g_fragment list \<Rightarrow> 'w ble \<Rightarrow> (bool \<times> 'w ble) option" where
  "send_batch_to_peer api env addr fragments s =
     (if fragments = [] \<or> gb_tx_done (fst s) = None then Some (False, s)
      else send_attempts api env (the (gb_tx_done (fst s))) addr fragments G2G_TX_RETRY_MAX s)"

definition count_tx :: "bool \<Rightarrow> nat \<Rightarrow> g2g_ble \<Rightarrow> g2g_ble" where
  "count_tx sent n g = g \<lparr> gb_stats := (let st = gb_stats g in
     if sent then st \<lparr> gbs_tx_fragments := gbs_tx_fragments st + of_nat n \<rparr>
     else st \<lparr> gbs_tx_errors := gbs_tx_errors st + of_nat n \<rparr>) \<rparr>"

text \<open>The flags of a round over the peers: sent, attempted, skipped the origin.\<close>

record tx_flags =
  tf_sent :: bool
  tf_attempted :: bool
  tf_skipped_origin :: bool

text \<open>The loop over the peer slots \<open>i\<close>; each slot is read when the loop reaches it.\<close>

fun tx_peers ::
  "'w ble_api \<Rightarrow> ('w ble \<Rightarrow> 'w ble) \<Rightarrow> g2g_fragment list \<Rightarrow> nat list \<Rightarrow> tx_flags \<Rightarrow> 'w ble \<Rightarrow> (tx_flags \<times> 'w ble) option" where
  "tx_peers api env batch [] fl s = Some (fl, s)"
| "tx_peers api env batch (i # is) fl s =
     (let p = gb_peers (fst s) ! i in
      if \<not> gp_in_use p then tx_peers api env batch is fl s
      else if batch_excludes_peer batch (gp_addr p)
      then tx_peers api env batch is (fl \<lparr> tf_skipped_origin := True \<rparr>) s
      else (case send_batch_to_peer api env (gp_addr p) batch s of
          None \<Rightarrow> None
        | Some (ok, g, w) \<Rightarrow>
            tx_peers api env batch is (fl \<lparr> tf_attempted := True, tf_sent := tf_sent fl \<or> ok \<rparr>)
              (count_tx ok (length batch) g, w)))"

fun take_batch :: "'w ble_api \<Rightarrow> nat \<Rightarrow> nat \<Rightarrow> 'w \<Rightarrow> g2g_fragment list \<times> 'w" where
  "take_batch api q 0 w = ([], w)"
| "take_batch api q (Suc n) w =
     (case bl_queue_receive api q w of
        (None, w) \<Rightarrow> ([], w)
      | (Some f, w) \<Rightarrow> (case take_batch api q n w of (fs, w) \<Rightarrow> (f # fs, w)))"

text \<open>One iteration of the loop of the transmit task; \<open>False\<close> is the end of the loop.\<close>

definition tx_task ::
  "'w ble_api \<Rightarrow> ('w ble \<Rightarrow> 'w ble) \<Rightarrow> 'w ble \<Rightarrow> (bool \<times> 'w ble) option" where
  "tx_task api env s =
     (if \<not> gb_running (fst s) then Some (False, s)
      else (case maybe_resume_presence api s of
          (g, w) \<Rightarrow>
            (case bl_queue_receive api (the (gb_tx_queue g)) w of
               (None, w) \<Rightarrow> Some (True, env (g, w))
             | (Some f, w) \<Rightarrow>
                 (case env (g, w) of
                    (g, w) \<Rightarrow>
                      (case take_batch api (the (gb_tx_queue g)) (G2G_TX_BATCH_MAX - 1) w of
                         (fs, w) \<Rightarrow>
                           (case tx_peers api env (f # fs) [0..<G2G_BLE_MAX_PEERS]
                                   \<lparr> tf_sent = False, tf_attempted = False, tf_skipped_origin = False \<rparr> (g, w) of
                              None \<Rightarrow> None
                            | Some (fl, s) \<Rightarrow>
                                Some (True, if \<not> tf_sent fl \<and> (tf_attempted fl \<or> \<not> tf_skipped_origin fl)
                                            then schedule_presence_resume api G2G_RESUME_RETRY_MS s else s)))))))"

subsection \<open>Reception\<close>

definition inc_rx :: "g2g_ble \<Rightarrow> g2g_ble" where
  "inc_rx g = g \<lparr> gb_stats := (gb_stats g) \<lparr> gbs_rx_fragments := gbs_rx_fragments (gb_stats g) + 1 \<rparr> \<rparr>"

definition inc_rx_error :: "g2g_ble \<Rightarrow> g2g_ble" where
  "inc_rx_error g = g \<lparr> gb_stats := (gb_stats g) \<lparr> gbs_rx_errors := gbs_rx_errors (gb_stats g) + 1 \<rparr> \<rparr>"

text \<open>One iteration of the loop of the receive task; \<open>False\<close> is the end of the loop.\<close>

definition rx_task ::
  "'w ble_api \<Rightarrow> (bytes \<Rightarrow> 'w ble \<Rightarrow> 'w ble) \<Rightarrow> 'w ble \<Rightarrow> bool \<times> 'w ble" where
  "rx_task api on_fragment s =
     (case s of (g, w) \<Rightarrow>
        if \<not> gb_running g then (False, g, w)
        else (case bl_queue_receive api (the (gb_rx_queue g)) w of
            (None, w) \<Rightarrow> (True, g, w)
          | (Some f, w) \<Rightarrow>
              if gbc_on_fragment (gb_config g)
              then (case on_fragment (take (unat (gf_len f)) (gf_bytes f))
                          (g \<lparr> gb_callback_exclude_addr := gf_exclude_addr f \<rparr>, w) of
                      (g, w) \<Rightarrow> (True, g \<lparr> gb_callback_exclude_addr := None \<rparr>, w))
              else (True, g, w)))"

text \<open>An access to the characteristic: whether it is a write, the data of the buffer chain, and whether
  \<open>os_mbuf_copydata\<close> succeeds.\<close>

definition rx_access_cb :: "'w ble_api \<Rightarrow> bool \<Rightarrow> bytes \<Rightarrow> bool \<Rightarrow> 'w ble \<Rightarrow> int \<times> 'w ble" where
  "rx_access_cb api is_write om copy_ok s =
     (case s of (g, w) \<Rightarrow>
        if \<not> is_write then (BLE_ATT_ERR_UNLIKELY, g, w)
        else (let len = (of_nat (length om) :: u16) in
          if len = 0 \<or> unat len > G2G_BLE_FRAGMENT_MAX_LEN
          then (BLE_ATT_ERR_INVALID_ATTR_VALUE_LEN, inc_rx_error g, w)
          else (case gb_rx_queue g of
              None \<Rightarrow> (BLE_ATT_ERR_UNLIKELY, inc_rx_error g, w)
            | Some q \<Rightarrow>
                if \<not> copy_ok then (BLE_ATT_ERR_UNLIKELY, inc_rx_error g, w)
                else (let f = \<lparr> gf_len = len, gf_exclude_addr = gb_rx_peer_addr g,
                                gf_bytes = take (unat len) om @ replicate (G2G_BLE_FRAGMENT_MAX_LEN - unat len) 0 \<rparr>
                      in case bl_queue_send api q f w of
                           (sent, w) \<Rightarrow>
                             if \<not> sent then (BLE_ATT_ERR_UNLIKELY, inc_rx_error (inc_rx g), w)
                             else (0, inc_rx g, w)))))"

subsection \<open>Events of the host\<close>

datatype ble_gap_event =
    BLE_GAP_EVENT_DISC bytes ble_addr
  | BLE_GAP_EVENT_CONNECT int u16
  | BLE_GAP_EVENT_DISCONNECT u16
  | BLE_GAP_EVENT_ADV_COMPLETE
  | BLE_GAP_EVENT_DISC_COMPLETE
  | BLE_GAP_EVENT_OTHER

definition gap_connect :: "'w ble_api \<Rightarrow> int \<Rightarrow> u16 \<Rightarrow> 'w ble \<Rightarrow> 'w ble" where
  "gap_connect api status conn_handle s =
     (case s of (g, w) \<Rightarrow>
        if tx_active (gb_tx g)
        then if status = 0
             then (let g = g \<lparr> gb_advertising := False, gb_tx := (gb_tx g) \<lparr> tx_conn_handle := conn_handle \<rparr> \<rparr>
                   in case bl_exchange_mtu api conn_handle w of
                        (rc, w) \<Rightarrow> if rc \<noteq> 0 then mtu_cb api conn_handle (g, w) else (g, w))
             else schedule_presence_resume api G2G_RESUME_RETRY_MS (tx_complete api False (g, w))
        else if status = 0
        then stop_scanning api
               (g \<lparr> gb_advertising := False, gb_rx_active := True, gb_rx_conn_handle := conn_handle,
                    gb_rx_peer_addr := bl_conn_find api conn_handle w \<rparr>, w)
        else schedule_presence_resume api G2G_RESUME_RETRY_MS (g, w))"

definition gap_disconnect :: "'w ble_api \<Rightarrow> u16 \<Rightarrow> 'w ble \<Rightarrow> 'w ble" where
  "gap_disconnect api conn_handle s =
     (let s = (if tx_active (gb_tx (fst s)) \<and> tx_conn_handle (gb_tx (fst s)) = conn_handle
               then tx_complete api False
                      (case s of (g, w) \<Rightarrow> (g \<lparr> gb_tx := (gb_tx g) \<lparr> tx_conn_handle := BLE_HS_CONN_HANDLE_NONE \<rparr> \<rparr>, w))
               else s);
          (g, w) = s;
          g = (if gb_rx_active g \<and> gb_rx_conn_handle g = conn_handle
               then g \<lparr> gb_rx_active := False, gb_rx_conn_handle := BLE_HS_CONN_HANDLE_NONE, gb_rx_peer_addr := None \<rparr>
               else g)
      in schedule_presence_resume api G2G_RESUME_DELAY_MS (g \<lparr> gb_advertising := False \<rparr>, w))"

definition gap_event :: "'w ble_api \<Rightarrow> ble_gap_event \<Rightarrow> 'w ble \<Rightarrow> 'w ble" where
  "gap_event api ev s =
     (case s of (g, w) \<Rightarrow>
        (case ev of
           BLE_GAP_EVENT_DISC data addr \<Rightarrow> (if adv_has_service api data then remember_peer addr g else g, w)
         | BLE_GAP_EVENT_CONNECT status conn_handle \<Rightarrow> gap_connect api status conn_handle s
         | BLE_GAP_EVENT_DISCONNECT conn_handle \<Rightarrow> gap_disconnect api conn_handle s
         | BLE_GAP_EVENT_ADV_COMPLETE \<Rightarrow>
             schedule_presence_resume api G2G_RESUME_DELAY_MS (g \<lparr> gb_advertising := False \<rparr>, w)
         | BLE_GAP_EVENT_DISC_COMPLETE \<Rightarrow>
             schedule_presence_resume api G2G_RESUME_DELAY_MS (g \<lparr> gb_scanning := False \<rparr>, w)
         | BLE_GAP_EVENT_OTHER \<Rightarrow> (g, w)))"

definition on_reset :: "g2g_ble \<Rightarrow> g2g_ble" where
  "on_reset g = g \<lparr> gb_synced := False \<rparr>"

definition on_sync :: "'w ble_api \<Rightarrow> 'w ble \<Rightarrow> 'w ble" where
  "on_sync api s =
     (case s of (g, w) \<Rightarrow>
        (case bl_ensure_addr api w of
           (rc, w) \<Rightarrow>
             if rc \<noteq> 0 then (g, w)
             else (case bl_infer_auto api w of
                 ((rc, own), w) \<Rightarrow>
                   (let g = g \<lparr> gb_own_addr_type := own \<rparr> in
                    if rc \<noteq> 0 then (g, w)
                    else schedule_presence_resume api 0 (g \<lparr> gb_synced := True \<rparr>, w)))))"

subsection \<open>Operations\<close>

definition ble_release :: "'w ble_api \<Rightarrow> 'w ble \<Rightarrow> 'w ble" where
  "ble_release api s =
     (case s of (g, w) \<Rightarrow>
        (let w = (case gb_tx_queue g of None \<Rightarrow> w | Some q \<Rightarrow> bl_queue_delete api q w);
             w = (case gb_rx_queue g of None \<Rightarrow> w | Some q \<Rightarrow> bl_queue_delete api q w);
             w = (case gb_tx_done g of None \<Rightarrow> w | Some h \<Rightarrow> bl_sem_delete api h w)
         in (g \<lparr> gb_tx_queue := None, gb_rx_queue := None, gb_tx_done := None \<rparr>, w)))"

fun create_tasks :: "'w ble_api \<Rightarrow> string list \<Rightarrow> 'w \<Rightarrow> bool \<times> 'w" where
  "create_tasks api [] w = (True, w)"
| "create_tasks api (name # names) w =
     (case bl_task_create api name w of (created, w) \<Rightarrow> if created then create_tasks api names w else (False, w))"

definition g2g_ble_start :: "'w ble_api \<Rightarrow> g2g_ble_config option \<Rightarrow> 'w ble \<Rightarrow> esp_err \<times> 'w ble" where
  "g2g_ble_start api config s =
     (case s of (g, w) \<Rightarrow>
        if gb_running g then (ESP_OK, g, w)
        else (let c = (case config of None \<Rightarrow> \<lparr> gbc_guardian_id = 0, gbc_zone_id = 0, gbc_on_fragment = False \<rparr> | Some c \<Rightarrow> c);
                  c = (if gbc_zone_id c = 0 then c \<lparr> gbc_zone_id := 1 \<rparr> else c);
                  g = g \<lparr> gb_config := c, gb_stats := g2g_ble_stats_zero,
                          gb_peers := replicate G2G_BLE_MAX_PEERS g2g_peer_zero, gb_tx := g2g_tx_zero,
                          gb_rx_active := False, gb_rx_conn_handle := BLE_HS_CONN_HANDLE_NONE, gb_rx_peer_addr := None,
                          gb_callback_exclude_addr := None, gb_resume_pending := False, gb_resume_at := 0 \<rparr>;
                  (tq, w) = bl_queue_create api G2G_BLE_TX_QUEUE_LEN w;
                  (rq, w) = bl_queue_create api G2G_RX_QUEUE_LEN w;
                  (sem, w) = bl_sem_create api w;
                  g = g \<lparr> gb_tx_queue := tq, gb_rx_queue := rq, gb_tx_done := sem \<rparr>
              in if tq = None \<or> rq = None \<or> sem = None then (ESP_ERR_NO_MEM, ble_release api (g, w))
                 else (case bl_port_init api w of
                   (err, w) \<Rightarrow>
                     if err \<noteq> ESP_OK then (err, g, w)
                     else (case bl_register_services api w of
                       (rc, w) \<Rightarrow>
                         if rc \<noteq> 0 then (ESP_FAIL, g, bl_port_deinit api w)
                         else (case create_tasks api [''g2g_ble_tx'', ''g2g_ble_rx'', ''nimble_host''] w of
                           (created, w) \<Rightarrow>
                             if \<not> created
                             then (ESP_ERR_NO_MEM, ble_release api (g \<lparr> gb_running := False \<rparr>, bl_port_deinit api w))
                             else (ESP_OK, g \<lparr> gb_running := True \<rparr>, w))))))"

definition g2g_ble_stop :: "'w ble_api \<Rightarrow> ('w ble \<Rightarrow> 'w ble) \<Rightarrow> 'w ble \<Rightarrow> esp_err \<times> 'w ble" where
  "g2g_ble_stop api env s =
     (case s of (g, w) \<Rightarrow>
        if \<not> gb_running g then (ESP_OK, g, w)
        else (let g = g \<lparr> gb_running := False, gb_resume_pending := False, gb_rx_active := False,
                          gb_rx_conn_handle := BLE_HS_CONN_HANDLE_NONE, gb_rx_peer_addr := None,
                          gb_callback_exclude_addr := None \<rparr>;
                  (g, w) = stop_advertising api (stop_scanning api (g, w));
                  w = (if tx_conn_handle (gb_tx g) \<noteq> BLE_HS_CONN_HANDLE_NONE
                       then snd (bl_terminate api (tx_conn_handle (gb_tx g)) w) else w)
              in (ESP_OK, ble_release api (env (g, bl_port_stop api w)))))"

definition g2g_ble_is_running :: "g2g_ble \<Rightarrow> bool" where
  "g2g_ble_is_running g = gb_running g"

definition g2g_ble_send_fragment :: "'w ble_api \<Rightarrow> bytes option \<Rightarrow> 'w ble \<Rightarrow> esp_err \<times> 'w ble" where
  "g2g_ble_send_fragment api data s =
     (case s of (g, w) \<Rightarrow>
        if \<not> gb_running g \<or> gb_tx_queue g = None then (ESP_ERR_INVALID_STATE, g, w)
        else if data = None \<or> the data = [] \<or> length (the data) > G2G_BLE_FRAGMENT_MAX_LEN then (ESP_ERR_INVALID_ARG, g, w)
        else (let b = the data;
                  f = \<lparr> gf_len = of_nat (length b), gf_exclude_addr = gb_callback_exclude_addr g,
                        gf_bytes = b @ replicate (G2G_BLE_FRAGMENT_MAX_LEN - length b) 0 \<rparr>
              in case bl_queue_send api (the (gb_tx_queue g)) f w of
                   (sent, w) \<Rightarrow>
                     if \<not> sent then (ESP_ERR_NO_MEM, g, w)
                     else (ESP_OK, g \<lparr> gb_stats := (gb_stats g)
                             \<lparr> gbs_queued_fragments := gbs_queued_fragments (gb_stats g) + 1 \<rparr> \<rparr>, w)))"

definition g2g_ble_get_stats :: "g2g_ble \<Rightarrow> g2g_ble_stats" where
  "g2g_ble_get_stats g = gb_stats g"

subsection \<open>Queues\<close>

text \<open>What FreeRTOS documents of its queues: \<open>items q\<close> reads the fragments waiting in queue \<open>q\<close>, \<open>cap q\<close>
  is its length.  A send without waiting appends unless the queue is full, a receive takes the oldest
  fragment, and neither touches another queue.\<close>

definition frag_queues :: "'w ble_api \<Rightarrow> (nat \<Rightarrow> 'w \<Rightarrow> g2g_fragment list) \<Rightarrow> (nat \<Rightarrow> nat) \<Rightarrow> bool" where
  "frag_queues api items cap \<longleftrightarrow>
     (\<forall>q f w. fst (bl_queue_send api q f w) = (length (items q w) < cap q) \<and>
        items q (snd (bl_queue_send api q f w)) = (if length (items q w) < cap q then items q w @ [f] else items q w) \<and>
        (\<forall>q'. q' \<noteq> q \<longrightarrow> items q' (snd (bl_queue_send api q f w)) = items q' w)) \<and>
     (\<forall>q w. (case bl_queue_receive api q w of
        (None, w') \<Rightarrow> items q w = [] \<and> items q w' = []
      | (Some f, w') \<Rightarrow> items q w = f # items q w') \<and>
        (\<forall>q'. q' \<noteq> q \<longrightarrow> items q' (snd (bl_queue_receive api q w)) = items q' w))"

lemmas frag_queues_sendD = frag_queues_def[THEN iffD1, THEN conjunct1, THEN spec, THEN spec, THEN spec]
lemmas frag_queues_receiveD = frag_queues_def[THEN iffD1, THEN conjunct2, THEN spec, THEN spec]

lemma frag_queues_send:
  assumes "frag_queues api items cap"
  obtains w' where "bl_queue_send api q f w = (length (items q w) < cap q, w')"
    "items q w' = (if length (items q w) < cap q then items q w @ [f] else items q w)"
proof (rule that[of "snd (bl_queue_send api q f w)"])
  note d = frag_queues_sendD[OF assms, of q f w]
  show "bl_queue_send api q f w = (length (items q w) < cap q, snd (bl_queue_send api q f w))"
    by (rule prod_eqI) (simp_all only: fst_conv snd_conv d[THEN conjunct1])
  show "items q (snd (bl_queue_send api q f w)) = (if length (items q w) < cap q then items q w @ [f] else items q w)"
    by (rule d[THEN conjunct2, THEN conjunct1])
qed

lemma frag_queues_receive:
  assumes "frag_queues api items cap" "items q w = f # fs"
  obtains w' where "bl_queue_receive api q w = (Some f, w')" "items q w' = fs"
proof -
  obtain r w' where r: "bl_queue_receive api q w = (r, w')" by (rule prod.exhaust)
  have "case r of None \<Rightarrow> items q w = [] \<and> items q w' = [] | Some f \<Rightarrow> items q w = f # items q w'"
    using frag_queues_receiveD[OF assms(1), of q w, THEN conjunct1] by (simp only: r prod.case)
  with assms(2) r show ?thesis by (cases r) (auto intro: that)
qed

text \<open>The fragment that carries a frame, tagged with the peer that must not get it back.\<close>

definition frame_fragment :: "ble_addr option \<Rightarrow> bytes \<Rightarrow> g2g_fragment" where
  "frame_fragment origin b = \<lparr> gf_len = of_nat (length b), gf_exclude_addr = origin,
     gf_bytes = b @ replicate (G2G_BLE_FRAGMENT_MAX_LEN - length b) 0 \<rparr>"

lemma frame_fragment_bytes:
  assumes "length b \<le> G2G_BLE_FRAGMENT_MAX_LEN"
  shows "take (unat (gf_len (frame_fragment origin b))) (gf_bytes (frame_fragment origin b)) = b"
proof -
  have "unat (of_nat (length b) :: u16) = length b" using assms by (simp add: unat_of_nat)
  then show ?thesis by (simp add: frame_fragment_def)
qed

lemma send_fragment_queue:
  assumes "gb_running g" "gb_tx_queue g = Some q" "b \<noteq> []" "length b \<le> G2G_BLE_FRAGMENT_MAX_LEN"
  shows "g2g_ble_send_fragment api (Some b) (g, w) =
    (case bl_queue_send api q (frame_fragment (gb_callback_exclude_addr g) b) w of
       (sent, w') \<Rightarrow> if sent then (ESP_OK, g \<lparr> gb_stats := (gb_stats g)
                        \<lparr> gbs_queued_fragments := gbs_queued_fragments (gb_stats g) + 1 \<rparr> \<rparr>, w')
                      else (ESP_ERR_NO_MEM, g, w'))"
  using assms by (auto simp: g2g_ble_send_fragment_def frame_fragment_def Let_def split: prod.splits)

subsection \<open>A pill on the transmit queue\<close>

abbreviation ble_send :: "'w ble_api \<Rightarrow> bytes \<Rightarrow> 'w ble \<Rightarrow> esp_err \<times> 'w ble" where
  "ble_send api b \<equiv> g2g_ble_send_fragment api (Some b)"

lemma frame_length:
  assumes "length message_id = G2G_MESSAGE_ID_LEN"
  shows "g2g_frame_bytes b message_id i \<noteq> []" "length (g2g_frame_bytes b message_id i) \<le> G2G_BLE_FRAGMENT_MAX_LEN"
  using assms by (simp_all add: g2g_frame_bytes_def g2g_chunk_def)

lemma send_loop_ble:
  assumes "frag_queues api items cap" "b \<noteq> []" "length b \<le> G2G_ACTION_PILL_MAX_LEN" "length message_id = G2G_MESSAGE_ID_LEN"
  shows "set ks \<subseteq> {0..<g2g_count b} \<Longrightarrow> gb_running g \<Longrightarrow> gb_tx_queue g = Some q \<Longrightarrow> gb_callback_exclude_addr g = origin \<Longrightarrow>
    length (items q w) \<le> cap q \<Longrightarrow>
    \<exists>g' w'. g2g_send_loop (ble_send api) b message_id (g2g_count b) ks (g, w) =
      (if length (items q w) + length ks \<le> cap q then ESP_OK else ESP_ERR_NO_MEM, g', w') \<and>
      items q w' = items q w @ map (frame_fragment origin \<circ> g2g_frame_bytes b message_id) (take (cap q - length (items q w)) ks)"
proof (induction ks arbitrary: g w)
  case Nil
  then show ?case by simp
next
  case (Cons i ks)
  let ?f = "g2g_frame_bytes b message_id i"
  have fr: "g2g_frame b message_id (g2g_count b) i = Inr ?f"
    using Cons.prems(1) by (intro g2g_frame_eq[OF assms(2,3)]) simp
  note send = send_fragment_queue[OF Cons.prems(2,3) frame_length[OF assms(4)], of api b i w]
  show ?case
  proof (cases "length (items q w) < cap q")
    case True
    obtain w' where
      w': "bl_queue_send api q (frame_fragment (gb_callback_exclude_addr g) ?f) w = (True, w')"
      "items q w' = items q w @ [frame_fragment (gb_callback_exclude_addr g) ?f]"
      using True frag_queues_send[OF assms(1), of q _ w] by auto
    let ?g = "g \<lparr> gb_stats := (gb_stats g) \<lparr> gbs_queued_fragments := gbs_queued_fragments (gb_stats g) + 1 \<rparr> \<rparr>"
    from True obtain k where k: "cap q - length (items q w) = Suc k" by (metis Suc_diff_Suc)
    then have k': "cap q - length (items q w') = k" using w'(2) by simp
    have "\<exists>g' w''. g2g_send_loop (ble_send api) b message_id (g2g_count b) ks (?g, w') =
        (if length (items q w') + length ks \<le> cap q then ESP_OK else ESP_ERR_NO_MEM, g', w'') \<and>
        items q w'' = items q w' @ map (frame_fragment origin \<circ> g2g_frame_bytes b message_id) (take (cap q - length (items q w')) ks)"
      using Cons.prems True w'(2) by (intro Cons.IH) simp_all
    then obtain g' w'' where ih: "g2g_send_loop (ble_send api) b message_id (g2g_count b) ks (?g, w') =
        (if length (items q w') + length ks \<le> cap q then ESP_OK else ESP_ERR_NO_MEM, g', w'')"
      "items q w'' = items q w' @ map (frame_fragment origin \<circ> g2g_frame_bytes b message_id) (take k ks)"
      unfolding k' by blast
    have "g2g_send_loop (ble_send api) b message_id (g2g_count b) (i # ks) (g, w) =
        g2g_send_loop (ble_send api) b message_id (g2g_count b) ks (?g, w')"
      using fr send w'(1) by simp
    moreover have "length (items q w') + length ks = length (items q w) + length (i # ks)" using w'(2) by simp
    moreover have "items q w'' = items q w @ map (frame_fragment origin \<circ> g2g_frame_bytes b message_id)
        (take (cap q - length (items q w)) (i # ks))"
      using ih(2) w'(2) k Cons.prems(4) by simp
    ultimately show ?thesis using ih(1) by (intro exI[of _ g'] exI[of _ w'']) simp
  next
    case False
    obtain w' where
      "bl_queue_send api q (frame_fragment (gb_callback_exclude_addr g) ?f) w = (False, w')" "items q w' = items q w"
      using False frag_queues_send[OF assms(1), of q _ w] by auto
    then show ?thesis using fr send False Cons.prems(5) by simp
  qed
qed

text \<open>A pill goes on the air whole only if there is room for it.  A pill makes three frames, each fits a
  fragment, and the transmit queue holds four.  With at most one fragment waiting, all three are queued
  in order behind it, each tagged with the peer whose fragment is being handled, and the send succeeds;
  with more waiting, the send fails and the frames that still fitted stay in the queue.\<close>

theorem ble_pill_queued:
  assumes "frag_queues api items cap" and "cap q = G2G_BLE_TX_QUEUE_LEN"
    and "sha_total sha256" and "capsule_fits (ap_capsule pill)" and "substance_fits (ap_active pill)"
    and "compute_inner_id sha256 beyond pill = (ESP_OK, message_id)"
    and "g2_world s = (g, w)" and "gb_running g" and "gb_tx_queue g = Some q"
    and "length (items q w) \<le> G2G_BLE_TX_QUEUE_LEN"
    and "send_action_pill sha256 beyond (ble_send api) pill s = (err, s')"
  shows "err = (if length (items q w) \<le> 1 then ESP_OK else ESP_ERR_NO_MEM) \<and>
    items q (snd (g2_world s')) = items q w @ take (G2G_BLE_TX_QUEUE_LEN - length (items q w))
      (map (frame_fragment (gb_callback_exclude_addr g)) (g2g_frames (action_pill_bytes pill) message_id))"
proof -
  let ?b = "action_pill_bytes pill"
  have l: "length ?b = ACTION_PILL_BYTES" by (rule action_pill_round_trip(2)[OF assms(4,5)])
  then have b: "?b \<noteq> []" "length ?b \<le> G2G_ACTION_PILL_MAX_LEN" "g2g_count ?b = 3" by (auto simp: div_ceil_def)
  obtain g' w' where loop: "g2g_send_loop (ble_send api) ?b message_id (g2g_count ?b) [0..<g2g_count ?b] (g, w) =
      (if length (items q w) + length [0..<g2g_count ?b] \<le> cap q then ESP_OK else ESP_ERR_NO_MEM, g', w')"
    "items q w' = items q w @ map (frame_fragment (gb_callback_exclude_addr g) \<circ> g2g_frame_bytes ?b message_id)
      (take (cap q - length (items q w)) [0..<g2g_count ?b])"
    using send_loop_ble[OF assms(1) b(1,2) inner_id_length[OF assms(3,6)], of "[0..<g2g_count ?b]" g q, OF _ assms(8,9) refl]
      assms(2,10) by fastforce
  have "err = (if length (items q w) \<le> 1 then ESP_OK else ESP_ERR_NO_MEM) \<and> g2_world s' = (g', w')"
    using assms(2,6,7,11) b loop(1)
    by (auto simp: send_action_pill_def send_action_pill_bytes_def Let_def split: if_splits)
  then show ?thesis using loop(2) assms(2) by (simp add: g2g_frames_def take_map)
qed

subsection \<open>A pill at the receiver\<close>

text \<open>The world of the receiver is its queues and the state of the G2G module; the queues are FIFO and
  the queue calls leave the G2G module alone.\<close>

definition rx_world :: "('x \<times> 'v) ble_api \<Rightarrow> (nat \<Rightarrow> 'x \<times> 'v \<Rightarrow> g2g_fragment list) \<Rightarrow> (nat \<Rightarrow> nat) \<Rightarrow> bool" where
  "rx_world api items cap \<longleftrightarrow> frag_queues api items cap \<and>
     (\<forall>q x v v'. items q (x, v) = items q (x, v')) \<and>
     (\<forall>q f w. snd (snd (bl_queue_send api q f w)) = snd w) \<and>
     (\<forall>q w. snd (snd (bl_queue_receive api q w)) = snd w)"

text \<open>The handler that \<open>g2g.rs\<close> registers.\<close>

definition deliver_fragment ::
  "(bytes \<Rightarrow> bytes option) \<Rightarrow> (nat \<Rightarrow> u8) \<Rightarrow> 'w pill_handler option \<Rightarrow> bytes \<Rightarrow> ('x \<times> 'w g2g) ble \<Rightarrow> ('x \<times> 'w g2g) ble" where
  "deliver_fragment sha256 beyond handler b s =
     (case s of (g, x, v) \<Rightarrow> (g, x, on_fragment_received sha256 beyond handler (Some b) v))"

abbreviation ble_writes :: "'w ble_api \<Rightarrow> bytes list \<Rightarrow> 'w ble \<Rightarrow> int list \<times> 'w ble" where
  "ble_writes api bs s \<equiv> run (\<lambda>b. rx_access_cb api True b True) bs s"

lemma rx_write_queue:
  assumes "rx_world api items cap" "b \<noteq> []" "length b \<le> G2G_BLE_FRAGMENT_MAX_LEN" "gb_rx_queue g = Some q"
    "length (items q w) < cap q"
  obtains w' where "rx_access_cb api True b True (g, w) = (0, inc_rx g, w')"
    "items q w' = items q w @ [frame_fragment (gb_rx_peer_addr g) b]" "snd w' = snd w"
proof -
  have fq: "frag_queues api items cap" using assms(1) by (simp add: rx_world_def)
  have u: "unat (of_nat (length b) :: u16) = length b" using assms(3) by (simp add: unat_of_nat)
  then have z: "(of_nat (length b) :: u16) \<noteq> 0" using assms(2) by auto
  obtain w' where w': "bl_queue_send api q (frame_fragment (gb_rx_peer_addr g) b) w = (True, w')"
    "items q w' = items q w @ [frame_fragment (gb_rx_peer_addr g) b]"
    using assms(5) frag_queues_send[OF fq, of q _ w] by auto
  have "snd w' = snd w" using assms(1) w'(1) unfolding rx_world_def by (metis snd_conv)
  moreover have "rx_access_cb api True b True (g, w) = (0, inc_rx g, w')"
    using w'(1) u z assms(3,4) by (simp add: rx_access_cb_def frame_fragment_def Let_def)
  ultimately show ?thesis using w'(2) that by blast
qed

lemma inc_rx_frame [simp]:
  "gb_rx_queue (inc_rx g) = gb_rx_queue g" "gb_rx_peer_addr (inc_rx g) = gb_rx_peer_addr g"
  "gb_running (inc_rx g) = gb_running g" "gb_config (inc_rx g) = gb_config g"
  by (simp_all add: inc_rx_def)

lemma rx_writes:
  assumes "rx_world api items cap"
  shows "list_all (\<lambda>b. b \<noteq> [] \<and> length b \<le> G2G_BLE_FRAGMENT_MAX_LEN) bs \<Longrightarrow> gb_rx_queue g = Some q \<Longrightarrow>
    length (items q w) + length bs \<le> cap q \<Longrightarrow>
    \<exists>g' w'. ble_writes api bs (g, w) = (replicate (length bs) 0, g', w') \<and>
      items q w' = items q w @ map (frame_fragment (gb_rx_peer_addr g)) bs \<and> snd w' = snd w \<and>
      gb_rx_queue g' = Some q \<and> gb_running g' = gb_running g \<and> gb_config g' = gb_config g"
proof (induction bs arbitrary: g w)
  case Nil
  then show ?case by simp
next
  case (Cons b bs)
  from Cons.prems obtain w1 where w1: "rx_access_cb api True b True (g, w) = (0, inc_rx g, w1)"
    "items q w1 = items q w @ [frame_fragment (gb_rx_peer_addr g) b]" "snd w1 = snd w"
    using rx_write_queue[OF assms, of b g q w] by auto
  have "\<exists>g' w'. ble_writes api bs (inc_rx g, w1) = (replicate (length bs) 0, g', w') \<and>
      items q w' = items q w1 @ map (frame_fragment (gb_rx_peer_addr (inc_rx g))) bs \<and> snd w' = snd w1 \<and>
      gb_rx_queue g' = Some q \<and> gb_running g' = gb_running (inc_rx g) \<and> gb_config g' = gb_config (inc_rx g)"
    using Cons.prems w1(2) by (intro Cons.IH) simp_all
  with w1 show ?case by (auto simp: run_Cons_simp simp del: run.simps(2))
qed

lemma rx_rounds:
  assumes "rx_world api items cap"
  shows "list_all (\<lambda>b. length b \<le> G2G_BLE_FRAGMENT_MAX_LEN) bs \<Longrightarrow> gb_rx_queue g = Some q \<Longrightarrow> gb_running g \<Longrightarrow>
    gbc_on_fragment (gb_config g) \<Longrightarrow> items q (x, v) = map (frame_fragment origin) bs \<Longrightarrow>
    \<exists>g' x'. ((\<lambda>s. snd (rx_task api (deliver_fragment sha256 beyond handler) s)) ^^ length bs) (g, x, v) =
      (g', x', snd (run (rx_step sha256 beyond handler) bs v)) \<and> items q (x', v) = []"
proof (induction bs arbitrary: g x v)
  case Nil
  then show ?case by simp
next
  case (Cons b bs)
  have fq: "frag_queues api items cap" using assms by (simp add: rx_world_def)
  obtain x1 v1 where w: "bl_queue_receive api q (x, v) = (Some (frame_fragment origin b), x1, v1)"
      "items q (x1, v1) = map (frame_fragment origin) bs"
    using frag_queues_receive[OF fq, of q "(x, v)" "frame_fragment origin b" "map (frame_fragment origin) bs"] Cons.prems(5)
    by (metis list.simps(9) surj_pair)
  have v1: "v1 = v" using assms w(1) unfolding rx_world_def by (metis snd_conv)
  let ?v = "snd (rx_step sha256 beyond handler b v)"
  let ?g = "g \<lparr> gb_callback_exclude_addr := None \<rparr>"
  have bytes: "take (unat (gf_len (frame_fragment origin b))) (gf_bytes (frame_fragment origin b)) = b"
    using Cons.prems(1) by (intro frame_fragment_bytes) simp
  have step: "snd (rx_task api (deliver_fragment sha256 beyond handler) (g, x, v)) = (?g, x1, ?v)"
    using Cons.prems(2-4) w(1) v1 bytes
    by (simp add: rx_task_def deliver_fragment_def on_fragment_received_def)
  have "items q (x1, ?v) = map (frame_fragment origin) bs"
    using assms w(2) unfolding rx_world_def by metis
  then obtain g' x' where "((\<lambda>s. snd (rx_task api (deliver_fragment sha256 beyond handler) s)) ^^ length bs) (?g, x1, ?v) =
      (g', x', snd (run (rx_step sha256 beyond handler) bs ?v))" "items q (x', ?v) = []"
    using Cons.IH[of ?g x1 ?v] Cons.prems by auto
  moreover have "items q (x', v) = items q (x', ?v)" using assms unfolding rx_world_def by metis
  ultimately show ?case using step
    by (auto simp: run_Cons_simp funpow_Suc_right simp del: run.simps(2) funpow.simps(2))
qed

text \<open>A pill arrives over the link.  When a connected peer writes the frames of a pill it was sent, in any
  order, to the characteristic of a guardian whose receive queue is empty, every write is accepted.  The
  receive task then takes as many rounds as there are frames to empty the queue, and the registered handler
  has been called once, with exactly that pill.\<close>

theorem ble_pill_delivered:
  assumes "rx_world api items cap" and "cap q = G2G_RX_QUEUE_LEN"
    and "sha_total sha256" and "capsule_fits (ap_capsule pill)" and "substance_fits (ap_active pill)"
    and "unat (cpl_signature_len (ap_capsule pill)) \<le> CAPSULE_PILL_SIGNATURE_MAX_LEN"
    and "compute_inner_id sha256 beyond pill = (ESP_OK, message_id)"
    and "rx_ready message_id (g2_slots v) i" and "\<not> g2g_seen message_id (g2_seen v)"
    and "h pill (v \<lparr> g2_seen := add_seen message_id (g2_seen v) \<rparr>) = (r, v')"
    and "gb_running g" and "gb_rx_queue g = Some q" and "gbc_on_fragment (gb_config g)" and "items q (x, v) = []"
    and "distinct ks" and "set ks = {0..<g2g_count (action_pill_bytes pill)}"
    and "ble_writes api (map (\<lambda>k. g2g_frames (action_pill_bytes pill) message_id ! k) ks) (g, x, v) = (codes, s)"
  shows "codes = replicate (length ks) 0 \<and>
    (\<exists>g' x'. ((\<lambda>s. snd (rx_task api (deliver_fragment sha256 beyond' (Some h)) s)) ^^ length ks) s = (g', x', v') \<and>
      items q (x', v') = [])"
proof -
  let ?b = "action_pill_bytes pill"
  let ?bs = "map (g2g_frame_bytes ?b message_id) ks"
  have "length ?b = ACTION_PILL_BYTES" by (rule action_pill_round_trip(2)[OF assms(4,5)])
  then have "g2g_count ?b = 3" by (simp add: div_ceil_def)
  then have l: "length ks = 3" using assms(15,16) distinct_card[of ks] by simp
  have bs: "map (\<lambda>k. g2g_frames ?b message_id ! k) ks = ?bs" using assms(16) by (auto simp: g2g_frames_def)
  note fits = frame_length[OF inner_id_length[OF assms(3,7)], of ?b]
  obtain g1 x1 v1 where w: "ble_writes api ?bs (g, x, v) = (replicate (length ?bs) 0, g1, x1, v1)"
      "items q (x1, v1) = map (frame_fragment (gb_rx_peer_addr g)) ?bs" "v1 = v"
      "gb_rx_queue g1 = Some q" "gb_running g1 = gb_running g" "gb_config g1 = gb_config g"
    using rx_writes[OF assms(1), of ?bs g q "(x, v)"] assms(2,12,14) fits l by (auto simp: list_all_iff)
  have "snd (run (rx_step sha256 beyond' (Some h)) ?bs v) = v'"
    using g2g_pill_received[OF assms(3-9,15,16), where h = h] assms(10) by simp
  with rx_rounds[OF assms(1), of ?bs g1 q x1 v "gb_rx_peer_addr g" sha256 beyond' "Some h"] w assms(11,13) fits
  obtain g' x' where r: "((\<lambda>s. snd (rx_task api (deliver_fragment sha256 beyond' (Some h)) s)) ^^ length ?bs) (g1, x1, v) = (g', x', v')"
      "items q (x', v) = []"
    by (auto simp: list_all_iff)
  have "items q (x', v') = []" using r(2) assms(1) unfolding rx_world_def by metis
  then show ?thesis using r(1) w(1,3) assms(17) by (auto simp: bs)
qed

subsection \<open>No echo to the origin\<close>

text \<open>The interface whose connections to one peer are answered by \<open>other\<close>.\<close>

definition with_connect_to :: "ble_addr \<Rightarrow> (u8 \<Rightarrow> 'w \<Rightarrow> int \<times> 'w) \<Rightarrow> 'w ble_api \<Rightarrow> 'w ble_api" where
  "with_connect_to origin other api =
     api \<lparr> bl_connect := \<lambda>own addr. if addr_equal origin addr then other own else bl_connect api own addr \<rparr>"

lemma with_connect_to_frame [simp]:
  "bl_ticks (with_connect_to origin other api) = bl_ticks api"
  "bl_ms_to_ticks (with_connect_to origin other api) = bl_ms_to_ticks api"
  "bl_sem_take (with_connect_to origin other api) = bl_sem_take api"
  "bl_conn_cancel (with_connect_to origin other api) = bl_conn_cancel api"
  "bl_terminate (with_connect_to origin other api) = bl_terminate api"
  "bl_write (with_connect_to origin other api) = bl_write api"
  "bl_disc_cancel (with_connect_to origin other api) = bl_disc_cancel api"
  "bl_adv_stop (with_connect_to origin other api) = bl_adv_stop api"
  "\<not> addr_equal origin addr \<Longrightarrow> bl_connect (with_connect_to origin other api) own addr = bl_connect api own addr"
  by (simp_all add: with_connect_to_def)

lemma write_batch_other_peer [simp]:
  "write_batch (with_connect_to origin other api) env fs ok s = write_batch api env fs ok s"
  by (induction fs arbitrary: ok s) (simp_all add: write_batch_step_def split: prod.split)

lemma schedule_other_peer [simp]:
  "schedule_presence_resume (with_connect_to origin other api) ms s = schedule_presence_resume api ms s"
  "stop_scanning (with_connect_to origin other api) s = stop_scanning api s"
  "stop_advertising (with_connect_to origin other api) s = stop_advertising api s"
  by (simp_all add: schedule_presence_resume_def stop_scanning_def stop_advertising_def split: prod.split)

lemma try_connect_other_peer:
  "\<not> addr_equal origin addr \<Longrightarrow>
    try_connect (with_connect_to origin other api) env h addr fs s = try_connect api env h addr fs s"
  by (simp add: try_connect_def cong: prod.case_cong if_cong)

lemma send_attempts_other_peer:
  "\<not> addr_equal origin addr \<Longrightarrow>
    send_attempts (with_connect_to origin other api) env h addr fs n s = send_attempts api env h addr fs n s"
  by (induction n arbitrary: s) (simp_all add: try_connect_other_peer cong: prod.case_cong option.case_cong if_cong)

lemma batch_excludes_origin:
  "batch \<noteq> [] \<Longrightarrow> list_all (\<lambda>f. gf_exclude_addr f = Some origin) batch \<Longrightarrow>
    batch_excludes_peer batch addr = addr_equal origin addr"
  by (cases batch) (auto simp: batch_excludes_peer_def list_all_iff)

text \<open>A relayed pill is not sent back.  A batch of fragments that all came from one peer is sent without
  ever connecting to that peer: the round over the peers comes out the same whatever a connection to it
  would do.\<close>

theorem ble_origin_not_contacted:
  assumes "batch \<noteq> []" and "list_all (\<lambda>f. gf_exclude_addr f = Some origin) batch"
  shows "tx_peers (with_connect_to origin other api) env batch slots fl s = tx_peers api env batch slots fl s"
proof (induction slots arbitrary: fl s)
  case Nil
  show ?case by simp
next
  case (Cons i slots)
  have send: "\<not> addr_equal origin addr \<Longrightarrow> send_batch_to_peer (with_connect_to origin other api) env addr batch s
      = send_batch_to_peer api env addr batch s" for addr
    by (simp add: send_batch_to_peer_def send_attempts_other_peer)
  show ?case
    by (simp only: tx_peers.simps Let_def batch_excludes_origin[OF assms] Cons.IH send simp_thms cong: if_cong)
qed

subsection \<open>The resume timer\<close>

lemma sint_diff_neg:
  fixes d e :: u32
  assumes "unat d < 2 ^ 31" "unat e < 2 ^ 31"
  shows "sint (e - d) < 0 \<longleftrightarrow> e < d"
proof -
  have p: "(2 :: int) ^ 32 = 2 * 2 ^ 31" by simp
  have i: "uint x < 2 ^ 31" if "unat x < 2 ^ 31" for x :: u32
    using that unfolding unat_eq_nat_uint by (simp only: nat_less_numeral_power_cancel_iff)
  have u: "0 \<le> uint d" "uint d < 2 ^ 31" "0 \<le> uint e" "uint e < 2 ^ 31"
    using i assms by simp_all
  have "sint (e - d) = (uint (e - d) + 2 ^ 31) mod 2 ^ 32 - 2 ^ 31"
    by (simp only: sint_uint signed_take_bit_eq_take_bit_shift take_bit_eq_mod) simp
  also have "uint (e - d) = (uint e - uint d) mod 2 ^ 32"
    by (simp only: uint_word_ariths) simp
  also have "((uint e - uint d) mod 2 ^ 32 + 2 ^ 31) mod 2 ^ 32 = (uint e - uint d + 2 ^ 31) mod 2 ^ 32"
    by (rule mod_add_left_eq)
  also have "\<dots> = uint e - uint d + 2 ^ 31" using u p by (intro mod_pos_pos_trivial) linarith+
  finally show ?thesis by (simp add: word_less_def)
qed

text \<open>The resume timer survives the wrap of the tick counter.  A resumption scheduled at tick \<open>t\<close> with a
  delay of \<open>d\<close> ticks happens at the first visit \<open>e\<close> ticks later with \<open>e\<close> at least \<open>d\<close>, and at none before,
  also when the 32-bit tick counter wraps in between; delay and time passed stay below half the range.\<close>

theorem ble_resume_timer:
  assumes "gb_running g" and "unat (bl_ms_to_ticks api delay_ms) < 2 ^ 31" and "unat e < 2 ^ 31"
    and "schedule_presence_resume api delay_ms (g, w) = (g', w)" and "bl_ticks api w' = bl_ticks api w + e"
  shows "maybe_resume_presence api (g', w') =
    (if bl_ms_to_ticks api delay_ms \<le> e
     then snd (resume_presence_now api (g' \<lparr> gb_resume_pending := False \<rparr>, w')) else (g', w'))"
proof -
  let ?d = "bl_ms_to_ticks api delay_ms"
  have g': "gb_resume_pending g'" "gb_resume_at g' = bl_ticks api w + ?d"
    using assms(1,4) by (auto simp: schedule_presence_resume_def)
  have "bl_ticks api w' - gb_resume_at g' = e - ?d" by (simp add: assms(5) g'(2))
  then show ?thesis using g'(1) sint_diff_neg[OF assms(2,3)] by (auto simp: maybe_resume_presence_def)
qed

subsection \<open>Samples\<close>

text \<open>Queues of four fragments kept as lists, beside a further state that they leave alone; the radio and
  the other services do nothing.\<close>

definition list_queues :: "((nat \<Rightarrow> g2g_fragment list) \<times> 'v) ble_api" where
  "list_queues = \<lparr>
     bl_queue_create = \<lambda>n w. (Some 0, w), bl_queue_delete = \<lambda>q w. w,
     bl_queue_send = \<lambda>q f (m, v). if length (m q) < 4 then (True, m(q := m q @ [f]), v) else (False, m, v),
     bl_queue_receive = \<lambda>q (m, v). (case m q of [] \<Rightarrow> (None, m, v) | f # fs \<Rightarrow> (Some f, m(q := fs), v)),
     bl_sem_create = \<lambda>w. (Some 0, w), bl_sem_delete = \<lambda>h w. w, bl_sem_give = \<lambda>h w. w, bl_sem_take = \<lambda>h w. (False, w),
     bl_ticks = \<lambda>w. of_nat (length (fst w 9)) - 1, bl_ms_to_ticks = \<lambda>ms. ms div 1000, bl_task_create = \<lambda>n w. (True, w),
     bl_adv_parse_uuids = \<lambda>d. None, bl_adv_set_fields = \<lambda>u w. (0, w), bl_adv_start = \<lambda>t w. (0, w), bl_adv_stop = \<lambda>w. (0, w),
     bl_disc = \<lambda>t w. (0, w), bl_disc_cancel = \<lambda>w. (0, w), bl_connect = \<lambda>t a w. (1, w), bl_conn_cancel = \<lambda>w. (0, w),
     bl_conn_find = \<lambda>c w. None, bl_terminate = \<lambda>c w. (0, w), bl_exchange_mtu = \<lambda>c w. (0, w), bl_disc_svc = \<lambda>c u w. (0, w),
     bl_disc_chrs = \<lambda>c a b u w. (0, w), bl_write = \<lambda>c h b w. (0, w), bl_ensure_addr = \<lambda>w. (0, w),
     bl_infer_auto = \<lambda>w. ((0, 0), w), bl_port_init = \<lambda>w. (ESP_OK, w), bl_port_deinit = \<lambda>w. w, bl_port_stop = \<lambda>w. w,
     bl_register_services = \<lambda>w. (0, w) \<rparr>"

abbreviation list_items :: "nat \<Rightarrow> (nat \<Rightarrow> g2g_fragment list) \<times> 'v \<Rightarrow> g2g_fragment list" where
  "list_items q w \<equiv> fst w q"

lemma list_queues_fifo: "frag_queues list_queues list_items (\<lambda>_. 4)"
  by (simp add: frag_queues_def list_queues_def split: prod.splits list.splits)

lemma list_queues_world: "rx_world list_queues list_items (\<lambda>_. 4)"
  unfolding rx_world_def by (simp add: list_queues_fifo) (simp add: list_queues_def split: prod.splits list.splits)

definition ble_sample :: g2g_ble where
  "ble_sample = \<lparr> gb_config = \<lparr> gbc_guardian_id = 1, gbc_zone_id = 1, gbc_on_fragment = True \<rparr>,
     gb_stats = g2g_ble_stats_zero, gb_running = True, gb_synced = True, gb_advertising = True, gb_scanning = True,
     gb_rx_active = False, gb_resume_pending = False, gb_resume_at = 0, gb_rx_conn_handle = BLE_HS_CONN_HANDLE_NONE,
     gb_rx_peer_addr = None, gb_callback_exclude_addr = None, gb_own_addr_type = 0,
     gb_peers = \<lparr> gp_in_use = True, gp_addr = ble_addr_zero \<rparr> # replicate (G2G_BLE_MAX_PEERS - 1) g2g_peer_zero,
     gb_tx_queue = Some 0, gb_rx_queue = Some 1, gb_tx_done = Some 0, gb_tx = g2g_tx_zero \<rparr>"

lemma ble_sample_facts [simp]:
  "gb_running ble_sample" "gb_tx_queue ble_sample = Some 0" "gb_rx_queue ble_sample = Some 1"
  "gbc_on_fragment (gb_config ble_sample)" "gb_callback_exclude_addr ble_sample = None"
  by (simp_all add: ble_sample_def)

lemma pill_sample_facts:
  "capsule_fits (ap_capsule pill_sample)" "substance_fits (ap_active pill_sample)"
  "unat (cpl_signature_len (ap_capsule pill_sample)) \<le> CAPSULE_PILL_SIGNATURE_MAX_LEN"
  "\<exists>id. compute_inner_id sha_toy beyond pill_sample = (ESP_OK, id)"
  using capsule_sample_fits substance_sample_ok(1)
  by (simp_all add: pill_sample_def capsule_sample_def compute_inner_id_def compute_capsule_digest_def
      capsule_pill_compute_digest_def sha_toy_def)

theorem ble_pill_queued_witness:
  "\<exists>id err s'. send_action_pill sha_toy (\<lambda>_. 0) (ble_send list_queues) pill_sample
       \<lparr> g2_seen = seen_cache_empty, g2_slots = replicate 4 rx_slot_empty, g2_world = (ble_sample, \<lambda>_. [], ()) \<rparr> = (err, s') \<and>
     err = ESP_OK \<and> list_items 0 (snd (g2_world s')) =
       map (frame_fragment None) (g2g_frames (action_pill_bytes pill_sample) id)"
proof -
  let ?s = "\<lparr> g2_seen = seen_cache_empty, g2_slots = replicate 4 rx_slot_empty,
     g2_world = (ble_sample, (\<lambda>_. []) :: nat \<Rightarrow> g2g_fragment list, ()) \<rparr>"
  obtain id where id: "compute_inner_id sha_toy (\<lambda>_. 0) pill_sample = (ESP_OK, id)" using pill_sample_facts(4) by blast
  obtain err s' where s': "send_action_pill sha_toy (\<lambda>_. 0) (ble_send list_queues) pill_sample ?s = (err, s')"
    by (rule prod.exhaust)
  have "length (g2g_frames (action_pill_bytes pill_sample) id) = 3"
    using action_pill_round_trip(2)[OF pill_sample_facts(1,2)] by (simp add: g2g_frames_def div_ceil_def)
  then show ?thesis
    using ble_pill_queued[OF list_queues_fifo _ sha_toy_total pill_sample_facts(1,2) id,
        where q = 0 and s = ?s and g = ble_sample and w = "(\<lambda>_. [], ())" and err = err and s' = s'] s'
    by (intro exI[of _ id] exI[of _ err] exI[of _ s']) simp
qed

theorem ble_pill_delivered_witness:
  "\<exists>id codes s g' x'. ble_writes list_queues
       (map (\<lambda>k. g2g_frames (action_pill_bytes pill_sample) id ! k) [2, 0, 1]) (ble_sample, \<lambda>_. [], g2g_fresh) = (codes, s) \<and>
     codes = [0, 0, 0] \<and>
     ((\<lambda>s. snd (rx_task list_queues (deliver_fragment sha_toy (\<lambda>_. 0) (Some note_pill)) s)) ^^ 3) s =
       (g', x', g2g_fresh \<lparr> g2_seen := add_seen id seen_cache_empty, g2_world := [pill_sample] \<rparr>) \<and> x' 1 = []"
proof -
  let ?v = "\<lambda>id. g2g_fresh \<lparr> g2_seen := add_seen id seen_cache_empty, g2_world := [pill_sample] \<rparr>"
  obtain id where id: "compute_inner_id sha_toy (\<lambda>_. 0) pill_sample = (ESP_OK, id)" using pill_sample_facts(4) by blast
  obtain codes s where s: "ble_writes list_queues
       (map (\<lambda>k. g2g_frames (action_pill_bytes pill_sample) id ! k) [2, 0, 1]) (ble_sample, \<lambda>_. [], g2g_fresh) = (codes, s)"
    by (rule prod.exhaust)
  have n: "set [2, 0, 1] = {0..<g2g_count (action_pill_bytes pill_sample)}"
    using action_pill_round_trip(2)[OF pill_sample_facts(1,2)] by (auto simp: div_ceil_def)
  have h: "note_pill pill_sample (g2g_fresh \<lparr> g2_seen := add_seen id (g2_seen g2g_fresh) \<rparr>) = (ESP_OK, ?v id)"
    by (simp add: note_pill_def g2g_fresh_def)
  have "codes = replicate (length [2 :: nat, 0, 1]) 0 \<and>
     (\<exists>g' x'. ((\<lambda>s. snd (rx_task list_queues (deliver_fragment sha_toy (\<lambda>_. 0) (Some note_pill)) s)) ^^ length [2 :: nat, 0, 1]) s =
       (g', x', ?v id) \<and> list_items 1 (x', ?v id) = [])"
    by (rule ble_pill_delivered[where h = note_pill and r = ESP_OK and q = 1 and items = list_items and cap = "\<lambda>_. 4"
          and g = ble_sample and v = g2g_fresh and x = "\<lambda>_. []" and message_id = id and pill = pill_sample and i = 0])
      (use list_queues_world sha_toy_total pill_sample_facts(1-3) id g2g_fresh_facts(1,2) h n s in simp_all)
  moreover have "length [2 :: nat, 0, 1] = 3" "replicate 3 (0 :: int) = [0, 0, 0]" by (simp_all add: numeral_eq_Suc)
  ultimately show ?thesis using s by (simp only: fst_conv) blast
qed

theorem ble_origin_not_contacted_witness:
  "tx_peers (with_connect_to ble_addr_zero (\<lambda>own w. (0, \<lambda>_. [], ())) list_queues) (\<lambda>s. s) [frame_fragment (Some ble_addr_zero) [7]]
       [0, 1] \<lparr> tf_sent = False, tf_attempted = False, tf_skipped_origin = False \<rparr> (ble_sample, \<lambda>_. [], ())
   = tx_peers list_queues (\<lambda>s. s) [frame_fragment (Some ble_addr_zero) [7]]
       [0, 1] \<lparr> tf_sent = False, tf_attempted = False, tf_skipped_origin = False \<rparr> (ble_sample, \<lambda>_. [], ())"
  by (rule ble_origin_not_contacted) (simp_all add: frame_fragment_def)

text \<open>The tick counter of \<open>list_queues\<close> starts one tick before it wraps and counts the entries of queue 9.\<close>

theorem ble_resume_timer_witness:
  "let g' = fst (schedule_presence_resume list_queues 2000 (ble_sample, \<lambda>_. [], ()));
       w' = (\<lambda>_. replicate 2 (frame_fragment None []), ())
   in maybe_resume_presence list_queues (g', w') =
        snd (resume_presence_now list_queues (g' \<lparr> gb_resume_pending := False \<rparr>, w'))"
  using ble_resume_timer[of ble_sample list_queues 2000 2 "(\<lambda>_. [], ())"
      "fst (schedule_presence_resume list_queues 2000 (ble_sample, \<lambda>_. [], ()))" "(\<lambda>_. replicate 2 (frame_fragment None []), ())"]
  by (simp add: list_queues_def schedule_presence_resume_def Let_def)

end
