(* ===== verification/Wifi_Manager.thy ===== *)
theory Wifi_Manager
  imports Event_Bus
begin

text \<open>
  The WiFi manager (\<open>wifi_manager.c\<close>): the station link to the router and the access point of the
  zone.  The ESP-IDF driver is a parameter: a record of the calls the manager makes, over an
  abstract driver state \<open>'x\<close>.  An event group is its bits; a network interface is a handle.
  \<open>ESP_ERROR_CHECK\<close> aborts the firmware, so \<open>wifi_manager_start\<close> returns \<open>None\<close> there.  Log output
  is left out, and with it \<open>log_mac_address\<close>.
\<close>

subsection \<open>Data\<close>

abbreviation WIFI_MANAGER_MAX_SSID_LEN :: nat where "WIFI_MANAGER_MAX_SSID_LEN \<equiv> 32"
abbreviation WIFI_MANAGER_MAX_PASSWORD_LEN :: nat where "WIFI_MANAGER_MAX_PASSWORD_LEN \<equiv> 64"

record wifi_manager_config =
  wc_sta_ssid :: bytes
  wc_sta_password :: bytes
  wc_ap_ssid :: bytes
  wc_ap_password :: bytes
  wc_ap_channel :: u8
  wc_ap_max_connections :: u8
  wc_sta_max_retries :: u8
  wc_ap_hidden :: bool

datatype wifi_manager_sta_state =
    WIFI_MANAGER_STA_DISCONNECTED
  | WIFI_MANAGER_STA_CONNECTING
  | WIFI_MANAGER_STA_CONNECTED
  | WIFI_MANAGER_STA_GOT_IP

record wifi_manager_status =
  wst_sta_state :: wifi_manager_sta_state
  wst_sta_retry_count :: u8
  wst_ap_connected_clients :: u8

record wifi_manager =
  wm_event_group :: "u32 option"
  wm_sta_netif :: "nat option"
  wm_ap_netif :: "nat option"
  wm_config :: wifi_manager_config
  wm_normal_config :: wifi_manager_config
  wm_sta_state :: wifi_manager_sta_state
  wm_sta_retry_count :: u8
  wm_ap_connected_clients :: u8
  wm_started :: bool
  wm_normal_config_valid :: bool
  wm_ap_only_active :: bool

definition wifi_config_zero :: wifi_manager_config where
  "wifi_config_zero = \<lparr> wc_sta_ssid = replicate WIFI_MANAGER_MAX_SSID_LEN 0,
     wc_sta_password = replicate WIFI_MANAGER_MAX_PASSWORD_LEN 0,
     wc_ap_ssid = replicate WIFI_MANAGER_MAX_SSID_LEN 0,
     wc_ap_password = replicate WIFI_MANAGER_MAX_PASSWORD_LEN 0,
     wc_ap_channel = 0, wc_ap_max_connections = 0, wc_sta_max_retries = 0, wc_ap_hidden = False \<rparr>"

definition wifi_manager_boot :: wifi_manager where
  "wifi_manager_boot = \<lparr> wm_event_group = None, wm_sta_netif = None, wm_ap_netif = None,
     wm_config = wifi_config_zero, wm_normal_config = wifi_config_zero,
     wm_sta_state = WIFI_MANAGER_STA_DISCONNECTED, wm_sta_retry_count = 0, wm_ap_connected_clients = 0,
     wm_started = False, wm_normal_config_valid = False, wm_ap_only_active = False \<rparr>"

definition WIFI_MANAGER_BIT_STA_CONNECTED :: u32 where "WIFI_MANAGER_BIT_STA_CONNECTED = 1"
definition WIFI_MANAGER_BIT_STA_GOT_IP :: u32 where "WIFI_MANAGER_BIT_STA_GOT_IP = 2"

subsection \<open>The driver\<close>

datatype wifi_mode = WIFI_MODE_AP | WIFI_MODE_APSTA
datatype wifi_auth_mode = WIFI_AUTH_OPEN | WIFI_AUTH_WPA2_PSK | WIFI_AUTH_WPA_WPA2_PSK
datatype sae_pwe_method = WPA3_SAE_PWE_BOTH

record wifi_sta_config =
  sta_ssid :: bytes
  sta_password :: bytes
  sta_threshold_authmode :: wifi_auth_mode
  sta_sae_pwe_h2e :: sae_pwe_method

record wifi_ap_config =
  ap_ssid :: bytes
  ap_password :: bytes
  ap_ssid_len :: u8
  ap_channel :: u8
  ap_max_connection :: u8
  ap_authmode :: wifi_auth_mode
  ap_ssid_hidden :: u8

record 'x wifi_api =
  nvs_flash_init :: "'x \<Rightarrow> esp_err \<times> 'x"
  nvs_flash_erase :: "'x \<Rightarrow> esp_err \<times> 'x"
  nvs_needs_erase :: "esp_err \<Rightarrow> bool"
  esp_netif_init :: "'x \<Rightarrow> esp_err \<times> 'x"
  esp_event_loop_create_default :: "'x \<Rightarrow> esp_err \<times> 'x"
  xEventGroupCreate :: "'x \<Rightarrow> bool \<times> 'x"
  esp_netif_create_default_wifi_sta :: "'x \<Rightarrow> nat option \<times> 'x"
  esp_netif_create_default_wifi_ap :: "'x \<Rightarrow> nat option \<times> 'x"
  esp_wifi_init :: "'x \<Rightarrow> esp_err \<times> 'x"
  register_wifi_handler :: "'x \<Rightarrow> esp_err \<times> 'x"
  register_ip_handler :: "'x \<Rightarrow> esp_err \<times> 'x"
  esp_wifi_set_mode :: "wifi_mode \<Rightarrow> 'x \<Rightarrow> esp_err \<times> 'x"
  set_sta_config :: "wifi_sta_config \<Rightarrow> 'x \<Rightarrow> esp_err \<times> 'x"
  set_ap_config :: "wifi_ap_config \<Rightarrow> 'x \<Rightarrow> esp_err \<times> 'x"
  esp_wifi_set_ps_none :: "'x \<Rightarrow> esp_err \<times> 'x"
  esp_wifi_start :: "'x \<Rightarrow> esp_err \<times> 'x"
  esp_wifi_stop :: "'x \<Rightarrow> esp_err \<times> 'x"
  esp_wifi_deinit :: "'x \<Rightarrow> esp_err \<times> 'x"
  esp_wifi_connect :: "'x \<Rightarrow> esp_err \<times> 'x"
  esp_wifi_disconnect :: "'x \<Rightarrow> esp_err \<times> 'x"
  wifi_not_started :: "esp_err \<Rightarrow> bool"
  esp_netif_ip_addr :: "nat \<Rightarrow> 'x \<Rightarrow> esp_err \<times> u32"

text \<open>
  \<open>nvs_needs_erase\<close> and \<open>wifi_not_started\<close> recognise the error codes of the ESP-IDF that the
  manager treats apart (\<open>ESP_ERR_NVS_NO_FREE_PAGES\<close>, \<open>ESP_ERR_NVS_NEW_VERSION_FOUND\<close>,
  \<open>ESP_ERR_WIFI_NOT_STARTED\<close>).  A sequence of calls that stops at the first error:
\<close>

definition then_call :: "esp_err \<times> 'x \<Rightarrow> ('x \<Rightarrow> esp_err \<times> 'x) \<Rightarrow> esp_err \<times> 'x" where
  "then_call p f = (case p of (err, x) \<Rightarrow> if err = ESP_OK then f x else (err, x))"

lemma then_call_simps [simp]:
  "then_call (ESP_OK, x) f = f x" "err \<noteq> ESP_OK \<Longrightarrow> then_call (err, x) f = (err, x)"
  by (simp_all add: then_call_def)

subsection \<open>Configuration of the driver\<close>

definition init_nvs_if_needed :: "'x wifi_api \<Rightarrow> 'x \<Rightarrow> (esp_err \<times> 'x) option" where
  "init_nvs_if_needed api x =
     (case nvs_flash_init api x of
        (ret, x) \<Rightarrow>
          if nvs_needs_erase api ret
          then (case nvs_flash_erase api x of
                  (err, x) \<Rightarrow> if err \<noteq> ESP_OK then None else Some (nvs_flash_init api x))
          else Some (ret, x))"

definition init_netif_and_event_loop :: "'x wifi_api \<Rightarrow> 'x \<Rightarrow> esp_err \<times> 'x" where
  "init_netif_and_event_loop api x =
     (case esp_netif_init api x of
        (ret, x) \<Rightarrow>
          if ret \<noteq> ESP_OK \<and> ret \<noteq> ESP_ERR_INVALID_STATE then (ret, x)
          else (case esp_event_loop_create_default api x of
              (ret, x) \<Rightarrow>
                if ret \<noteq> ESP_OK \<and> ret \<noteq> ESP_ERR_INVALID_STATE then (ret, x) else (ESP_OK, x)))"

definition get_ap_auth_mode :: "bytes option \<Rightarrow> wifi_auth_mode" where
  "get_ap_auth_mode password =
     (if password = None \<or> rd (the password) 0 = 0 then WIFI_AUTH_OPEN else WIFI_AUTH_WPA_WPA2_PSK)"

definition sta_config_of :: "wifi_manager_config \<Rightarrow> wifi_sta_config" where
  "sta_config_of c = \<lparr>
     sta_ssid = safe_copy (replicate 32 0) 32 (Some (wc_sta_ssid c)),
     sta_password = safe_copy (replicate 64 0) 64 (Some (wc_sta_password c)),
     sta_threshold_authmode = WIFI_AUTH_WPA2_PSK, sta_sae_pwe_h2e = WPA3_SAE_PWE_BOTH \<rparr>"

definition configure_sta_from :: "'x wifi_api \<Rightarrow> wifi_manager_config option \<Rightarrow> 'x \<Rightarrow> esp_err \<times> 'x" where
  "configure_sta_from api config x =
     (case config of None \<Rightarrow> (ESP_ERR_INVALID_ARG, x) | Some c \<Rightarrow> set_sta_config api (sta_config_of c) x)"

definition ap_config_of :: "wifi_manager_config \<Rightarrow> wifi_ap_config" where
  "ap_config_of c = \<lparr>
     ap_ssid = safe_copy (replicate 32 0) 32 (Some (wc_ap_ssid c)),
     ap_password = safe_copy (replicate 64 0) 64 (Some (wc_ap_password c)),
     ap_ssid_len = of_nat (strlen (wc_ap_ssid c)),
     ap_channel = (if wc_ap_channel c \<noteq> 0 then wc_ap_channel c else 6),
     ap_max_connection = (if wc_ap_max_connections c \<noteq> 0 then wc_ap_max_connections c else 4),
     ap_authmode = get_ap_auth_mode (Some (wc_ap_password c)),
     ap_ssid_hidden = (if wc_ap_hidden c then 1 else 0) \<rparr>"

definition configure_ap_from :: "'x wifi_api \<Rightarrow> wifi_manager_config option \<Rightarrow> 'x \<Rightarrow> esp_err \<times> 'x" where
  "configure_ap_from api config x =
     (case config of None \<Rightarrow> (ESP_ERR_INVALID_ARG, x) | Some c \<Rightarrow> set_ap_config api (ap_config_of c) x)"

subsection \<open>Events of the driver\<close>

datatype wifi_event =
    WIFI_EVENT_STA_START
  | WIFI_EVENT_STA_CONNECTED
  | WIFI_EVENT_STA_DISCONNECTED
  | WIFI_EVENT_AP_START
  | WIFI_EVENT_AP_STOP
  | WIFI_EVENT_AP_STACONNECTED u8
  | WIFI_EVENT_AP_STADISCONNECTED u8
  | WIFI_EVENT_OTHER

definition publish_ap_client_event :: "zg_event_type \<Rightarrow> bytes \<Rightarrow> u8 \<Rightarrow> zg_event" where
  "publish_ap_client_event ty reason aid =
     zg_event_zero \<lparr> ev_type := ty, ev_device_id := ucast aid,
       ev_reason := safe_copy (ev_reason zg_event_zero) 48 (Some reason) \<rparr>"

definition set_bits :: "u32 \<Rightarrow> wifi_manager \<Rightarrow> wifi_manager" where
  "set_bits b wm = wm \<lparr> wm_event_group := map_option (\<lambda>g. g OR b) (wm_event_group wm) \<rparr>"

definition clear_bits :: "u32 \<Rightarrow> wifi_manager \<Rightarrow> wifi_manager" where
  "clear_bits b wm = wm \<lparr> wm_event_group := map_option (\<lambda>g. g AND NOT b) (wm_event_group wm) \<rparr>"

definition handle_wifi_event ::
  "'x wifi_api \<Rightarrow> wifi_event \<Rightarrow> wifi_manager \<Rightarrow> 'x \<Rightarrow> zg_event list \<times> wifi_manager \<times> 'x" where
  "handle_wifi_event api ev wm x =
     (case ev of
        WIFI_EVENT_STA_START \<Rightarrow>
          ([], wm \<lparr> wm_sta_state := WIFI_MANAGER_STA_CONNECTING \<rparr>, snd (esp_wifi_connect api x))
      | WIFI_EVENT_STA_CONNECTED \<Rightarrow>
          ([], set_bits WIFI_MANAGER_BIT_STA_CONNECTED
                (wm \<lparr> wm_sta_state := WIFI_MANAGER_STA_CONNECTED, wm_sta_retry_count := 0 \<rparr>), x)
      | WIFI_EVENT_STA_DISCONNECTED \<Rightarrow>
          (let wm = clear_bits (WIFI_MANAGER_BIT_STA_CONNECTED OR WIFI_MANAGER_BIT_STA_GOT_IP) wm
                      \<lparr> wm_sta_state := WIFI_MANAGER_STA_DISCONNECTED \<rparr>
           in if wm_ap_only_active wm then ([], wm, x)
              else if wm_sta_retry_count wm < wc_sta_max_retries (wm_config wm)
              then ([], wm \<lparr> wm_sta_retry_count := wm_sta_retry_count wm + 1,
                             wm_sta_state := WIFI_MANAGER_STA_CONNECTING \<rparr>, snd (esp_wifi_connect api x))
              else ([], wm, x))
      | WIFI_EVENT_AP_STACONNECTED aid \<Rightarrow>
          ([publish_ap_client_event ZG_EVENT_AP_CLIENT_JOINED (lit ''ap_client_joined'') aid],
           wm \<lparr> wm_ap_connected_clients := wm_ap_connected_clients wm + 1 \<rparr>, x)
      | WIFI_EVENT_AP_STADISCONNECTED aid \<Rightarrow>
          ([publish_ap_client_event ZG_EVENT_AP_CLIENT_LEFT (lit ''ap_client_left'') aid],
           (if wm_ap_connected_clients wm > 0
            then wm \<lparr> wm_ap_connected_clients := wm_ap_connected_clients wm - 1 \<rparr> else wm), x)
      | _ \<Rightarrow> ([], wm, x))"

definition handle_ip_event :: "bool \<Rightarrow> wifi_manager \<Rightarrow> wifi_manager" where
  "handle_ip_event sta_got_ip wm =
     (if sta_got_ip
      then set_bits WIFI_MANAGER_BIT_STA_GOT_IP (wm \<lparr> wm_sta_state := WIFI_MANAGER_STA_GOT_IP \<rparr>)
      else wm)"

subsection \<open>Operations\<close>

definition with_defaults :: "wifi_manager_config \<Rightarrow> wifi_manager_config" where
  "with_defaults c =
     (let c = (if wc_ap_channel c = 0 then c \<lparr> wc_ap_channel := 6 \<rparr> else c);
          c = (if wc_ap_max_connections c = 0 then c \<lparr> wc_ap_max_connections := 4 \<rparr> else c)
      in if wc_sta_max_retries c = 0 then c \<lparr> wc_sta_max_retries := 10 \<rparr> else c)"

text \<open>The driver calls of the start from \<open>esp_wifi_init\<close> on, each inside \<open>ESP_ERROR_CHECK\<close>.\<close>

definition start_driver :: "'x wifi_api \<Rightarrow> wifi_manager_config \<Rightarrow> 'x \<Rightarrow> esp_err \<times> 'x" where
  "start_driver api c x =
     (let r = esp_wifi_init api x;
          r = then_call r (register_wifi_handler api);
          r = then_call r (register_ip_handler api);
          r = then_call r (esp_wifi_set_mode api WIFI_MODE_APSTA);
          r = then_call r (configure_sta_from api (Some c));
          r = then_call r (configure_ap_from api (Some c));
          r = then_call r (esp_wifi_set_ps_none api)
      in then_call r (esp_wifi_start api))"

definition scrub_passwords :: "wifi_manager_config \<Rightarrow> wifi_manager_config" where
  "scrub_passwords c = c \<lparr> wc_sta_password := replicate WIFI_MANAGER_MAX_PASSWORD_LEN 0,
     wc_ap_password := replicate WIFI_MANAGER_MAX_PASSWORD_LEN 0 \<rparr>"

definition wifi_manager_start ::
  "'x wifi_api \<Rightarrow> wifi_manager_config option \<Rightarrow> wifi_manager \<Rightarrow> 'x \<Rightarrow> (esp_err \<times> wifi_manager \<times> 'x) option" where
  "wifi_manager_start api config wm x =
     (case config of
        None \<Rightarrow> Some (ESP_ERR_INVALID_ARG, wm, x)
      | Some c \<Rightarrow>
          if wm_started wm then Some (ESP_OK, wm, x)
          else (let c = with_defaults c;
                    wm = wm \<lparr> wm_config := c, wm_normal_config := c, wm_normal_config_valid := True,
                              wm_ap_only_active := False \<rparr>
            in case init_nvs_if_needed api x of
                 None \<Rightarrow> None
               | Some (err, x) \<Rightarrow>
                   if err \<noteq> ESP_OK then None
                   else (case init_netif_and_event_loop api x of
                     (err, x) \<Rightarrow>
                       if err \<noteq> ESP_OK then None
                       else (case xEventGroupCreate api x of
                         (created, x) \<Rightarrow>
                           if \<not> created
                           then Some (ESP_ERR_NO_MEM,
                                  wm \<lparr> wm_event_group := None, wm_config := wifi_config_zero \<rparr>, x)
                           else (case esp_netif_create_default_wifi_sta api x of
                             (sta, x) \<Rightarrow>
                               (let wm = wm \<lparr> wm_event_group := Some 0, wm_sta_netif := sta \<rparr> in
                                if sta = None
                                then Some (ESP_FAIL, wm \<lparr> wm_config := wifi_config_zero \<rparr>, x)
                                else (case esp_netif_create_default_wifi_ap api x of
                                  (ap, x) \<Rightarrow>
                                    (let wm = wm \<lparr> wm_ap_netif := ap \<rparr> in
                                     if ap = None
                                     then Some (ESP_FAIL, wm \<lparr> wm_config := wifi_config_zero \<rparr>, x)
                                     else (case start_driver api c x of
                                       (err, x) \<Rightarrow>
                                         if err \<noteq> ESP_OK then None
                                         else Some (ESP_OK,
                                                wm \<lparr> wm_config := scrub_passwords c, wm_started := True \<rparr>,
                                                x))))))))))"

definition wifi_manager_stop :: "'x wifi_api \<Rightarrow> wifi_manager \<Rightarrow> 'x \<Rightarrow> esp_err \<times> wifi_manager \<times> 'x" where
  "wifi_manager_stop api wm x =
     (if \<not> wm_started wm then (ESP_OK, wm, x)
      else (case then_call (esp_wifi_stop api x) (esp_wifi_deinit api) of
          (ret, x) \<Rightarrow>
            if ret \<noteq> ESP_OK then (ret, wm, x)
            else (ESP_OK, wm \<lparr> wm_event_group := None, wm_sta_netif := None, wm_ap_netif := None,
                    wm_sta_state := WIFI_MANAGER_STA_DISCONNECTED, wm_sta_retry_count := 0,
                    wm_ap_connected_clients := 0, wm_config := wifi_config_zero, wm_started := False,
                    wm_normal_config_valid := False, wm_ap_only_active := False,
                    wm_normal_config := wifi_config_zero \<rparr>, x)))"

definition admin_ap_config :: "bytes \<Rightarrow> bytes option \<Rightarrow> u8 \<Rightarrow> wifi_manager \<Rightarrow> wifi_manager_config" where
  "admin_ap_config ssid password max_connections wm = wifi_config_zero \<lparr>
     wc_ap_ssid := safe_copy (wc_ap_ssid wifi_config_zero) WIFI_MANAGER_MAX_SSID_LEN (Some ssid),
     wc_ap_password := safe_copy (wc_ap_password wifi_config_zero) WIFI_MANAGER_MAX_PASSWORD_LEN password,
     wc_ap_channel := (if wm_normal_config_valid wm then wc_ap_channel (wm_normal_config wm) else 6),
     wc_ap_max_connections := (if max_connections \<noteq> 0 then max_connections else 1),
     wc_ap_hidden := False \<rparr>"

definition wifi_manager_switch_to_ap ::
  "'x wifi_api \<Rightarrow> bytes option \<Rightarrow> bytes option \<Rightarrow> u8 \<Rightarrow> wifi_manager \<Rightarrow> 'x \<Rightarrow> esp_err \<times> wifi_manager \<times> 'x" where
  "wifi_manager_switch_to_ap api ssid password max_connections wm x =
     (if \<not> wm_started wm \<or> ssid = None \<or> rd (the ssid) 0 = 0 then (ESP_ERR_INVALID_ARG, wm, x)
      else (let c = admin_ap_config (the ssid) password max_connections wm;
                wm = clear_bits (WIFI_MANAGER_BIT_STA_CONNECTED OR WIFI_MANAGER_BIT_STA_GOT_IP) wm;
                wm = wm \<lparr> wm_sta_state := WIFI_MANAGER_STA_DISCONNECTED, wm_sta_retry_count := 0,
                          wm_ap_connected_clients := 0, wm_ap_only_active := True \<rparr>;
                x = snd (esp_wifi_disconnect api x);
                (err, x) = then_call (esp_wifi_set_mode api WIFI_MODE_AP x) (configure_ap_from api (Some c))
            in if err \<noteq> ESP_OK then (err, wm \<lparr> wm_ap_only_active := False \<rparr>, x)
               else (ESP_OK, wm, x)))"

text \<open>The driver calls of the restore, in order, up to the first that fails.\<close>

definition restore_driver :: "'x wifi_api \<Rightarrow> wifi_manager_config \<Rightarrow> 'x \<Rightarrow> esp_err \<times> 'x" where
  "restore_driver api c x =
     (let (err, x) = esp_wifi_stop api x;
          r = (if wifi_not_started api err then ESP_OK else err, x);
          r = then_call r (esp_wifi_set_mode api WIFI_MODE_APSTA);
          r = then_call r (configure_sta_from api (Some c));
          r = then_call r (configure_ap_from api (Some c));
          r = then_call r (esp_wifi_start api)
      in then_call r (esp_wifi_connect api))"

definition wifi_manager_restore_normal ::
  "'x wifi_api \<Rightarrow> wifi_manager \<Rightarrow> 'x \<Rightarrow> esp_err \<times> wifi_manager \<times> 'x" where
  "wifi_manager_restore_normal api wm x =
     (if \<not> wm_started wm then (ESP_ERR_INVALID_STATE, wm, x)
      else if \<not> wm_normal_config_valid wm then (ESP_ERR_INVALID_STATE, wm, x)
      else if \<not> wm_ap_only_active wm then (ESP_OK, wm, x)
      else (let wm = wm \<lparr> wm_ap_only_active := False, wm_ap_connected_clients := 0 \<rparr>;
                (err, x) = restore_driver api (wm_normal_config wm) x
            in if err \<noteq> ESP_OK then (err, wm, x)
               else (ESP_OK, wm \<lparr> wm_sta_state := WIFI_MANAGER_STA_CONNECTING, wm_sta_retry_count := 0 \<rparr>, x)))"

definition wifi_manager_is_sta_connected :: "wifi_manager \<Rightarrow> bool" where
  "wifi_manager_is_sta_connected wm =
     (case wm_event_group wm of None \<Rightarrow> False | Some g \<Rightarrow> g AND WIFI_MANAGER_BIT_STA_CONNECTED \<noteq> 0)"

definition wifi_manager_has_ip :: "wifi_manager \<Rightarrow> bool" where
  "wifi_manager_has_ip wm =
     (case wm_event_group wm of None \<Rightarrow> False | Some g \<Rightarrow> g AND WIFI_MANAGER_BIT_STA_GOT_IP \<noteq> 0)"

definition wifi_manager_get_status :: "wifi_manager \<Rightarrow> wifi_manager_status" where
  "wifi_manager_get_status wm = \<lparr> wst_sta_state = wm_sta_state wm,
     wst_sta_retry_count = wm_sta_retry_count wm, wst_ap_connected_clients = wm_ap_connected_clients wm \<rparr>"

definition wifi_manager_get_sta_netif :: "wifi_manager \<Rightarrow> nat option" where
  "wifi_manager_get_sta_netif wm = wm_sta_netif wm"

definition wifi_manager_get_ap_netif :: "wifi_manager \<Rightarrow> nat option" where
  "wifi_manager_get_ap_netif wm = wm_ap_netif wm"

definition wifi_manager_get_ap_ip ::
  "'x wifi_api \<Rightarrow> u32 option \<Rightarrow> wifi_manager \<Rightarrow> 'x \<Rightarrow> esp_err \<times> u32 option" where
  "wifi_manager_get_ap_ip api out_ip wm x =
     (case out_ip of
        None \<Rightarrow> (ESP_ERR_INVALID_ARG, None)
      | Some _ \<Rightarrow>
          (case wm_ap_netif wm of
             None \<Rightarrow> (ESP_ERR_INVALID_STATE, out_ip)
           | Some ap \<Rightarrow> (case esp_netif_ip_addr api ap x of
               (err, addr) \<Rightarrow> if err \<noteq> ESP_OK then (err, out_ip) else (ESP_OK, Some addr))))"

subsection \<open>Runs of the manager\<close>

text \<open>What can happen to a started manager short of stopping it.\<close>

datatype wifi_op =
    WmEvent wifi_event
  | WmGotIp
  | WmSwitch "bytes option" "bytes option" u8
  | WmRestore

definition wifi_step :: "'x wifi_api \<Rightarrow> wifi_op \<Rightarrow> wifi_manager \<times> 'x \<Rightarrow> esp_err \<times> (wifi_manager \<times> 'x)" where
  "wifi_step api op s =
     (case (op, s) of
        (WmEvent ev, wm, x) \<Rightarrow> (ESP_OK, snd (handle_wifi_event api ev wm x))
      | (WmGotIp, wm, x) \<Rightarrow> (ESP_OK, handle_ip_event True wm, x)
      | (WmSwitch ssid password n, wm, x) \<Rightarrow> wifi_manager_switch_to_ap api ssid password n wm x
      | (WmRestore, wm, x) \<Rightarrow> wifi_manager_restore_normal api wm x)"

lemma with_defaults_driver [simp]:
  "sta_config_of (with_defaults c) = sta_config_of c" "ap_config_of (with_defaults c) = ap_config_of c"
  by (simp_all add: with_defaults_def sta_config_of_def ap_config_of_def Let_def)

lemma configure_from_defaults [simp]:
  "configure_sta_from api (Some (with_defaults c)) = configure_sta_from api (Some c)"
  "configure_ap_from api (Some (with_defaults c)) = configure_ap_from api (Some c)"
  by (simp_all add: fun_eq_iff configure_sta_from_def configure_ap_from_def)

lemma restore_driver_defaults [simp]: "restore_driver api (with_defaults c) = restore_driver api c"
  by (simp add: fun_eq_iff restore_driver_def)

text \<open>
  The manager is up with configuration \<open>c\<close>: the handles exist, the copy for the restore is \<open>c\<close>, the
  working copy has lost its passwords, and the retry counter is within its limit.
\<close>

definition wifi_up :: "wifi_manager_config \<Rightarrow> wifi_manager \<Rightarrow> bool" where
  "wifi_up c wm \<longleftrightarrow> wm_started wm \<and> wm_normal_config_valid wm \<and> wm_normal_config wm = with_defaults c \<and>
     wm_config wm = scrub_passwords (with_defaults c) \<and> wm_event_group wm \<noteq> None \<and>
     wm_sta_netif wm \<noteq> None \<and> wm_ap_netif wm \<noteq> None \<and>
     wm_sta_retry_count wm \<le> wc_sta_max_retries (with_defaults c)"

lemma word8_Suc_le: "a < (b :: u8) \<Longrightarrow> a + 1 \<le> b"
  by (rule inc_le)

lemma scrub_passwords_retries [simp]: "wc_sta_max_retries (scrub_passwords c) = wc_sta_max_retries c"
  by (simp add: scrub_passwords_def)

lemma bits_frame [simp]:
  "wm_started (set_bits b wm) = wm_started wm" "wm_normal_config_valid (set_bits b wm) = wm_normal_config_valid wm"
  "wm_normal_config (set_bits b wm) = wm_normal_config wm" "wm_config (set_bits b wm) = wm_config wm"
  "wm_sta_netif (set_bits b wm) = wm_sta_netif wm" "wm_ap_netif (set_bits b wm) = wm_ap_netif wm"
  "wm_sta_retry_count (set_bits b wm) = wm_sta_retry_count wm" "wm_ap_only_active (set_bits b wm) = wm_ap_only_active wm"
  "wm_event_group (set_bits b wm) = map_option (\<lambda>g. g OR b) (wm_event_group wm)"
  "wm_started (clear_bits b wm) = wm_started wm" "wm_normal_config_valid (clear_bits b wm) = wm_normal_config_valid wm"
  "wm_normal_config (clear_bits b wm) = wm_normal_config wm" "wm_config (clear_bits b wm) = wm_config wm"
  "wm_sta_netif (clear_bits b wm) = wm_sta_netif wm" "wm_ap_netif (clear_bits b wm) = wm_ap_netif wm"
  "wm_sta_retry_count (clear_bits b wm) = wm_sta_retry_count wm" "wm_ap_only_active (clear_bits b wm) = wm_ap_only_active wm"
  "wm_event_group (clear_bits b wm) = map_option (\<lambda>g. g AND NOT b) (wm_event_group wm)"
  by (simp_all add: set_bits_def clear_bits_def)

lemma handle_wifi_event_up: "wifi_up c wm \<Longrightarrow> wifi_up c (fst (snd (handle_wifi_event api ev wm x)))"
  by (cases ev) (simp_all add: wifi_up_def handle_wifi_event_def Let_def word8_Suc_le)

lemma handle_ip_event_up: "wifi_up c wm \<Longrightarrow> wifi_up c (handle_ip_event b wm)"
  by (simp add: wifi_up_def handle_ip_event_def)

lemma switch_up: "wifi_up c wm \<Longrightarrow> wifi_up c (fst (snd (wifi_manager_switch_to_ap api ssid pw n wm x)))"
  by (simp add: wifi_manager_switch_to_ap_def Let_def wifi_up_def split: prod.splits)

lemma restore_up: "wifi_up c wm \<Longrightarrow> wifi_up c (fst (snd (wifi_manager_restore_normal api wm x)))"
  by (simp add: wifi_manager_restore_normal_def Let_def wifi_up_def split: prod.splits)

lemma wifi_step_up: "wifi_up c (fst s) \<Longrightarrow> wifi_up c (fst (snd (wifi_step api op s)))"
  by (cases s; cases op) (simp_all add: wifi_step_def handle_wifi_event_up handle_ip_event_up switch_up restore_up)

interpretation wifi: module_invariant "\<lambda>s. wifi_up c (fst s)" "\<lambda>_. True" "wifi_step api"
  for api :: "'x wifi_api" and c :: wifi_manager_config
  by unfold_locales (rule wifi_step_up)

lemma wifi_start_up:
  assumes "wifi_manager_start api (Some c) wm x = Some (ESP_OK, wm1, x1)" "\<not> wm_started wm"
    "wm_sta_retry_count wm = 0"
  shows "wifi_up c wm1"
  using assms
  by (auto simp: wifi_manager_start_def Let_def wifi_up_def split: option.splits prod.splits if_splits)

lemma wifi_step_disconnected:
  "\<exists>wm'. wifi_step api (WmEvent WIFI_EVENT_STA_DISCONNECTED) (wm, x) =
     (if wm_ap_only_active wm \<or> \<not> wm_sta_retry_count wm < wc_sta_max_retries (wm_config wm)
      then (ESP_OK, wm', x) else (ESP_OK, wm' \<lparr> wm_sta_retry_count := wm_sta_retry_count wm + 1 \<rparr>, snd (esp_wifi_connect api x)))
     \<and> wm_ap_only_active wm' = wm_ap_only_active wm \<and> wm_config wm' = wm_config wm
     \<and> wm_sta_retry_count wm' = wm_sta_retry_count wm"
proof -
  let ?wm = "clear_bits (WIFI_MANAGER_BIT_STA_CONNECTED OR WIFI_MANAGER_BIT_STA_GOT_IP) wm"
  show ?thesis
    by (rule exI[of _ "?wm \<lparr> wm_sta_state := if wm_ap_only_active wm \<or>
          \<not> wm_sta_retry_count wm < wc_sta_max_retries (wm_config wm)
        then WIFI_MANAGER_STA_DISCONNECTED else WIFI_MANAGER_STA_CONNECTING \<rparr>"])
      (simp add: wifi_step_def handle_wifi_event_def Let_def)
qed

subsection \<open>What the manager guarantees\<close>

text \<open>Leaving the administration access point brings back the network the guardian was started with.
  After a successful start with a configuration, and whatever driver events, switches to the
  administration access point and restores follow, the working copy of the configuration holds no
  password, and a restore from access point mode gives the driver exactly the station and access
  point settings of that configuration, in the order of the code and up to the first error.\<close>

theorem wifi_restore_same_config:
  assumes "wifi_manager_start api (Some c) wm x = Some (ESP_OK, wm1, x1)"
    and "\<not> wm_started wm" and "wm_sta_retry_count wm = 0"
    and "snd (run (wifi_step api) ops (wm1, x1)) = (wm2, x2)" and "wm_ap_only_active wm2"
  shows "wc_sta_password (wm_config wm2) = replicate 64 0 \<and> wc_ap_password (wm_config wm2) = replicate 64 0 \<and>
    (case wifi_manager_restore_normal api wm2 x2 of
       (err, wm3, x3) \<Rightarrow> (err, x3) = restore_driver api c x2 \<and> \<not> wm_ap_only_active wm3)"
proof -
  have "wifi_up c (fst (snd (run (wifi_step api) ops (wm1, x1))))"
    by (rule wifi.run_inv) (simp_all add: wifi_start_up[OF assms(1-3)] list_all_iff)
  then have up: "wifi_up c wm2" by (simp add: assms(4))
  have "(case wifi_manager_restore_normal api wm2 x2 of
       (err, wm3, x3) \<Rightarrow> (err, x3) = restore_driver api c x2 \<and> \<not> wm_ap_only_active wm3)"
    using up assms(5)
    by (simp add: wifi_manager_restore_normal_def Let_def wifi_up_def split: prod.splits)
  with up show ?thesis by (simp add: wifi_up_def scrub_passwords_def)
qed

text \<open>A restore that fails is not tried again.  When the driver refuses one of the calls of a restore,
  the manager has already left access point mode in its books, and the next restore reports success
  without a single call to the driver.\<close>

theorem wifi_failed_restore_sticks:
  assumes "wifi_manager_restore_normal api wm x = (err, wm1, x1)" and "err \<noteq> ESP_OK"
    and "wm_started wm" and "wm_normal_config_valid wm"
  shows "wifi_manager_restore_normal api wm1 x2 = (ESP_OK, wm1, x2)"
  using assms by (auto simp: wifi_manager_restore_normal_def Let_def split: prod.splits if_splits)

text \<open>A lost router is retried a bounded number of times.  In a row of \<open>n\<close> disconnections the station
  asks the driver to connect once for each, until the counter reaches the configured limit, and
  then no more; in access point mode it never asks.\<close>

theorem wifi_reconnects_bounded:
  "snd (snd (run (wifi_step api) (replicate n (WmEvent WIFI_EVENT_STA_DISCONNECTED)) (wm, x))) =
     ((\<lambda>x. snd (esp_wifi_connect api x)) ^^
        (if wm_ap_only_active wm then 0
         else min n (unat (wc_sta_max_retries (wm_config wm)) - unat (wm_sta_retry_count wm)))) x"
proof (induction n arbitrary: wm x)
  case 0
  then show ?case by simp
next
  case (Suc n)
  let ?r = "wm_sta_retry_count wm" and ?m = "wc_sta_max_retries (wm_config wm)"
  obtain wm' where step: "wifi_step api (WmEvent WIFI_EVENT_STA_DISCONNECTED) (wm, x) =
     (if wm_ap_only_active wm \<or> \<not> ?r < ?m
      then (ESP_OK, wm', x) else (ESP_OK, wm' \<lparr> wm_sta_retry_count := ?r + 1 \<rparr>, snd (esp_wifi_connect api x)))"
    and wm': "wm_ap_only_active wm' = wm_ap_only_active wm" "wm_config wm' = wm_config wm" "wm_sta_retry_count wm' = ?r"
    using wifi_step_disconnected[of api wm x] by blast
  show ?case
  proof (cases "wm_ap_only_active wm \<or> \<not> ?r < ?m")
    case True
    then have "unat ?m - unat ?r = 0 \<or> wm_ap_only_active wm" by (auto simp: word_less_nat_alt)
    with True show ?thesis
      by (auto simp: run_Cons_simp step Suc.IH wm' simp del: run.simps(2))
  next
    case False
    then have lt: "unat ?r < unat ?m" by (simp add: word_less_nat_alt)
    then have s: "unat (?r + 1) = Suc (unat ?r)"
      using unsigned_less[of ?m, where ?'a = nat] by (simp add: unat_word_ariths)
    from lt obtain k where "unat ?m - unat ?r = Suc k" "unat ?m - Suc (unat ?r) = k"
      by (metis Suc_diff_Suc)
    with s show ?thesis using False
      by (simp add: run_Cons_simp step Suc.IH wm' funpow_swap1[of "\<lambda>x. snd (esp_wifi_connect api x)", symmetric] del: run.simps(2))
  qed
qed

subsection \<open>A driver to run it on\<close>

text \<open>A driver that succeeds and counts the calls that configure it or connect; the one with a
  limit refuses every call from some count on.\<close>

definition wifi_driver :: "nat \<Rightarrow> nat wifi_api" where
  "wifi_driver limit = (let f = (\<lambda>x. (if x < limit then ESP_OK else ESP_FAIL, Suc x)) in
    \<lparr> nvs_flash_init = (\<lambda>x. (ESP_OK, x)), nvs_flash_erase = (\<lambda>x. (ESP_OK, x)), nvs_needs_erase = (\<lambda>_. False),
      esp_netif_init = (\<lambda>x. (ESP_OK, x)), esp_event_loop_create_default = (\<lambda>x. (ESP_ERR_INVALID_STATE, x)),
      xEventGroupCreate = (\<lambda>x. (True, x)), esp_netif_create_default_wifi_sta = (\<lambda>x. (Some 1, x)),
      esp_netif_create_default_wifi_ap = (\<lambda>x. (Some 2, x)), esp_wifi_init = f, register_wifi_handler = f,
      register_ip_handler = f, esp_wifi_set_mode = (\<lambda>_. f), set_sta_config = (\<lambda>_. f), set_ap_config = (\<lambda>_. f),
      esp_wifi_set_ps_none = f, esp_wifi_start = f, esp_wifi_stop = f, esp_wifi_deinit = f,
      esp_wifi_connect = f, esp_wifi_disconnect = f, wifi_not_started = (\<lambda>_. False),
      esp_netif_ip_addr = (\<lambda>_ x. (ESP_OK, 0x0104A8C0)) \<rparr>)"

definition wifi_started :: wifi_manager where
  "wifi_started = fst (snd (the (wifi_manager_start (wifi_driver 100) (Some wifi_config_zero) wifi_manager_boot 0)))"

lemma wifi_started_eq:
  "wifi_manager_start (wifi_driver 100) (Some wifi_config_zero) wifi_manager_boot 0 = Some (ESP_OK, wifi_started, 8)"
  unfolding wifi_started_def
  by (simp add: wifi_manager_start_def wifi_manager_boot_def init_nvs_if_needed_def init_netif_and_event_loop_def
      wifi_driver_def Let_def start_driver_def configure_sta_from_def configure_ap_from_def)

lemma wifi_started_unfold:
  "wifi_started = wifi_manager_boot \<lparr> wm_config := scrub_passwords (with_defaults wifi_config_zero),
     wm_normal_config := with_defaults wifi_config_zero, wm_normal_config_valid := True, wm_ap_only_active := False,
     wm_event_group := Some 0, wm_sta_netif := Some 1, wm_ap_netif := Some 2, wm_started := True \<rparr>"
  by (simp add: wifi_started_def wifi_manager_start_def wifi_manager_boot_def init_nvs_if_needed_def
      init_netif_and_event_loop_def wifi_driver_def Let_def start_driver_def configure_sta_from_def configure_ap_from_def)

definition wifi_admin_ap :: "wifi_manager \<times> nat" where
  "wifi_admin_ap = snd (run (wifi_step (wifi_driver 100))
     [WmEvent WIFI_EVENT_STA_START, WmGotIp, WmSwitch (Some (lit ''admin'')) None 1] (wifi_started, 8))"

lemma wifi_admin_ap_simps: "wm_ap_only_active (fst wifi_admin_ap)" "snd wifi_admin_ap = 12"
  "wm_started (fst wifi_admin_ap)" "wm_normal_config_valid (fst wifi_admin_ap)"
  by (simp_all add: wifi_admin_ap_def wifi_started_unfold wifi_step_def handle_wifi_event_def handle_ip_event_def
      wifi_manager_switch_to_ap_def Let_def wifi_driver_def configure_ap_from_def lit_def)

theorem wifi_restore_same_config_witness:
  "(case wifi_manager_restore_normal (wifi_driver 100) (fst wifi_admin_ap) (snd wifi_admin_ap) of
     (err, wm3, x3) \<Rightarrow> (err, x3) = restore_driver (wifi_driver 100) wifi_config_zero (snd wifi_admin_ap)
       \<and> \<not> wm_ap_only_active wm3)"
  by (rule wifi_restore_same_config[OF wifi_started_eq _ _ _ wifi_admin_ap_simps(1), THEN conjunct2, THEN conjunct2,
        of "[WmEvent WIFI_EVENT_STA_START, WmGotIp, WmSwitch (Some (lit ''admin'')) None 1]"])
    (simp_all only: wifi_admin_ap_def[symmetric] prod.collapse, simp_all add: wifi_manager_boot_def)

theorem wifi_failed_restore_sticks_witness:
  "wifi_manager_restore_normal (wifi_driver 14)
     (fst (snd (wifi_manager_restore_normal (wifi_driver 14) (fst wifi_admin_ap) 12))) 20 =
   (ESP_OK, fst (snd (wifi_manager_restore_normal (wifi_driver 14) (fst wifi_admin_ap) 12)), 20)"
  by (rule wifi_failed_restore_sticks[where x = 12 and wm = "fst wifi_admin_ap"
        and err = ESP_FAIL and ?x1.0 = "snd (snd (wifi_manager_restore_normal (wifi_driver 14) (fst wifi_admin_ap) 12))"])
    (simp_all add: wifi_admin_ap_simps wifi_manager_restore_normal_def Let_def restore_driver_def wifi_driver_def
      configure_sta_from_def)

end
