(* ===== verification/Zone_Gateway.thy ===== *)
theory Zone_Gateway
  imports Wifi_Manager
begin

text \<open>
  The zone gateway (\<open>zone_gateway.c\<close>): a task that waits for the uplink of the WiFi manager, opens
  address translation (NAPT) between the zone and the router, watches the uplink and closes NAPT
  when it is asked to stop.

  The task is a program counter over its delays.  One \<open>gateway_task\<close> step runs from one
  \<open>vTaskDelay\<close> to the next; the calls of other tasks (\<open>zone_gateway_start\<close>, \<open>zone_gateway_stop\<close>) and
  the changes of the WiFi manager happen between these steps, in any order.  The network interface
  calls of the ESP-IDF and the outcome of \<open>xTaskCreate\<close> are parameters.
\<close>

subsection \<open>Data\<close>

datatype zone_gateway_state =
    ZONE_GATEWAY_STATE_STOPPED
  | ZONE_GATEWAY_STATE_WAITING_UPLINK
  | ZONE_GATEWAY_STATE_RUNNING
  | ZONE_GATEWAY_STATE_ERROR

record zone_gateway_config =
  gc_wait_for_sta_ip :: bool
  gc_wait_interval_ms :: u32
  gc_uplink_timeout_ms :: u32
  gc_set_sta_as_default :: bool
  gc_auto_recover :: bool

record zone_gateway_status =
  gst_state :: zone_gateway_state
  gst_napt_enabled :: bool
  gst_sta_has_ip :: bool
  gst_start_attempts :: u32
  gst_last_error :: esp_err

text \<open>Where the task stands: not yet run, in the delay of the wait with the time it has waited, or in
  the delay of the main loop.\<close>

datatype gateway_pc = GW_ENTRY | GW_WAIT u32 | GW_LOOP

record zone_gateway =
  gw_task :: "gateway_pc option"
  gw_config :: zone_gateway_config
  gw_state :: zone_gateway_state
  gw_napt_enabled :: bool
  gw_stop_requested :: bool
  gw_start_attempts :: u32
  gw_last_error :: esp_err

definition load_default_config :: zone_gateway_config where
  "load_default_config = \<lparr> gc_wait_for_sta_ip = True, gc_wait_interval_ms = 500,
     gc_uplink_timeout_ms = 30000, gc_set_sta_as_default = True, gc_auto_recover = False \<rparr>"

definition zone_gateway_boot :: zone_gateway where
  "zone_gateway_boot = \<lparr> gw_task = None, gw_config = \<lparr> gc_wait_for_sta_ip = False, gc_wait_interval_ms = 0,
       gc_uplink_timeout_ms = 0, gc_set_sta_as_default = False, gc_auto_recover = False \<rparr>,
     gw_state = ZONE_GATEWAY_STATE_STOPPED, gw_napt_enabled = False, gw_stop_requested = False,
     gw_start_attempts = 0, gw_last_error = ESP_OK \<rparr>"

record 'x netif_api =
  esp_netif_set_default_netif :: "nat \<Rightarrow> 'x \<Rightarrow> esp_err \<times> 'x"
  esp_netif_napt_enable :: "nat \<Rightarrow> 'x \<Rightarrow> esp_err \<times> 'x"
  esp_netif_napt_disable :: "nat \<Rightarrow> 'x \<Rightarrow> esp_err \<times> 'x"

subsection \<open>The task\<close>

definition enable_gateway_napt ::
  "'x netif_api \<Rightarrow> wifi_manager \<Rightarrow> zone_gateway \<Rightarrow> 'x \<Rightarrow> esp_err \<times> zone_gateway \<times> 'x" where
  "enable_gateway_napt api wm g x =
     (case (wifi_manager_get_sta_netif wm, wifi_manager_get_ap_netif wm) of
        (Some sta, Some ap) \<Rightarrow>
          (case (if gc_set_sta_as_default (gw_config g) then esp_netif_set_default_netif api sta x
                 else (ESP_OK, x)) of
             (err, x) \<Rightarrow>
               if err \<noteq> ESP_OK then (err, g, x)
               else (case esp_netif_napt_enable api ap x of
                   (err, x) \<Rightarrow>
                     if err \<noteq> ESP_OK then (err, g, x)
                     else (ESP_OK, g \<lparr> gw_napt_enabled := True \<rparr>, x)))
      | _ \<Rightarrow> (ESP_ERR_INVALID_STATE, g, x))"

definition disable_gateway_napt ::
  "'x netif_api \<Rightarrow> wifi_manager \<Rightarrow> zone_gateway \<Rightarrow> 'x \<Rightarrow> esp_err \<times> zone_gateway \<times> 'x" where
  "disable_gateway_napt api wm g x =
     (case wifi_manager_get_ap_netif wm of
        None \<Rightarrow> (ESP_ERR_INVALID_STATE, g, x)
      | Some ap \<Rightarrow>
          (case esp_netif_napt_disable api ap x of
             (err, x) \<Rightarrow> (err, if err = ESP_OK then g \<lparr> gw_napt_enabled := False \<rparr> else g, x)))"

definition gateway_fail :: "esp_err \<Rightarrow> zone_gateway \<Rightarrow> zone_gateway" where
  "gateway_fail err g =
     g \<lparr> gw_state := ZONE_GATEWAY_STATE_ERROR, gw_last_error := err, gw_task := None \<rparr>"

text \<open>One round of the main loop, up to its delay, or the way out of it.\<close>

definition gateway_loop ::
  "'x netif_api \<Rightarrow> wifi_manager \<Rightarrow> zone_gateway \<Rightarrow> 'x \<Rightarrow> zone_gateway \<times> 'x" where
  "gateway_loop api wm g x =
     (if \<not> gw_stop_requested g
      then ((if gc_auto_recover (gw_config g)
             then if \<not> wifi_manager_has_ip wm then g \<lparr> gw_state := ZONE_GATEWAY_STATE_WAITING_UPLINK \<rparr>
                  else if gw_state g = ZONE_GATEWAY_STATE_WAITING_UPLINK
                  then g \<lparr> gw_state := ZONE_GATEWAY_STATE_RUNNING \<rparr> else g
             else g) \<lparr> gw_task := Some GW_LOOP \<rparr>, x)
      else (case disable_gateway_napt api wm g x of
          (_, g, x) \<Rightarrow> (g \<lparr> gw_state := ZONE_GATEWAY_STATE_STOPPED, gw_task := None \<rparr>, x)))"

definition gateway_open ::
  "'x netif_api \<Rightarrow> wifi_manager \<Rightarrow> zone_gateway \<Rightarrow> 'x \<Rightarrow> zone_gateway \<times> 'x" where
  "gateway_open api wm g x =
     (case enable_gateway_napt api wm (g \<lparr> gw_start_attempts := gw_start_attempts g + 1 \<rparr>) x of
        (err, g, x) \<Rightarrow>
          if err \<noteq> ESP_OK then (gateway_fail err g, x)
          else gateway_loop api wm (g \<lparr> gw_state := ZONE_GATEWAY_STATE_RUNNING \<rparr>) x)"

text \<open>One round of \<open>wait_for_uplink_ip\<close> with what the task does at its result.\<close>

definition wait_for_uplink_ip ::
  "'x netif_api \<Rightarrow> wifi_manager \<Rightarrow> u32 \<Rightarrow> zone_gateway \<Rightarrow> 'x \<Rightarrow> zone_gateway \<times> 'x" where
  "wait_for_uplink_ip api wm waited g x =
     (let interval = (if gc_wait_interval_ms (gw_config g) \<noteq> 0 then gc_wait_interval_ms (gw_config g) else 500)
      in if gw_stop_requested g then (gateway_fail ESP_ERR_TIMEOUT g, x)
         else if wifi_manager_has_ip wm then gateway_open api wm g x
         else if gc_uplink_timeout_ms (gw_config g) > 0 \<and> waited \<ge> gc_uplink_timeout_ms (gw_config g)
         then (gateway_fail ESP_ERR_TIMEOUT g, x)
         else (g \<lparr> gw_task := Some (GW_WAIT (waited + interval)) \<rparr>, x))"

definition gateway_task ::
  "'x netif_api \<Rightarrow> wifi_manager \<Rightarrow> zone_gateway \<Rightarrow> 'x \<Rightarrow> zone_gateway \<times> 'x" where
  "gateway_task api wm g x =
     (case gw_task g of
        None \<Rightarrow> (g, x)
      | Some GW_ENTRY \<Rightarrow>
          (let g = g \<lparr> gw_state := ZONE_GATEWAY_STATE_WAITING_UPLINK, gw_napt_enabled := False,
                       gw_last_error := ESP_OK \<rparr>
           in if gc_wait_for_sta_ip (gw_config g) then wait_for_uplink_ip api wm 0 g x
              else gateway_open api wm g x)
      | Some (GW_WAIT waited) \<Rightarrow> wait_for_uplink_ip api wm waited g x
      | Some GW_LOOP \<Rightarrow> gateway_loop api wm g x)"

subsection \<open>Operations\<close>

definition zone_gateway_start ::
  "zone_gateway_config option \<Rightarrow> bool \<Rightarrow> zone_gateway \<Rightarrow> esp_err \<times> zone_gateway" where
  "zone_gateway_start config created g =
     (if gw_task g \<noteq> None then (ESP_OK, g)
      else (let c = (case config of
                       None \<Rightarrow> load_default_config
                     | Some c \<Rightarrow> if gc_wait_interval_ms c = 0 then c \<lparr> gc_wait_interval_ms := 500 \<rparr> else c);
                g = g \<lparr> gw_config := c, gw_stop_requested := False,
                        gw_state := ZONE_GATEWAY_STATE_WAITING_UPLINK, gw_napt_enabled := False,
                        gw_last_error := ESP_OK \<rparr>
            in if \<not> created
               then (ESP_ERR_NO_MEM, g \<lparr> gw_state := ZONE_GATEWAY_STATE_ERROR, gw_last_error := ESP_ERR_NO_MEM \<rparr>)
               else (ESP_OK, g \<lparr> gw_task := Some GW_ENTRY \<rparr>)))"

definition zone_gateway_stop :: "zone_gateway \<Rightarrow> esp_err \<times> zone_gateway" where
  "zone_gateway_stop g =
     (if gw_task g = None then (ESP_OK, g) else (ESP_OK, g \<lparr> gw_stop_requested := True \<rparr>))"

definition zone_gateway_get_status :: "wifi_manager \<Rightarrow> zone_gateway \<Rightarrow> zone_gateway_status" where
  "zone_gateway_get_status wm g = \<lparr> gst_state = gw_state g, gst_napt_enabled = gw_napt_enabled g,
     gst_sta_has_ip = wifi_manager_has_ip wm, gst_start_attempts = gw_start_attempts g,
     gst_last_error = gw_last_error g \<rparr>"

definition zone_gateway_is_running :: "zone_gateway \<Rightarrow> bool" where
  "zone_gateway_is_running g \<longleftrightarrow> gw_state g = ZONE_GATEWAY_STATE_RUNNING"

definition zone_gateway_is_napt_enabled :: "zone_gateway \<Rightarrow> bool" where
  "zone_gateway_is_napt_enabled g = gw_napt_enabled g"

text \<open>
  The polling loop of \<open>zone_gateway_start_and_wait\<close>; \<open>others i\<close> is what the rest of the system does
  during the \<open>i\<close>-th delay.  The time waited is a 32-bit sum, so the loop need not end.
\<close>

partial_function (option) start_wait_loop ::
  "(nat \<Rightarrow> 's \<Rightarrow> 's) \<Rightarrow> ('s \<Rightarrow> bool) \<Rightarrow> u32 \<Rightarrow> u32 \<Rightarrow> nat \<Rightarrow> u32 \<Rightarrow> 's \<Rightarrow> (esp_err \<times> 's) option" where
  "start_wait_loop others up timeout_ms poll_ms i waited s =
     (if waited < timeout_ms
      then if up s then Some (ESP_OK, s)
           else start_wait_loop others up timeout_ms poll_ms (Suc i) (waited + poll_ms) (others i s)
      else Some (ESP_ERR_TIMEOUT, s))"

type_synonym 'x gateway_system = "zone_gateway \<times> wifi_manager \<times> 'x"

definition gateway_up :: "'x gateway_system \<Rightarrow> bool" where
  "gateway_up s \<longleftrightarrow> zone_gateway_is_running (fst s) \<and> zone_gateway_is_napt_enabled (fst s)"

definition zone_gateway_start_and_wait ::
  "(nat \<Rightarrow> 'x gateway_system \<Rightarrow> 'x gateway_system) \<Rightarrow> zone_gateway_config option \<Rightarrow> bool \<Rightarrow> u32 \<Rightarrow> u32
     \<Rightarrow> 'x gateway_system \<Rightarrow> (esp_err \<times> 'x gateway_system) option" where
  "zone_gateway_start_and_wait others config created timeout_ms poll_ms s =
     (case s of (g, rest) \<Rightarrow>
        (case zone_gateway_start config created g of
           (err, g) \<Rightarrow>
             if err \<noteq> ESP_OK then Some (err, g, rest)
             else start_wait_loop others gateway_up timeout_ms (if poll_ms = 0 then 250 else poll_ms) 0 0 (g, rest)))"

subsection \<open>Interleavings\<close>

datatype gateway_op =
    GwStart "zone_gateway_config option" bool
  | GwStop
  | GwTick
  | GwWifi wifi_manager

definition gateway_step :: "'x netif_api \<Rightarrow> gateway_op \<Rightarrow> 'x gateway_system \<Rightarrow> esp_err \<times> 'x gateway_system" where
  "gateway_step api op s =
     (case s of (g, wm, x) \<Rightarrow>
        (case op of
           GwStart config created \<Rightarrow> (case zone_gateway_start config created g of (err, g) \<Rightarrow> (err, g, wm, x))
         | GwStop \<Rightarrow> (case zone_gateway_stop g of (err, g) \<Rightarrow> (err, g, wm, x))
         | GwTick \<Rightarrow> (case gateway_task api wm g x of (g, x) \<Rightarrow> (ESP_OK, g, wm, x))
         | GwWifi wm' \<Rightarrow> (ESP_OK, g, wm', x)))"

subsection \<open>The state machine\<close>

text \<open>What the ESP-IDF documents of NAPT, with \<open>on\<close> reading from the network stack whether it is open:
  a successful enable opens it, setting the default interface leaves it, a failed disable leaves it.\<close>

definition napt_law :: "'x netif_api \<Rightarrow> ('x \<Rightarrow> bool) \<Rightarrow> bool" where
  "napt_law api on \<longleftrightarrow>
     (\<forall>n x. fst (esp_netif_napt_enable api n x) = ESP_OK \<longrightarrow> on (snd (esp_netif_napt_enable api n x))) \<and>
     (\<forall>n x. fst (esp_netif_napt_disable api n x) = ESP_OK \<longrightarrow> \<not> on (snd (esp_netif_napt_disable api n x))) \<and>
     (\<forall>n x. fst (esp_netif_napt_disable api n x) \<noteq> ESP_OK \<longrightarrow> on (snd (esp_netif_napt_disable api n x)) = on x) \<and>
     (\<forall>n x. on (snd (esp_netif_set_default_netif api n x)) = on x)"

definition gateway_inv :: "('x \<Rightarrow> bool) \<Rightarrow> 'x gateway_system \<Rightarrow> bool" where
  "gateway_inv on s \<longleftrightarrow>
     (case s of (g, wm, x) \<Rightarrow>
        (gw_napt_enabled g \<longrightarrow> on x) \<and>
        (case gw_task g of
           None \<Rightarrow> gw_state g = ZONE_GATEWAY_STATE_STOPPED \<or> gw_state g = ZONE_GATEWAY_STATE_ERROR
         | Some GW_LOOP \<Rightarrow> gw_napt_enabled g \<and>
             (gw_state g = ZONE_GATEWAY_STATE_RUNNING \<or> gw_state g = ZONE_GATEWAY_STATE_WAITING_UPLINK)
         | Some _ \<Rightarrow> \<not> gw_napt_enabled g \<and> gw_state g = ZONE_GATEWAY_STATE_WAITING_UPLINK))"

lemma gateway_loop_inv:
  assumes "napt_law api on" "gw_napt_enabled g" "on x"
    "gw_state g = ZONE_GATEWAY_STATE_RUNNING \<or> gw_state g = ZONE_GATEWAY_STATE_WAITING_UPLINK"
    "gateway_loop api wm g x = (g', x')"
  shows "gateway_inv on (g', wm', x')"
proof (cases "gw_stop_requested g")
  case False
  with assms show ?thesis by (auto simp: gateway_loop_def gateway_inv_def split: if_splits)
next
  case True
  have "(case disable_gateway_napt api wm g x of (err, g1, x1) \<Rightarrow> gw_napt_enabled g1 \<longrightarrow> on x1)"
    using assms(1-3)
    by (auto simp: disable_gateway_napt_def napt_law_def split: option.splits prod.splits)
      (metis fst_conv snd_conv)
  with True assms(5) show ?thesis
    by (auto simp: gateway_loop_def gateway_inv_def split: prod.splits)
qed

lemma enable_napt_cases:
  assumes "napt_law api on" "enable_gateway_napt api wm g x = (err, g', x')"
  shows "(err = ESP_OK \<and> g' = g \<lparr> gw_napt_enabled := True \<rparr> \<and> on x') \<or> (err \<noteq> ESP_OK \<and> g' = g)"
proof -
  have on: "\<And>n x x'. esp_netif_napt_enable api n x = (ESP_OK, x') \<Longrightarrow> on x'"
    using assms(1) unfolding napt_law_def by (metis fst_conv snd_conv)
  from assms(2) show ?thesis
    by (auto simp: enable_gateway_napt_def on split: option.splits prod.splits if_splits)
qed

lemma gateway_open_inv:
  assumes "napt_law api on" "\<not> gw_napt_enabled g" "gateway_open api wm g x = (g', x')"
  shows "gateway_inv on (g', wm', x')"
proof -
  let ?g = "g \<lparr> gw_start_attempts := gw_start_attempts g + 1 \<rparr>"
  obtain err g1 x1 where e: "enable_gateway_napt api wm ?g x = (err, g1, x1)" by (rule prod_cases3)
  from enable_napt_cases[OF assms(1) e] show ?thesis
  proof
    assume "err = ESP_OK \<and> g1 = ?g \<lparr> gw_napt_enabled := True \<rparr> \<and> on x1"
    with assms(3) e show ?thesis
      by (intro gateway_loop_inv[OF assms(1), of "g1 \<lparr> gw_state := ZONE_GATEWAY_STATE_RUNNING \<rparr>" x1])
        (simp_all add: gateway_open_def)
  next
    assume "err \<noteq> ESP_OK \<and> g1 = ?g"
    with assms e show ?thesis by (auto simp: gateway_open_def gateway_fail_def gateway_inv_def)
  qed
qed

lemma wait_inv:
  assumes "napt_law api on" "\<not> gw_napt_enabled g" "gw_state g = ZONE_GATEWAY_STATE_WAITING_UPLINK"
    "wait_for_uplink_ip api wm waited g x = (g', x')"
  shows "gateway_inv on (g', wm', x')"
  using assms gateway_open_inv[OF assms(1,2), of wm x g' x' wm']
  by (auto simp: wait_for_uplink_ip_def Let_def gateway_fail_def gateway_inv_def split: if_splits)

lemma gateway_task_inv:
  assumes "napt_law api on" "gateway_inv on (g, wm, x)" "gateway_task api wm g x = (g', x')"
  shows "gateway_inv on (g', wm', x')"
proof (cases "gw_task g")
  case None
  with assms show ?thesis by (auto simp: gateway_task_def gateway_inv_def)
next
  case (Some pc)
  let ?e = "g \<lparr> gw_state := ZONE_GATEWAY_STATE_WAITING_UPLINK, gw_napt_enabled := False, gw_last_error := ESP_OK \<rparr>"
  show ?thesis
  proof (cases pc)
    case GW_ENTRY
    with Some assms show ?thesis
      using gateway_open_inv[OF assms(1), of ?e wm x g' x' wm'] wait_inv[OF assms(1), of ?e wm 0 x g' x' wm']
      by (simp add: gateway_task_def Let_def split: if_splits)
  next
    case (GW_WAIT w)
    with Some assms show ?thesis
      using wait_inv[OF assms(1), of g wm w x g' x' wm'] by (simp add: gateway_task_def gateway_inv_def)
  next
    case GW_LOOP
    with Some assms show ?thesis
      by (intro gateway_loop_inv[OF assms(1), of g x]) (simp_all add: gateway_task_def gateway_inv_def)
  qed
qed

lemma gateway_step_inv:
  assumes "napt_law api on" "gateway_inv on s"
  shows "gateway_inv on (snd (gateway_step api op s))"
proof -
  obtain g wm x where s: "s = (g, wm, x)" by (rule prod_cases3)
  show ?thesis
  proof (cases op)
    case (GwStart config created)
    with assms(2) s show ?thesis
      by (auto simp: gateway_step_def zone_gateway_start_def Let_def gateway_inv_def)
  next
    case GwStop
    with assms(2) s show ?thesis
      by (auto simp: gateway_step_def zone_gateway_stop_def gateway_inv_def split: option.splits gateway_pc.splits)
  next
    case GwTick
    obtain g' x' where "gateway_task api wm g x = (g', x')" by (rule prod.exhaust)
    with GwTick assms s gateway_task_inv[OF assms(1)] show ?thesis by (simp add: gateway_step_def)
  next
    case (GwWifi wm')
    with assms(2) s show ?thesis by (simp add: gateway_step_def gateway_inv_def)
  qed
qed

interpretation gateway: module_invariant "\<lambda>s. napt_law api on \<and> gateway_inv on s" "\<lambda>_. True" "gateway_step api"
  for api :: "'x netif_api" and on :: "'x \<Rightarrow> bool"
  by unfold_locales (simp add: gateway_step_inv)

subsection \<open>The waits\<close>

definition gateway_waiting :: "zone_gateway \<Rightarrow> bool" where
  "gateway_waiting g \<longleftrightarrow> (case gw_task g of Some GW_ENTRY \<Rightarrow> True | Some (GW_WAIT _) \<Rightarrow> True | _ \<Rightarrow> False)"

definition wait_interval :: "zone_gateway_config \<Rightarrow> nat" where
  "wait_interval c = unat (if gc_wait_interval_ms c \<noteq> 0 then gc_wait_interval_ms c else 500)"

definition wait_rank :: "zone_gateway \<Rightarrow> nat" where
  "wait_rank g = poll_rounds (unat (gc_uplink_timeout_ms (gw_config g))
       - (case gw_task g of Some (GW_WAIT w) \<Rightarrow> unat w | _ \<Rightarrow> 0)) (wait_interval (gw_config g)) + 1"

lemma wait_interval_pos [simp]: "0 < wait_interval c"
  by (simp add: wait_interval_def unat_gt_0)

definition timed_wait :: "zone_gateway_config \<Rightarrow> bool" where
  "timed_wait c \<longleftrightarrow> 0 < gc_uplink_timeout_ms c \<and>
     unat (gc_uplink_timeout_ms c) + wait_interval c \<le> 2 ^ 32"

lemma loop_not_waiting: "\<not> gateway_waiting (fst (gateway_loop api wm g x))"
  by (simp add: gateway_loop_def gateway_waiting_def split: prod.splits)

lemma fail_not_waiting: "\<not> gateway_waiting (gateway_fail err g)"
  by (simp add: gateway_fail_def gateway_waiting_def)

lemma open_not_waiting: "\<not> gateway_waiting (fst (gateway_open api wm g x))"
  by (auto simp: gateway_open_def loop_not_waiting fail_not_waiting split: prod.splits)

lemma wait_progress:
  assumes "timed_wait (gw_config g)" "gateway_waiting (fst (wait_for_uplink_ip api wm w g x))"
  shows "gw_config (fst (wait_for_uplink_ip api wm w g x)) = gw_config g"
    and "wait_rank (fst (wait_for_uplink_ip api wm w g x)) \<le>
      poll_rounds (unat (gc_uplink_timeout_ms (gw_config g)) - unat w) (wait_interval (gw_config g))"
proof -
  let ?c = "gw_config g" and ?t = "gc_uplink_timeout_ms (gw_config g)"
  let ?i = "if gc_wait_interval_ms ?c \<noteq> 0 then gc_wait_interval_ms ?c else 500"
  have lt: "w < ?t" and g': "fst (wait_for_uplink_ip api wm w g x) = g \<lparr> gw_task := Some (GW_WAIT (w + ?i)) \<rparr>"
    using assms fail_not_waiting open_not_waiting[of api wm g x]
    by (auto simp: wait_for_uplink_ip_def Let_def timed_wait_def split: if_splits)
  then show "gw_config (fst (wait_for_uplink_ip api wm w g x)) = ?c" by simp
  have u: "unat (w + ?i) = unat w + wait_interval ?c"
    unfolding wait_interval_def
    by (rule unat_add_below[OF lt]) (use assms(1) in \<open>simp add: timed_wait_def wait_interval_def\<close>)
  have r: "wait_rank (g \<lparr> gw_task := Some (GW_WAIT (w + ?i)) \<rparr>) =
      poll_rounds (unat ?t - unat (w + ?i)) (wait_interval ?c) + 1"
    by (simp add: wait_rank_def)
  show "wait_rank (fst (wait_for_uplink_ip api wm w g x)) \<le> poll_rounds (unat ?t - unat w) (wait_interval ?c)"
    unfolding g' r u using poll_rounds_step[of "wait_interval ?c" "unat w" "unat ?t"] lt
    by (simp add: word_less_nat_alt)
qed

lemma tick_progress:
  assumes "timed_wait (gw_config g)" "gateway_waiting g" "gateway_waiting (fst (gateway_task api wm g x))"
  shows "gw_config (fst (gateway_task api wm g x)) = gw_config g \<and> wait_rank (fst (gateway_task api wm g x)) < wait_rank g"
proof -
  consider "gw_task g = Some GW_ENTRY" | w where "gw_task g = Some (GW_WAIT w)"
    using assms(2) by (auto simp: gateway_waiting_def split: option.splits gateway_pc.splits)
  then show ?thesis
  proof cases
    case 1
    let ?e = "g \<lparr> gw_state := ZONE_GATEWAY_STATE_WAITING_UPLINK, gw_napt_enabled := False, gw_last_error := ESP_OK \<rparr>"
    have task: "gateway_task api wm g x = wait_for_uplink_ip api wm 0 ?e x"
      using 1 assms(3) open_not_waiting[of api wm ?e x] by (auto simp: gateway_task_def Let_def split: if_splits)
    have e: "timed_wait (gw_config ?e)" "gateway_waiting (fst (wait_for_uplink_ip api wm 0 ?e x))"
      using assms(1,3) task by simp_all
    from wait_progress[OF e] 1 task show ?thesis by (simp add: wait_rank_def)
  next
    case 2
    then have task: "gateway_task api wm g x = wait_for_uplink_ip api wm w g x" by (simp add: gateway_task_def)
    with assms(3) have "gateway_waiting (fst (wait_for_uplink_ip api wm w g x))" by simp
    from wait_progress[OF assms(1) this] 2 task show ?thesis by (simp add: wait_rank_def)
  qed
qed

lemma other_progress:
  assumes "gateway_waiting g" "op \<noteq> GwTick"
  shows "\<exists>g' wm'. snd (gateway_step api op (g, wm, x)) = (g', wm', x) \<and> gw_config g' = gw_config g \<and>
    gateway_waiting g' \<and> wait_rank g' = wait_rank g"
  using assms
  by (cases op) (auto simp: gateway_step_def zone_gateway_start_def zone_gateway_stop_def gateway_waiting_def wait_rank_def
      split: option.splits)

lemma wait_ends:
  "timed_wait (gw_config g) \<Longrightarrow> gateway_waiting g \<Longrightarrow> wait_rank g \<le> count_list ops GwTick \<Longrightarrow>
     \<exists>k\<le>length ops. \<not> gateway_waiting (fst (snd (run (gateway_step api) (take k ops) (g, wm, x))))"
proof (induction ops arbitrary: g wm x)
  case Nil
  then show ?case by (simp add: wait_rank_def)
next
  case (Cons op ops)
  obtain g' wm' x' where s: "snd (gateway_step api op (g, wm, x)) = (g', wm', x')" by (rule prod_cases3)
  have run: "fst (snd (run (gateway_step api) (take (Suc k) (op # ops)) (g, wm, x))) =
      fst (snd (run (gateway_step api) (take k ops) (g', wm', x')))" for k
    by (simp add: run_Cons_simp s del: run.simps(2))
  show ?case
  proof (cases "gateway_waiting g'")
    case False
    then show ?thesis using run[of 0] by (intro exI[of _ 1]) simp
  next
    case w: True
    have "gw_config g' = gw_config g \<and> wait_rank g' \<le> count_list ops GwTick"
    proof (cases "op = GwTick")
      case True
      with s have "g' = fst (gateway_task api wm g x)"
        by (auto simp: gateway_step_def split: prod.splits)
      with tick_progress[OF Cons.prems(1,2), of api wm x] w Cons.prems(3) True show ?thesis by simp
    next
      case False
      with other_progress[OF Cons.prems(2), of op api wm x] s Cons.prems(3) show ?thesis by auto
    qed
    with Cons.IH[of g' wm' x'] Cons.prems(1) w
    obtain k where "k \<le> length ops" "\<not> gateway_waiting (fst (snd (run (gateway_step api) (take k ops) (g', wm', x'))))"
      by auto
    then show ?thesis using run[of k] by (intro exI[of _ "Suc k"]) simp
  qed
qed

lemma wait_rank_le: "wait_rank g \<le> poll_rounds (unat (gc_uplink_timeout_ms (gw_config g))) (wait_interval (gw_config g)) + 1"
  by (simp add: wait_rank_def poll_rounds_mono)

text \<open>The states the polling loop of \<open>zone_gateway_start_and_wait\<close> looks at.\<close>

primrec after :: "(nat \<Rightarrow> 's \<Rightarrow> 's) \<Rightarrow> 's \<Rightarrow> nat \<Rightarrow> 's" where
  "after others s 0 = s"
| "after others s (Suc i) = others i (after others s i)"

lemma start_wait_loop_ends:
  assumes "0 < p" "unat t + unat p \<le> 2 ^ 32" "unat w = i * unat p" "i \<le> poll_rounds (unat t) (unat p)"
    and "\<And>j. j < i \<Longrightarrow> \<not> up (after others s j)"
  shows "\<exists>j \<le> poll_rounds (unat t) (unat p). (\<forall>k<j. \<not> up (after others s k)) \<and>
    (j < poll_rounds (unat t) (unat p) \<longrightarrow> up (after others s j)) \<and>
    start_wait_loop others up t p i w (after others s i) =
      Some (if j < poll_rounds (unat t) (unat p) then ESP_OK else ESP_ERR_TIMEOUT, after others s j)"
  using assms(3-5)
proof (induction "poll_rounds (unat t) (unat p) - i" arbitrary: i w)
  case 0
  then have "i = poll_rounds (unat t) (unat p)" by simp
  moreover have "\<not> w < t" using less_poll_rounds[of "unat p" i "unat t"] 0 assms(1) calculation
    by (simp add: word_less_nat_alt unat_gt_0)
  ultimately show ?case using 0 by (intro exI[of _ i]) (simp add: start_wait_loop.simps)
next
  case (Suc n)
  then have i: "i < poll_rounds (unat t) (unat p)" by simp
  then have w: "w < t" using less_poll_rounds[of "unat p" i "unat t"] Suc assms(1)
    by (simp add: word_less_nat_alt unat_gt_0)
  show ?case
  proof (cases "up (after others s i)")
    case True
    with i w Suc show ?thesis by (intro exI[of _ i]) (simp add: start_wait_loop.simps)
  next
    case False
    have "unat (w + p) = Suc i * unat p"
      using unat_add_below[OF w assms(2)] Suc.prems(1) by simp
    moreover have "\<And>j. j < Suc i \<Longrightarrow> \<not> up (after others s j)"
      using False Suc.prems(3) by (auto simp: less_Suc_eq)
    ultimately show ?thesis
      using Suc.hyps(1)[of "Suc i" "w + p"] Suc.hyps(2) i w False by (simp add: start_wait_loop.simps[of _ _ _ _ i])
  qed
qed

subsection \<open>What the gateway guarantees\<close>

text \<open>The states of the gateway mean what they say.  Whatever sequence of starts, stops, task steps and
  changes of the WiFi manager follows, a gateway that reports running has a living task, reports
  NAPT as enabled and NAPT is open in the network stack; one that reports an error or stopped has no
  task, and a task that still waits for the uplink has not opened NAPT.\<close>

theorem gateway_states_truthful:
  assumes "napt_law api on" and "gateway_inv on s"
    and "snd (run (gateway_step api) ops s) = (g, wm, x)"
  shows "(zone_gateway_is_running g \<longrightarrow> gw_task g = Some GW_LOOP \<and> zone_gateway_is_napt_enabled g \<and> on x) \<and>
    (zone_gateway_is_napt_enabled g \<longrightarrow> on x) \<and> (gateway_waiting g \<longrightarrow> \<not> zone_gateway_is_napt_enabled g) \<and>
    (gw_task g = None \<longleftrightarrow> gw_state g = ZONE_GATEWAY_STATE_STOPPED \<or> gw_state g = ZONE_GATEWAY_STATE_ERROR)"
proof -
  have "gateway_inv on (g, wm, x)"
    using gateway.run_inv[of api on s ops] assms by (simp add: list_all_iff)
  then show ?thesis
    by (auto simp: gateway_inv_def gateway_waiting_def zone_gateway_is_running_def zone_gateway_is_napt_enabled_def
        split: option.splits gateway_pc.splits)
qed

text \<open>The wait for the uplink ends.  With a timeout that fits the 32-bit clock together with one
  interval, a task that waits for the uplink leaves the wait after at most the timeout divided by the
  interval, rounded up, and one more of its steps, whatever starts, stops and changes of the WiFi
  manager come in between.\<close>

theorem gateway_wait_terminates:
  assumes "timed_wait (gw_config g)" and "gateway_waiting g"
    and "poll_rounds (unat (gc_uplink_timeout_ms (gw_config g))) (wait_interval (gw_config g)) + 1 \<le> count_list ops GwTick"
  shows "\<exists>k\<le>length ops. \<not> gateway_waiting (fst (snd (run (gateway_step api) (take k ops) (g, wm, x))))"
  by (rule wait_ends[OF assms(1,2) order.trans[OF wait_rank_le assms(3)]])

text \<open>\<open>zone_gateway_start_and_wait\<close> returns, and with the right answer.  When the timeout and one
  polling period fit the 32-bit clock and the task could be created, the call returns after at most
  the timeout divided by the period, rounded up, polls: with success at the first poll that finds
  the gateway running with NAPT enabled, and with a timeout exactly when no poll did.\<close>

theorem gateway_start_and_wait_returns:
  fixes poll_ms :: u32
  defines "p \<equiv> if poll_ms = 0 then 250 else poll_ms"
  assumes "unat timeout_ms + unat p \<le> 2 ^ 32" and "zone_gateway_start config created g = (ESP_OK, g')"
  shows "\<exists>j \<le> poll_rounds (unat timeout_ms) (unat p). (\<forall>k<j. \<not> gateway_up (after others (g', rest) k)) \<and>
    (j < poll_rounds (unat timeout_ms) (unat p) \<longrightarrow> gateway_up (after others (g', rest) j)) \<and>
    zone_gateway_start_and_wait others config created timeout_ms poll_ms (g, rest) =
      Some (if j < poll_rounds (unat timeout_ms) (unat p) then ESP_OK else ESP_ERR_TIMEOUT, after others (g', rest) j)"
proof -
  have "0 < p" by (simp add: p_def word_gt_0)
  from start_wait_loop_ends[OF this assms(2), of 0 0 gateway_up others "(g', rest)"]
  show ?thesis by (simp add: zone_gateway_start_and_wait_def assms(3) p_def[symmetric])
qed

text \<open>A start that comes right after a stop is lost.  While the task has not yet noticed a stop, a
  start reports success and changes nothing; the next step of the task ends the gateway, although the
  last call was a successful start.\<close>

theorem gateway_start_after_stop_lost:
  assumes "gw_task g = Some GW_LOOP"
  shows "fst (run (gateway_step api) [GwStop, GwStart config created] (g, wm, x)) = [ESP_OK, ESP_OK] \<and>
    (case snd (run (gateway_step api) [GwStop, GwStart config created, GwTick] (g, wm, x)) of
       (g', _) \<Rightarrow> gw_task g' = None \<and> gw_state g' = ZONE_GATEWAY_STATE_STOPPED)"
  using assms
  by (simp add: gateway_step_def zone_gateway_stop_def zone_gateway_start_def gateway_task_def gateway_loop_def
      split: prod.splits)

subsection \<open>A network stack to run it on\<close>

text \<open>The network stack as the one bit that says whether NAPT is open, and a WiFi manager whose
  station has an address.\<close>

definition netif_sample :: "bool netif_api" where
  "netif_sample = \<lparr> esp_netif_set_default_netif = (\<lambda>_ x. (ESP_OK, x)),
     esp_netif_napt_enable = (\<lambda>_ _. (ESP_OK, True)), esp_netif_napt_disable = (\<lambda>_ _. (ESP_OK, False)) \<rparr>"

definition wifi_online :: wifi_manager where
  "wifi_online = handle_ip_event True wifi_started"

lemma netif_sample_law: "napt_law netif_sample id"
  by (simp add: napt_law_def netif_sample_def)

lemma gateway_boot_inv: "gateway_inv id (zone_gateway_boot, wifi_started, False)"
  by (simp add: gateway_inv_def zone_gateway_boot_def)

lemma wifi_online_simps: "wifi_manager_has_ip wifi_online" "wifi_manager_get_sta_netif wifi_online = Some 1"
  "wifi_manager_get_ap_netif wifi_online = Some 2"
  by (simp_all add: wifi_online_def wifi_manager_has_ip_def handle_ip_event_def wifi_started_unfold
      WIFI_MANAGER_BIT_STA_GOT_IP_def wifi_manager_get_sta_netif_def wifi_manager_get_ap_netif_def)

definition gateway_running_sample :: "bool gateway_system" where
  "gateway_running_sample = snd (run (gateway_step netif_sample) [GwStart None True, GwWifi wifi_online, GwTick]
     (zone_gateway_boot, wifi_started, False))"

lemma gateway_running_sample_eq: "\<exists>g. gateway_running_sample = (g, wifi_online, True) \<and> zone_gateway_is_running g"
  by (simp add: gateway_running_sample_def gateway_step_def zone_gateway_start_def zone_gateway_boot_def Let_def
      gateway_task_def load_default_config_def wait_for_uplink_ip_def wifi_online_simps gateway_open_def
      enable_gateway_napt_def netif_sample_def gateway_loop_def zone_gateway_is_running_def)

theorem gateway_states_truthful_witness:
  "\<exists>g. gateway_running_sample = (g, wifi_online, True) \<and> zone_gateway_is_running g \<and> gw_task g = Some GW_LOOP \<and>
     zone_gateway_is_napt_enabled g"
proof -
  obtain g where g: "gateway_running_sample = (g, wifi_online, True)" "zone_gateway_is_running g"
    using gateway_running_sample_eq by blast
  from gateway_states_truthful[OF netif_sample_law gateway_boot_inv g(1)[unfolded gateway_running_sample_def]] g
  show ?thesis by blast
qed

definition gateway_fresh :: zone_gateway where
  "gateway_fresh = snd (zone_gateway_start None True zone_gateway_boot)"

lemma gateway_fresh_simps: "gw_config gateway_fresh = load_default_config" "gw_task gateway_fresh = Some GW_ENTRY"
  "zone_gateway_start None True zone_gateway_boot = (ESP_OK, gateway_fresh)"
  by (simp_all add: gateway_fresh_def zone_gateway_start_def zone_gateway_boot_def Let_def)

theorem gateway_wait_terminates_witness:
  "\<exists>k\<le>length (replicate 61 GwTick). \<not> gateway_waiting (fst (snd (run (gateway_step netif_sample)
     (take k (replicate 61 GwTick)) (gateway_fresh, wifi_started, False))))"
proof (rule gateway_wait_terminates)
  show "timed_wait (gw_config gateway_fresh)"
    by (simp add: timed_wait_def gateway_fresh_simps load_default_config_def wait_interval_def)
  show "gateway_waiting gateway_fresh" by (simp add: gateway_waiting_def gateway_fresh_simps)
  have "count_list (replicate n GwTick) GwTick = n" for n by (induction n) auto
  then show "poll_rounds (unat (gc_uplink_timeout_ms (gw_config gateway_fresh))) (wait_interval (gw_config gateway_fresh)) + 1
      \<le> count_list (replicate 61 GwTick) GwTick"
    by (simp add: gateway_fresh_simps load_default_config_def wait_interval_def poll_rounds_def)
qed

theorem gateway_start_and_wait_returns_witness:
  "\<exists>j \<le> poll_rounds (unat (35000 :: u32)) (unat (250 :: u32)).
     zone_gateway_start_and_wait (\<lambda>_ s. snd (gateway_step netif_sample GwTick s)) None True 35000 0
       (zone_gateway_boot, wifi_online, False) =
     Some (if j < poll_rounds (unat (35000 :: u32)) (unat (250 :: u32)) then ESP_OK else ESP_ERR_TIMEOUT,
       after (\<lambda>_ s. snd (gateway_step netif_sample GwTick s)) (gateway_fresh, wifi_online, False) j)"
  using gateway_start_and_wait_returns[of 35000 0 None True zone_gateway_boot gateway_fresh
      "\<lambda>_ s. snd (gateway_step netif_sample GwTick s)" "(wifi_online, False)"]
  by (auto simp: gateway_fresh_simps)

theorem gateway_start_after_stop_lost_witness:
  "fst (run (gateway_step netif_sample) [GwStop, GwStart None True]
     (gateway_fresh \<lparr> gw_task := Some GW_LOOP \<rparr>, wifi_online, True)) = [ESP_OK, ESP_OK]"
  using gateway_start_after_stop_lost[of "gateway_fresh \<lparr> gw_task := Some GW_LOOP \<rparr>" netif_sample None True
      wifi_online True] by simp

end
