(* ===== verification/Setup_Ap.thy ===== *)
theory Setup_Ap
  imports Wifi_Manager
begin

text \<open>
  The access point of the first setup (\<open>setup_ap.c\<close>), over the driver of the WiFi manager.
  \<open>copy_str\<close> is the bounded copy \<open>safe_copy\<close> under another name.
\<close>

definition setup_ap_config :: "bytes \<Rightarrow> bytes option \<Rightarrow> wifi_ap_config" where
  "setup_ap_config ssid password =
     (let c = \<lparr> ap_ssid = safe_copy (replicate 32 0) 32 (Some ssid),
                ap_password = safe_copy (replicate 64 0) 64 password,
                ap_ssid_len = of_nat (strlen ssid), ap_channel = 6, ap_max_connection = 2,
                ap_authmode = WIFI_AUTH_OPEN, ap_ssid_hidden = 0 \<rparr>
      in if password \<noteq> None \<and> strlen (the password) \<ge> 8
         then c \<lparr> ap_authmode := WIFI_AUTH_WPA_WPA2_PSK \<rparr>
         else c \<lparr> ap_authmode := WIFI_AUTH_OPEN, ap_password := (ap_password c)[0 := 0] \<rparr>)"

text \<open>A call whose \<open>ESP_ERR_INVALID_STATE\<close> means that the part is already up.\<close>

definition up_already :: "esp_err \<times> 'x \<Rightarrow> esp_err \<times> 'x" where
  "up_already r = (if fst r = ESP_ERR_INVALID_STATE then (ESP_OK, snd r) else r)"

definition setup_ap_start ::
  "'x wifi_api \<Rightarrow> bytes option \<Rightarrow> bytes option \<Rightarrow> nat option \<Rightarrow> 'x \<Rightarrow> esp_err \<times> nat option \<times> 'x" where
  "setup_ap_start api ssid password netif x =
     (if ssid = None \<or> rd (the ssid) 0 = 0 then (ESP_ERR_INVALID_ARG, netif, x)
      else (case then_call (up_already (esp_netif_init api x)) (\<lambda>x. up_already (esp_event_loop_create_default api x)) of
          (ret, x) \<Rightarrow>
            if ret \<noteq> ESP_OK then (ret, netif, x)
            else (case esp_netif_create_default_wifi_ap api x of
              (netif, x) \<Rightarrow>
                if netif = None then (ESP_FAIL, netif, x)
                else (let r = up_already (esp_wifi_init api x);
                          r = then_call r (esp_wifi_set_mode api WIFI_MODE_AP);
                          r = then_call r (set_ap_config api (setup_ap_config (the ssid) password));
                          (ret, x) = then_call r (esp_wifi_start api)
                      in (ret, netif, x)))))"

text \<open>The setup network is protected exactly when a password of at least eight characters was given; an
  unprotected one carries no password.  The length the driver is told equals the length of the name it
  is given exactly when the name has at most 31 characters, or the 8-bit length wrapped around to 31.\<close>

theorem setup_ap_config_spec:
  "(ap_authmode (setup_ap_config ssid password) = WIFI_AUTH_WPA_WPA2_PSK \<longleftrightarrow>
      password \<noteq> None \<and> strlen (the password) \<ge> 8) \<and>
   (ap_authmode (setup_ap_config ssid password) = WIFI_AUTH_OPEN \<longrightarrow>
      strlen (ap_password (setup_ap_config ssid password)) = 0) \<and>
   (unat (ap_ssid_len (setup_ap_config ssid password)) = strlen (ap_ssid (setup_ap_config ssid password)) \<longleftrightarrow>
      strlen ssid \<le> 31 \<or> strlen ssid mod 256 = 31)"
proof -
  have "strlen (ap_ssid (setup_ap_config ssid password)) = min 31 (strlen ssid)"
    by (simp add: setup_ap_config_def Let_def strlen_def cstr_safe_copy min.commute)
  moreover have "unat (ap_ssid_len (setup_ap_config ssid password)) = strlen ssid mod 256"
    by (simp add: setup_ap_config_def Let_def unat_of_nat)
  moreover have "strlen (l[0 := 0]) = 0" for l by (cases l) (simp_all add: strlen_def)
  ultimately show ?thesis by (auto simp: setup_ap_config_def Let_def min_def)
qed

end
