(* ===== verification/Setup_Button.thy ===== *)
theory Setup_Button
  imports BN_Refine
begin

text \<open>
  The setup button (\<open>setup_button.c\<close>): a task that polls a GPIO and calls a handler when the button
  has been held.  One step of the task runs from the test of \<open>s_running\<close> to the delay; starts, stops
  and the steps of the tasks interleave.  The state keeps every task that has been created and has
  not ended, each with its two local variables.  The GPIO driver and the outcome of \<open>xTaskCreate\<close>
  are parameters; a handler is a value of type \<open>'h\<close>, and a step returns the calls it makes.
\<close>

abbreviation SETUP_BUTTON_DEFAULT_GPIO :: int where "SETUP_BUTTON_DEFAULT_GPIO \<equiv> 0"
abbreviation SETUP_BUTTON_DEFAULT_HOLD_MS :: u32 where "SETUP_BUTTON_DEFAULT_HOLD_MS \<equiv> 5000"
abbreviation SETUP_BUTTON_DEFAULT_POLL_MS :: u32 where "SETUP_BUTTON_DEFAULT_POLL_MS \<equiv> 50"

record 'h setup_button_config =
  bc_gpio_num :: int
  bc_active_low :: bool
  bc_hold_ms :: u32
  bc_poll_ms :: u32
  bc_on_hold :: "'h option"

record button_task =
  bt_pressed_ms :: u32
  bt_armed :: bool

record 'h setup_button =
  sb_config :: "'h setup_button_config"
  sb_running :: bool
  sb_tasks :: "button_task list"

definition button_pressed :: "'h setup_button_config \<Rightarrow> int \<Rightarrow> bool" where
  "button_pressed c level = (if bc_active_low c then level = 0 else level \<noteq> 0)"

definition button_task_entry :: button_task where
  "button_task_entry = \<lparr> bt_pressed_ms = 0, bt_armed = True \<rparr>"

text \<open>One round of the loop of a task while \<open>s_running\<close> is set, for the level the GPIO reads.\<close>

definition button_round :: "'h setup_button_config \<Rightarrow> int \<Rightarrow> button_task \<Rightarrow> 'h list \<times> button_task" where
  "button_round c level t =
     (if button_pressed c level
      then (let t = (if bt_pressed_ms t < bc_hold_ms c
                     then t \<lparr> bt_pressed_ms := bt_pressed_ms t + bc_poll_ms c \<rparr> else t)
            in if bt_armed t \<and> bt_pressed_ms t \<ge> bc_hold_ms c
               then ((case bc_on_hold c of None \<Rightarrow> [] | Some h \<Rightarrow> [h]), t \<lparr> bt_armed := False \<rparr>)
               else ([], t))
      else ([], t \<lparr> bt_pressed_ms := 0, bt_armed := True \<rparr>))"

text \<open>The \<open>i\<close>-th task runs to its next delay, or ends.\<close>

definition setup_button_task :: "nat \<Rightarrow> int \<Rightarrow> 'h setup_button \<Rightarrow> 'h list \<times> 'h setup_button" where
  "setup_button_task i level s =
     (if i \<ge> length (sb_tasks s) then ([], s)
      else if \<not> sb_running s then ([], s \<lparr> sb_tasks := take i (sb_tasks s) @ drop (Suc i) (sb_tasks s) \<rparr>)
      else (case button_round (sb_config s) level (sb_tasks s ! i) of
          (calls, t) \<Rightarrow> (calls, s \<lparr> sb_tasks := (sb_tasks s)[i := t] \<rparr>)))"

definition button_defaults :: "'h setup_button_config \<Rightarrow> 'h setup_button_config" where
  "button_defaults c =
     (let c = (if bc_hold_ms c = 0 then c \<lparr> bc_hold_ms := SETUP_BUTTON_DEFAULT_HOLD_MS \<rparr> else c)
      in if bc_poll_ms c = 0 then c \<lparr> bc_poll_ms := SETUP_BUTTON_DEFAULT_POLL_MS \<rparr> else c)"

text \<open>\<open>gpio_max\<close> is \<open>GPIO_NUM_MAX\<close> of the chip; \<open>gpio_config\<close> gets the pin and whether it is pulled up.\<close>

definition setup_button_start ::
  "int \<Rightarrow> (int \<Rightarrow> bool \<Rightarrow> esp_err) \<Rightarrow> bool \<Rightarrow> 'h setup_button_config option \<Rightarrow> 'h setup_button
     \<Rightarrow> esp_err \<times> 'h setup_button" where
  "setup_button_start gpio_max gpio_config created config s =
     (if sb_running s then (ESP_OK, s)
      else if config = None \<or> bc_on_hold (the config) = None then (ESP_ERR_INVALID_ARG, s)
      else (let c = the config;
                c = (if bc_gpio_num c < 0 then c \<lparr> bc_gpio_num := SETUP_BUTTON_DEFAULT_GPIO \<rparr> else c)
            in if bc_gpio_num c \<ge> gpio_max then (ESP_ERR_INVALID_ARG, s \<lparr> sb_config := c \<rparr>)
               else (let c = button_defaults c;
                         s = s \<lparr> sb_config := c \<rparr>;
                         err = gpio_config (bc_gpio_num c) (bc_active_low c)
                 in if err \<noteq> ESP_OK then (err, s)
                    else if \<not> created then (ESP_ERR_NO_MEM, s)
                    else (ESP_OK, s \<lparr> sb_running := True, sb_tasks := sb_tasks s @ [button_task_entry] \<rparr>))))"

definition setup_button_stop :: "'h setup_button \<Rightarrow> esp_err \<times> 'h setup_button" where
  "setup_button_stop s = (if \<not> sb_running s then (ESP_OK, s) else (ESP_OK, s \<lparr> sb_running := False \<rparr>))"

definition setup_button_is_running :: "'h setup_button \<Rightarrow> bool" where
  "setup_button_is_running s = sb_running s"

subsection \<open>Detection of a hold\<close>

text \<open>The rounds of one task over the levels it reads.\<close>

definition button_run :: "'h setup_button_config \<Rightarrow> int list \<Rightarrow> button_task \<Rightarrow> 'h list list \<times> button_task" where
  "button_run c levels t = run (button_round c) levels t"

text \<open>For how many polls the button has been held without a release, and how many make a hold.\<close>

definition held :: "'h setup_button_config \<Rightarrow> int list \<Rightarrow> nat" where
  "held c levels = length (takeWhile (button_pressed c) (rev levels))"

definition hold_polls :: "'h setup_button_config \<Rightarrow> nat" where
  "hold_polls c = poll_rounds (unat (bc_hold_ms c)) (unat (bc_poll_ms c))"

definition button_config_ok :: "'h setup_button_config \<Rightarrow> bool" where
  "button_config_ok c \<longleftrightarrow> 0 < bc_hold_ms c \<and> 0 < bc_poll_ms c \<and>
     unat (bc_hold_ms c) + unat (bc_poll_ms c) \<le> 2 ^ 32"

lemma held_snoc: "held c (levels @ [l]) = (if button_pressed c l then Suc (held c levels) else 0)"
  by (simp add: held_def)

lemma less_hold_polls: "button_config_ok c \<Longrightarrow> i < hold_polls c \<longleftrightarrow> i * unat (bc_poll_ms c) < unat (bc_hold_ms c)"
  unfolding hold_polls_def by (rule less_poll_rounds) (simp add: button_config_ok_def unat_gt_0 word_gt_0)

definition task_at :: "'h setup_button_config \<Rightarrow> nat \<Rightarrow> button_task" where
  "task_at c n = \<lparr> bt_pressed_ms = of_nat (min n (hold_polls c) * unat (bc_poll_ms c)), bt_armed = (n < hold_polls c) \<rparr>"

lemma hold_polls_bound:
  assumes "button_config_ok c" "n \<le> hold_polls c"
  shows "n * unat (bc_poll_ms c) < 2 ^ 32"
proof (cases n)
  case (Suc m)
  then have "m * unat (bc_poll_ms c) < unat (bc_hold_ms c)" using assms less_hold_polls[of c m] by simp
  with Suc assms(1) show ?thesis by (simp add: button_config_ok_def)
qed simp

lemma task_at_pressed:
  assumes "button_config_ok c"
  shows "unat (bt_pressed_ms (task_at c n)) = min n (hold_polls c) * unat (bc_poll_ms c)"
  using hold_polls_bound[OF assms, of "min n (hold_polls c)"]
  by (simp add: task_at_def unat_of_nat del: of_nat_mult)

lemma hold_polls_pos: "button_config_ok c \<Longrightarrow> 0 < hold_polls c"
  by (simp add: less_hold_polls) (simp add: button_config_ok_def unat_gt_0 word_gt_0)

lemma task_at_0: "button_config_ok c \<Longrightarrow> task_at c 0 = button_task_entry"
  by (simp add: task_at_def button_task_entry_def hold_polls_pos)

lemma button_round_released: "\<not> button_pressed c l \<Longrightarrow> button_config_ok c \<Longrightarrow> button_round c l t = ([], task_at c 0)"
  by (simp add: button_round_def task_at_0 button_task_entry_def)

lemma button_round_pressed:
  assumes "button_config_ok c" "button_pressed c l" "bc_on_hold c = Some h"
  shows "button_round c l (task_at c n) = (if Suc n = hold_polls c then [h] else [], task_at c (Suc n))"
proof (cases "n < hold_polls c")
  case True
  then have lt: "bt_pressed_ms (task_at c n) < bc_hold_ms c"
    using task_at_pressed[OF assms(1), of n] less_hold_polls[OF assms(1), of n] by (simp add: word_less_nat_alt)
  have "bt_pressed_ms (task_at c n) + bc_poll_ms c = bt_pressed_ms (task_at c (Suc n))"
    using True by (simp add: task_at_def min_def distrib_right not_le)
  moreover have "bt_pressed_ms (task_at c (Suc n)) \<ge> bc_hold_ms c \<longleftrightarrow> Suc n = hold_polls c"
    using task_at_pressed[OF assms(1), of "Suc n"] less_hold_polls[OF assms(1), of "Suc n"] True
    by (auto simp: word_le_nat_alt not_less[symmetric])
  ultimately show ?thesis using True lt assms(2,3)
    by (auto simp: button_round_def Let_def task_at_def add.commute)
next
  case False
  then have "\<not> bt_pressed_ms (task_at c n) < bc_hold_ms c"
    using task_at_pressed[OF assms(1), of n] less_hold_polls[OF assms(1), of "hold_polls c"]
    by (simp add: word_less_nat_alt min_def)
  with False assms(2,3) show ?thesis by (simp add: button_round_def task_at_def)
qed

lemma button_run_state:
  assumes "button_config_ok c" "bc_on_hold c = Some h"
  shows "button_run c levels button_task_entry =
    (map (\<lambda>i. if held c (take (Suc i) levels) = hold_polls c then [h] else []) [0..<length levels],
     task_at c (held c levels))"
proof (induction levels rule: rev_induct)
  case Nil
  then show ?case using task_at_0[OF assms(1)] by (simp add: button_run_def held_def)
next
  case (snoc l levels)
  have "held c (levels @ [l]) = hold_polls c \<longleftrightarrow> button_pressed c l \<and> Suc (held c levels) = hold_polls c"
    using hold_polls_pos[OF assms(1)] by (auto simp: held_snoc)
  with snoc show ?case
    by (cases "button_pressed c l")
      (simp_all add: button_run_def run_append held_snoc button_round_released[OF _ assms(1)] button_round_pressed[OF assms(1) _ assms(2)])
qed

text \<open>A hold is reported once, and only a hold.  While the button task runs, the handler is called at a
  poll exactly when the button has been pressed at that poll and at the polls before it, without a
  release, for the configured time and no longer; so each uninterrupted press that lasts long enough
  gives one call, a shorter press gives none, and a press that goes on gives no second one.\<close>

theorem button_hold_detected:
  assumes "button_config_ok c" and "bc_on_hold c = Some h"
  shows "fst (button_run c levels button_task_entry) =
    map (\<lambda>i. if held c (take (Suc i) levels) = hold_polls c then [h] else []) [0..<length levels]"
  by (simp add: button_run_state[OF assms])

subsection \<open>Starts and stops\<close>

datatype 'h button_op =
    BtnStart bool "'h setup_button_config option"
  | BtnStop
  | BtnTask nat int

definition button_step ::
  "int \<Rightarrow> (int \<Rightarrow> bool \<Rightarrow> esp_err) \<Rightarrow> 'h button_op \<Rightarrow> 'h setup_button \<Rightarrow> (esp_err \<times> 'h list) \<times> 'h setup_button" where
  "button_step gpio_max gpio_config op s =
     (case op of
        BtnStart created config \<Rightarrow>
          (case setup_button_start gpio_max gpio_config created config s of (err, s) \<Rightarrow> ((err, []), s))
      | BtnStop \<Rightarrow> (case setup_button_stop s of (err, s) \<Rightarrow> ((err, []), s))
      | BtnTask i level \<Rightarrow> (case setup_button_task i level s of (calls, s) \<Rightarrow> ((ESP_OK, calls), s)))"

text \<open>While the button runs there is a task, its configuration passed the checks of the start and its
  handler is set.\<close>

definition button_inv :: "'h setup_button \<Rightarrow> bool" where
  "button_inv s \<longleftrightarrow> (sb_running s \<longrightarrow> sb_tasks s \<noteq> [] \<and> bc_on_hold (sb_config s) \<noteq> None \<and>
     0 \<le> bc_gpio_num (sb_config s) \<and> bc_hold_ms (sb_config s) \<noteq> 0 \<and> bc_poll_ms (sb_config s) \<noteq> 0)"

lemma setup_button_start_inv:
  "button_inv s \<Longrightarrow> button_inv (snd (setup_button_start gpio_max gpio_config created config s))"
  by (cases config) (auto simp: setup_button_start_def button_inv_def Let_def button_defaults_def)

lemma button_step_inv: "button_inv s \<Longrightarrow> button_inv (snd (button_step gpio_max gpio_config op s))"
proof (cases op)
  case (BtnStart created config)
  assume "button_inv s"
  with BtnStart setup_button_start_inv[of s gpio_max gpio_config created config] show ?thesis
    by (auto simp: button_step_def split: prod.splits)
qed (auto simp: button_step_def button_inv_def setup_button_stop_def setup_button_task_def split: prod.splits)

interpretation button: module_invariant button_inv "\<lambda>_. True" "button_step gpio_max gpio_config"
  for gpio_max :: int and gpio_config :: "int \<Rightarrow> bool \<Rightarrow> esp_err"
  by unfold_locales (rule button_step_inv)

text \<open>A stop followed at once by a start leaves two tasks behind.  The stop only clears a flag that the
  task reads after its delay; a start before that sets the flag again and creates a second task, and
  from then on every hold calls the handler once from each of them.\<close>

theorem button_restart_calls_twice:
  fixes c :: "'h setup_button_config"
  defines "c' \<equiv> button_defaults c"
  assumes "sb_running s" and "sb_tasks s = [button_task_entry]"
    and "bc_on_hold c = Some h" and "0 \<le> bc_gpio_num c" and "bc_gpio_num c < gpio_max"
    and "gpio_config (bc_gpio_num c) (bc_active_low c) = ESP_OK"
    and "snd (run (button_step gpio_max gpio_config) [BtnStop, BtnStart True (Some c)] s) = s'"
    and "button_config_ok c'" and "held c' levels = hold_polls c'" and "levels \<noteq> []"
  shows "sb_running s' \<and> sb_config s' = c' \<and> length (sb_tasks s') = 2 \<and>
    (\<forall>t \<in> set (sb_tasks s'). last (fst (button_run c' levels t)) = [h])"
proof -
  have c': "bc_gpio_num c' = bc_gpio_num c" "bc_active_low c' = bc_active_low c" "bc_on_hold c' = Some h"
    using assms(4) by (simp_all add: c'_def button_defaults_def Let_def)
  have s': "s' = s \<lparr> sb_config := c', sb_tasks := [button_task_entry, button_task_entry] \<rparr>"
    using assms(2-8) c'
    by (auto simp: button_step_def setup_button_stop_def setup_button_start_def Let_def c'_def[symmetric])
  have "last (fst (button_run c' levels button_task_entry)) = [h]"
    using assms(10,11) by (simp add: button_run_state[OF assms(9) c'(3)] last_map)
  with s' assms(2) show ?thesis by simp
qed

subsection \<open>A button to press\<close>

definition button_sample :: "nat setup_button_config" where
  "button_sample = \<lparr> bc_gpio_num = 0, bc_active_low = True, bc_hold_ms = 200, bc_poll_ms = 50, bc_on_hold = Some 7 \<rparr>"

lemma button_sample_ok: "button_config_ok button_sample" "bc_on_hold button_sample = Some 7"
  "button_defaults button_sample = button_sample" "hold_polls button_sample = 4"
  by (simp_all add: button_sample_def button_config_ok_def button_defaults_def hold_polls_def poll_rounds_def)

lemma button_sample_pressed: "button_pressed button_sample l \<longleftrightarrow> l = 0"
  by (simp add: button_pressed_def button_sample_def)

theorem button_hold_detected_witness:
  "fst (button_run button_sample [1, 0, 0, 0, 0, 0, 1, 0] button_task_entry) = [[], [], [], [], [7], [], [], []]"
  using button_hold_detected[OF button_sample_ok(1,2), of "[1, 0, 0, 0, 0, 0, 1, 0]"]
  by (simp add: button_sample_ok(4) upt_rec held_def button_sample_pressed)

theorem button_restart_calls_twice_witness:
  "\<forall>t \<in> set (sb_tasks (snd (run (button_step 40 (\<lambda>_ _. ESP_OK)) [BtnStop, BtnStart True (Some button_sample)]
       \<lparr> sb_config = button_sample, sb_running = True, sb_tasks = [button_task_entry] \<rparr>))).
     last (fst (button_run button_sample [0, 0, 0, 0] t)) = [7]"
proof -
  have "held (button_defaults button_sample) [0, 0, 0, 0] = hold_polls (button_defaults button_sample)"
    by (simp add: button_sample_ok held_def button_sample_pressed)
  from button_restart_calls_twice[of "\<lparr> sb_config = button_sample, sb_running = True, sb_tasks = [button_task_entry] \<rparr>"
      button_sample 7 40 "\<lambda>_ _. ESP_OK", OF _ _ _ _ _ _ refl _ this] button_sample_ok
  show ?thesis by (simp add: button_sample_def)
qed

end
