(* ===== verification/Dns_Filter.thy ===== *)
theory Dns_Filter
  imports Policy_Engine Event_Bus
begin

text \<open>
  The DNS filter (\<open>dns_filter.c\<close>): the parser of the queried name, the rule table, the evaluation of a
  name, the local answers, and the two tasks with their start and stop.  One round of a task is one
  iteration of its loop.  Sockets, the job queue and task creation belong to lwIP and FreeRTOS and are
  parameters over an abstract world \<open>'w\<close>; the state counts the tasks that have been created and have
  not ended.  An address is an IPv4 address in host order with a port; log output is left out.
\<close>

abbreviation DNS_FILTER_MAX_RULES :: nat where "DNS_FILTER_MAX_RULES \<equiv> 32"
abbreviation DNS_FILTER_DOMAIN_LEN :: nat where "DNS_FILTER_DOMAIN_LEN \<equiv> 128"
abbreviation DNS_BUF_SIZE :: nat where "DNS_BUF_SIZE \<equiv> 512"
abbreviation DNS_JOB_QUEUE_LEN :: nat where "DNS_JOB_QUEUE_LEN \<equiv> 8"

subsection \<open>Data\<close>

datatype dns_filter_action = DNS_FILTER_ALLOW | DNS_FILTER_BLOCK | DNS_FILTER_REDIRECT | DNS_FILTER_LOG_ONLY

record dns_filter_rule =
  dr_rule_id :: u32
  dr_enabled :: bool
  dr_priority :: u16
  dr_pattern :: bytes
  dr_action :: dns_filter_action
  dr_redirect_ip :: u32
  dr_risk_score :: u8
  dr_reason :: bytes

record dns_filter_config =
  dc_listen_port :: u16
  dc_upstream_dns_ip :: u32
  dc_default_allow :: bool

record dns_filter_stats =
  dst_queries :: u64
  dst_allowed :: u64
  dst_blocked :: u64
  dst_redirected :: u64
  dst_errors :: u64
  dst_active_rules :: u32

type_synonym sockaddr = "u32 \<times> u16"

record dns_job =
  dj_query :: bytes
  dj_client_addr :: sockaddr
  dj_domain :: bytes
  dj_risk :: u8

record dns_rule_slot =
  drs_in_use :: bool
  drs_rule :: dns_filter_rule

record dns_filter =
  df_upstream_sock :: int
  df_rules :: "dns_rule_slot list"
  df_config :: dns_filter_config
  df_stats :: dns_filter_stats
  df_next_rule_id :: u32
  df_sock :: int
  df_queue :: "nat option"
  df_tasks :: nat
  df_workers :: nat
  df_running :: bool
  df_stop :: bool

definition dns_rule_zero :: dns_filter_rule where
  "dns_rule_zero = \<lparr> dr_rule_id = 0, dr_enabled = False, dr_priority = 0,
     dr_pattern = replicate DNS_FILTER_DOMAIN_LEN 0, dr_action = DNS_FILTER_ALLOW, dr_redirect_ip = 0,
     dr_risk_score = 0, dr_reason = replicate 48 0 \<rparr>"

definition dns_slot_zero :: dns_rule_slot where
  "dns_slot_zero = \<lparr> drs_in_use = False, drs_rule = dns_rule_zero \<rparr>"

definition dns_stats_zero :: dns_filter_stats where
  "dns_stats_zero = \<lparr> dst_queries = 0, dst_allowed = 0, dst_blocked = 0, dst_redirected = 0, dst_errors = 0,
     dst_active_rules = 0 \<rparr>"

subsection \<open>Names\<close>

definition dns_filter_ipv4 :: "u8 \<Rightarrow> u8 \<Rightarrow> u8 \<Rightarrow> u8 \<Rightarrow> u32" where
  "dns_filter_ipv4 a b c d = push_bit 24 (ucast a) OR push_bit 16 (ucast b) OR push_bit 8 (ucast c) OR ucast d"

text \<open>\<open>tolower\<close> of the C locale.\<close>

definition tolower :: "u8 \<Rightarrow> u8" where
  "tolower c = (if 65 \<le> c \<and> c \<le> 90 then c + 32 else c)"

definition str_lower :: "bytes \<Rightarrow> bytes" where
  "str_lower s = map tolower (cstr s) @ drop (length (cstr s)) s"

definition domain_match :: "bytes option \<Rightarrow> bytes option \<Rightarrow> bool" where
  "domain_match pattern domain =
     (case (pattern, domain) of
        (Some p, Some n) \<Rightarrow>
          if rd p 0 = 0 then False
          else if cstr p = lit ''*'' then True
          else (let d = strlen n in
            if rd p 0 = 42
            then (let suffix = tl p; s = strlen suffix
                  in d \<ge> s \<and> drop (d - s) (cstr n) = cstr suffix)
            else cstr p = cstr n)
      | _ \<Rightarrow> False)"

text \<open>The inner loop of \<open>parse_dns_qname\<close>: \<open>k\<close> bytes of the label are left, \<open>cap\<close> is \<open>out_len - 1\<close>.\<close>

fun copy_label :: "bytes \<Rightarrow> nat \<Rightarrow> nat \<Rightarrow> nat \<Rightarrow> nat \<Rightarrow> bytes \<Rightarrow> nat \<times> nat \<times> bytes" where
  "copy_label buf 0 cap pos off out = (pos, off, out)"
| "copy_label buf (Suc k) cap pos off out =
     (if off < cap then copy_label buf k cap (Suc pos) (Suc off) (out[off := rd buf pos])
      else (pos, off, out))"

lemma copy_label_pos: "pos \<le> fst (copy_label buf k cap pos off out)"
  by (induction buf k cap pos off out rule: copy_label.induct) auto

function qname_loop :: "bytes \<Rightarrow> nat \<Rightarrow> nat \<Rightarrow> nat \<Rightarrow> bytes \<Rightarrow> bool \<times> nat \<times> bytes" where
  "qname_loop buf cap pos off out =
     (if pos < length buf
      then (let label_len = rd buf pos; pos = Suc pos in
            if label_len = 0 then (True, off, out)
            else if label_len AND 0xC0 \<noteq> 0 then (False, off, out)
            else if pos + unat label_len > length buf then (False, off, out)
            else (let (off, out) = (if off > 0 \<and> off < cap then (Suc off, out[off := 46]) else (off, out))
                  in case copy_label buf (unat label_len) cap pos off out of
                       (pos, off, out) \<Rightarrow> qname_loop buf cap pos off out))
      else (True, off, out))"
  by pat_completeness auto
termination
  by (relation "measure (\<lambda>(buf, cap, pos, off, out). length buf - pos)")
    (auto simp: case_prod_beta intro!: diff_less_mono2 less_le_trans[OF lessI copy_label_pos] split: if_splits)

declare qname_loop.simps [simp del]

text \<open>The result is whether the name could be parsed, and the output buffer.\<close>

definition parse_dns_qname :: "bytes \<Rightarrow> bytes \<Rightarrow> bool \<times> bytes" where
  "parse_dns_qname buf out =
     (if length buf < 12 \<or> length out = 0 then (False, out)
      else (case qname_loop buf (length out - 1) 12 0 out of
          (ok, off, out) \<Rightarrow> if \<not> ok then (False, out) else (off > 0, str_lower (out[off := 0]))))"

function find_qname_end :: "bytes \<Rightarrow> nat \<Rightarrow> nat option" where
  "find_qname_end buf pos =
     (if pos < length buf
      then (let l = rd buf pos; pos = Suc pos in
            if l = 0 then Some pos
            else if l AND 0xC0 \<noteq> 0 then None
            else find_qname_end buf (pos + unat l))
      else None)"
  by pat_completeness auto
termination
  by (relation "measure (\<lambda>(buf, pos). length buf - pos)") auto

declare find_qname_end.simps [simp del]

text \<open>The bytes of \<open>htonl(ip)\<close> in memory.\<close>

definition be32 :: "u32 \<Rightarrow> bytes" where
  "be32 ip = [ucast (drop_bit 24 ip), ucast (drop_bit 16 ip), ucast (drop_bit 8 ip), ucast ip]"

text \<open>\<open>None\<close> is the result -1; the response is written at the front of the buffer \<open>resp\<close>.\<close>

definition build_a_response :: "bytes \<Rightarrow> bytes \<Rightarrow> u32 \<Rightarrow> nat option \<times> bytes" where
  "build_a_response query resp ip_host_order =
     (if length query < 12 \<or> length resp < length query + 16 then (None, resp)
      else (case find_qname_end query 12 of
          None \<Rightarrow> (None, resp)
        | Some qname_end \<Rightarrow>
            if qname_end + 4 > length query then (None, resp)
            else (let question_len = qname_end + 4;
                      resp = take question_len query @ drop question_len resp;
                      resp = resp[2 := 0x81, 3 := 0x80, 6 := 0x00, 7 := 0x01];
                      answer = [0xC0, 0x0C, 0x00, 0x01, 0x00, 0x01, 0x00, 0x00, 0x00, 0x3C, 0x00, 0x04]
                        @ be32 ip_host_order
                  in (Some (question_len + 16),
                      take question_len resp @ answer @ drop (question_len + 16) resp))))"

subsection \<open>Rules\<close>

definition dns_filter_init :: "dns_filter_config option \<Rightarrow> dns_filter \<Rightarrow> esp_err \<times> dns_filter" where
  "dns_filter_init config f =
     (let c = (case config of
                 None \<Rightarrow> \<lparr> dc_listen_port = 53, dc_upstream_dns_ip = dns_filter_ipv4 8 8 8 8, dc_default_allow = True \<rparr>
               | Some c \<Rightarrow> c);
          c = (if dc_listen_port c = 0 then c \<lparr> dc_listen_port := 53 \<rparr> else c)
      in (ESP_OK, f \<lparr> df_rules := replicate DNS_FILTER_MAX_RULES dns_slot_zero, df_stats := dns_stats_zero,
            df_config := c, df_next_rule_id := 1 \<rparr>))"

definition dns_filter_add_rule ::
  "dns_filter_rule option \<Rightarrow> u32 option \<Rightarrow> dns_filter \<Rightarrow> esp_err \<times> u32 option \<times> dns_filter" where
  "dns_filter_add_rule rule out_rule_id f =
     (case rule of
        None \<Rightarrow> (ESP_ERR_INVALID_ARG, out_rule_id, f)
      | Some r \<Rightarrow>
          (case find_index (\<lambda>s. \<not> drs_in_use s) (df_rules f) of
             None \<Rightarrow> (ESP_ERR_NO_MEM, out_rule_id, f)
           | Some i \<Rightarrow>
               (let (r, next_id) = (if dr_rule_id r = 0
                                    then (r \<lparr> dr_rule_id := df_next_rule_id f \<rparr>, df_next_rule_id f + 1)
                                    else (r, df_next_rule_id f));
                    r = r \<lparr> dr_enabled := True, dr_pattern := str_lower (dr_pattern r) \<rparr>
                in (ESP_OK, map_option (\<lambda>_. dr_rule_id r) out_rule_id,
                    f \<lparr> df_rules := (df_rules f)[i := \<lparr> drs_in_use = True, drs_rule = r \<rparr>],
                        df_next_rule_id := next_id,
                        df_stats := (df_stats f) \<lparr> dst_active_rules := dst_active_rules (df_stats f) + 1 \<rparr> \<rparr>))))"

definition dns_filter_remove_rule :: "u32 \<Rightarrow> dns_filter \<Rightarrow> bool \<times> dns_filter" where
  "dns_filter_remove_rule rule_id f =
     (case find_index (\<lambda>s. drs_in_use s \<and> dr_rule_id (drs_rule s) = rule_id) (df_rules f) of
        None \<Rightarrow> (False, f)
      | Some i \<Rightarrow> (True, f \<lparr> df_rules := (df_rules f)[i := dns_slot_zero],
          df_stats := (df_stats f) \<lparr> dst_active_rules := dec_u32 (dst_active_rules (df_stats f)) \<rparr> \<rparr>))"

definition dns_hit :: "bytes option \<Rightarrow> dns_rule_slot \<Rightarrow> bool" where
  "dns_hit domain s \<longleftrightarrow> drs_in_use s \<and> dr_enabled (drs_rule s) \<and> domain_match (Some (dr_pattern (drs_rule s))) domain"

text \<open>The three outputs (redirect address, risk, reason buffer) may each be \<open>NULL\<close>.\<close>

definition dns_filter_evaluate_domain ::
  "bytes option \<Rightarrow> u32 option \<Rightarrow> u8 option \<Rightarrow> bytes option \<Rightarrow> dns_filter
     \<Rightarrow> dns_filter_action \<times> u32 option \<times> u8 option \<times> bytes option" where
  "dns_filter_evaluate_domain domain out_redirect_ip out_risk_score out_reason f =
     (let fill = (\<lambda>ip risk reason. (map_option (\<lambda>_. ip) out_redirect_ip, map_option (\<lambda>_. risk) out_risk_score,
                    map_option (\<lambda>b. safe_copy b (length b) (Some reason)) out_reason))
      in case best_scan (dns_hit domain) (\<lambda>s. dr_priority (drs_rule s)) (df_rules f) None of
        None \<Rightarrow> (if dc_default_allow (df_config f) then DNS_FILTER_ALLOW else DNS_FILTER_BLOCK,
                 fill 0 0 (lit ''dns_default''))
      | Some s \<Rightarrow> (dr_action (drs_rule s),
                 fill (dr_redirect_ip (drs_rule s)) (dr_risk_score (drs_rule s)) (dr_reason (drs_rule s))))"

subsection \<open>Sockets, queue and tasks\<close>

record 'w dns_api =
  dn_socket :: "'w \<Rightarrow> int \<times> 'w"
  dn_bind :: "int \<Rightarrow> u16 \<Rightarrow> 'w \<Rightarrow> bool \<times> 'w"
  dn_close :: "int \<Rightarrow> 'w \<Rightarrow> 'w"
  dn_sendto :: "int \<Rightarrow> bytes \<Rightarrow> sockaddr \<Rightarrow> 'w \<Rightarrow> (int \<times> int) \<times> 'w"
  dn_recvfrom :: "int \<Rightarrow> nat \<Rightarrow> 'w \<Rightarrow> (bytes \<times> sockaddr) option \<times> 'w"
  dn_queue_create :: "nat \<Rightarrow> 'w \<Rightarrow> nat option \<times> 'w"
  dn_queue_delete :: "nat \<Rightarrow> 'w \<Rightarrow> 'w"
  dn_queue_send :: "nat option \<Rightarrow> dns_job \<Rightarrow> 'w \<Rightarrow> bool \<times> 'w"
  dn_queue_receive :: "nat option \<Rightarrow> 'w \<Rightarrow> dns_job option \<times> 'w"
  dn_task_create :: "string \<Rightarrow> 'w \<Rightarrow> bool \<times> 'w"

text \<open>\<open>dn_sendto\<close> returns the result and \<open>errno\<close>; a failed \<open>recvfrom\<close> is \<open>None\<close>.  The socket options
  that set the timeouts of the upstream socket do not show.\<close>

definition open_upstream_dns_socket :: "'w dns_api \<Rightarrow> dns_filter \<Rightarrow> 'w \<Rightarrow> esp_err \<times> dns_filter \<times> 'w" where
  "open_upstream_dns_socket api f w =
     (if df_upstream_sock f \<ge> 0 then (ESP_OK, f, w)
      else (case dn_socket api w of
          (sock, w) \<Rightarrow> (if sock < 0 then ESP_FAIL else ESP_OK, f \<lparr> df_upstream_sock := sock \<rparr>, w)))"

fun send_upstream :: "'w dns_api \<Rightarrow> nat \<Rightarrow> int \<Rightarrow> bytes \<Rightarrow> sockaddr \<Rightarrow> int \<Rightarrow> 'w \<Rightarrow> int \<times> 'w" where
  "send_upstream api 0 sock query upstream sent w = (sent, w)"
| "send_upstream api (Suc attempts) sock query upstream sent w =
     (case dn_sendto api sock query upstream w of
        ((sent, errno), w) \<Rightarrow>
          if sent \<ge> 0 then (sent, w)
          else if errno = 12 then send_upstream api attempts sock query upstream sent w
          else (sent, w))"

definition forward_dns_to_upstream ::
  "'w dns_api \<Rightarrow> bytes \<Rightarrow> nat \<Rightarrow> dns_filter \<Rightarrow> 'w \<Rightarrow> bytes option \<times> dns_filter \<times> 'w" where
  "forward_dns_to_upstream api query response_size f w =
     (if query = [] \<or> response_size = 0 then (None, f, w)
      else (case open_upstream_dns_socket api f w of
          (err, f, w) \<Rightarrow>
            if err \<noteq> ESP_OK then (None, f, w)
            else (case send_upstream api 3 (df_upstream_sock f) query (dc_upstream_dns_ip (df_config f), 53) (- 1) w of
                (sent, w) \<Rightarrow>
                  if sent < 0
                  then (None, f \<lparr> df_upstream_sock := - 1 \<rparr>, dn_close api (df_upstream_sock f) w)
                  else (case dn_recvfrom api (df_upstream_sock f) response_size w of
                      (None, w) \<Rightarrow> (None, f, w)
                    | (Some (response, from), w) \<Rightarrow> (Some response, f, w)))))"

definition count_error :: "dns_filter \<Rightarrow> dns_filter" where
  "count_error f = f \<lparr> df_stats := (df_stats f) \<lparr> dst_errors := dst_errors (df_stats f) + 1 \<rparr> \<rparr>"

definition dns_worker_task :: "'w dns_api \<Rightarrow> dns_filter \<Rightarrow> 'w \<Rightarrow> dns_filter \<times> 'w" where
  "dns_worker_task api f w =
     (if df_stop f then (f \<lparr> df_workers := df_workers f - 1 \<rparr>, w)
      else (case dn_queue_receive api (df_queue f) w of
          (None, w) \<Rightarrow> (f, w)
        | (Some job, w) \<Rightarrow>
            (case forward_dns_to_upstream api (dj_query job) DNS_BUF_SIZE f w of
               (resp, f, w) \<Rightarrow>
                 if resp \<noteq> None \<and> the resp \<noteq> []
                 then (f \<lparr> df_stats := (df_stats f) \<lparr> dst_allowed := dst_allowed (df_stats f) + 1 \<rparr> \<rparr>,
                       snd (dn_sendto api (df_sock f) (the resp) (dj_client_addr job) w))
                 else (count_error f, w))))"

text \<open>\<open>snprintf(ev.reason, sizeof(ev.reason), "%.15s:%.31s", reason, domain)\<close>\<close>

definition dns_event :: "zg_event_type \<Rightarrow> u32 \<Rightarrow> u8 \<Rightarrow> bytes \<Rightarrow> bytes \<Rightarrow> zg_event" where
  "dns_event ty src_ip risk reason domain = zg_event_zero \<lparr> ev_type := ty, ev_src_ip := src_ip, ev_risk_score := risk,
     ev_reason := event_reason (take 15 (cstr reason) @ [58] @ take 31 (cstr domain)) \<rparr>"

definition dns_reply ::
  "'w dns_api \<Rightarrow> bytes \<Rightarrow> bytes \<Rightarrow> u32 \<Rightarrow> sockaddr \<Rightarrow> dns_filter \<Rightarrow> 'w \<Rightarrow> 'w" where
  "dns_reply api buf resp ip src f w =
     (case build_a_response buf resp ip of
        (Some rlen, resp) \<Rightarrow> snd (dn_sendto api (df_sock f) (take rlen resp) src w)
      | (None, _) \<Rightarrow> w)"

text \<open>One round of the listening task; \<open>domain0\<close>, \<open>reason0\<close> and \<open>resp0\<close> are the contents its stack
  buffers happen to have.\<close>

definition dns_task ::
  "'w dns_api \<Rightarrow> bytes \<Rightarrow> bytes \<Rightarrow> bytes \<Rightarrow> dns_filter \<Rightarrow> 'w \<Rightarrow> zg_event list \<times> dns_filter \<times> 'w" where
  "dns_task api domain0 reason0 resp0 f w =
     (if df_stop f then ([], f \<lparr> df_tasks := df_tasks f - 1 \<rparr>, w)
      else (case dn_recvfrom api (df_sock f) DNS_BUF_SIZE w of
          (None, w) \<Rightarrow> ([], f, w)
        | (Some (buf, src), w) \<Rightarrow>
            if buf = [] then ([], f, w)
            else (case parse_dns_qname buf domain0 of
                (ok, domain) \<Rightarrow>
                  if \<not> ok then ([], count_error f, w)
                  else (let f = f \<lparr> df_stats := (df_stats f) \<lparr> dst_queries := dst_queries (df_stats f) + 1 \<rparr> \<rparr>;
                            (action, redirect, risk_score, reason_text) =
                              dns_filter_evaluate_domain (Some domain) (Some 0) (Some 0) (Some reason0) f;
                            redirect_ip = the redirect; risk = the risk_score; reason = the reason_text
                    in if action = DNS_FILTER_BLOCK
                       then ([dns_event ZG_EVENT_DNS_BLOCKED (fst src) risk reason domain],
                             f \<lparr> df_stats := (df_stats f) \<lparr> dst_blocked := dst_blocked (df_stats f) + 1 \<rparr> \<rparr>,
                             dns_reply api buf resp0 0 src f w)
                       else if action = DNS_FILTER_REDIRECT
                       then ([dns_event ZG_EVENT_DNS_QUERY (fst src) risk reason domain],
                             f \<lparr> df_stats := (df_stats f) \<lparr> dst_redirected := dst_redirected (df_stats f) + 1 \<rparr> \<rparr>,
                             dns_reply api buf resp0 redirect_ip src f w)
                       else (let job = \<lparr> dj_query = buf, dj_client_addr = src,
                                         dj_domain = (strncpy (replicate DNS_FILTER_DOMAIN_LEN 0) domain 127)[127 := 0],
                                         dj_risk = risk \<rparr>
                             in case dn_queue_send api (df_queue f) job w of
                                  (sent, w) \<Rightarrow> ([], if sent then f else count_error f, w))))))"

definition dns_filter_start :: "'w dns_api \<Rightarrow> dns_filter \<Rightarrow> 'w \<Rightarrow> esp_err \<times> dns_filter \<times> 'w" where
  "dns_filter_start api f w =
     (if df_running f then (ESP_OK, f, w)
      else (let f = f \<lparr> df_stop := False \<rparr> in
        case dn_socket api w of
          (sock, w) \<Rightarrow>
            (let f = f \<lparr> df_sock := sock \<rparr> in
             if sock < 0 then (ESP_FAIL, f, w)
             else (case dn_bind api sock (dc_listen_port (df_config f)) w of
               (bound, w) \<Rightarrow>
                 if \<not> bound then (ESP_FAIL, f \<lparr> df_sock := - 1 \<rparr>, dn_close api sock w)
                 else (case dn_queue_create api DNS_JOB_QUEUE_LEN w of
                   (None, w) \<Rightarrow> (ESP_ERR_NO_MEM, f \<lparr> df_queue := None, df_sock := - 1 \<rparr>, dn_close api sock w)
                 | (Some q, w) \<Rightarrow>
                     (case dn_task_create api ''dns_worker'' w of
                        (created, w) \<Rightarrow>
                          if \<not> created
                          then (ESP_ERR_NO_MEM, f \<lparr> df_queue := None, df_sock := - 1 \<rparr>,
                                dn_close api sock (dn_queue_delete api q w))
                          else (let f = f \<lparr> df_workers := df_workers f + 1 \<rparr> in
                            case dn_task_create api ''dns_filter'' w of
                              (created, w) \<Rightarrow>
                                if \<not> created
                                then (ESP_ERR_NO_MEM, f \<lparr> df_stop := True, df_queue := None, df_sock := - 1 \<rparr>,
                                      dn_close api sock (dn_queue_delete api q w))
                                else (ESP_OK, f \<lparr> df_queue := Some q, df_tasks := df_tasks f + 1,
                                        df_running := True \<rparr>, w))))))))"

definition dns_filter_stop :: "'w dns_api \<Rightarrow> dns_filter \<Rightarrow> 'w \<Rightarrow> esp_err \<times> dns_filter \<times> 'w" where
  "dns_filter_stop api f w =
     (if \<not> df_running f then (ESP_OK, f, w)
      else (let f = f \<lparr> df_stop := True \<rparr>;
                (f, w) = (if df_upstream_sock f \<ge> 0
                          then (f \<lparr> df_upstream_sock := - 1 \<rparr>, dn_close api (df_upstream_sock f) w) else (f, w));
                (f, w) = (if df_sock f \<ge> 0 then (f \<lparr> df_sock := - 1 \<rparr>, dn_close api (df_sock f) w) else (f, w));
                (f, w) = (case df_queue f of
                            Some q \<Rightarrow> (f \<lparr> df_queue := None \<rparr>, dn_queue_delete api q w) | None \<Rightarrow> (f, w))
            in (ESP_OK, f \<lparr> df_running := False \<rparr>, w)))"

definition dns_filter_get_stats :: "dns_filter \<Rightarrow> dns_filter_stats" where
  "dns_filter_get_stats f = df_stats f"

subsection \<open>The name in a query\<close>

text \<open>A name on the wire is its labels, each after its length, and a zero byte; its text joins the labels
  with dots.\<close>

definition label_ok :: "bytes \<Rightarrow> bool" where
  "label_ok l \<longleftrightarrow> l \<noteq> [] \<and> length l \<le> 63 \<and> 0 \<notin> set l"

definition qname_bytes :: "bytes list \<Rightarrow> bytes" where
  "qname_bytes labels = concat (map (\<lambda>l. of_nat (length l) # l) labels) @ [0]"

primrec joined :: "bool \<Rightarrow> bytes list \<Rightarrow> bytes" where
  "joined started [] = []"
| "joined started (l # ls) = (if started then [46] else []) @ l @ joined True ls"

abbreviation qname_text :: "bytes list \<Rightarrow> bytes" where
  "qname_text labels \<equiv> joined False labels"

lemma qname_bytes_simps [simp]:
  "qname_bytes [] = [0]" "qname_bytes (l # ls) = of_nat (length l) # l @ qname_bytes ls"
  by (simp_all add: qname_bytes_def)

lemma low_label: "n < 64 \<Longrightarrow> (of_nat n :: u8) AND 0xC0 = 0"
proof -
  assume "n < 64"
  then have "n \<in> set [0..<64]" by simp
  then show ?thesis by (simp add: upt_rec) (elim disjE; simp)
qed

lemma label_len:
  assumes "label_ok l"
  shows "(of_nat (length l) :: u8) \<noteq> 0" "(of_nat (length l) :: u8) AND 0xC0 = 0" "unat (of_nat (length l) :: u8) = length l"
proof -
  show u: "unat (of_nat (length l) :: u8) = length l" using assms by (simp add: label_ok_def unat_of_nat)
  show "(of_nat (length l) :: u8) AND 0xC0 = 0" using assms by (simp add: label_ok_def low_label)
  show "(of_nat (length l) :: u8) \<noteq> 0" using u assms by (auto simp: label_ok_def)
qed

lemma copy_label_all:
  "pos + k \<le> length buf \<Longrightarrow> off + k \<le> cap \<Longrightarrow> cap < length out \<Longrightarrow>
     copy_label buf k cap pos off out = (pos + k, off + k, take off out @ take k (drop pos buf) @ drop (off + k) out)"
proof (induction k arbitrary: pos off out)
  case 0
  then show ?case by simp
next
  case (Suc k)
  have "drop pos buf = rd buf pos # drop (Suc pos) buf"
    using Suc.prems(1) by (simp add: rd_def Cons_nth_drop_Suc)
  moreover have "take (Suc off) (out[off := c]) = take off out @ [c]" for c
    using Suc.prems by (simp add: take_Suc_conv_app_nth)
  ultimately show ?case using Suc by simp
qed

lemma rd_drop: "drop pos buf = c # rest \<Longrightarrow> pos < length buf \<and> rd buf pos = c \<and> drop (Suc pos) buf = rest"
  by (metis drop_eq_Nil2 list.distinct(1) list.inject not_le rd_def Cons_nth_drop_Suc)

lemma qname_loop_labels:
  "drop pos buf = qname_bytes labels @ rest \<Longrightarrow> list_all label_ok labels \<Longrightarrow>
     off + length (joined (0 < off) labels) \<le> cap \<Longrightarrow> cap < length out \<Longrightarrow>
     \<exists>out'. qname_loop buf cap pos off out = (True, off + length (joined (0 < off) labels), out') \<and>
       take (off + length (joined (0 < off) labels)) out' = take off out @ joined (0 < off) labels \<and>
       length out' = length out"
proof (induction labels arbitrary: pos off out)
  case Nil
  then show ?case using rd_drop[of pos buf 0 rest] by (simp add: qname_loop.simps[of buf])
next
  case (Cons l ls)
  note l = label_len[of l]
  from Cons.prems(2) have ok: "label_ok l" "list_all label_ok ls" by simp_all
  have d: "pos < length buf" "rd buf pos = of_nat (length l)" "drop (Suc pos) buf = l @ qname_bytes ls @ rest"
    using rd_drop[of pos buf "of_nat (length l)" "l @ qname_bytes ls @ rest"] Cons.prems(1) by simp_all
  from arg_cong[OF d(3), of length] d(1) have len: "Suc pos + length l \<le> length buf" by simp
  define off1 where "off1 = (if 0 < off then Suc off else off)"
  define out1 where "out1 = (if 0 < off then out[off := 46] else out)"
  have off1: "off1 + length l \<le> cap" "length out1 = length out"
    "take off1 out1 = take off out @ (if 0 < off then [46] else [])"
    using Cons.prems(3,4) by (simp_all add: off1_def out1_def take_Suc_conv_app_nth split: if_splits)
  define out2 where "out2 = take off1 out1 @ l @ drop (off1 + length l) out1"
  have copy: "copy_label buf (length l) cap (Suc pos) off1 out1 = (Suc pos + length l, off1 + length l, out2)"
    using copy_label_all[OF len off1(1), of out1] Cons.prems(4) off1(2) by (simp add: out2_def d(3))
  have pair: "(if 0 < off \<and> off < cap then (Suc off, out[off := 46]) else (off, out)) = (off1, out1)"
    using Cons.prems(3) ok(1) by (auto simp: off1_def out1_def label_ok_def split: if_splits)
  have step: "qname_loop buf cap pos off out = qname_loop buf cap (Suc pos + length l) (off1 + length l) out2"
    using d len l[OF ok(1)] pair copy by (subst qname_loop.simps) (simp add: Let_def)
  have o2: "length out2 = length out" "take (off1 + length l) out2 = take off1 out1 @ l" "0 < off1 + length l"
    using off1(1,2) Cons.prems(4) ok(1) by (auto simp: out2_def label_ok_def)
  have "drop (Suc pos + length l) buf = qname_bytes ls @ rest"
    using arg_cong[OF d(3), of "drop (length l)"] by (simp add: add.commute)
  from Cons.IH[OF this ok(2), of "off1 + length l" out2] o2 Cons.prems(3,4)
  obtain out' where "qname_loop buf cap (Suc pos + length l) (off1 + length l) out2 =
      (True, off1 + length l + length (joined True ls), out')"
    "take (off1 + length l + length (joined True ls)) out' = take off1 out1 @ l @ joined True ls" "length out' = length out"
    by (auto simp: off1_def split: if_splits)
  with step off1(3) show ?case
    by (intro exI[of _ out']) (auto simp: off1_def add.assoc split: if_splits)
qed

lemma tolower_nonzero [simp]: "tolower c = 0 \<longleftrightarrow> c = 0"
proof -
  have "c + 32 \<noteq> 0" if "c \<le> 90" for c :: u8
  proof
    assume "c + 32 = 0"
    then have "c = - 32" by (simp add: eq_neg_iff_add_eq_0)
    with that show False by simp
  qed
  then show ?thesis by (auto simp: tolower_def)
qed

lemma cstr_str_lower [simp]: "cstr (str_lower s) = map tolower (cstr s)"
proof (induction s)
  case Nil
  then show ?case by (simp add: str_lower_def)
next
  case (Cons c s)
  then show ?case by (simp add: str_lower_def)
qed

lemma cstr_update_nul:
  assumes "take n s = t" "n < length s" "0 \<notin> set t"
  shows "cstr (s[n := 0]) = t"
proof -
  have "s[n := 0] = t @ 0 # drop (Suc n) s" using assms(1,2) by (simp add: upd_conv_take_nth_drop)
  then show ?thesis using assms(3) by (simp add: cstr_append_clean)
qed

lemma joined_no_nul: "list_all label_ok labels \<Longrightarrow> 0 \<notin> set (joined b labels)"
  by (induction labels arbitrary: b) (auto simp: label_ok_def)

lemma joined_pos: "list_all label_ok labels \<Longrightarrow> labels \<noteq> [] \<Longrightarrow> joined b labels \<noteq> []"
  by (cases labels) (auto simp: label_ok_def)

lemma parse_query:
  assumes "length hdr = 12" "list_all label_ok labels" "labels \<noteq> []" "length (qname_text labels) < length out"
  shows "\<exists>domain. parse_dns_qname (hdr @ qname_bytes labels @ rest) out = (True, domain) \<and>
    cstr domain = map tolower (qname_text labels)"
proof -
  let ?buf = "hdr @ qname_bytes labels @ rest" and ?n = "length (qname_text labels)"
  have c: "?n \<le> length out - 1" "length out - 1 < length out" using assms(4) by linarith+
  obtain out' where o: "qname_loop ?buf (length out - 1) 12 0 out = (True, ?n, out')" "take ?n out' = qname_text labels"
      "length out' = length out"
    using qname_loop_labels[of 12 ?buf labels rest 0 "length out - 1" out] assms(1,2) c by auto
  have "cstr (out'[?n := 0]) = qname_text labels"
    using o(2,3) assms(4) joined_no_nul[OF assms(2)] by (intro cstr_update_nul) simp_all
  with o joined_pos[OF assms(2,3), of False] assms show ?thesis by (auto simp: parse_dns_qname_def)
qed

lemma find_qname_end_labels:
  "drop pos buf = qname_bytes labels @ rest \<Longrightarrow> list_all label_ok labels \<Longrightarrow>
     find_qname_end buf pos = Some (pos + length (qname_bytes labels))"
proof (induction labels arbitrary: pos)
  case Nil
  then show ?case using rd_drop[of pos buf 0 rest] by (simp add: find_qname_end.simps[of buf])
next
  case (Cons l ls)
  from Cons.prems(2) have ok: "label_ok l" "list_all label_ok ls" by simp_all
  have d: "pos < length buf" "rd buf pos = of_nat (length l)" "drop (Suc pos) buf = l @ qname_bytes ls @ rest"
    using rd_drop[of pos buf "of_nat (length l)" "l @ qname_bytes ls @ rest"] Cons.prems(1) by simp_all
  have "drop (Suc pos + length l) buf = qname_bytes ls @ rest"
    using arg_cong[OF d(3), of "drop (length l)"] by (simp add: add.commute)
  from Cons.IH[OF this ok(2)] d(1,2) label_len[OF ok(1)] show ?case
    by (subst find_qname_end.simps) (simp add: Let_def)
qed

text \<open>The answer record: the name by a pointer to the question, type A, class IN, one minute, the address.\<close>

definition a_record :: "u32 \<Rightarrow> bytes" where
  "a_record ip = [0xC0, 0x0C, 0x00, 0x01, 0x00, 0x01, 0x00, 0x00, 0x00, 0x3C, 0x00, 0x04] @ be32 ip"

lemma build_response:
  assumes "length hdr = 12" "list_all label_ok labels" "length qtc = 4"
    and "length (hdr @ qname_bytes labels @ qtc @ extra) + 16 \<le> length resp"
  shows "\<exists>resp'. build_a_response (hdr @ qname_bytes labels @ qtc @ extra) resp ip =
      (Some (length (qname_bytes labels) + 32), resp') \<and>
    take (length (qname_bytes labels) + 32) resp' =
      hdr[2 := 0x81, 3 := 0x80, 6 := 0, 7 := 1] @ qname_bytes labels @ qtc @ a_record ip"
proof -
  let ?q = "hdr @ qname_bytes labels @ qtc @ extra" and ?n = "length (qname_bytes labels)"
  have e: "find_qname_end ?q 12 = Some (12 + ?n)"
    using assms(1,2) by (intro find_qname_end_labels[where rest = "qtc @ extra"]) simp_all
  have upd: "(take (16 + ?n) ?q @ r)[2 := 0x81, 3 := 0x80, 6 := 0, 7 := 1] =
      hdr[2 := 0x81, 3 := 0x80, 6 := 0, 7 := 1] @ qname_bytes labels @ qtc @ r" for r :: bytes
    using assms(1,3) by (simp add: list_update_append)
  show ?thesis
    using e assms upd[of "drop (16 + ?n) resp"]
    by (auto simp: build_a_response_def Let_def a_record_def be32_def add.commute)
qed

subsection \<open>What the filter guarantees\<close>

lemma dns_evaluate_cong: "cstr d = cstr d' \<Longrightarrow> dns_filter_evaluate_domain (Some d) a b c f = dns_filter_evaluate_domain (Some d') a b c f"
proof -
  assume "cstr d = cstr d'"
  then have "dns_hit (Some d) = dns_hit (Some d')"
    by (simp add: fun_eq_iff dns_hit_def domain_match_def strlen_def Let_def)
  then show ?thesis by (simp add: dns_filter_evaluate_domain_def)
qed

lemma dns_evaluate_stats [simp]:
  "dns_filter_evaluate_domain d a b c (f \<lparr> df_stats := st \<rparr>) = dns_filter_evaluate_domain d a b c f"
  by (simp add: dns_filter_evaluate_domain_def)

text \<open>The queried name reaches the rules as it was sent.  For a query whose name has labels of 1 to 63
  non-zero bytes and at most 127 characters, the parser succeeds, stays in its buffer and yields the
  labels joined with dots in lower case, whatever the buffer held and whatever follows the name.\<close>

theorem dns_qname_round_trip:
  assumes "length hdr = 12" and "list_all label_ok labels" and "labels \<noteq> []"
    and "length (qname_text labels) \<le> 127" and "length out = DNS_FILTER_DOMAIN_LEN"
  shows "\<exists>domain. parse_dns_qname (hdr @ qname_bytes labels @ rest) out = (True, domain) \<and>
    cstr domain = map tolower (qname_text labels)"
  using parse_query[OF assms(1-3), of out rest] assms(4,5) by simp

text \<open>A filtered name is answered by the guardian and goes no further.  When the rules block or redirect
  the name of a well-formed query that leaves room for the answer, the round sends the client one
  datagram and does nothing else to the network or the job queue: the query with its id and question,
  the answer flags, one answer, and as that answer the address 0.0.0.0 for a blocked name and the
  address of the rule for a redirected one; the counter of that outcome rises by one and the event is
  published.\<close>

theorem dns_filtered_query_answered_locally:
  assumes "\<not> df_stop f"
    and "dn_recvfrom api (df_sock f) DNS_BUF_SIZE w = (Some (hdr @ qname_bytes labels @ qtc @ extra, src), w1)"
    and "length hdr = 12" and "list_all label_ok labels" and "labels \<noteq> []" and "length qtc = 4"
    and "length (qname_text labels) \<le> 127" and "length (hdr @ qname_bytes labels @ qtc @ extra) \<le> 496"
    and "length domain0 = DNS_FILTER_DOMAIN_LEN" and "length resp0 = DNS_BUF_SIZE"
    and "dns_filter_evaluate_domain (Some (map tolower (qname_text labels))) (Some 0) (Some 0) (Some reason0) f =
      (action, Some redirect, Some risk, Some reason)"
    and "action = DNS_FILTER_BLOCK \<or> action = DNS_FILTER_REDIRECT"
  shows "\<exists>ev f'. dns_task api domain0 reason0 resp0 f w = ([ev], f',
      snd (dn_sendto api (df_sock f)
        (hdr[2 := 0x81, 3 := 0x80, 6 := 0, 7 := 1] @ qname_bytes labels @ qtc
          @ a_record (if action = DNS_FILTER_BLOCK then 0 else redirect)) src w1)) \<and>
    ev_type ev = (if action = DNS_FILTER_BLOCK then ZG_EVENT_DNS_BLOCKED else ZG_EVENT_DNS_QUERY) \<and>
    ev_src_ip ev = fst src \<and>
    f' = f \<lparr> df_stats := (let st = (df_stats f) \<lparr> dst_queries := dst_queries (df_stats f) + 1 \<rparr> in
      if action = DNS_FILTER_BLOCK then st \<lparr> dst_blocked := dst_blocked st + 1 \<rparr>
      else st \<lparr> dst_redirected := dst_redirected st + 1 \<rparr>) \<rparr>"
proof -
  let ?q = "hdr @ qname_bytes labels @ qtc @ extra" and ?ip = "if action = DNS_FILTER_BLOCK then 0 else redirect"
  obtain domain where dom: "parse_dns_qname ?q domain0 = (True, domain)" "cstr domain = map tolower (qname_text labels)"
    using parse_query[OF assms(3-5), of domain0 "qtc @ extra"] assms(7,9) by auto
  have clean: "cstr (map tolower (qname_text labels)) = map tolower (qname_text labels)"
    using dom(2) by (metis cstr_idem)
  have ev: "dns_filter_evaluate_domain (Some domain) (Some 0) (Some 0) (Some reason0) f =
      (action, Some redirect, Some risk, Some reason)"
    using dns_evaluate_cong[of domain "map tolower (qname_text labels)"] dom(2) clean assms(11) by simp
  have "length ?q + 16 \<le> length resp0" using assms(8,10) by simp
  note resp = build_response[OF assms(3,4,6) this]
  have reply: "dns_reply api ?q resp0 ip src g w1 = snd (dn_sendto api (df_sock g)
      (hdr[2 := 0x81, 3 := 0x80, 6 := 0, 7 := 1] @ qname_bytes labels @ qtc @ a_record ip) src w1)" for ip g
    using resp[of ip] by (auto simp: dns_reply_def)
  show ?thesis using assms(1,2,3,12) dom(1) ev
    by (auto simp: dns_task_def reply Let_def dns_event_def)
qed

text \<open>The evaluation of a name is decided by the matching rule of greatest priority, the one in the last
  slot when several share it, and by the configured default when no rule matches.\<close>

theorem dns_evaluate_best_rule:
  "(\<exists>xs s ys. df_rules f = xs @ s # ys \<and> dns_hit domain s
      \<and> (\<forall>r\<in>set xs. dns_hit domain r \<longrightarrow> dr_priority (drs_rule r) \<le> dr_priority (drs_rule s))
      \<and> (\<forall>r\<in>set ys. dns_hit domain r \<longrightarrow> dr_priority (drs_rule r) < dr_priority (drs_rule s))
      \<and> fst (dns_filter_evaluate_domain domain a b c f) = dr_action (drs_rule s))
   \<or> ((\<forall>s\<in>set (df_rules f). \<not> dns_hit domain s)
      \<and> fst (dns_filter_evaluate_domain domain a b c f) =
          (if dc_default_allow (df_config f) then DNS_FILTER_ALLOW else DNS_FILTER_BLOCK))"
proof (cases "best_scan (dns_hit domain) (\<lambda>s. dr_priority (drs_rule s)) (df_rules f) None")
  case None
  then have "\<forall>s\<in>set (df_rules f). \<not> dns_hit domain s" by (simp add: best_scan_None_iff)
  with None show ?thesis by (simp add: dns_filter_evaluate_domain_def Let_def)
next
  case (Some s)
  then have "fst (dns_filter_evaluate_domain domain a b c f) = dr_action (drs_rule s)"
    by (simp add: dns_filter_evaluate_domain_def Let_def)
  with best_scan_split[OF Some] show ?thesis by blast
qed

text \<open>A zero byte hides a name from the rules.  The parser accepts label bytes of any value and the rules
  see the name as a C string, so a query whose first label starts with a zero byte is judged as the
  empty name, to which no rule but the single star applies: a name below a blocked domain is queued
  for the upstream server, with the zero byte in it.\<close>

theorem dns_zero_byte_hides_name:
  assumes "\<not> df_stop f"
    and "dn_recvfrom api (df_sock f) DNS_BUF_SIZE w = (Some (query, src), w1)"
    and "parse_dns_qname query domain0 = (True, domain)" and "rd domain 0 = 0"
    and "\<And>s. s \<in> set (df_rules f) \<Longrightarrow> cstr (dr_pattern (drs_rule s)) \<noteq> lit ''*''" and "dc_default_allow (df_config f)"
  shows "\<exists>job f' events. dj_query job = query \<and> dj_client_addr job = src \<and>
    dns_task api domain0 reason0 resp0 f w = (events, f', snd (dn_queue_send api (df_queue f) job w1))"
proof -
  have e: "cstr domain = []" using assms(4) by (cases domain) (auto simp: rd_def)
  have "\<not> dns_hit (Some domain) s" if "s \<in> set (df_rules f)" for s
  proof -
    have "cstr (tl p) \<noteq> []" if "rd p 0 = 42" "cstr p \<noteq> lit ''*''" for p
      using that by (cases p) (auto simp: lit_def rd_def)
    with assms(5)[OF that] show ?thesis
      by (cases "dr_pattern (drs_rule s)") (auto simp: dns_hit_def domain_match_def e strlen_def lit_def Let_def)
  qed
  then have "best_scan (dns_hit (Some domain)) (\<lambda>s. dr_priority (drs_rule s)) (df_rules f) None = None"
    by (simp add: best_scan_None_iff)
  then have ev: "fst (dns_filter_evaluate_domain (Some domain) a b c f) = DNS_FILTER_ALLOW" for a b c
    using assms(6) by (simp add: dns_filter_evaluate_domain_def Let_def)
  have "query \<noteq> []" using assms(3) by (auto simp: parse_dns_qname_def)
  with assms(1-3) ev show ?thesis
    by (intro exI[of _ "\<lparr> dj_query = query, dj_client_addr = src,
        dj_domain = (strncpy (replicate DNS_FILTER_DOMAIN_LEN 0) domain 127)[127 := 0],
        dj_risk = the (fst (snd (snd (dns_filter_evaluate_domain (Some domain) (Some 0) (Some 0) (Some reason0) f)))) \<rparr>"])
      (auto simp: dns_task_def Let_def case_prod_beta)
qed

subsection \<open>A filter to query\<close>

text \<open>A world of one datagram to receive, the datagrams sent and the jobs queued.\<close>

record dns_world =
  dw_inbox :: "(bytes \<times> sockaddr) option"
  dw_sent :: "(bytes \<times> sockaddr) list"
  dw_jobs :: "dns_job list"

definition dns_sample_api :: "dns_world dns_api" where
  "dns_sample_api = \<lparr> dn_socket = (\<lambda>w. (3, w)), dn_bind = (\<lambda>_ _ w. (True, w)), dn_close = (\<lambda>_ w. w),
     dn_sendto = (\<lambda>_ m a w. ((int (length m), 0), w \<lparr> dw_sent := dw_sent w @ [(m, a)] \<rparr>)),
     dn_recvfrom = (\<lambda>_ _ w. (dw_inbox w, w \<lparr> dw_inbox := None \<rparr>)),
     dn_queue_create = (\<lambda>_ w. (Some 1, w)), dn_queue_delete = (\<lambda>_ w. w),
     dn_queue_send = (\<lambda>_ j w. (True, w \<lparr> dw_jobs := dw_jobs w @ [j] \<rparr>)), dn_queue_receive = (\<lambda>_ w. (None, w)),
     dn_task_create = (\<lambda>_ w. (True, w)) \<rparr>"

definition dns_block_rule :: dns_filter_rule where
  "dns_block_rule = dns_rule_zero \<lparr> dr_priority := 10, dr_pattern := lit ''*.Evil.com'', dr_action := DNS_FILTER_BLOCK \<rparr>"

definition dns_boot :: dns_filter where
  "dns_boot = \<lparr> df_upstream_sock = - 1, df_rules = [], df_config = \<lparr> dc_listen_port = 0, dc_upstream_dns_ip = 0, dc_default_allow = False \<rparr>,
     df_stats = dns_stats_zero, df_next_rule_id = 1, df_sock = - 1, df_queue = None, df_tasks = 0, df_workers = 0,
     df_running = False, df_stop = False \<rparr>"

definition dns_sample :: dns_filter where
  "dns_sample = snd (snd (dns_filter_add_rule (Some dns_block_rule) None (snd (dns_filter_init None dns_boot))))"

definition dns_sample_slot :: dns_rule_slot where
  "dns_sample_slot = \<lparr> drs_in_use = True, drs_rule = dns_block_rule
     \<lparr> dr_rule_id := 1, dr_enabled := True, dr_pattern := lit ''*.evil.com'' \<rparr> \<rparr>"

lemma dns_sample_facts:
  "df_rules dns_sample = dns_sample_slot # replicate 31 dns_slot_zero" "\<not> df_stop dns_sample" "df_sock dns_sample = - 1"
  "dc_default_allow (df_config dns_sample)"
  by (simp_all add: dns_sample_def dns_filter_add_rule_def dns_filter_init_def dns_boot_def dns_block_rule_def dns_rule_zero_def
      dns_slot_zero_def dns_sample_slot_def Let_def str_lower_def tolower_def lit_def replicate_Suc[of 31, simplified])

definition dns_labels :: "bytes list" where
  "dns_labels = [lit ''WWW'', lit ''evil'', lit ''com'']"

lemma dns_labels_ok: "list_all label_ok dns_labels" "dns_labels \<noteq> []" "length (qname_text dns_labels) \<le> 127"
  by (simp_all add: dns_labels_def label_ok_def lit_def)

lemma dns_sample_evaluate:
  "dns_filter_evaluate_domain (Some (map tolower (qname_text dns_labels))) (Some 0) (Some 0) (Some (replicate 48 0)) dns_sample
     = (DNS_FILTER_BLOCK, Some 0, Some 0, Some (safe_copy (replicate 48 0) 48 (Some (replicate 48 0))))"
proof -
  have "dns_hit (Some (map tolower (qname_text dns_labels))) dns_sample_slot"
    by (simp add: dns_hit_def dns_sample_slot_def domain_match_def dns_labels_def tolower_def lit_def strlen_def Let_def
        dns_block_rule_def)
  moreover have "best_scan P q (replicate n s) b = b" if "\<not> P s" for P :: "dns_rule_slot \<Rightarrow> bool" and q :: "dns_rule_slot \<Rightarrow> u16" and n s b
    using that by (induction n) auto
  moreover have "\<not> dns_hit d dns_slot_zero" for d by (simp add: dns_hit_def dns_slot_zero_def)
  ultimately show ?thesis
    by (simp add: dns_filter_evaluate_domain_def dns_sample_facts Let_def)
      (simp add: dns_sample_slot_def dns_block_rule_def dns_rule_zero_def)
qed

theorem dns_qname_round_trip_witness:
  "\<exists>domain. parse_dns_qname (replicate 12 0 @ qname_bytes dns_labels @ [0, 1, 0, 1]) (replicate 128 7) = (True, domain) \<and>
    cstr domain = map tolower (qname_text dns_labels)"
  by (rule dns_qname_round_trip) (simp_all add: dns_labels_ok)

definition dns_sample_world :: "bytes \<Rightarrow> dns_world" where
  "dns_sample_world query = \<lparr> dw_inbox = Some (query, (0xC0A80402, 4000)), dw_sent = [], dw_jobs = [] \<rparr>"

theorem dns_filtered_query_answered_locally_witness:
  "dw_jobs (snd (snd (dns_task dns_sample_api (replicate 128 0) (replicate 48 0) (replicate 512 0) dns_sample
     (dns_sample_world (replicate 12 0 @ qname_bytes dns_labels @ [0, 1, 0, 1] @ []))))) = []"
proof -
  let ?q = "replicate 12 0 @ qname_bytes dns_labels @ [0, 1, 0, 1] @ []"
  have "dn_recvfrom dns_sample_api (df_sock dns_sample) DNS_BUF_SIZE (dns_sample_world ?q) =
      (Some (?q, (0xC0A80402, 4000)), (dns_sample_world ?q) \<lparr> dw_inbox := None \<rparr>)"
    by (simp add: dns_sample_api_def dns_sample_world_def)
  from dns_filtered_query_answered_locally[OF dns_sample_facts(2) this _ dns_labels_ok(1,2) _ dns_labels_ok(3) _ _ _ dns_sample_evaluate,
      of "replicate 128 0" "replicate 512 0"]
  show ?thesis by (auto simp: dns_labels_def lit_def) (auto simp: dns_sample_api_def dns_sample_world_def)
qed

definition dns_hidden_query :: bytes where
  "dns_hidden_query = replicate 12 0 @ [2, 0, 120] @ qname_bytes [lit ''evil'', lit ''com''] @ [0, 1, 0, 1]"

lemma dns_hidden_parse_ok: "fst (parse_dns_qname dns_hidden_query (replicate 128 7))"
  by code_simp

lemma dns_hidden_parse: "parse_dns_qname dns_hidden_query (replicate 128 7) =
    (True, snd (parse_dns_qname dns_hidden_query (replicate 128 7)))"
  using dns_hidden_parse_ok by (simp add: prod_eq_iff)

lemma dns_hidden_empty: "rd (snd (parse_dns_qname dns_hidden_query (replicate 128 7))) 0 = 0"
  by code_simp

theorem dns_zero_byte_hides_name_witness:
  "\<exists>job f' events. dj_query job = dns_hidden_query \<and>
    dns_task dns_sample_api (replicate 128 7) (replicate 48 0) (replicate 512 0) dns_sample (dns_sample_world dns_hidden_query) =
      (events, f', snd (dn_queue_send dns_sample_api (df_queue dns_sample) job
         ((dns_sample_world dns_hidden_query) \<lparr> dw_inbox := None \<rparr>)))"
proof -
  have r: "dn_recvfrom dns_sample_api (df_sock dns_sample) DNS_BUF_SIZE (dns_sample_world dns_hidden_query) =
      (Some (dns_hidden_query, (0xC0A80402, 4000)), (dns_sample_world dns_hidden_query) \<lparr> dw_inbox := None \<rparr>)"
    by (simp add: dns_sample_api_def dns_sample_world_def)
  have "s \<in> set (df_rules dns_sample) \<Longrightarrow> cstr (dr_pattern (drs_rule s)) \<noteq> lit ''*''" for s
    using cstr_replicate_0[of 128 "[]"]
    by (auto simp: dns_sample_facts dns_sample_slot_def dns_slot_zero_def dns_rule_zero_def lit_def)
  from dns_zero_byte_hides_name[OF dns_sample_facts(2) r dns_hidden_parse dns_hidden_empty this dns_sample_facts(4)]
  show ?thesis by blast
qed

end
