(* ===== verification/Spec2Isabelle.thy ===== *)
theory Spec2Isabelle
  imports Zone_Firewall Cortex_Pipeline G2g_Ble Zone_Gateway Setup_Ap Setup_Button Dns_Filter
begin

text \<open>
  Verification of the BlindNet Guardian firmware.
\<close>

end
